(* ===== verification/Stroem_Prelude.thy ===== *)
theory Stroem_Prelude
  imports Main "HOL-Library.Word" "HOL-Library.DAList"
begin

text \<open>
  What the components of stroemnet share: the machine integers of Rust with the
  saturating and checked operations the code calls, \<open>Result\<close> as a sum type, the hash maps
  (\<open>AHashMap\<close>), and the string functions of the standard library that the code relies on
  (decimal parsing and printing, \<open>str::trim\<close>, \<open>str::to_lowercase\<close>).

  Plain \<open>+\<close>, \<open>-\<close> and \<open>*\<close> of Rust are the wrapping operations of \<^typ>\<open>'a word\<close>: the
  behaviour of the release build the README describes.
\<close>

named_theorems rust_arith \<open>values of the saturating and checked word operations\<close>
named_theorems result_simps \<open>rewriting and inverting computations in \<open>Result\<close>\<close>
named_theorems hm_simps \<open>lookups after the operations of a hash map\<close>

section \<open>Machine integers\<close>

type_synonym u8 = "8 word"
type_synonym u16 = "16 word"
type_synonym u32 = "32 word"
type_synonym u64 = "64 word"
type_synonym u128 = "128 word"
type_synonym u256 = "256 word"
type_synonym bytes = "u8 list"

definition saturating_add :: "'a::len word \<Rightarrow> 'a word \<Rightarrow> 'a word" where
  "saturating_add x y = (if unat x + unat y < 2 ^ LENGTH('a) then x + y else - 1)"

definition saturating_sub :: "'a::len word \<Rightarrow> 'a word \<Rightarrow> 'a word" where
  "saturating_sub x y = (if y \<le> x then x - y else 0)"

definition saturating_mul :: "'a::len word \<Rightarrow> 'a word \<Rightarrow> 'a word" where
  "saturating_mul x y = (if unat x * unat y < 2 ^ LENGTH('a) then x * y else - 1)"

definition checked_add :: "'a::len word \<Rightarrow> 'a word \<Rightarrow> 'a word option" where
  "checked_add x y = (if unat x + unat y < 2 ^ LENGTH('a) then Some (x + y) else None)"

definition checked_sub :: "'a::len word \<Rightarrow> 'a word \<Rightarrow> 'a word option" where
  "checked_sub x y = (if y \<le> x then Some (x - y) else None)"

definition checked_mul :: "'a::len word \<Rightarrow> 'a word \<Rightarrow> 'a word option" where
  "checked_mul x y = (if unat x * unat y < 2 ^ LENGTH('a) then Some (x * y) else None)"

definition checked_div :: "'a::len word \<Rightarrow> 'a word \<Rightarrow> 'a word option" where
  "checked_div x y = (if y = 0 then None else Some (x div y))"

lemma unat_add_no_wrap:
  fixes x y :: "'a::len word"
  assumes "unat x + unat y < 2 ^ LENGTH('a)"
  shows "unat (x + y) = unat x + unat y"
  using assms by (simp add: unat_word_ariths)

lemma unat_mult_no_wrap:
  fixes x y :: "'a::len word"
  assumes "unat x * unat y < 2 ^ LENGTH('a)"
  shows "unat (x * y) = unat x * unat y"
  using assms by (simp add: unat_word_ariths)

lemma unat_minus_one_word_eq: "unat (- 1 :: 'a::len word) = 2 ^ LENGTH('a) - 1"
  by (simp add: unsigned_minus_1_eq_mask mask_eq_exp_minus_1)

lemma unat_saturating_add [rust_arith]:
  "unat (saturating_add x y :: 'a::len word) = min (unat x + unat y) (2 ^ LENGTH('a) - 1)"
  by (auto simp: saturating_add_def unat_add_no_wrap unat_minus_one_word_eq)

lemma unat_saturating_sub [rust_arith]: "unat (saturating_sub x y) = unat x - unat y"
  by (auto simp: saturating_sub_def unat_sub word_le_nat_alt)

lemma unat_saturating_mul [rust_arith]:
  "unat (saturating_mul x y :: 'a::len word) = min (unat x * unat y) (2 ^ LENGTH('a) - 1)"
  by (auto simp: saturating_mul_def unat_mult_no_wrap unat_minus_one_word_eq)

lemma checked_add_eq_Some [rust_arith]:
  "checked_add x y = Some z \<longleftrightarrow> unat z = unat x + unat (y :: 'a::len word)"
proof
  assume "checked_add x y = Some z"
  then show "unat z = unat x + unat y"
    by (auto simp: checked_add_def unat_add_no_wrap split: if_splits)
next
  assume z: "unat z = unat x + unat y"
  have "unat z < 2 ^ LENGTH('a)"
    by (rule unsigned_less)
  with z have "unat x + unat y < 2 ^ LENGTH('a)" and "unat z = unat (x + y)"
    by (simp_all add: unat_add_no_wrap)
  then show "checked_add x y = Some z"
    by (simp add: checked_add_def word_unat_eq_iff)
qed

lemma checked_sub_eq_Some [rust_arith]:
  "checked_sub x y = Some z \<longleftrightarrow> unat y \<le> unat x \<and> unat z = unat x - unat y"
  by (auto simp: checked_sub_def word_le_nat_alt unat_sub word_unat_eq_iff)

lemma checked_mul_eq_Some [rust_arith]:
  "checked_mul x y = Some z \<longleftrightarrow> unat z = unat x * unat (y :: 'a::len word)"
proof
  assume "checked_mul x y = Some z"
  then show "unat z = unat x * unat y"
    by (auto simp: checked_mul_def unat_mult_no_wrap split: if_splits)
next
  assume z: "unat z = unat x * unat y"
  have "unat z < 2 ^ LENGTH('a)"
    by (rule unsigned_less)
  with z have "unat x * unat y < 2 ^ LENGTH('a)" and "unat z = unat (x * y)"
    by (simp_all add: unat_mult_no_wrap)
  then show "checked_mul x y = Some z"
    by (simp add: checked_mul_def word_unat_eq_iff)
qed

lemma checked_div_eq_Some [rust_arith]:
  "checked_div x y = Some z \<longleftrightarrow> y \<noteq> 0 \<and> unat z = unat x div unat y"
  by (auto simp: checked_div_def unat_div_distrib word_unat_eq_iff)

section \<open>Result\<close>

text \<open>\<open>Result<T, E>\<close> is \<open>'e + 't\<close>; the \<open>?\<close> operator is \<open>r_bind\<close>.\<close>

type_synonym ('t, 'e) result = "'e + 't"

fun r_bind :: "('t, 'e) result \<Rightarrow> ('t \<Rightarrow> ('s, 'e) result) \<Rightarrow> ('s, 'e) result" where
  "r_bind (Inl e) f = Inl e"
| "r_bind (Inr x) f = f x"

fun ok_or :: "'t option \<Rightarrow> 'e \<Rightarrow> ('t, 'e) result" where
  "ok_or None e = Inl e"
| "ok_or (Some x) e = Inr x"

fun map_err :: "('e \<Rightarrow> 'f) \<Rightarrow> ('t, 'e) result \<Rightarrow> ('t, 'f) result" where
  "map_err f (Inl e) = Inl (f e)"
| "map_err f (Inr x) = Inr x"

fun to_option :: "('t, 'e) result \<Rightarrow> 't option" where
  "to_option (Inl e) = None"
| "to_option (Inr x) = Some x"

definition is_ok :: "('t, 'e) result \<Rightarrow> bool" where
  "is_ok r = (case r of Inl _ \<Rightarrow> False | Inr _ \<Rightarrow> True)"

lemma is_ok_simps [simp]: "is_ok (Inr x)" "\<not> is_ok (Inl e)"
  by (simp_all add: is_ok_def)

lemma is_ok_iff [result_simps]: "is_ok r \<longleftrightarrow> (\<exists>x. r = Inr x)"
  by (cases r) simp_all

lemma r_bind_eq_Inr [result_simps]: "r_bind r f = Inr y \<longleftrightarrow> (\<exists>x. r = Inr x \<and> f x = Inr y)"
  by (cases r) auto

lemma r_bind_eq_Inl [result_simps]:
  "r_bind r f = Inl e \<longleftrightarrow> r = Inl e \<or> (\<exists>x. r = Inr x \<and> f x = Inl e)"
  by (cases r) auto

lemma ok_or_eq_Inr [result_simps]: "ok_or x e = Inr y \<longleftrightarrow> x = Some y"
  by (cases x) auto

lemma ok_or_eq_Inl [result_simps]: "ok_or x e = Inl e' \<longleftrightarrow> x = None \<and> e' = e"
  by (cases x) auto

lemma map_err_eq_Inr [result_simps]: "map_err f r = Inr y \<longleftrightarrow> r = Inr y"
  by (cases r) auto

lemma map_err_eq_Inl [result_simps]: "map_err f r = Inl e \<longleftrightarrow> (\<exists>e'. r = Inl e' \<and> e = f e')"
  by (cases r) auto

lemma to_option_eq_Some [result_simps]: "to_option r = Some x \<longleftrightarrow> r = Inr x"
  by (cases r) auto

lemma if_Inl_eq_Inr [result_simps]: "(if P then Inl e else r) = Inr x \<longleftrightarrow> \<not> P \<and> r = Inr x"
  by simp

lemma if_Inl_eq_Inr2 [result_simps]: "(if P then r else Inl e) = Inr x \<longleftrightarrow> P \<and> r = Inr x"
  by simp

lemma r_bind_cong [fundef_cong]:
  "r = r' \<Longrightarrow> (\<And>x. r' = Inr x \<Longrightarrow> f x = g x) \<Longrightarrow> r_bind r f = r_bind r' g"
  by (cases r') auto

section \<open>Hash maps\<close>

text \<open>
  An \<open>AHashMap\<close> is a finite map with some iteration order. The model keeps the order of an
  association list with distinct keys (\<open>alist\<close> of HOL-Library.DAList); no theorem of the
  development depends on which order that is. The interface the components rely on is the
  locale \<open>finite_map\<close>, interpreted below on the operations of the model.
\<close>

type_synonym ('k, 'v) hashmap = "('k, 'v) alist"

definition hm_empty :: "('k, 'v) hashmap" where
  "hm_empty = DAList.empty"

definition hm_get :: "('k, 'v) hashmap \<Rightarrow> 'k \<Rightarrow> 'v option" where
  "hm_get m k = DAList.lookup m k"

definition hm_contains :: "('k, 'v) hashmap \<Rightarrow> 'k \<Rightarrow> bool" where
  "hm_contains m k = (hm_get m k \<noteq> None)"

definition hm_insert :: "'k \<Rightarrow> 'v \<Rightarrow> ('k, 'v) hashmap \<Rightarrow> ('k, 'v) hashmap" where
  "hm_insert k v m = DAList.update k v m"

definition hm_remove :: "'k \<Rightarrow> ('k, 'v) hashmap \<Rightarrow> ('k, 'v) hashmap" where
  "hm_remove k m = DAList.delete k m"

definition hm_retain :: "('k \<Rightarrow> 'v \<Rightarrow> bool) \<Rightarrow> ('k, 'v) hashmap \<Rightarrow> ('k, 'v) hashmap" where
  "hm_retain P m = DAList.filter (\<lambda>(k, v). P k v) m"

definition hm_iter :: "('k, 'v) hashmap \<Rightarrow> ('k \<times> 'v) list" where
  "hm_iter m = DAList.impl_of m"

definition hm_modify :: "'k \<Rightarrow> ('v \<Rightarrow> 'v) \<Rightarrow> ('k, 'v) hashmap \<Rightarrow> ('k, 'v) hashmap" where
  "hm_modify k f m = (case hm_get m k of None \<Rightarrow> m | Some v \<Rightarrow> hm_insert k (f v) m)"

lemma filtered_lookup_Some:
  assumes "distinct (map fst entries)"
  shows "map_of (filter keep entries) key = Some val \<longleftrightarrow> map_of entries key = Some val \<and> keep (key, val)"
  using assms distinct_map_fst_filter [OF assms, of keep] by auto

locale finite_map =
  fixes empty :: 'm
    and get :: "'m \<Rightarrow> 'k \<Rightarrow> 'v option"
    and insert :: "'k \<Rightarrow> 'v \<Rightarrow> 'm \<Rightarrow> 'm"
    and remove :: "'k \<Rightarrow> 'm \<Rightarrow> 'm"
    and retain :: "('k \<Rightarrow> 'v \<Rightarrow> bool) \<Rightarrow> 'm \<Rightarrow> 'm"
    and iter :: "'m \<Rightarrow> ('k \<times> 'v) list"
  assumes get_empty: "get empty k = None"
    and get_insert: "get (insert k v m) j = (if j = k then Some v else get m j)"
    and get_remove: "get (remove k m) j = (if j = k then None else get m j)"
    and get_retain: "get (retain P m) j =
      (case get m j of None \<Rightarrow> None | Some v \<Rightarrow> if P j v then Some v else None)"
    and iter_get: "(k, v) \<in> set (iter m) \<longleftrightarrow> get m k = Some v"
    and iter_distinct: "distinct (map fst (iter m))"
begin

lemma get_retain_Some: "get (retain P m) j = Some v \<longleftrightarrow> get m j = Some v \<and> P j v"
  by (auto simp: get_retain split: option.splits)

lemma iter_keys: "k \<in> fst ` set (iter m) \<longleftrightarrow> get m k \<noteq> None"
  by (auto simp: iter_get image_iff) (metis iter_get fst_conv)

lemma filter_iter_keys:
  "k \<in> set (map fst (filter (\<lambda>(k, v). P v) (iter m))) \<longleftrightarrow> (\<exists>v. get m k = Some v \<and> P v)"
  by (auto simp: iter_get image_iff)

text \<open>Inserting one entry per element of a list: the last one for a key wins.\<close>

lemma get_fold_insert:
  "get (fold (\<lambda>(k, v). insert k v) xs m) j =
     (case map_of (rev xs) j of None \<Rightarrow> get m j | Some v \<Rightarrow> Some v)"
proof (induction xs arbitrary: m)
  case Nil
  then show ?case by simp
next
  case (Cons x xs)
  then show ?case
    by (cases x) (auto simp: get_insert map_add_def split: option.splits)
qed

lemma get_fold_insert_distinct:
  assumes "distinct (map fst xs)"
  shows "get (fold (\<lambda>(k, v). insert k v) xs m) j =
     (case map_of xs j of None \<Rightarrow> get m j | Some v \<Rightarrow> Some v)"
proof -
  have "map_of (rev xs) = map_of xs"
    using assms by (subst map_of_inject_set) (simp_all add: rev_map [symmetric])
  then show ?thesis
    by (simp add: get_fold_insert)
qed

end

interpretation hm: finite_map hm_empty hm_get hm_insert hm_remove hm_retain hm_iter
proof unfold_locales
  fix m :: "('k, 'v) hashmap" and k j :: 'k and v :: 'v and P :: "'k \<Rightarrow> 'v \<Rightarrow> bool"
  have distinct: "distinct (map fst (DAList.impl_of m))"
    by (rule impl_of_distinct)
  show "hm_get hm_empty k = (None :: 'v option)"
    by (simp add: hm_get_def hm_empty_def)
  show "hm_get (hm_insert k v m) j = (if j = k then Some v else hm_get m j)"
    by (simp add: hm_get_def hm_insert_def lookup_update)
  show "hm_get (hm_remove k m) j = (if j = k then None else hm_get m j)"
    by (simp add: hm_get_def hm_remove_def)
  have ret: "hm_get (hm_retain P m) j = Some w \<longleftrightarrow> hm_get m j = Some w \<and> P j w" for w
    using filtered_lookup_Some [OF distinct, of "\<lambda>(k, v). P k v" j w]
    by (simp add: hm_get_def hm_retain_def DAList.lookup.rep_eq DAList.filter.rep_eq)
  show "hm_get (hm_retain P m) j =
      (case hm_get m j of None \<Rightarrow> None | Some v \<Rightarrow> if P j v then Some v else None)"
    using ret [of "the (hm_get m j)"] ret [of "the (hm_get (hm_retain P m) j)"]
    by (cases "hm_get (hm_retain P m) j"; cases "hm_get m j") simp_all
  show "((k, v) \<in> set (hm_iter m)) = (hm_get m k = Some v)"
    using distinct by (simp add: hm_get_def hm_iter_def DAList.lookup.rep_eq)
  show "distinct (map fst (hm_iter m))"
    using distinct by (simp add: hm_iter_def)
qed

lemmas hm_get_simps [simp, hm_simps] = hm.get_empty hm.get_insert hm.get_remove hm.get_retain

lemma hm_insert_insert [simp]: "hm_insert k v (hm_insert k w m) = hm_insert k v m"
  by (simp add: hm_insert_def)

lemma hm_contains_simps [simp, hm_simps]:
  "hm_contains hm_empty k = False"
  "hm_contains (hm_insert k v m) j = (j = k \<or> hm_contains m j)"
  "hm_contains (hm_remove k m) j = (j \<noteq> k \<and> hm_contains m j)"
  by (auto simp: hm_contains_def)

lemma hm_get_modify [simp, hm_simps]:
  "hm_get (hm_modify k f m) j = (if j = k then map_option f (hm_get m k) else hm_get m j)"
  by (auto simp: hm_modify_def split: option.splits)

lemma hm_iter_simps [simp]: "hm_iter hm_empty = []"
  by (simp add: hm_iter_def hm_empty_def DAList.empty.rep_eq)

lemma hm_iter_insert: "hm_iter (hm_insert k v m) = AList.update k v (hm_iter m)"
  by (simp add: hm_iter_def hm_insert_def DAList.update.rep_eq)

lemma hm_iter_remove: "hm_iter (hm_remove k m) = AList.delete k (hm_iter m)"
  by (simp add: hm_iter_def hm_remove_def DAList.delete.rep_eq)

lemma hm_iter_retain: "hm_iter (hm_retain P m) = filter (\<lambda>(k, v). P k v) (hm_iter m)"
  by (simp add: hm_iter_def hm_retain_def DAList.filter.rep_eq)

lemmas hm_iter_eval = hm_iter_simps hm_iter_insert hm_iter_remove hm_iter_retain

end
