(* ===== verification/Stroem_Strings.thy ===== *)
theory Stroem_Strings
  imports Stroem_Prelude
begin

text \<open>
  The functions of Rust's \<open>str\<close> and \<open>String\<close> that stroemnet calls. A string is its UTF-8
  bytes (\<^typ>\<open>string\<close>). \<open>show_nat\<close> is \<open>to_string\<close> of an unsigned integer, \<open>parse_uint\<close>
  is \<open>str::parse\<close> at an unsigned type of the given width, with the laws that connect the two.
\<close>

section \<open>Decimal numbers\<close>

definition digit_char :: "nat \<Rightarrow> char" where
  "digit_char d = char_of (48 + d)"

definition is_digit :: "char \<Rightarrow> bool" where
  "is_digit c = (48 \<le> (of_char c :: nat) \<and> (of_char c :: nat) \<le> 57)"

definition digit_val :: "char \<Rightarrow> nat" where
  "digit_val c = of_char c - 48"

fun show_nat :: "nat \<Rightarrow> string" where
  "show_nat n = (if n < 10 then [digit_char n] else show_nat (n div 10) @ [digit_char (n mod 10)])"

declare show_nat.simps [simp del]

definition digits_val :: "string \<Rightarrow> nat" where
  "digits_val s = foldl (\<lambda>acc c. acc * 10 + digit_val c) 0 s"

definition strip_plus :: "string \<Rightarrow> string" where
  "strip_plus s = (case s of [] \<Rightarrow> [] | c # cs \<Rightarrow> if c = CHR ''+'' then cs else s)"

definition parse_uint :: "nat \<Rightarrow> string \<Rightarrow> nat option" where
  "parse_uint w s =
     (let ds = strip_plus s
      in if ds \<noteq> [] \<and> list_all is_digit ds \<and> digits_val ds < 2 ^ w
         then Some (digits_val ds) else None)"

text \<open>The \<open>Display\<close> text of the \<open>ParseIntError\<close> of a failed \<open>parse_uint\<close>.\<close>

fun digits_error :: "nat \<Rightarrow> nat \<Rightarrow> string \<Rightarrow> string" where
  "digits_error w acc [] = []"
| "digits_error w acc (c # cs) =
     (if \<not> is_digit c then ''invalid digit found in string''
      else if 2 ^ w \<le> acc * 10 + digit_val c then ''number too large to fit in target type''
      else digits_error w (acc * 10 + digit_val c) cs)"

definition parse_uint_error :: "nat \<Rightarrow> string \<Rightarrow> string" where
  "parse_uint_error w s =
     (if s = [] then ''cannot parse integer from empty string''
      else if s = ''+'' then ''invalid digit found in string''
      else digits_error w 0 (strip_plus s))"

lemma digit_char_props:
  assumes "d < 10"
  shows "is_digit (digit_char d)" and "digit_val (digit_char d) = d" and "digit_char d \<noteq> CHR ''+''"
  using assms by (auto simp: is_digit_def digit_val_def digit_char_def of_char_of take_bit_eq_mod
      char_of_eq_iff)

lemma show_nat_digits: "show_nat n \<noteq> [] \<and> list_all is_digit (show_nat n)"
  by (induction n rule: show_nat.induct) (subst (1 2) show_nat.simps, simp add: digit_char_props)

lemma digits_val_snoc: "digits_val (s @ [c]) = digits_val s * 10 + digit_val c"
  by (simp add: digits_val_def)

lemma digits_val_show_nat [simp]: "digits_val (show_nat n) = n"
proof (induction n rule: show_nat.induct)
  case (1 n)
  show ?case
  proof (cases "n < 10")
    case True
    then show ?thesis
      by (subst show_nat.simps) (simp add: digits_val_def digit_char_props)
  next
    case False
    with 1 show ?thesis
      by (subst show_nat.simps) (simp add: digits_val_snoc digit_char_props)
  qed
qed

lemma show_nat_inject: "show_nat m = show_nat n \<longleftrightarrow> m = n"
  by (metis digits_val_show_nat)

lemma strip_plus_digits: "list_all is_digit s \<Longrightarrow> strip_plus s = s"
  by (cases s) (auto simp: strip_plus_def is_digit_def)

lemma parse_uint_show_nat: "parse_uint w (show_nat n) = (if n < 2 ^ w then Some n else None)"
  using show_nat_digits [of n] by (simp add: parse_uint_def strip_plus_digits)

lemma parse_uint_bound: "parse_uint w s = Some n \<Longrightarrow> n < 2 ^ w"
  by (auto simp: parse_uint_def Let_def split: if_splits)

section \<open>Lower case\<close>

text \<open>
  \<open>str::to_lowercase\<close>, as far as a comparison with ASCII literals can see it: the ASCII
  letters, and U+212A (the Kelvin sign), the one character outside ASCII whose lower case
  is a single ASCII letter. Every other character outside ASCII keeps bytes outside ASCII.
\<close>

definition lower_char :: "char \<Rightarrow> char" where
  "lower_char c = (if 65 \<le> (of_char c :: nat) \<and> (of_char c :: nat) \<le> 90
                   then char_of ((of_char c :: nat) + 32) else c)"

fun to_lowercase :: "string \<Rightarrow> string" where
  "to_lowercase [] = []"
| "to_lowercase (c # cs) =
     (if c = CHR 0xE2 \<and> take 2 cs = [CHR 0x84, CHR 0xAA]
      then CHR ''k'' # to_lowercase (drop 2 cs)
      else lower_char c # to_lowercase cs)"

definition starts_with :: "string \<Rightarrow> string \<Rightarrow> bool" where
  "starts_with p s = (take (length p) s = p)"

section \<open>Trimming white space\<close>

text \<open>The UTF-8 encodings of the characters with the Unicode property White\_Space.\<close>

definition whitespace :: "string list" where
  "whitespace =
     [[CHR 0x09], [CHR 0x0A], [CHR 0x0B], [CHR 0x0C], [CHR 0x0D], [CHR 0x20],
      [CHR 0xC2, CHR 0x85], [CHR 0xC2, CHR 0xA0], [CHR 0xE1, CHR 0x9A, CHR 0x80]]
     @ map (\<lambda>b. [CHR 0xE2, CHR 0x80, char_of b]) ([128::nat ..< 139] @ [168, 169, 175])
     @ [[CHR 0xE2, CHR 0x81, CHR 0x9F], [CHR 0xE3, CHR 0x80, CHR 0x80]]"

definition strip_one :: "string list \<Rightarrow> string \<Rightarrow> string option" where
  "strip_one ws s = map_option (\<lambda>w. drop (length w) s) (find (\<lambda>w. take (length w) s = w) ws)"

function trim_front :: "string list \<Rightarrow> string \<Rightarrow> string" where
  "trim_front ws s =
     (case strip_one ws s of None \<Rightarrow> s
      | Some s' \<Rightarrow> if length s' < length s then trim_front ws s' else s)"
  by pat_completeness auto
termination
  by (relation "measure (\<lambda>(ws, s). length s)") auto

declare trim_front.simps [simp del]

definition trim :: "string \<Rightarrow> string" where
  "trim s = rev (trim_front (map rev whitespace) (rev (trim_front whitespace s)))"

definition ends_with_ws :: "string list \<Rightarrow> string \<Rightarrow> bool" where
  "ends_with_ws ws s = (\<exists>w \<in> set ws. take (length w) s = w)"

lemma trim_front_stops:
  "[] \<notin> set ws \<Longrightarrow> \<not> ends_with_ws ws (trim_front ws s)"
proof (induction ws s rule: trim_front.induct)
  case (1 ws s)
  show ?case
  proof (cases "strip_one ws s")
    case None
    then have "\<not> ends_with_ws ws s"
      by (auto simp: strip_one_def find_None_iff ends_with_ws_def)
    with None show ?thesis
      by (subst trim_front.simps) simp
  next
    case (Some s')
    then obtain w where w: "w \<in> set ws" "take (length w) s = w" "s' = drop (length w) s"
      by (auto simp: strip_one_def find_Some_iff in_set_conv_nth)
    then have "w \<noteq> []" "s \<noteq> []"
      using 1(2) by auto
    then have "length s' < length s"
      using w(3) by simp
    with 1 Some show ?thesis
      by (subst trim_front.simps) simp
  qed
qed

lemma trim_no_ws: "trim_front whitespace s = s \<Longrightarrow>
    trim_front (map rev whitespace) (rev s) = rev s \<Longrightarrow> trim s = s"
  by (simp add: trim_def)

section \<open>Hexadecimal strings\<close>

definition is_hex_lower :: "char \<Rightarrow> bool" where
  "is_hex_lower c = (is_digit c \<or> 97 \<le> (of_char c :: nat) \<and> (of_char c :: nat) \<le> 102)"

definition hex_digit :: "nat \<Rightarrow> char" where
  "hex_digit d = char_of (if d < 10 then 48 + d else 87 + d)"

text \<open>What the code relies on of a hexadecimal encoder: it prints lower case digits only.\<close>

definition hex_encoder :: "(bytes \<Rightarrow> string) \<Rightarrow> bool" where
  "hex_encoder enc = (\<forall>bs. list_all is_hex_lower (enc bs))"

definition hex_lower :: "bytes \<Rightarrow> string" where
  "hex_lower bs = concat (map (\<lambda>b. [hex_digit (unat b div 16), hex_digit (unat b mod 16)]) bs)"

lemma is_hex_lower_digit: "d < 16 \<Longrightarrow> is_hex_lower (hex_digit d)"
  by (auto simp: is_hex_lower_def is_digit_def hex_digit_def of_char_of take_bit_eq_mod)

lemma hex_encoder_hex_lower: "hex_encoder hex_lower"
proof -
  have "unat b div 16 < 16" for b :: u8
    using unsigned_less [where w = b and 'a = nat] by simp
  then show ?thesis
    by (auto simp: hex_encoder_def hex_lower_def list_all_iff intro!: is_hex_lower_digit)
qed

lemma hex_encoder_not_refunded: "hex_encoder enc \<Longrightarrow> enc bs \<noteq> ''refunded''"
  by (auto simp: hex_encoder_def is_hex_lower_def is_digit_def dest!: spec [of _ bs])

section \<open>UTF-8\<close>

text \<open>
  \<open>str::from_utf8\<close> and \<open>String::from_utf8_lossy\<close>. \<open>utf8_chunk\<close> reads the first character of a
  byte string: how many bytes it takes, and whether they are well formed; an ill-formed sequence
  takes its longest prefix that some character could start with.
\<close>

definition utf8_cont :: "u8 \<Rightarrow> bool" where
  "utf8_cont b = (0x80 \<le> b \<and> b \<le> 0xBF)"

definition utf8_width :: "u8 \<Rightarrow> nat" where
  "utf8_width a =
     (if a \<le> 0x7F then 1 else if 0xC2 \<le> a \<and> a \<le> 0xDF then 2
      else if 0xE0 \<le> a \<and> a \<le> 0xEF then 3 else if 0xF0 \<le> a \<and> a \<le> 0xF4 then 4 else 0)"

definition utf8_second :: "u8 \<Rightarrow> u8 \<Rightarrow> bool" where
  "utf8_second a b =
     (utf8_cont b \<and> (a = 0xE0 \<longrightarrow> 0xA0 \<le> b) \<and> (a = 0xED \<longrightarrow> b \<le> 0x9F) \<and>
      (a = 0xF0 \<longrightarrow> 0x90 \<le> b) \<and> (a = 0xF4 \<longrightarrow> b \<le> 0x8F))"

definition utf8_chunk :: "u8 \<Rightarrow> bytes \<Rightarrow> nat \<times> bool" where
  "utf8_chunk a rest =
     (let w = utf8_width a in
      if w = 0 then (1, False) else if w = 1 then (1, True)
      else if rest = [] \<or> \<not> utf8_second a (hd rest) then (1, False)
      else if w = 2 then (2, True)
      else if length rest < 2 \<or> \<not> utf8_cont (rest ! 1) then (2, False)
      else if w = 3 then (3, True)
      else if length rest < 3 \<or> \<not> utf8_cont (rest ! 2) then (3, False)
      else (4, True))"

lemma utf8_chunk_pos: "0 < fst (utf8_chunk a rest)"
  by (simp add: utf8_chunk_def Let_def)

function utf8_valid :: "bytes \<Rightarrow> bool" where
  "utf8_valid [] = True"
| "utf8_valid (a # rest) =
     (case utf8_chunk a rest of (n, ok) \<Rightarrow> ok \<and> utf8_valid (drop (n - 1) rest))"
  by pat_completeness auto
termination
  by (relation "measure length") auto

function utf8_lossy :: "bytes \<Rightarrow> bytes" where
  "utf8_lossy [] = []"
| "utf8_lossy (a # rest) =
     (case utf8_chunk a rest of (n, ok) \<Rightarrow>
        (if ok then a # take (n - 1) rest else [0xEF, 0xBF, 0xBD]) @ utf8_lossy (drop (n - 1) rest))"
  by pat_completeness auto
termination
  by (relation "measure length") auto

lemma utf8_lossy_valid: "utf8_valid bs \<Longrightarrow> utf8_lossy bs = bs"
  by (induction bs rule: utf8_lossy.induct) (auto split: prod.splits)

definition chars_of_bytes :: "bytes \<Rightarrow> string" where
  "chars_of_bytes bs = map (\<lambda>b. char_of (unat b)) bs"

definition bytes_of_chars :: "string \<Rightarrow> bytes" where
  "bytes_of_chars s = map (\<lambda>c. of_nat (of_char c)) s"

lemma chars_of_bytes_of_chars [simp]: "chars_of_bytes (bytes_of_chars s) = s"
  by (simp add: chars_of_bytes_def bytes_of_chars_def o_def unsigned_of_nat take_bit_eq_mod)

lemma bytes_of_chars_of_bytes [simp]: "bytes_of_chars (chars_of_bytes bs) = bs"
proof -
  have "unat x mod 256 = unat x" for x :: u8
    using unsigned_less [of x, where ?'a = nat] by simp
  then show ?thesis
    by (simp add: chars_of_bytes_def bytes_of_chars_def o_def of_char_of)
qed

definition from_utf8_lossy :: "bytes \<Rightarrow> string" where
  "from_utf8_lossy bs = chars_of_bytes (utf8_lossy bs)"

definition from_utf8 :: "bytes \<Rightarrow> string option" where
  "from_utf8 bs = (if utf8_valid bs then Some (chars_of_bytes bs) else None)"

text \<open>The \<open>Display\<close> text of a \<open>Utf8Error\<close>: the first ill-formed sequence, and its position.\<close>

function utf8_error :: "nat \<Rightarrow> bytes \<Rightarrow> string" where
  "utf8_error i [] = []"
| "utf8_error i (a # rest) =
     (case utf8_chunk a rest of (n, ok) \<Rightarrow>
        if ok then utf8_error (i + n) (drop (n - 1) rest)
        else if n = Suc (length rest) \<and> n < utf8_width a
        then ''incomplete utf-8 byte sequence from index '' @ show_nat i
        else ''invalid utf-8 sequence of '' @ show_nat n @ '' bytes from index '' @ show_nat i)"
  by pat_completeness auto
termination
  by (relation "measure (\<lambda>(i, bs). length bs)") auto

lemma from_utf8_of_chars [simp]: "from_utf8 (bytes_of_chars s) = Some s \<longleftrightarrow> utf8_valid (bytes_of_chars s)"
  by (simp add: from_utf8_def)

end
