(* ===== verification/Protocol.thy ===== *)
theory Protocol
  imports Stroem_Strings
begin

text \<open>
  The crate \<open>protocol\<close> without its swap tracker: the channels (\<open>channels.rs\<close>), the chain
  clock (\<open>clock/mod.rs\<close>) and the version 1 messages (\<open>v1/\<close>). A 32-byte array is a list of
  bytes; \<open>now_unix_secs()\<close> is an argument of the functions that read it.
\<close>

section \<open>Channels\<close>

datatype channel_id = KaspaTn10 | EthereumSepolia | IgraGalleon

fun decimals :: "channel_id \<Rightarrow> u8" where
  "decimals KaspaTn10 = 8"
| "decimals EthereumSepolia = 18"
| "decimals IgraGalleon = 18"

fun lock_time_secs :: "channel_id \<Rightarrow> u64" where
  "lock_time_secs KaspaTn10 = 180"
| "lock_time_secs EthereumSepolia = 15 * 60"
| "lock_time_secs IgraGalleon = 3600"

fun uses_synthetic_clock :: "channel_id \<Rightarrow> bool" where
  "uses_synthetic_clock IgraGalleon = True"
| "uses_synthetic_clock _ = False"

fun ticker_symbol :: "channel_id \<Rightarrow> string" where
  "ticker_symbol KaspaTn10 = ''KAS''"
| "ticker_symbol EthereumSepolia = ''ETH''"
| "ticker_symbol IgraGalleon = ''iKAS''"

fun is_evm :: "channel_id \<Rightarrow> bool" where
  "is_evm EthereumSepolia = True"
| "is_evm IgraGalleon = True"
| "is_evm KaspaTn10 = False"

fun is_utxo :: "channel_id \<Rightarrow> bool" where
  "is_utxo KaspaTn10 = True"
| "is_utxo EthereumSepolia = False"
| "is_utxo IgraGalleon = False"

fun channel_to_string :: "channel_id \<Rightarrow> string" where
  "channel_to_string KaspaTn10 = ''Kaspa TN10''"
| "channel_to_string EthereumSepolia = ''Sepolia''"
| "channel_to_string IgraGalleon = ''Igra Galleon''"

text \<open>\<open>channel as u8\<close>: the discriminants of a \<open>repr(u8)\<close> enum count from 0.\<close>

fun channel_as_u8 :: "channel_id \<Rightarrow> u8" where
  "channel_as_u8 KaspaTn10 = 0"
| "channel_as_u8 EthereumSepolia = 1"
| "channel_as_u8 IgraGalleon = 2"

definition channel_try_from :: "u8 \<Rightarrow> (channel_id, string) result" where
  "channel_try_from value =
     (if value = 0 then Inr KaspaTn10
      else if value = 1 then Inr EthereumSepolia
      else if value = 2 then Inr IgraGalleon
      else Inl ''Invalid ChannelId'')"

definition channel_try_from_str :: "string \<Rightarrow> (channel_id, string) result" where
  "channel_try_from_str value =
     (let v = to_lowercase value in
      if v \<in> {''kaspa'', ''kaspa-tn10'', ''kaspa_tn10'', ''kaspatn10''} then Inr KaspaTn10
      else if v \<in> {''ethereum'', ''sepolia'', ''ethereum-sepolia'', ''ethereum_sepolia'',
                   ''ethereumsepolia''} then Inr EthereumSepolia
      else if v \<in> {''igra'', ''igra-galleon'', ''igra_galleon'', ''igragalleon''}
        then Inr IgraGalleon
      else Inl (''Invalid ChannelId string: '' @ value))"

text \<open>The derived \<open>Ord\<close> of the enum: the order of its discriminants.\<close>

instantiation channel_id :: linorder
begin

definition less_eq_channel_id :: "channel_id \<Rightarrow> channel_id \<Rightarrow> bool" where
  "less_eq_channel_id a b = (channel_as_u8 a \<le> channel_as_u8 b)"

definition less_channel_id :: "channel_id \<Rightarrow> channel_id \<Rightarrow> bool" where
  "less_channel_id a b = (channel_as_u8 a < channel_as_u8 b)"

instance
proof
  fix x y z :: channel_id
  show "(x < y) = (x \<le> y \<and> \<not> y \<le> x)"
    by (auto simp: less_channel_id_def less_eq_channel_id_def)
  show "x \<le> x"
    by (simp add: less_eq_channel_id_def)
  show "x \<le> y \<Longrightarrow> y \<le> z \<Longrightarrow> x \<le> z"
    by (simp add: less_eq_channel_id_def)
  show "x \<le> y \<Longrightarrow> y \<le> x \<Longrightarrow> x = y"
    by (cases x; cases y) (simp_all add: less_eq_channel_id_def word_le_nat_alt)
  show "x \<le> y \<or> y \<le> x"
    by (auto simp: less_eq_channel_id_def)
qed

end

lemma channel_try_from_as_u8 [simp]: "channel_try_from (channel_as_u8 ch) = Inr ch"
  by (cases ch) (simp_all add: channel_try_from_def)

lemma channel_try_from_eq_Inr: "channel_try_from v = Inr ch \<longleftrightarrow> v = channel_as_u8 ch"
  by (cases ch) (auto simp: channel_try_from_def split: if_splits)

lemma channel_as_u8_inject [simp]: "channel_as_u8 a = channel_as_u8 b \<longleftrightarrow> a = b"
  by (cases a; cases b) simp_all

lemma lock_time_secs_bounds: "180 \<le> unat (lock_time_secs ch) \<and> unat (lock_time_secs ch) \<le> 3600"
  by (cases ch) simp_all

section \<open>Clock\<close>

record chain_clock =
  times :: "(channel_id, u64) hashmap"

definition clock_new :: "(channel_id, u64) hashmap \<Rightarrow> chain_clock" where
  "clock_new ts = \<lparr>times = ts\<rparr>"

definition clock_now :: "u64 \<Rightarrow> chain_clock \<Rightarrow> channel_id \<Rightarrow> u64" where
  "clock_now now_unix clock ch =
     (case hm_get (times clock) ch of Some ts \<Rightarrow> ts | None \<Rightarrow> now_unix)"

definition clock_now_checked :: "u64 \<Rightarrow> chain_clock \<Rightarrow> channel_id \<Rightarrow> u64 option" where
  "clock_now_checked now_unix clock ch =
     (case hm_get (times clock) ch of
        Some ts \<Rightarrow> Some ts
      | None \<Rightarrow> if uses_synthetic_clock ch then None else Some now_unix)"

section \<open>Version 1 messages\<close>

record addresses_v1 =
  ad_sender :: string
  ad_receiver :: string
  ad_sender_destination :: string

definition addresses_new :: "string \<Rightarrow> string \<Rightarrow> string \<Rightarrow> addresses_v1" where
  "addresses_new s r d = \<lparr>ad_sender = s, ad_receiver = r, ad_sender_destination = d\<rparr>"

record amount_v1 =
  am_value :: string
  am_decimals :: u8

definition amount_new :: "string \<Rightarrow> u8 \<Rightarrow> amount_v1" where
  "amount_new v d = \<lparr>am_value = v, am_decimals = d\<rparr>"

definition at_least :: "amount_v1 \<Rightarrow> amount_v1 \<Rightarrow> bool" where
  "at_least self required =
     (if am_decimals self \<noteq> am_decimals required then False
      else case (parse_uint 128 (am_value self), parse_uint 128 (am_value required)) of
             (Some have, Some need) \<Rightarrow> need \<le> have
           | _ \<Rightarrow> False)"

record commitment_v1 =
  cm_swap_id :: bytes
  cm_addresses :: addresses_v1
  cm_amount :: amount_v1
  cm_secret_hash :: bytes
  cm_unlock_ts :: u64
  cm_source :: u8
  cm_destination :: u8

definition commitment_new ::
  "bytes \<Rightarrow> addresses_v1 \<Rightarrow> amount_v1 \<Rightarrow> bytes \<Rightarrow> u64 \<Rightarrow> u8 \<Rightarrow> u8 \<Rightarrow> commitment_v1" where
  "commitment_new sid addrs am hash unlock src dst =
     \<lparr>cm_swap_id = sid, cm_addresses = addrs, cm_amount = am, cm_secret_hash = hash,
      cm_unlock_ts = unlock, cm_source = src, cm_destination = dst\<rparr>"

record reveal_v1 =
  rv_swap_id :: bytes
  rv_secret :: bytes

record refund_v1 =
  rf_swap_id :: bytes

definition reveal_new :: "bytes \<Rightarrow> bytes \<Rightarrow> reveal_v1" where
  "reveal_new sid secret = \<lparr>rv_swap_id = sid, rv_secret = secret\<rparr>"

definition refund_new :: "bytes \<Rightarrow> refund_v1" where
  "refund_new sid = \<lparr>rf_swap_id = sid\<rparr>"

datatype chain_event =
    Commitment commitment_v1
  | Reveal reveal_v1
  | Refund refund_v1

lemma at_least_iff:
  "at_least a b \<longleftrightarrow> am_decimals a = am_decimals b \<and>
     (\<exists>m n. parse_uint 128 (am_value a) = Some m \<and> parse_uint 128 (am_value b) = Some n \<and> n \<le> m)"
  by (auto simp: at_least_def split: option.splits)

end
