(* ===== verification/Swap_Tracker.thy ===== *)
theory Swap_Tracker
  imports Protocol
begin

text \<open>
  The swap tracker of the crate \<open>protocol\<close> (\<open>swap_tracker/\<close>): the record of every swap a
  node has seen, the operations that move it through its stages, the expiry queries and the
  clean-up. SHA-256 and the hexadecimal encoding come from crates outside the repository and
  are arguments of \<open>set_revealed\<close>.
\<close>

record swap_record =
  sr_init_commitment :: commitment_v1
  sr_counter_commitment :: "commitment_v1 option"
  sr_resolution :: "string option"
  sr_created_at :: u64

record swap_tracker =
  swaps :: "(bytes, swap_record) hashmap"

datatype swap_stage = Initialized | Locked | Completed | Refunded

datatype swap_tracker_error =
    DuplicateSwap bytes
  | SwapNotFound bytes
  | AlreadyCounterLocked bytes
  | NotCounterLocked bytes
  | AlreadyResolved bytes
  | ValidationFailed bytes string
  | SecretHashMismatch bytes

fun stage_to_string :: "swap_stage \<Rightarrow> string" where
  "stage_to_string Initialized = ''Initialized''"
| "stage_to_string Locked = ''Locked''"
| "stage_to_string Completed = ''Completed''"
| "stage_to_string Refunded = ''Refunded''"

definition tracker_new :: swap_tracker where
  "tracker_new = \<lparr>swaps = hm_empty\<rparr>"

definition get_swap :: "swap_tracker \<Rightarrow> bytes \<Rightarrow> swap_record option" where
  "get_swap t sid = hm_get (swaps t) sid"

definition all_swaps :: "swap_tracker \<Rightarrow> (bytes \<times> swap_record) list" where
  "all_swaps t = hm_iter (swaps t)"

definition stage :: "swap_record \<Rightarrow> swap_stage" where
  "stage record =
     (case sr_resolution record of
        Some r \<Rightarrow> if r = ''refunded'' then Refunded else Completed
      | None \<Rightarrow> if sr_counter_commitment record \<noteq> None then Locked else Initialized)"

section \<open>Operations\<close>

definition set_init_commitment ::
  "u64 \<Rightarrow> swap_tracker \<Rightarrow> bytes \<Rightarrow> commitment_v1 \<Rightarrow> (swap_tracker, swap_tracker_error) result" where
  "set_init_commitment now_unix t sid commitment =
     (if hm_contains (swaps t) sid then Inl (DuplicateSwap sid)
      else Inr (t\<lparr>swaps := hm_insert sid
             \<lparr>sr_init_commitment = commitment, sr_counter_commitment = None,
              sr_resolution = None, sr_created_at = now_unix\<rparr> (swaps t)\<rparr>))"

text \<open>The message of the last check prints the four channel bytes.\<close>

definition mismatch_reason :: "commitment_v1 \<Rightarrow> commitment_v1 \<Rightarrow> string" where
  "mismatch_reason init commitment =
     ''source/destination mismatch: init(src='' @ show_nat (unat (cm_source init))
     @ '',dst='' @ show_nat (unat (cm_destination init))
     @ '') vs counter(src='' @ show_nat (unat (cm_source commitment))
     @ '',dst='' @ show_nat (unat (cm_destination commitment)) @ '')''"

definition set_counter_commitment ::
  "swap_tracker \<Rightarrow> bytes \<Rightarrow> commitment_v1 \<Rightarrow> (swap_tracker, swap_tracker_error) result" where
  "set_counter_commitment t sid commitment =
     (case hm_get (swaps t) sid of
        None \<Rightarrow> Inl (SwapNotFound sid)
      | Some record \<Rightarrow>
          if sr_counter_commitment record \<noteq> None then Inl (AlreadyCounterLocked sid)
          else if sr_resolution record \<noteq> None then Inl (AlreadyResolved sid)
          else let init = sr_init_commitment record in
            if cm_swap_id init \<noteq> cm_swap_id commitment then
              Inl (ValidationFailed sid ''Commitment swap_id does not match InitLock'')
            else if ad_sender_destination (cm_addresses init) \<noteq> ad_receiver (cm_addresses commitment)
            then Inl (ValidationFailed sid
                   ''Commitment receiver does not match InitLock sender_destination'')
            else if ad_receiver (cm_addresses init) \<noteq> ad_sender_destination (cm_addresses commitment)
            then Inl (ValidationFailed sid
                   ''Commitment sender_destination does not match InitLock receiver'')
            else if cm_secret_hash init \<noteq> cm_secret_hash commitment then
              Inl (ValidationFailed sid
                   ''Commitment secret_hash does not match InitLock secret_hash'')
            else if cm_source init \<noteq> cm_destination commitment \<or>
                    cm_destination init \<noteq> cm_source commitment then
              Inl (ValidationFailed sid (mismatch_reason init commitment))
            else Inr (t\<lparr>swaps := hm_insert sid
                        (record\<lparr>sr_counter_commitment := Some commitment\<rparr>) (swaps t)\<rparr>))"

definition locked_unresolved ::
  "swap_tracker \<Rightarrow> bytes \<Rightarrow> (swap_record, swap_tracker_error) result" where
  "locked_unresolved t sid =
     (case hm_get (swaps t) sid of
        None \<Rightarrow> Inl (SwapNotFound sid)
      | Some record \<Rightarrow>
          if sr_counter_commitment record = None then Inl (NotCounterLocked sid)
          else if sr_resolution record \<noteq> None then Inl (AlreadyResolved sid)
          else Inr record)"

definition set_revealed ::
  "(bytes \<Rightarrow> bytes) \<Rightarrow> (bytes \<Rightarrow> string) \<Rightarrow> swap_tracker \<Rightarrow> bytes \<Rightarrow> bytes
     \<Rightarrow> (swap_tracker, swap_tracker_error) result" where
  "set_revealed sha256 hex_encode t sid secret =
     r_bind (locked_unresolved t sid) (\<lambda>record.
     r_bind (ok_or (sr_counter_commitment record) (NotCounterLocked sid)) (\<lambda>counter.
       if sha256 secret \<noteq> cm_secret_hash counter then Inl (SecretHashMismatch sid)
       else Inr (t\<lparr>swaps := hm_insert sid
              (record\<lparr>sr_resolution := Some (hex_encode secret)\<rparr>) (swaps t)\<rparr>)))"

definition set_refunded ::
  "swap_tracker \<Rightarrow> bytes \<Rightarrow> (swap_tracker, swap_tracker_error) result" where
  "set_refunded t sid =
     r_bind (locked_unresolved t sid) (\<lambda>record.
       Inr (t\<lparr>swaps := hm_insert sid
              (record\<lparr>sr_resolution := Some ''refunded''\<rparr>) (swaps t)\<rparr>))"

section \<open>Expiry\<close>

definition is_expired :: "u64 \<Rightarrow> swap_tracker \<Rightarrow> bytes \<Rightarrow> bool" where
  "is_expired now_unix t sid =
     (case hm_get (swaps t) sid of
        None \<Rightarrow> False
      | Some record \<Rightarrow>
          if sr_resolution record \<noteq> None then False
          else case sr_counter_commitment record of
                 Some counter \<Rightarrow> cm_unlock_ts counter \<le> now_unix
               | None \<Rightarrow> cm_unlock_ts (sr_init_commitment record) \<le> now_unix)"

definition time_until_init_refund :: "u64 \<Rightarrow> swap_tracker \<Rightarrow> bytes \<Rightarrow> u64 option" where
  "time_until_init_refund now_unix t sid =
     Option.bind (hm_get (swaps t) sid) (\<lambda>record.
       if sr_resolution record \<noteq> None then None
       else Some (saturating_sub (cm_unlock_ts (sr_init_commitment record)) now_unix))"

definition time_until_ctpy_refund :: "u64 \<Rightarrow> swap_tracker \<Rightarrow> bytes \<Rightarrow> u64 option" where
  "time_until_ctpy_refund now_unix t sid =
     Option.bind (hm_get (swaps t) sid) (\<lambda>record.
       if sr_resolution record \<noteq> None then None
       else Option.bind (sr_counter_commitment record) (\<lambda>counter.
         Some (saturating_sub (cm_unlock_ts counter) now_unix)))"

definition cleanup_old_swaps :: "u64 \<Rightarrow> u64 \<Rightarrow> swap_tracker \<Rightarrow> swap_tracker" where
  "cleanup_old_swaps now_unix max_age_secs t =
     t\<lparr>swaps := hm_retain (\<lambda>_ record.
        if sr_resolution record \<noteq> None
        then saturating_sub now_unix (sr_created_at record) < max_age_secs
        else True) (swaps t)\<rparr>"

section \<open>Characterisations of the operations\<close>

text \<open>The counter leg mirrors the init leg: what \<open>set_counter_commitment\<close> validates.\<close>

definition mirrors :: "commitment_v1 \<Rightarrow> commitment_v1 \<Rightarrow> bool" where
  "mirrors init c \<longleftrightarrow>
     cm_swap_id c = cm_swap_id init \<and>
     ad_receiver (cm_addresses c) = ad_sender_destination (cm_addresses init) \<and>
     ad_sender_destination (cm_addresses c) = ad_receiver (cm_addresses init) \<and>
     cm_secret_hash c = cm_secret_hash init \<and>
     cm_source c = cm_destination init \<and> cm_destination c = cm_source init"

named_theorems tracker_defs \<open>definitions of the tracker operations\<close>

declare set_init_commitment_def [tracker_defs] set_counter_commitment_def [tracker_defs]
  locked_unresolved_def [tracker_defs] set_revealed_def [tracker_defs]
  set_refunded_def [tracker_defs] cleanup_old_swaps_def [tracker_defs] get_swap_def [tracker_defs]

lemma set_init_commitment_Inr:
  "set_init_commitment now_unix t sid c = Inr t' \<longleftrightarrow>
     get_swap t sid = None \<and>
     t' = t\<lparr>swaps := hm_insert sid \<lparr>sr_init_commitment = c, sr_counter_commitment = None,
              sr_resolution = None, sr_created_at = now_unix\<rparr> (swaps t)\<rparr>"
  by (auto simp: tracker_defs hm_contains_def)

lemma set_counter_commitment_Inr:
  "set_counter_commitment t sid c = Inr t' \<longleftrightarrow>
     (\<exists>r. get_swap t sid = Some r \<and> stage r = Initialized \<and> mirrors (sr_init_commitment r) c \<and>
        t' = t\<lparr>swaps := hm_insert sid (r\<lparr>sr_counter_commitment := Some c\<rparr>) (swaps t)\<rparr>)"
proof (cases "get_swap t sid")
  case None
  then show ?thesis
    by (simp add: tracker_defs)
next
  case (Some r)
  have "stage r = Initialized \<longleftrightarrow> sr_counter_commitment r = None \<and> sr_resolution r = None"
    by (auto simp: stage_def split: option.splits)
  with Some show ?thesis
    by (simp add: tracker_defs Let_def if_Inl_eq_Inr mirrors_def) (metis (no_types))
qed

lemma locked_unresolved_Inr:
  "locked_unresolved t sid = Inr r \<longleftrightarrow> get_swap t sid = Some r \<and> stage r = Locked"
  by (auto simp: tracker_defs stage_def split: option.splits if_splits)

lemma stage_Locked: "stage r = Locked \<longleftrightarrow> sr_resolution r = None \<and> (\<exists>c. sr_counter_commitment r = Some c)"
  by (auto simp: stage_def split: option.splits if_splits)

lemma set_revealed_Inr:
  "set_revealed sha256 hex_encode t sid secret = Inr t' \<longleftrightarrow>
     (\<exists>r c. get_swap t sid = Some r \<and> sr_resolution r = None \<and> sr_counter_commitment r = Some c \<and>
        sha256 secret = cm_secret_hash c \<and>
        t' = t\<lparr>swaps := hm_insert sid (r\<lparr>sr_resolution := Some (hex_encode secret)\<rparr>) (swaps t)\<rparr>)"
  by (auto simp: set_revealed_def locked_unresolved_Inr stage_Locked result_simps split: if_splits)

lemma set_refunded_Inr:
  "set_refunded t sid = Inr t' \<longleftrightarrow>
     (\<exists>r. get_swap t sid = Some r \<and> stage r = Locked \<and>
        t' = t\<lparr>swaps := hm_insert sid (r\<lparr>sr_resolution := Some ''refunded''\<rparr>) (swaps t)\<rparr>)"
  by (auto simp: set_refunded_def locked_unresolved_Inr result_simps)

lemma get_swap_upd [simp]:
  "get_swap (t\<lparr>swaps := hm_insert sid r (swaps t)\<rparr>) j = (if j = sid then Some r else get_swap t j)"
  by (simp add: get_swap_def)

lemma get_swap_new [simp]: "get_swap tracker_new sid = None"
  by (simp add: get_swap_def tracker_new_def)

lemma get_swap_cleanup:
  "get_swap (cleanup_old_swaps now_unix age t) sid = Some r \<longleftrightarrow>
     get_swap t sid = Some r \<and>
     (sr_resolution r = None \<or> unat now_unix - unat (sr_created_at r) < unat age)"
  by (auto simp: tracker_defs hm.get_retain_Some word_less_nat_alt rust_arith split: option.splits)

lemmas tracker_op_Inr = set_init_commitment_Inr set_counter_commitment_Inr set_revealed_Inr
  set_refunded_Inr

section \<open>The tracker as a state machine\<close>

inductive tracker_step ::
  "(bytes \<Rightarrow> bytes) \<Rightarrow> (bytes \<Rightarrow> string) \<Rightarrow> swap_tracker \<Rightarrow> swap_tracker \<Rightarrow> bool"
  for sha256 hex_encode where
  step_init: "set_init_commitment now_unix t sid c = Inr t' \<Longrightarrow> tracker_step sha256 hex_encode t t'"
| step_counter: "set_counter_commitment t sid c = Inr t' \<Longrightarrow> tracker_step sha256 hex_encode t t'"
| step_revealed: "set_revealed sha256 hex_encode t sid secret = Inr t' \<Longrightarrow>
    tracker_step sha256 hex_encode t t'"
| step_refunded: "set_refunded t sid = Inr t' \<Longrightarrow> tracker_step sha256 hex_encode t t'"
| step_cleanup: "tracker_step sha256 hex_encode t (cleanup_old_swaps now_unix age t)"

inductive tracker_reachable :: "(bytes \<Rightarrow> bytes) \<Rightarrow> (bytes \<Rightarrow> string) \<Rightarrow> swap_tracker \<Rightarrow> bool"
  for sha256 hex_encode where
  reach_new: "tracker_reachable sha256 hex_encode tracker_new"
| reach_step: "tracker_reachable sha256 hex_encode t \<Longrightarrow> tracker_step sha256 hex_encode t t' \<Longrightarrow>
    tracker_reachable sha256 hex_encode t'"

text \<open>
  The well-formedness of a record: the counter leg mirrors the init leg, only a locked swap
  is resolved, and a resolution is either the refund mark or the hexadecimal preimage of the
  hash both legs lock.
\<close>

definition record_ok :: "(bytes \<Rightarrow> bytes) \<Rightarrow> (bytes \<Rightarrow> string) \<Rightarrow> swap_record \<Rightarrow> bool" where
  "record_ok sha256 hex_encode r \<longleftrightarrow>
     (\<forall>c. sr_counter_commitment r = Some c \<longrightarrow> mirrors (sr_init_commitment r) c) \<and>
     (\<forall>res. sr_resolution r = Some res \<longrightarrow>
        sr_counter_commitment r \<noteq> None \<and>
        (res = ''refunded'' \<or>
         (\<exists>secret. res = hex_encode secret \<and>
                   sha256 secret = cm_secret_hash (sr_init_commitment r))))"

definition tracker_ok :: "(bytes \<Rightarrow> bytes) \<Rightarrow> (bytes \<Rightarrow> string) \<Rightarrow> swap_tracker \<Rightarrow> bool" where
  "tracker_ok sha256 hex_encode t \<longleftrightarrow>
     (\<forall>sid r. get_swap t sid = Some r \<longrightarrow> record_ok sha256 hex_encode r)"

lemma tracker_ok_new: "tracker_ok sha256 hex_encode tracker_new"
  by (simp add: tracker_ok_def)

lemma tracker_okD: "tracker_ok sha256 hex_encode t \<Longrightarrow> get_swap t sid = Some r \<Longrightarrow> record_ok sha256 hex_encode r"
  by (auto simp: tracker_ok_def)

lemma tracker_ok_insert:
  "tracker_ok sha256 hex_encode t \<Longrightarrow> record_ok sha256 hex_encode r \<Longrightarrow>
   tracker_ok sha256 hex_encode (t\<lparr>swaps := hm_insert sid r (swaps t)\<rparr>)"
  by (auto simp: tracker_ok_def)

lemma tracker_step_ok:
  assumes "tracker_step sha256 hex_encode t t'" and "tracker_ok sha256 hex_encode t"
  shows "tracker_ok sha256 hex_encode t'"
  using assms
proof (cases rule: tracker_step.cases)
  case (step_init now_unix sid c)
  then show ?thesis
    using assms(2) by (auto simp: tracker_op_Inr record_ok_def intro!: tracker_ok_insert)
next
  case (step_counter sid c)
  then show ?thesis
    using assms(2)
    by (auto simp: tracker_op_Inr record_ok_def stage_def split: option.splits if_splits
        intro!: tracker_ok_insert)
next
  case (step_revealed sid secret)
  then obtain r c where r: "get_swap t sid = Some r" "sr_counter_commitment r = Some c"
      "sr_resolution r = None" "sha256 secret = cm_secret_hash c"
      "t' = t\<lparr>swaps := hm_insert sid (r\<lparr>sr_resolution := Some (hex_encode secret)\<rparr>) (swaps t)\<rparr>"
    by (auto simp: set_revealed_Inr)
  have "record_ok sha256 hex_encode r"
    using assms(2) r(1) by (rule tracker_okD)
  with r have "record_ok sha256 hex_encode (r\<lparr>sr_resolution := Some (hex_encode secret)\<rparr>)"
    by (auto simp: record_ok_def mirrors_def)
  with assms(2) r(5) show ?thesis
    by (simp add: tracker_ok_insert)
next
  case (step_refunded sid)
  then obtain r where r: "get_swap t sid = Some r" "stage r = Locked"
      "t' = t\<lparr>swaps := hm_insert sid (r\<lparr>sr_resolution := Some ''refunded''\<rparr>) (swaps t)\<rparr>"
    by (auto simp: set_refunded_Inr)
  have "record_ok sha256 hex_encode r"
    using assms(2) r(1) by (rule tracker_okD)
  with r have "record_ok sha256 hex_encode (r\<lparr>sr_resolution := Some ''refunded''\<rparr>)"
    by (auto simp: record_ok_def stage_Locked)
  with assms(2) r(3) show ?thesis
    by (simp add: tracker_ok_insert)
next
  case (step_cleanup now_unix age)
  then show ?thesis
    using assms(2) by (auto simp: tracker_ok_def get_swap_cleanup)
qed

lemma tracker_reachable_ok: "tracker_reachable sha256 hex_encode t \<Longrightarrow> tracker_ok sha256 hex_encode t"
  by (induction rule: tracker_reachable.induct) (auto intro: tracker_ok_new tracker_step_ok)

section \<open>The abstract life cycle of a swap\<close>

text \<open>
  The abstract specification: one swap is absent or at one of the four stages, and moves
  along the edges below. The last two edges are the clean-up of a resolved swap.
\<close>

definition stage_of :: "swap_tracker \<Rightarrow> bytes \<Rightarrow> swap_stage option" where
  "stage_of t sid = map_option stage (get_swap t sid)"

inductive stage_edge :: "swap_stage option \<Rightarrow> swap_stage option \<Rightarrow> bool" where
  edge_init: "stage_edge None (Some Initialized)"
| edge_lock: "stage_edge (Some Initialized) (Some Locked)"
| edge_reveal: "stage_edge (Some Locked) (Some Completed)"
| edge_refund: "stage_edge (Some Locked) (Some Refunded)"
| edge_clean_completed: "stage_edge (Some Completed) None"
| edge_clean_refunded: "stage_edge (Some Refunded) None"

inductive_simps stage_edge_simps [simp]:
  "stage_edge None y" "stage_edge (Some Initialized) y" "stage_edge (Some Locked) y"
  "stage_edge (Some Completed) y" "stage_edge (Some Refunded) y"

lemma stage_of_insert [simp]:
  "stage_of (t\<lparr>swaps := hm_insert sid r (swaps t)\<rparr>) j = (if j = sid then Some (stage r) else stage_of t j)"
  by (simp add: stage_of_def)

lemma stage_of_cleanup:
  "stage_of (cleanup_old_swaps now_unix age t) sid = stage_of t sid \<or>
   (stage_of t sid \<in> {Some Completed, Some Refunded} \<and>
    stage_of (cleanup_old_swaps now_unix age t) sid = None)"
proof (cases "get_swap t sid")
  case None
  then show ?thesis
    by (simp add: stage_of_def tracker_defs)
next
  case (Some r)
  show ?thesis
  proof (cases "get_swap (cleanup_old_swaps now_unix age t) sid")
    case None
    with Some have "sr_resolution r \<noteq> None"
      using get_swap_cleanup [of now_unix age t sid r] by auto
    with Some None show ?thesis
      by (auto simp: stage_of_def stage_def)
  next
    case (Some r')
    then show ?thesis
      by (auto simp: stage_of_def get_swap_cleanup)
  qed
qed

text \<open>
  (C4) Refinement: every operation of the tracker leaves each swap where it is or moves it
  along one edge of the abstract life cycle. In particular a swap is never resolved before it
  is counter-locked, and a completed swap is never turned into a refunded one.
\<close>

theorem tracker_refines_stage_machine:
  assumes "hex_encoder hex_encode" and "tracker_step sha256 hex_encode t t'"
  shows "stage_of t' sid = stage_of t sid \<or> stage_edge (stage_of t sid) (stage_of t' sid)"
  using assms(2)
proof (cases rule: tracker_step.cases)
  case (step_init now_unix j c)
  then show ?thesis
    by (auto simp: tracker_op_Inr stage_of_def stage_def)
next
  case (step_counter j c)
  then show ?thesis
    by (auto simp: tracker_op_Inr stage_of_def) (auto simp: stage_def split: option.splits)
next
  case (step_revealed j secret)
  then show ?thesis
    using hex_encoder_not_refunded [OF assms(1), of secret]
    by (auto simp: tracker_op_Inr stage_of_def stage_def)
next
  case (step_refunded j)
  then show ?thesis
    by (auto simp: tracker_op_Inr stage_of_def) (auto simp: stage_def)
next
  case (step_cleanup now_unix age)
  then show ?thesis
    using stage_of_cleanup [of now_unix age t sid] by auto
qed

text \<open>A commitment of each leg, for the witnesses of this theory and of its clients.\<close>

definition sample_init :: commitment_v1 where
  "sample_init = commitment_new [1] (addresses_new ''snd'' ''rcv'' ''sdst'') (amount_new ''1'' 8)
     [7] 600 1 0"

definition sample_counter :: commitment_v1 where
  "sample_counter = commitment_new [1] (addresses_new ''ksnd'' ''sdst'' ''rcv'') (amount_new ''1'' 8)
     [7] 300 0 1"

definition sample_locked :: swap_tracker where
  "sample_locked = \<lparr>swaps = hm_insert [1] \<lparr>sr_init_commitment = sample_init,
     sr_counter_commitment = Some sample_counter, sr_resolution = None, sr_created_at = 5\<rparr> hm_empty\<rparr>"

lemma sample_mirrors: "mirrors sample_init sample_counter"
  by (simp add: mirrors_def sample_init_def sample_counter_def commitment_new_def addresses_new_def)

lemma sample_get [simp]:
  "get_swap sample_locked [1] = Some \<lparr>sr_init_commitment = sample_init,
     sr_counter_commitment = Some sample_counter, sr_resolution = None, sr_created_at = 5\<rparr>"
  by (simp add: sample_locked_def get_swap_def)

lemma sample_reveal:
  "set_revealed id hex_lower sample_locked [1] [7] = Inr (sample_locked\<lparr>swaps := hm_insert [1]
     \<lparr>sr_init_commitment = sample_init, sr_counter_commitment = Some sample_counter,
      sr_resolution = Some (hex_lower [7]), sr_created_at = 5\<rparr> (swaps sample_locked)\<rparr>)"
  by (simp add: set_revealed_Inr sample_counter_def commitment_new_def)

theorem tracker_refines_stage_machine_witness:
  "\<exists>t'. tracker_step id hex_lower sample_locked t' \<and> stage_of t' [1] = Some Completed \<and>
     (stage_of t' [1] = stage_of sample_locked [1] \<or>
      stage_edge (stage_of sample_locked [1]) (stage_of t' [1]))"
proof (intro exI conjI)
  let ?t = "sample_locked\<lparr>swaps := hm_insert [1]
     \<lparr>sr_init_commitment = sample_init, sr_counter_commitment = Some sample_counter,
      sr_resolution = Some (hex_lower [7]), sr_created_at = 5\<rparr> (swaps sample_locked)\<rparr>"
  show step: "tracker_step id hex_lower sample_locked ?t"
    by (rule step_revealed [OF sample_reveal])
  show "stage_of ?t [1] = Some Completed"
    using hex_encoder_not_refunded [OF hex_encoder_hex_lower, of "[7]"] by (simp add: stage_def)
  show "stage_of ?t [1] = stage_of sample_locked [1] \<or>
      stage_edge (stage_of sample_locked [1]) (stage_of ?t [1])"
    by (rule tracker_refines_stage_machine [OF hex_encoder_hex_lower step])
qed

text \<open>
  (C3) Atomicity as the tracker sees it: in every state the tracker can reach, the counter leg
  of a swap mirrors its init leg (crossed addresses, same secret hash, swapped channels), a
  resolved swap has both legs, and a completed swap stores the hexadecimal preimage of the hash
  that locks both legs.
\<close>

theorem reachable_legs_mirror:
  assumes "tracker_reachable sha256 hex_encode t" and "get_swap t sid = Some r"
  shows "(\<forall>c. sr_counter_commitment r = Some c \<longrightarrow> mirrors (sr_init_commitment r) c) \<and>
    (stage r = Completed \<longrightarrow>
      (\<exists>c secret. sr_counter_commitment r = Some c \<and> sr_resolution r = Some (hex_encode secret) \<and>
         sha256 secret = cm_secret_hash (sr_init_commitment r) \<and> sha256 secret = cm_secret_hash c))"
proof -
  have ok: "record_ok sha256 hex_encode r"
    by (rule tracker_okD [OF tracker_reachable_ok [OF assms(1)] assms(2)])
  then show ?thesis
    by (fastforce simp: record_ok_def stage_def mirrors_def split: option.splits if_splits)
qed

lemma sample_locked_reachable: "tracker_reachable sha256 hex_encode sample_locked"
proof -
  let ?t = "\<lparr>swaps = hm_insert [1] \<lparr>sr_init_commitment = sample_init, sr_counter_commitment = None,
     sr_resolution = None, sr_created_at = 5\<rparr> hm_empty\<rparr>"
  have "set_init_commitment 5 tracker_new [1] sample_init = Inr ?t"
    by (simp add: set_init_commitment_Inr tracker_new_def get_swap_def)
  then have reach: "tracker_reachable sha256 hex_encode ?t"
    by (blast intro: reach_new reach_step step_init)
  have "set_counter_commitment ?t [1] sample_counter = Inr sample_locked"
    using sample_mirrors
    by (simp add: set_counter_commitment_Inr get_swap_def stage_def sample_locked_def)
  with reach show ?thesis
    by (blast intro: reach_step step_counter)
qed

theorem reachable_legs_mirror_witness:
  "mirrors sample_init sample_counter \<and> tracker_reachable id hex_lower sample_locked"
  using reachable_legs_mirror [OF sample_locked_reachable sample_get] sample_locked_reachable
  by auto

text \<open>
  Exactly which counter commitments lock a swap: the ones that mirror the init commitment
  of a swap that is initialized and not yet locked or resolved. Every other call is an error and
  leaves the tracker as it is.
\<close>

theorem counter_lock_iff:
  "is_ok (set_counter_commitment t sid c) \<longleftrightarrow>
     (\<exists>r. get_swap t sid = Some r \<and> stage r = Initialized \<and> mirrors (sr_init_commitment r) c)"
  by (auto simp: is_ok_iff set_counter_commitment_Inr)

text \<open>
  Exactly which reveals complete a swap, and how each other one fails: an unknown swap, a
  swap without a counter lock, a resolved swap and a wrong preimage have an error of their own,
  in this order.
\<close>

theorem set_revealed_cases:
  "set_revealed sha256 hex_encode t sid secret =
     (case get_swap t sid of
        None \<Rightarrow> Inl (SwapNotFound sid)
      | Some r \<Rightarrow>
          (case (stage r, sr_counter_commitment r) of
             (Initialized, _) \<Rightarrow> Inl (NotCounterLocked sid)
           | (_, None) \<Rightarrow> Inl (NotCounterLocked sid)
           | (Locked, Some c) \<Rightarrow>
               if sha256 secret = cm_secret_hash c
               then Inr (t\<lparr>swaps := hm_insert sid
                      (r\<lparr>sr_resolution := Some (hex_encode secret)\<rparr>) (swaps t)\<rparr>)
               else Inl (SecretHashMismatch sid)
           | (_, Some _) \<Rightarrow> Inl (AlreadyResolved sid)))"
  by (auto simp: tracker_defs stage_def split: option.splits)

text \<open>
  The expiry test and the two countdowns agree: a swap is expired exactly when the
  countdown of its youngest leg has reached zero.
\<close>

theorem expired_iff_countdown_zero:
  "is_expired now_unix t sid \<longleftrightarrow>
     (case time_until_ctpy_refund now_unix t sid of
        Some left \<Rightarrow> left = 0
      | None \<Rightarrow> time_until_init_refund now_unix t sid = Some 0)"
proof -
  have "saturating_sub a b = 0 \<longleftrightarrow> a \<le> b" for a b :: u64
    by (auto simp: word_unat_eq_iff rust_arith word_le_nat_alt)
  then show ?thesis
    by (auto simp: is_expired_def time_until_ctpy_refund_def time_until_init_refund_def
        split: option.splits)
qed

text \<open>
  The clean-up removes exactly the resolved swaps whose age has reached the limit, and it
  never touches an unresolved swap or the contents of a record it keeps.
\<close>

theorem cleanup_removes_exactly_old_resolved:
  "get_swap (cleanup_old_swaps now_unix age t) sid =
     (case get_swap t sid of
        None \<Rightarrow> None
      | Some r \<Rightarrow> if sr_resolution r \<noteq> None \<and> unat age \<le> unat now_unix - unat (sr_created_at r)
                  then None else Some r)"
  by (auto simp: tracker_defs word_less_nat_alt rust_arith split: option.splits)

end
