(* ===== verification/F64.thy ===== *)
theory F64
  imports Stroem_Prelude Complex_Main "HOL-Library.Log_Nat"
begin

text \<open>
  The \<open>f64\<close> arithmetic that the price and fee code uses, as IEEE 754 binary64 with rounding
  to nearest, ties to even. A finite value is the rational number it stands for; every
  operation computes the exact rational result and rounds it with \<open>fl\<close>. The two zeros are one
  value: no expression of the modelled code can tell them apart, since no divisor it uses is a
  negative zero.
\<close>

datatype f64 = NaN | Inf bool | Fin rat

section \<open>Rounding\<close>

text \<open>The exponent of the leading binary digit of a positive rational.\<close>

definition ilog2 :: "rat \<Rightarrow> int" where
  "ilog2 x = (if 1 \<le> x then bitlen \<lfloor>x\<rfloor> - 1 else - bitlen (\<lceil>1 / x\<rceil> - 1))"

definition round_even :: "rat \<Rightarrow> int" where
  "round_even x =
     (let f = \<lfloor>x\<rfloor>; d = x - of_int f
      in if d < 1 / 2 then f else if 1 / 2 < d then f + 1 else if even f then f else f + 1)"

text \<open>The exponent of the last place of a double of the size of \<open>x\<close>.\<close>

definition ulp_exp :: "rat \<Rightarrow> int" where
  "ulp_exp x = max (ilog2 \<bar>x\<bar> - 52) (- 1074)"

definition fl :: "rat \<Rightarrow> f64" where
  "fl x =
     (if x = 0 then Fin 0
      else let u = 2 powi ulp_exp x; y = of_int (round_even (x / u)) * u
           in if 2 ^ 1024 \<le> \<bar>y\<bar> then Inf (x < 0) else Fin y)"

section \<open>Operations\<close>

fun is_finite :: "f64 \<Rightarrow> bool" where
  "is_finite (Fin _) = True"
| "is_finite _ = False"

fun f_lt :: "f64 \<Rightarrow> f64 \<Rightarrow> bool" where
  "f_lt (Fin x) (Fin y) = (x < y)"
| "f_lt (Fin _) (Inf neg) = (\<not> neg)"
| "f_lt (Inf neg) (Fin _) = neg"
| "f_lt (Inf a) (Inf b) = (a \<and> \<not> b)"
| "f_lt _ _ = False"

fun f_le :: "f64 \<Rightarrow> f64 \<Rightarrow> bool" where
  "f_le (Fin x) (Fin y) = (x \<le> y)"
| "f_le (Fin _) (Inf neg) = (\<not> neg)"
| "f_le (Inf neg) (Fin _) = neg"
| "f_le (Inf a) (Inf b) = (a \<or> \<not> b)"
| "f_le _ _ = False"

fun f_neg :: "f64 \<Rightarrow> f64" where
  "f_neg NaN = NaN"
| "f_neg (Inf neg) = Inf (\<not> neg)"
| "f_neg (Fin x) = Fin (- x)"

fun f_add :: "f64 \<Rightarrow> f64 \<Rightarrow> f64" where
  "f_add (Fin x) (Fin y) = fl (x + y)"
| "f_add (Inf a) (Inf b) = (if a = b then Inf a else NaN)"
| "f_add (Inf a) (Fin _) = Inf a"
| "f_add (Fin _) (Inf b) = Inf b"
| "f_add _ _ = NaN"

definition f_sub :: "f64 \<Rightarrow> f64 \<Rightarrow> f64" where
  "f_sub a b = f_add a (f_neg b)"

fun f_mul :: "f64 \<Rightarrow> f64 \<Rightarrow> f64" where
  "f_mul (Fin x) (Fin y) = fl (x * y)"
| "f_mul (Inf a) (Inf b) = Inf (a \<noteq> b)"
| "f_mul (Inf a) (Fin y) = (if y = 0 then NaN else Inf (a \<noteq> (y < 0)))"
| "f_mul (Fin x) (Inf b) = (if x = 0 then NaN else Inf ((x < 0) \<noteq> b))"
| "f_mul _ _ = NaN"

fun f_div :: "f64 \<Rightarrow> f64 \<Rightarrow> f64" where
  "f_div (Fin x) (Fin y) = (if y = 0 then (if x = 0 then NaN else Inf (x < 0)) else fl (x / y))"
| "f_div (Inf a) (Fin y) = Inf (a \<noteq> (y < 0))"
| "f_div (Fin x) (Inf b) = Fin 0"
| "f_div _ _ = NaN"

fun f_abs :: "f64 \<Rightarrow> f64" where
  "f_abs NaN = NaN"
| "f_abs (Inf _) = Inf False"
| "f_abs (Fin x) = Fin \<bar>x\<bar>"

text \<open>\<open>f64::min\<close>: the other operand when one is not a number.\<close>

definition f_min :: "f64 \<Rightarrow> f64 \<Rightarrow> f64" where
  "f_min a b = (if a = NaN then b else if b = NaN then a else if f_lt b a then b else a)"

text \<open>\<open>f64::round\<close> (ties away from zero) and \<open>f64::ceil\<close>; both are exact.\<close>

definition round_away :: "rat \<Rightarrow> int" where
  "round_away x = (if 0 \<le> x then \<lfloor>x + 1 / 2\<rfloor> else \<lceil>x - 1 / 2\<rceil>)"

fun f_round :: "f64 \<Rightarrow> f64" where
  "f_round (Fin x) = Fin (of_int (round_away x))"
| "f_round a = a"

fun f_ceil :: "f64 \<Rightarrow> f64" where
  "f_ceil (Fin x) = Fin (of_int \<lceil>x\<rceil>)"
| "f_ceil a = a"

text \<open>\<open>as\<close> casts: to an unsigned type they truncate and saturate, and \<open>NaN\<close> becomes 0.\<close>

fun f_as_uint :: "f64 \<Rightarrow> 'a::len word" where
  "f_as_uint NaN = 0"
| "f_as_uint (Inf neg) = (if neg then 0 else - 1)"
| "f_as_uint (Fin x) =
     (if x \<le> 0 then 0
      else if 2 ^ LENGTH('a) \<le> \<lfloor>x\<rfloor> then - 1 else of_int \<lfloor>x\<rfloor>)"

definition f_of_nat :: "nat \<Rightarrow> f64" where
  "f_of_nat n = fl (of_nat n)"

section \<open>Properties of rounding\<close>

lemma bitlen_pos: "0 < n \<Longrightarrow> 0 < bitlen n"
  using bitlen_bounds [of n] bitlen_nonneg [of n] by (cases "bitlen n = 0") auto

lemma ilog2_bounds:
  assumes "0 < x"
  shows "2 powi ilog2 x \<le> x" and "x < 2 powi (ilog2 x + 1)"
proof -
  have "2 powi ilog2 x \<le> x \<and> x < 2 powi (ilog2 x + 1)"
  proof (cases "1 \<le> x")
    case True
    define n where "n = \<lfloor>x\<rfloor>"
    have n: "0 < n" and nx: "of_int n \<le> x" "x < of_int (n + 1)"
      using True unfolding n_def by (simp, linarith+)
    have len: "0 < bitlen n"
      using n by (rule bitlen_pos)
    have "2 ^ nat (bitlen n - 1) \<le> n" and "n + 1 \<le> 2 ^ nat (bitlen n)"
      using bitlen_bounds [OF n] by auto
    then have "(2::rat) ^ nat (bitlen n - 1) \<le> of_int n" and "of_int (n + 1) \<le> (2::rat) ^ nat (bitlen n)"
      by (metis of_int_le_iff of_int_numeral of_int_power)+
    then have "(2::rat) ^ nat (bitlen n - 1) \<le> x" and "x < (2::rat) ^ nat (bitlen n)"
      using nx by linarith+
    moreover have "ilog2 x = bitlen n - 1"
      using True by (simp add: ilog2_def n_def)
    ultimately show ?thesis
      using len by (simp add: power_int_def)
  next
    case False
    define n where "n = \<lceil>1 / x\<rceil> - 1"
    have y: "1 < 1 / x"
      using False assms by (simp add: field_simps)
    have n: "0 < n"
      using y unfolding n_def by linarith
    have ny: "of_int n < 1 / x" "1 / x \<le> of_int (n + 1)"
      unfolding n_def by linarith+
    have len: "0 < bitlen n"
      using n by (rule bitlen_pos)
    have "2 ^ nat (bitlen n - 1) \<le> n" and "n + 1 \<le> 2 ^ nat (bitlen n)"
      using bitlen_bounds [OF n] by auto
    then have lo: "(2::rat) ^ nat (bitlen n - 1) \<le> of_int n"
      and hi: "of_int (n + 1) \<le> (2::rat) ^ nat (bitlen n)"
      by (metis of_int_le_iff of_int_numeral of_int_power)+
    have "2 ^ nat (bitlen n - 1) < 1 / x" and "1 / x \<le> 2 ^ nat (bitlen n)"
      using lo hi ny by linarith+
    then have "x < inverse (2 ^ nat (bitlen n - 1))" and "inverse (2 ^ nat (bitlen n)) \<le> x"
      using assms by (simp_all add: field_simps)
    moreover have "ilog2 x = - bitlen n"
      using False by (simp add: ilog2_def n_def)
    moreover obtain m where m: "bitlen n = int (Suc m)"
      using len by (metis zero_less_imp_eq_int gr0_implies_Suc)
    have "nat (bitlen n) = Suc m" "nat (bitlen n - 1) = m" "- bitlen n + 1 = - int m"
      by (simp_all add: m)
    ultimately show ?thesis
      by (simp only: m power_int_minus power_int_of_nat simp_thms)
  qed
  then show "2 powi ilog2 x \<le> x" and "x < 2 powi (ilog2 x + 1)"
    by auto
qed

lemma round_even_error: "\<bar>of_int (round_even x) - x\<bar> \<le> 1 / 2"
proof -
  have "of_int \<lfloor>x\<rfloor> \<le> x" and "x < of_int \<lfloor>x\<rfloor> + 1"
    by linarith+
  then show ?thesis
    by (simp add: round_even_def Let_def abs_le_iff)
qed

lemma round_even_of_int [simp]: "round_even (of_int n) = n"
  by (simp add: round_even_def)

lemma round_even_nonneg: "0 \<le> x \<Longrightarrow> 0 \<le> round_even x"
  unfolding round_even_def Let_def by (auto simp: zero_le_floor)

text \<open>The relative error of a rounded normal number is at most half a unit in the last place.\<close>

lemma fl_error:
  assumes "fl x = Fin y" and normal: "2 powi (- 1022) \<le> \<bar>x\<bar>"
  shows "\<bar>y - x\<bar> \<le> \<bar>x\<bar> / 2 ^ 53"
proof -
  define u :: rat where "u = 2 powi ulp_exp x"
  have u: "0 < u"
    by (simp add: u_def)
  have x: "x \<noteq> 0" "0 < \<bar>x\<bar>"
    using normal by (auto simp: power_int_def)
  have y: "y = of_int (round_even (x / u)) * u"
    using assms(1) x by (simp add: fl_def Let_def u_def split: if_splits)
  have "2 powi (- 1022) < (2 :: rat) powi (ilog2 \<bar>x\<bar> + 1)"
    using normal ilog2_bounds(2) [OF x(2)] by linarith
  then have "- 1022 \<le> ilog2 \<bar>x\<bar>"
    using power_int_increasing [of "ilog2 \<bar>x\<bar> + 1" "- 1022" "2 :: rat"] by fastforce
  then have "ulp_exp x = ilog2 \<bar>x\<bar> - 52"
    by (simp add: ulp_exp_def)
  then have "u * 2 ^ 52 = 2 powi ilog2 \<bar>x\<bar>"
    by (simp add: u_def power_int_diff)
  with ilog2_bounds(1) [OF x(2)] have ux: "u * 2 ^ 52 \<le> \<bar>x\<bar>"
    by simp
  have "y - x = (of_int (round_even (x / u)) - x / u) * u"
    using u by (simp add: y field_simps)
  then have "\<bar>y - x\<bar> = \<bar>of_int (round_even (x / u)) - x / u\<bar> * u"
    using u by (simp add: abs_mult)
  also have "\<dots> \<le> 1 / 2 * u"
    using round_even_error [of "x / u"] u by (intro mult_right_mono) auto
  also have "\<dots> \<le> \<bar>x\<bar> / 2 ^ 53"
    using ux by simp
  finally show ?thesis .
qed

lemma fl_sign: "fl x = Fin y \<Longrightarrow> 0 \<le> x \<Longrightarrow> 0 \<le> y"
  by (auto simp: fl_def Let_def round_even_nonneg split: if_splits)

text \<open>Integers of up to 53 bits are exact.\<close>

lemma fl_of_int_exact:
  assumes "\<bar>n\<bar> < 2 ^ 53"
  shows "fl (of_int n) = Fin (of_int n)"
proof (cases "n = 0")
  case False
  define x :: rat where "x = of_int n"
  have x: "0 < \<bar>x\<bar>"
    using False by (simp add: x_def)
  have "\<bar>x\<bar> < 2 ^ 53"
    using assms unfolding x_def by (metis of_int_abs of_int_less_iff of_int_numeral of_int_power)
  then have "(2 :: rat) powi ilog2 \<bar>x\<bar> < 2 powi 53"
    using ilog2_bounds(1) [OF x] by (simp add: power_int_def)
  then have "ilog2 \<bar>x\<bar> < 53"
    using power_int_increasing [of 53 "ilog2 \<bar>x\<bar>" "2 :: rat"] by fastforce
  then have e: "ulp_exp x \<le> 0"
    by (simp add: ulp_exp_def)
  then obtain k where k: "ulp_exp x = - int k"
    by (metis nonpos_int_cases)
  have xu: "x / 2 powi ulp_exp x = of_int (n * 2 ^ k)"
  proof -
    have "x / 2 powi ulp_exp x = x * 2 ^ k"
      by (simp add: k power_int_minus divide_inverse)
    then show ?thesis
      by (simp add: x_def)
  qed
  have "of_int (round_even (x / 2 powi ulp_exp x)) * 2 powi ulp_exp x
      = of_int (n * 2 ^ k) * (2 :: rat) powi (- int k)"
    unfolding xu round_even_of_int by (simp only: k)
  then have "of_int (round_even (x / 2 powi ulp_exp x)) * 2 powi ulp_exp x = x"
    by (simp add: x_def power_int_minus)
  moreover have "\<bar>x\<bar> < 2 ^ 1024"
    using \<open>\<bar>x\<bar> < 2 ^ 53\<close> power_increasing [of 53 1024 "2 :: rat"] by linarith
  ultimately show ?thesis
    using False by (simp add: fl_def Let_def x_def)
qed (simp add: fl_def)

lemma fl_numeral [simp]: "(numeral k :: int) < 2 ^ 53 \<Longrightarrow> fl (numeral k) = Fin (numeral k)"
  using fl_of_int_exact [of "numeral k"] by simp

lemma fl_0_1 [simp]: "fl 0 = Fin 0" "fl 1 = Fin 1"
  using fl_of_int_exact [of 1] by (simp_all add: fl_def)

lemma f_as_uint_of_int:
  "f_as_uint (Fin (of_int n)) =
     (if n \<le> 0 then 0 else if 2 ^ LENGTH('a) \<le> n then - 1 else of_int n :: 'a::len word)"
  by simp

text \<open>Subnormal numbers included, the error is half a unit in the last place.\<close>

lemma fl_abs_error:
  assumes "fl x = Fin y"
  shows "\<bar>y - x\<bar> \<le> \<bar>x\<bar> / 2 ^ 53 + 1 / 2 ^ 1075"
proof (cases "2 powi (- 1022) \<le> \<bar>x\<bar> \<or> x = 0")
  case True
  then have "\<bar>y - x\<bar> \<le> \<bar>x\<bar> / 2 ^ 53"
    using assms fl_error [OF assms] by (auto simp: fl_def)
  then show ?thesis
    by (rule order_trans) simp
next
  case small: False
  then have x: "0 < \<bar>x\<bar>"
    by simp
  have "2 powi ilog2 \<bar>x\<bar> < (2 :: rat) powi (- 1022)"
    using small ilog2_bounds(1) [OF x] by linarith
  then have "ilog2 \<bar>x\<bar> < - 1022"
    using power_int_increasing [of "- 1022" "ilog2 \<bar>x\<bar>" "2 :: rat"] by fastforce
  then have ulp: "ulp_exp x = - 1074"
    by (simp add: ulp_exp_def)
  define u :: rat where "u = 2 powi (- 1074)"
  have u: "0 < u"
    by (simp add: u_def)
  have "y = of_int (round_even (x / u)) * u"
    using assms small ulp by (simp add: fl_def Let_def u_def split: if_splits)
  then have "y - x = (of_int (round_even (x / u)) - x / u) * u"
    using u by (simp add: field_simps)
  then have "\<bar>y - x\<bar> = \<bar>of_int (round_even (x / u)) - x / u\<bar> * u"
    using u by (simp add: abs_mult)
  also have "\<dots> \<le> 1 / 2 * u"
    using round_even_error [of "x / u"] u by (intro mult_right_mono) auto
  also have "\<dots> = 1 / 2 ^ 1075"
    unfolding u_def power_int_minus by simp
  also have "\<dots> \<le> \<bar>x\<bar> / 2 ^ 53 + 1 / 2 ^ 1075"
    using x by (intro add_increasing) auto
  finally show ?thesis .
qed

lemma fl_nonneg: "0 \<le> x \<Longrightarrow> fl x = Inf False \<or> (\<exists>z. fl x = Fin z \<and> 0 \<le> z)"
proof -
  have "fl x \<noteq> NaN" "fl x = Inf b \<Longrightarrow> b = (x < 0)" for b
    unfolding fl_def Let_def by (auto split: if_splits)
  then show "0 \<le> x \<Longrightarrow> fl x = Inf False \<or> (\<exists>z. fl x = Fin z \<and> 0 \<le> z)"
    using fl_sign [of x] by (cases "fl x") auto
qed

text \<open>Numbers far below the largest double do not overflow.\<close>

lemma fl_finite:
  assumes "\<bar>x\<bar> \<le> 2 ^ 1000"
  shows "\<exists>y. fl x = Fin y"
proof (cases "x = 0")
  case False
  define u :: rat where "u = 2 powi ulp_exp x"
  have x: "0 < \<bar>x\<bar>"
    using False by simp
  have "(2 :: rat) powi ilog2 \<bar>x\<bar> < 2 powi 1001"
    using ilog2_bounds(1) [OF x] assms by (simp add: power_int_def)
  then have "ilog2 \<bar>x\<bar> < 1001"
    using power_int_increasing [of 1001 "ilog2 \<bar>x\<bar>" "2 :: rat"] by fastforce
  then have "u \<le> 2 powi 949"
    unfolding u_def ulp_exp_def by (intro power_int_increasing) auto
  then have u: "0 < u" "u \<le> 2 ^ 949"
    by (simp_all add: u_def power_int_def)
  have "\<bar>of_int (round_even (x / u))\<bar> \<le> \<bar>x / u\<bar> + 1 / 2"
    using round_even_error [of "x / u"] by linarith
  then have "\<bar>of_int (round_even (x / u))\<bar> * u \<le> (\<bar>x\<bar> / u + 1 / 2) * u"
    using u by (intro mult_right_mono) (auto simp: abs_divide)
  moreover have "(\<bar>x\<bar> / u + 1 / 2) * u = \<bar>x\<bar> + 1 / 2 * u"
    using u by (simp add: distrib_right)
  ultimately have "\<bar>of_int (round_even (x / u)) * u\<bar> \<le> \<bar>x\<bar> + 1 / 2 * u"
    using u by (simp add: abs_mult)
  also have "\<dots> \<le> 2 ^ 1000 + 1 / 2 * 2 ^ 949"
    using assms u by (intro add_mono mult_left_mono) auto
  also have "\<dots> < 2 ^ 1024"
    by simp
  finally show ?thesis
    using False by (simp add: fl_def Let_def u_def)
qed simp

text \<open>The cast to an unsigned type never rounds up, and loses less than one below its range.\<close>

lemma f_as_uint_le: "0 \<le> x \<Longrightarrow> of_nat (unat (f_as_uint (Fin x) :: 'a::len word)) \<le> x"
proof -
  assume x: "0 \<le> x"
  have fl: "of_int \<lfloor>x\<rfloor> \<le> x" "0 \<le> \<lfloor>x\<rfloor>"
    using x by auto
  have max: "int (unat (- 1 :: 'a word)) = 2 ^ LENGTH('a) - 1"
    by (simp add: uint_nat [symmetric] unsigned_minus_1_eq_mask mask_eq_exp_minus_1)
  have "int (unat (f_as_uint (Fin x) :: 'a word)) \<le> \<lfloor>x\<rfloor>"
  proof (cases "2 ^ LENGTH('a) \<le> \<lfloor>x\<rfloor> \<or> x \<le> 0")
    case True
    then show ?thesis
      using max fl by auto
  next
    case False
    then have "int (unat (of_int \<lfloor>x\<rfloor> :: 'a word)) = \<lfloor>x\<rfloor>"
      using fl by (simp add: uint_nat [symmetric] unsigned_of_int take_bit_int_eq_self)
    with False show ?thesis
      by simp
  qed
  then have "of_int (int (unat (f_as_uint (Fin x) :: 'a word))) \<le> (of_int \<lfloor>x\<rfloor> :: rat)"
    by (simp only: of_int_le_iff)
  with fl(1) show ?thesis
    by (simp only: of_int_of_nat_eq)
qed

lemma f_as_uint_floor:
  assumes "0 \<le> x" and "x < 2 ^ LENGTH('a)"
  shows "of_nat (unat (f_as_uint (Fin x) :: 'a::len word)) = (of_int \<lfloor>x\<rfloor> :: rat)"
proof (cases "x = 0")
  case False
  have lt: "\<lfloor>x\<rfloor> < 2 ^ LENGTH('a)"
    using assms by (simp add: floor_less_iff)
  then have "int (unat (of_int \<lfloor>x\<rfloor> :: 'a word)) = \<lfloor>x\<rfloor>"
    using assms by (simp add: uint_nat [symmetric] unsigned_of_int take_bit_int_eq_self)
  then have "of_int (int (unat (of_int \<lfloor>x\<rfloor> :: 'a word))) = (of_int \<lfloor>x\<rfloor> :: rat)"
    by simp
  with False assms(1) lt show ?thesis
    by simp
qed simp

lemma fl_factor:
  assumes "fl x = Fin y" and "0 \<le> x" and "x = 0 \<or> 2 powi (- 1022) \<le> x"
  shows "x * (1 - 1 / 2 ^ 53) \<le> y" "y \<le> x * (1 + 1 / 2 ^ 53)"
proof -
  have "\<bar>y - x\<bar> \<le> x / 2 ^ 53"
    using assms fl_error [OF assms(1)] by auto
  then have "x - x / 2 ^ 53 \<le> y" "y \<le> x + x / 2 ^ 53"
    by linarith+
  then show "x * (1 - 1 / 2 ^ 53) \<le> y" "y \<le> x * (1 + 1 / 2 ^ 53)"
    by (simp_all only: right_diff_distrib distrib_left mult_1_right times_divide_eq_right)
qed

lemma normal_ge: "x = 0 \<or> 1 / 10 ^ 40 \<le> x \<Longrightarrow> x = 0 \<or> 2 powi (- 1022) \<le> (x :: rat)"
proof -
  have "2 powi (- 1022) \<le> (1 / 10 ^ 40 :: rat)"
    by (simp add: power_int_minus field_simps)
  then show "x = 0 \<or> 1 / 10 ^ 40 \<le> x \<Longrightarrow> x = 0 \<or> 2 powi (- 1022) \<le> (x :: rat)"
    by linarith
qed

section \<open>Evaluation\<close>

lemma floor_rat_numeral [simp]: "\<lfloor>numeral a / numeral b :: rat\<rfloor> = numeral a div numeral b"
  using floor_divide_of_int_eq [of "numeral a" "numeral b", where 'a = rat] by simp

lemma ilog2_unique:
  assumes "2 powi e \<le> x" and "x < 2 powi (e + 1)"
  shows "ilog2 x = e"
proof -
  have "0 < (2 :: rat) powi e"
    by simp
  with assms(1) have "0 < x"
    by linarith
  note b = ilog2_bounds [OF this]
  have "(2 :: rat) powi e < 2 powi (ilog2 x + 1)" and "(2 :: rat) powi ilog2 x < 2 powi (e + 1)"
    using assms b by linarith+
  then have "e < ilog2 x + 1" and "ilog2 x < e + 1"
    using power_int_increasing [of "ilog2 x + 1" e "2 :: rat"]
      power_int_increasing [of "e + 1" "ilog2 x" "2 :: rat"] by fastforce+
  then show ?thesis
    by linarith
qed

lemma fl_eval:
  assumes "2 powi e \<le> x" and "x < 2 powi (e + 1)" and "- 1022 \<le> e"
    and "round_even (x / 2 powi (e - 52)) = m" and "of_int m * (2 :: rat) powi (e - 52) < 2 ^ 1024"
  shows "fl x = Fin (of_int m * 2 powi (e - 52))"
proof -
  have "0 < (2 :: rat) powi e"
    by simp
  with assms(1) have x: "0 < x"
    by linarith
  then have "0 \<le> round_even (x / 2 powi (e - 52))"
    by (intro round_even_nonneg) simp
  moreover have "ulp_exp x = e - 52"
    using x assms(3) ilog2_unique [OF assms(1,2)] by (simp add: ulp_exp_def)
  ultimately show ?thesis
    using x assms(4,5) by (simp add: fl_def Let_def abs_mult)
qed

end
