(* ===== verification/Amounts.thy ===== *)
theory Amounts
  imports Protocol F64
begin

text \<open>
  The crate \<open>amounts\<close>: the output amount of a swap (\<open>amount_out.rs\<close>) and the price storage
  (\<open>storage.rs\<close>). \<open>U256\<close> is the 256-bit word with the checked operations of the prelude; its
  \<open>pow\<close> wraps. The clock readings of \<open>PriceStorage\<close> are arguments.
\<close>

section \<open>Output amounts\<close>

datatype amount_error =
    InvalidPriceData f64
  | ArithmeticOverflow u256
  | DivisionByZero u256
  | AmountOverflow u256
  | AmountUnderflow u256

definition PRICE_DECIMALS :: nat where
  "PRICE_DECIMALS = 8"

definition rescale :: "u256 \<Rightarrow> u8 \<Rightarrow> u8 \<Rightarrow> (u256, amount_error) result" where
  "rescale amount from_decimals to_decimals =
     (let diff = uint to_decimals - uint from_decimals
      in if 0 < diff then ok_or (checked_mul amount (10 ^ nat diff)) (AmountOverflow amount)
         else if diff < 0 then ok_or (checked_div amount (10 ^ nat (- diff))) (AmountUnderflow amount)
         else Inr amount)"

text \<open>\<open>U256::from((price * price_scale).round() as u128)\<close>; \<open>10f64.powi(8)\<close> is exact.\<close>

definition price_fixed :: "f64 \<Rightarrow> u256" where
  "price_fixed price = ucast (f_as_uint (f_round (f_mul price (Fin (10 ^ PRICE_DECIMALS)))) :: u128)"

definition spread_bps :: "f64 \<Rightarrow> u32" where
  "spread_bps spread_percent = f_as_uint (f_mul spread_percent (Fin 100))"

definition amount_out ::
  "u256 \<Rightarrow> f64 \<Rightarrow> u8 \<Rightarrow> f64 \<Rightarrow> u8 \<Rightarrow> f64 \<Rightarrow> (u256, amount_error) result" where
  "amount_out amount_in source_usd_price source_decimals destination_usd_price
       destination_decimals spread_percent =
     (if \<not> is_finite source_usd_price \<or> f_lt source_usd_price (Fin 0)
      then Inl (InvalidPriceData source_usd_price)
      else if \<not> is_finite destination_usd_price \<or> f_le destination_usd_price (Fin 0)
      then Inl (InvalidPriceData destination_usd_price)
      else if \<not> (f_le (Fin 0) spread_percent \<and> f_lt spread_percent (Fin 100))
      then Inl (InvalidPriceData spread_percent)
      else
        let source_price_fixed = price_fixed source_usd_price;
            dest_price_fixed = price_fixed destination_usd_price
        in r_bind (ok_or (checked_mul amount_in source_price_fixed) (ArithmeticOverflow amount_in)) (\<lambda>m.
           r_bind (ok_or (checked_div m dest_price_fixed) (DivisionByZero dest_price_fixed))
             (\<lambda>output_in_source_decimals.
           let spread_multiplier = ucast (saturating_sub 10000 (spread_bps spread_percent)) :: u256;
               spread_divisor = 10000 :: u256
           in r_bind (ok_or (checked_mul output_in_source_decimals spread_multiplier)
                       (ArithmeticOverflow output_in_source_decimals)) (\<lambda>m'.
              r_bind (ok_or (checked_div m' spread_divisor) (DivisionByZero spread_divisor))
                (\<lambda>output_after_spread.
                   rescale output_after_spread source_decimals destination_decimals)))))"

lemma ten_pow_word_neq_0: "n \<le> 255 \<Longrightarrow> (10 :: u256) ^ n \<noteq> 0"
proof
  assume n: "n \<le> 255" and zero: "(10 :: u256) ^ n = 0"
  from zero have "of_nat (10 ^ n) = (0 :: u256)"
    by simp
  then have "2 ^ LENGTH(256) dvd (10 :: nat) ^ n"
    by (simp only: word_of_nat_eq_0_iff)
  then have "2 ^ 256 dvd (10 :: nat) ^ n"
    by (simp only: len_num1 len_bit0 mult_numeral_1_right) simp
  moreover have "(10 :: nat) ^ n = 2 ^ n * 5 ^ n"
    by (simp flip: power_mult_distrib)
  moreover have "coprime (2 :: nat) 5"
    by code_simp
  then have "coprime ((2 :: nat) ^ 256) (5 ^ n)"
    by (simp only: coprime_power_left_iff coprime_power_right_iff simp_thms)
  ultimately have "(2 :: nat) ^ 256 dvd 2 ^ n"
    by (metis coprime_dvd_mult_left_iff)
  then have "256 \<le> n"
    by (rule power_dvd_imp_le) simp
  with n show False
    by simp
qed

lemma unat_ten_pow: "n \<le> 77 \<Longrightarrow> unat ((10 :: u256) ^ n) = 10 ^ n"
proof -
  assume "n \<le> 77"
  then have "(10 :: nat) ^ n \<le> 10 ^ 77"
    by (intro power_increasing) auto
  also have "\<dots> < 2 ^ 256"
    by simp
  finally have "unat (of_nat (10 ^ n) :: u256) = 10 ^ n"
    by (simp only: unsigned_of_nat) (simp add: take_bit_nat_eq_self)
  then show ?thesis
    by simp
qed

lemma unat_ucast_up: "unat (ucast (w :: 'a::len word) :: u256) = unat w" if "LENGTH('a) \<le> 256"
proof -
  have "unat w < 2 ^ LENGTH('a)"
    by (rule unsigned_less)
  also have "(2 :: nat) ^ LENGTH('a) \<le> 2 ^ 256"
    using that by (intro power_increasing) auto
  finally have "take_bit 256 (unat w) = unat w"
    by (rule take_bit_nat_eq_self)
  then show ?thesis
    by (simp add: unsigned_ucast_eq)
qed

lemma unat_spread_multiplier:
  "unat (ucast (saturating_sub 10000 (bps :: u32)) :: u256) = 10000 - unat bps"
  by (simp add: unat_ucast_up rust_arith)

lemma uint_minus_nat: "nat (uint (x :: 'a::len word) - uint y) = unat x - unat y"
proof -
  have "nat (int (unat x) - int (unat y)) = unat x - unat y"
    by linarith
  then show ?thesis
    by (simp only: uint_nat)
qed

lemma rescale_up:
  "unat fd < unat td \<Longrightarrow>
   rescale a fd td = ok_or (checked_mul a (10 ^ (unat td - unat fd))) (AmountOverflow a)"
  unfolding rescale_def Let_def diff_gt_0_iff_gt uint_minus_nat [symmetric]
  by (simp only: uint_nat of_nat_less_iff if_True)

lemma rescale_down:
  "unat td < unat fd \<Longrightarrow>
   rescale a fd td = ok_or (checked_div a (10 ^ (unat fd - unat td))) (AmountUnderflow a)"
  unfolding rescale_def Let_def diff_gt_0_iff_gt diff_less_0_iff_less minus_diff_eq
    uint_minus_nat [symmetric]
  by (simp only: uint_nat of_nat_less_iff) simp

lemma rescale_same: "unat fd = unat td \<Longrightarrow> rescale a fd td = Inr a"
  by (simp add: rescale_def word_unat_eq_iff [symmetric])

text \<open>\<open>rescale\<close> on numbers, for the decimals that keep the power of ten inside 256 bits.\<close>

lemma rescale_value:
  assumes "rescale a fd td = Inr out" and "unat fd \<le> 77" and "unat td \<le> 77"
  shows "unat out = (if unat fd \<le> unat td then unat a * 10 ^ (unat td - unat fd)
                     else unat a div 10 ^ (unat fd - unat td))"
proof -
  consider "unat fd < unat td" | "unat td < unat fd" | "unat fd = unat td"
    by linarith
  then show ?thesis
  proof cases
    case 1
    with assms(1) have "checked_mul a (10 ^ (unat td - unat fd)) = Some out"
      by (simp add: rescale_up ok_or_eq_Inr)
    with 1 assms(3) show ?thesis
      by (simp add: checked_mul_eq_Some unat_ten_pow)
  next
    case 2
    with assms(1) have "checked_div a (10 ^ (unat fd - unat td)) = Some out"
      by (simp add: rescale_down ok_or_eq_Inr)
    with 2 assms(2) show ?thesis
      by (simp add: checked_div_eq_Some unat_ten_pow)
  next
    case 3
    with assms(1) show ?thesis
      by (simp add: rescale_same)
  qed
qed

text \<open>The fair value: cross-multiplied, so that no rounding is hidden in it.\<close>

lemma rescale_le_fair:
  assumes "rescale a fd td = Inr out" and "unat fd \<le> 77" and "unat td \<le> 77"
  shows "unat out * 10 ^ unat fd \<le> unat a * 10 ^ unat td"
proof (cases "unat fd \<le> unat td")
  case True
  then have "(10 :: nat) ^ unat td = 10 ^ (unat td - unat fd) * 10 ^ unat fd"
    by (simp flip: power_add)
  with True show ?thesis
    by (simp add: rescale_value [OF assms])
next
  case False
  then have "(10 :: nat) ^ unat fd = 10 ^ (unat fd - unat td) * 10 ^ unat td"
    by (simp flip: power_add)
  with False show ?thesis
    by (simp add: rescale_value [OF assms] flip: mult.assoc)
qed

lemma amount_out_steps:
  assumes "amount_out ain sp sd dp dd spread = Inr out"
  shows "price_fixed dp \<noteq> 0 \<and>
    (\<exists>net. unat net = unat ain * unat (price_fixed sp) div unat (price_fixed dp)
                        * (10000 - unat (spread_bps spread)) div 10000 \<and>
           rescale net sd dd = Inr out)"
proof -
  from assms obtain m q m' net where steps:
      "checked_mul ain (price_fixed sp) = Some m" "checked_div m (price_fixed dp) = Some q"
      "checked_mul q (ucast (saturating_sub 10000 (spread_bps spread))) = Some m'"
      "checked_div m' 10000 = Some net" "rescale net sd dd = Inr out"
    unfolding amount_out_def Let_def by (simp only: result_simps) blast
  have "unat m = unat ain * unat (price_fixed sp)"
    and "price_fixed dp \<noteq> 0" "unat q = unat m div unat (price_fixed dp)"
    and "unat m' = unat q * (10000 - unat (spread_bps spread))"
    and "unat net = unat m' div 10000"
    using steps(1-4) by (simp_all add: rust_arith unat_spread_multiplier)
  with steps(5) show ?thesis
    by auto
qed

lemma div_mult_le_cross: "(a * p div q * b div c) * (q * c) \<le> a * p * (b :: nat)"
proof -
  have "(a * p div q * b div c) * (q * c) = (a * p div q * b div c * c) * q"
    by simp
  also have "\<dots> \<le> (a * p div q * b) * q"
    by (intro mult_right_mono div_times_less_eq_dividend) simp
  also have "\<dots> = (a * p div q * q) * b"
    by simp
  also have "\<dots> \<le> a * p * b"
    by (intro mult_right_mono div_times_less_eq_dividend) simp
  finally show ?thesis .
qed

lemma amount_out_le_fair:
  assumes "amount_out ain sp sd dp dd spread = Inr out" and "unat sd \<le> 77" and "unat dd \<le> 77"
  shows "unat out * unat (price_fixed dp) * 10000 * 10 ^ unat sd
     \<le> unat ain * unat (price_fixed sp) * (10000 - unat (spread_bps spread)) * 10 ^ unat dd"
proof -
  let ?P = "unat (price_fixed sp)" and ?Q = "unat (price_fixed dp)"
  let ?b = "10000 - unat (spread_bps spread)"
  from amount_out_steps [OF assms(1)] obtain net
    where net: "unat net = unat ain * ?P div ?Q * ?b div 10000" and "rescale net sd dd = Inr out"
    by blast
  then have "unat out * 10 ^ unat sd \<le> unat net * 10 ^ unat dd"
    using assms(2,3) rescale_le_fair by blast
  then have "(unat out * 10 ^ unat sd) * (?Q * 10000) \<le> (unat net * 10 ^ unat dd) * (?Q * 10000)"
    by (rule mult_right_mono) simp
  also have "\<dots> = (unat net * (?Q * 10000)) * 10 ^ unat dd"
    by simp
  also have "\<dots> \<le> (unat ain * ?P * ?b) * 10 ^ unat dd"
    unfolding net by (rule mult_right_mono [OF div_mult_le_cross]) simp
  finally show ?thesis
    by (simp add: ac_simps)
qed

subsection \<open>Prices and the spread as numbers\<close>

lemma price_fixed_nat:
  "unat (price_fixed p) = unat (f_as_uint (f_round (f_mul p (Fin (10 ^ PRICE_DECIMALS)))) :: u128)"
  by (simp add: price_fixed_def unat_ucast_up)

lemma price_fixed_bound: "unat (price_fixed p) < 2 ^ 128"
  unfolding price_fixed_nat by (rule order_less_le_trans [OF unsigned_less]) simp

text \<open>The stored price is the quoted one up to half a unit of the eighth decimal, in both directions.\<close>

lemma price_fixed_upper:
  assumes s: "0 \<le> s"
  shows "of_nat (unat (price_fixed (Fin s))) \<le> s * 10 ^ 8 * (1 + 1 / 2 ^ 53) + 1 / 2"
proof (cases "fl (s * 10 ^ 8)")
  case (Fin y)
  have y: "0 \<le> y"
    using fl_sign [OF Fin] s by simp
  have P: "of_nat (unat (price_fixed (Fin s))) \<le> (of_int \<lfloor>y + 1 / 2\<rfloor> :: rat)"
    using f_as_uint_le [of "of_int \<lfloor>y + 1 / 2\<rfloor>", where 'a = 128] y Fin
    by (simp add: price_fixed_nat PRICE_DECIMALS_def round_away_def del: f_as_uint.simps)
  show ?thesis
  proof (cases "1 / 4 \<le> s * 10 ^ 8")
    case True
    have "(2 :: rat) powi (- 1022) \<le> 1 / 4"
      by (simp add: power_int_minus field_simps)
    with True s have "\<bar>y - s * 10 ^ 8\<bar> \<le> s * 10 ^ 8 / 2 ^ 53"
      using fl_error [OF Fin] by (simp add: abs_of_nonneg)
    then have "y \<le> s * 10 ^ 8 * (1 + 1 / 2 ^ 53)"
      by (simp only: abs_le_iff distrib_left mult_1_right times_divide_eq_right) linarith
    with P show ?thesis
      using of_int_floor_le [of "y + 1 / 2"] by linarith
  next
    case False
    have "\<bar>s * 10 ^ 8\<bar> / 2 ^ 53 \<le> 1 / 16" "(1 :: rat) / 2 ^ 1075 \<le> 1 / 16"
      using False s by simp_all
    then have "y < 1 / 2"
      using fl_abs_error [OF Fin] False by linarith
    then have "\<lfloor>y + 1 / 2\<rfloor> = 0"
      using y by linarith
    with P s show ?thesis
      by (simp add: add_nonneg_nonneg)
  qed
next
  case (Inf b)
  have "\<not> s * 10 ^ 8 \<le> 2 ^ 1000"
    using fl_finite [of "s * 10 ^ 8"] s Inf by auto
  moreover have "of_nat (unat (price_fixed (Fin s))) < (2 ^ 128 :: rat)"
    using price_fixed_bound [of "Fin s"] by (metis of_nat_less_iff of_nat_numeral of_nat_power)
  moreover have "s * 10 ^ 8 * (1 + 1 / 2 ^ 53) = s * 10 ^ 8 + s * 10 ^ 8 / 2 ^ 53" "0 \<le> s * 10 ^ 8 / 2 ^ 53"
    using s by (simp_all add: distrib_left)
  moreover have "(2 :: rat) ^ 128 \<le> 2 ^ 1000"
    by simp
  ultimately show ?thesis
    by linarith
next
  case NaN
  then show ?thesis
    using fl_nonneg [of "s * 10 ^ 8"] s by auto
qed

lemma price_fixed_lower:
  assumes d: "0 \<le> d" "d \<le> 10 ^ 30"
  shows "d * 10 ^ 8 * (1 - 1 / 2 ^ 53) - 1 / 2 \<le> of_nat (unat (price_fixed (Fin d)))"
proof (cases "1 / 4 \<le> d * 10 ^ 8")
  case True
  have le: "d * 10 ^ 8 \<le> 10 ^ 38"
    using d(2) by simp
  obtain y where y: "fl (d * 10 ^ 8) = Fin y"
    using fl_finite [of "d * 10 ^ 8"] le d(1) by fastforce
  have "(2 :: rat) powi (- 1022) \<le> 1 / 4"
    by (simp add: power_int_minus field_simps)
  with True d have err: "\<bar>y - d * 10 ^ 8\<bar> \<le> d * 10 ^ 8 / 2 ^ 53"
    using fl_error [OF y] by (simp add: abs_of_nonneg)
  then have lo: "d * 10 ^ 8 * (1 - 1 / 2 ^ 53) \<le> y"
    by (simp only: abs_le_iff right_diff_distrib mult_1_right times_divide_eq_right) linarith
  have y0: "0 \<le> y"
    using fl_sign [OF y] d by simp
  have "d * 10 ^ 8 / 2 ^ 53 \<le> 10 ^ 38 / 2 ^ 53"
    using le by (intro divide_right_mono) auto
  moreover have "y \<le> d * 10 ^ 8 + d * 10 ^ 8 / 2 ^ 53"
    using err by linarith
  moreover have "(10 :: rat) ^ 38 + 10 ^ 38 / 2 ^ 53 + 1 / 2 < 2 ^ 128"
    by simp
  ultimately have "y + 1 / 2 < 2 ^ 128"
    using le by linarith
  then have "of_nat (unat (price_fixed (Fin d))) = (of_int \<lfloor>y + 1 / 2\<rfloor> :: rat)"
    using f_as_uint_floor [of "of_int \<lfloor>y + 1 / 2\<rfloor>", where 'a = 128] y y0
    by (simp add: price_fixed_nat PRICE_DECIMALS_def round_away_def order_le_less_trans [OF of_int_floor_le]
        del: f_as_uint.simps)
  with lo show ?thesis
    by linarith
next
  case False
  have "d * 10 ^ 8 * (1 - 1 / 2 ^ 53) \<le> d * 10 ^ 8"
    using d(1) by (intro mult_left_le) auto
  then have "d * 10 ^ 8 * (1 - 1 / 2 ^ 53) - 1 / 2 \<le> 0"
    using False by linarith
  also have "0 \<le> (of_nat (unat (price_fixed (Fin d))) :: rat)"
    by (rule of_nat_0_le_iff)
  finally show ?thesis .
qed

text \<open>The spread loses less than one basis point to truncation (and the rounding of the product).\<close>

lemma spread_bps_lower:
  assumes x: "0 \<le> x" "x < 100"
  shows "x * 100 * (1 - 1 / 2 ^ 53) - 1 \<le> of_nat (unat (spread_bps (Fin x)))"
proof (cases "1 \<le> x * 100")
  case True
  obtain y where y: "fl (x * 100) = Fin y"
    using fl_finite [of "x * 100"] x by fastforce
  have "(2 :: rat) powi (- 1022) \<le> 1"
    by (simp add: power_int_minus field_simps)
  with True have err: "\<bar>y - x * 100\<bar> \<le> x * 100 / 2 ^ 53"
    using fl_error [OF y] by simp
  then have lo: "x * 100 * (1 - 1 / 2 ^ 53) \<le> y"
    by (simp only: abs_le_iff right_diff_distrib mult_1_right times_divide_eq_right) linarith
  have "x * 100 / 2 ^ 53 \<le> 1"
    using x by simp
  then have "y \<le> 10001"
    using err x by linarith
  then have "0 \<le> y" "y < 2 ^ 32"
    using fl_sign [OF y] x by simp_all
  then have "of_nat (unat (spread_bps (Fin x))) = (of_int \<lfloor>y\<rfloor> :: rat)"
    using f_as_uint_floor [of y, where 'a = 32] y by (simp add: spread_bps_def del: f_as_uint.simps)
  with lo show ?thesis
    by linarith
next
  case False
  have "x * 100 * (1 - 1 / 2 ^ 53) \<le> x * 100"
    using x(1) by (intro mult_left_le) auto
  then have "x * 100 * (1 - 1 / 2 ^ 53) - 1 \<le> 0"
    using False by linarith
  also have "0 \<le> (of_nat (unat (spread_bps (Fin x))) :: rat)"
    by (rule of_nat_0_le_iff)
  finally show ?thesis .
qed

lemma of_nat_monus: "of_nat (k - n) = max 0 (of_nat k - of_nat n :: rat)" for k n :: nat
  by (cases "n \<le> k") (simp_all add: of_nat_diff)

lemma amount_out_valid:
  assumes "amount_out ain (Fin s) sd (Fin d) dd (Fin x) = Inr out"
  shows "0 \<le> s" "0 < d" "0 \<le> x" "x < 100"
  using assms by (auto simp: amount_out_def split: if_splits)

lemma amount_out_le_quoted:
  assumes "amount_out ain (Fin s) sd (Fin d) dd (Fin x) = Inr out"
    and "unat sd \<le> 77" and "unat dd \<le> 77" and "d \<le> 10 ^ 30"
  shows "of_nat (unat out) / 10 ^ unat dd * (d * (1 - 1 / 2 ^ 53) - 5 / 10 ^ 9)
     \<le> of_nat (unat ain) / 10 ^ unat sd * (s * (1 + 1 / 2 ^ 53) + 5 / 10 ^ 9)
          * (1 - (x * (1 - 1 / 2 ^ 53) - 1 / 100) / 100)"
proof -
  note v = amount_out_valid [OF assms(1)]
  define P Q b o' a where "P = (of_nat (unat (price_fixed (Fin s))) :: rat)"
    and "Q = (of_nat (unat (price_fixed (Fin d))) :: rat)"
    and "b = (of_nat (10000 - unat (spread_bps (Fin x))) :: rat)"
    and "o' = of_nat (unat out) / (10 :: rat) ^ unat dd" and "a = of_nat (unat ain) / (10 :: rat) ^ unat sd"
  have nn: "0 \<le> P" "0 \<le> Q" "0 \<le> b" "0 \<le> o'" "0 \<le> a"
    unfolding P_def Q_def b_def o'_def a_def by (intro divide_nonneg_nonneg of_nat_0_le_iff zero_le_power; simp)+
  have P: "P \<le> s * 10 ^ 8 * (1 + 1 / 2 ^ 53) + 1 / 2"
    unfolding P_def using v(1) by (rule price_fixed_upper)
  have Q: "d * 10 ^ 8 * (1 - 1 / 2 ^ 53) - 1 / 2 \<le> Q"
    unfolding Q_def using v(2) assms(4) by (intro price_fixed_lower) auto
  have "b = max 0 (of_nat 10000 - of_nat (unat (spread_bps (Fin x))))"
    unfolding b_def by (rule of_nat_monus)
  moreover have "x * (1 - 1 / 2 ^ 53) \<le> 100"
    using v(3,4) by (intro order_trans [OF mult_left_le [of _ x]]) auto
  ultimately have b: "b \<le> 10000 * (1 - (x * (1 - 1 / 2 ^ 53) - 1 / 100) / 100)"
    using spread_bps_lower [OF v(3,4)] by (simp add: max_def)
  have "of_nat (unat out * unat (price_fixed (Fin d)) * 10000 * 10 ^ unat sd)
      \<le> (of_nat (unat ain * unat (price_fixed (Fin s)) * (10000 - unat (spread_bps (Fin x))) * 10 ^ unat dd) :: rat)"
    using amount_out_le_fair [OF assms(1-3)] by (simp only: of_nat_le_iff)
  then have "o' * Q * 10000 \<le> a * P * b"
    unfolding P_def Q_def b_def o'_def a_def by (simp add: divide_simps mult_ac del: of_nat_diff)
  define D S K where "D = d * (1 - 1 / 2 ^ 53)" and "S = s * (1 + 1 / 2 ^ 53)"
    and "K = 1 - (x * (1 - 1 / 2 ^ 53) - 1 / 100) / 100"
  have P': "P \<le> S * 10 ^ 8 + 1 / 2" and Q': "D * 10 ^ 8 - 1 / 2 \<le> Q" and b': "b \<le> 10000 * K"
    using P Q b by (simp_all only: D_def S_def K_def mult_ac)
  have "o' * (D * 10 ^ 8 - 1 / 2) * 10000 \<le> o' * Q * 10000"
    using Q' nn by (intro mult_right_mono mult_left_mono) auto
  also have "\<dots> \<le> a * P * b"
    by fact
  also have "\<dots> \<le> a * (S * 10 ^ 8 + 1 / 2) * (10000 * K)"
    using P' b' nn by (intro mult_mono mult_left_mono mult_nonneg_nonneg) auto
  finally have "10 ^ 12 * (o' * (D - 5 / 10 ^ 9)) \<le> 10 ^ 12 * (a * (S + 5 / 10 ^ 9) * K)"
    by (simp add: algebra_simps)
  then have "o' * (D - 5 / 10 ^ 9) \<le> a * (S + 5 / 10 ^ 9) * K"
    by (rule mult_left_le_imp_le) simp
  then show ?thesis
    by (simp only: o'_def a_def D_def S_def K_def)
qed

text \<open>
  (C13) A market maker never pays more than the fair value less the spread, in the quoted prices and
  the configured spread themselves: the output in coins, valued at the quoted destination price
  less half a unit of its eighth decimal, is at most the input in coins, valued at the quoted
  source price plus half a unit of its eighth decimal, times one minus the spread, where less
  than one basis point of the spread is lost. The factors \<open>1 - 1 / 2 ^ 53\<close> and \<open>1 + 1 / 2 ^ 53\<close>
  are the rounding of the products with \<open>10 ^ 8\<close> and 100. The three places where the code rounds
  prices and spread are not in the maker's favour, which is why the slack is there; the divisions
  and the change of decimals are. The destination price is at most \<open>10 ^ 30\<close>, so that it does not
  saturate at 128 bits, and the decimals are at most 77.
\<close>

theorem amount_out_at_most_fair:
  assumes "amount_out ain (Fin s) sd (Fin d) dd (Fin x) = Inr out"
    and "unat sd \<le> 77" and "unat dd \<le> 77" and "d \<le> 10 ^ 30"
  shows "of_nat (unat out) / 10 ^ unat dd * (d * (1 - 1 / 2 ^ 53) - 5 / 10 ^ 9)
     \<le> of_nat (unat ain) / 10 ^ unat sd * (s * (1 + 1 / 2 ^ 53) + 5 / 10 ^ 9)
          * (1 - (x * (1 - 1 / 2 ^ 53) - 1 / 100) / 100)"
  using assms by (rule amount_out_le_quoted)

lemma price_fixed_2_3: "price_fixed (Fin 2) = 200000000" "price_fixed (Fin 3) = 300000000"
  by (simp_all add: price_fixed_def PRICE_DECIMALS_def round_away_def)

theorem amount_out_at_most_fair_witness:
  "amount_out 1000 (Fin 2) 8 (Fin 3) 8 (Fin 1) = Inr 659 \<and>
   of_nat (unat (659 :: u256)) / 10 ^ unat (8 :: u8) * (3 * (1 - 1 / 2 ^ 53) - 5 / 10 ^ 9 :: rat)
     \<le> of_nat (unat (1000 :: u256)) / 10 ^ unat (8 :: u8) * (2 * (1 + 1 / 2 ^ 53) + 5 / 10 ^ 9)
          * (1 - (1 * (1 - 1 / 2 ^ 53) - 1 / 100) / 100)"
proof -
  have eval: "amount_out 1000 (Fin 2) 8 (Fin 3) 8 (Fin 1) = Inr 659"
    by (simp add: amount_out_def price_fixed_2_3 Let_def spread_bps_def rescale_def
        checked_mul_def checked_div_def saturating_sub_def)
  show ?thesis
    by (intro conjI eval amount_out_at_most_fair [OF eval]) simp_all
qed

text \<open>
  Totality: with valid prices and spread, a destination price of at least half a unit of the
  eighth decimal and enough headroom below 256 bits, the computation succeeds; no valid quote is
  lost to an error.
\<close>

theorem amount_out_succeeds:
  assumes valid: "sp = Fin s" "0 \<le> s" "dp = Fin d" "0 < d" "spread = Fin x" "0 \<le> x" "x < 100"
    and dest: "price_fixed dp \<noteq> 0"
    and room: "unat ain * unat (price_fixed sp) * 10000 * 10 ^ unat dd < 2 ^ 256"
    and dec: "unat sd \<le> 77" "unat dd \<le> 77"
  shows "is_ok (amount_out ain sp sd dp dd spread)"
proof -
  let ?P = "unat (price_fixed sp)" and ?Q = "unat (price_fixed dp)"
  let ?k = "ucast (saturating_sub 10000 (spread_bps spread)) :: u256"
  have room1: "unat ain * ?P * 10000 < 2 ^ 256"
    using room by (rule le_less_trans [rotated]) simp
  have lt1: "unat ain * ?P < 2 ^ 256"
    using room1 by linarith
  then have m: "checked_mul ain (price_fixed sp) = Some (ain * price_fixed sp)"
    by (simp add: checked_mul_def)
  define q where "q = (ain * price_fixed sp) div price_fixed dp"
  have q: "checked_div (ain * price_fixed sp) (price_fixed dp) = Some q"
    using dest by (simp add: checked_div_def q_def)
  have um: "unat (ain * price_fixed sp) = unat ain * ?P"
    using m by (simp only: checked_mul_eq_Some)
  have uq: "unat q \<le> unat ain * ?P"
    using q by (simp only: checked_div_eq_Some um) simp
  have k: "unat ?k \<le> 10000"
    by (simp add: unat_spread_multiplier)
  have "unat q * unat ?k \<le> unat ain * ?P * 10000"
    using uq k by (rule mult_le_mono)
  then have m': "checked_mul q ?k = Some (q * ?k)"
    using room1 by (simp add: checked_mul_def)
  define net where "net = (q * ?k) div 10000"
  have n: "checked_div (q * ?k) 10000 = Some net"
    by (simp add: checked_div_def net_def)
  have "unat (q * ?k) = unat q * unat ?k"
    using m' by (simp only: checked_mul_eq_Some)
  then have unet: "unat net = unat q * unat ?k div 10000"
    using n by (simp only: checked_div_eq_Some) simp
  have "unat net \<le> unat q"
    unfolding unet using k mult_le_mono [of "unat q" "unat q" "unat ?k" 10000]
    by (simp add: div_le_mono [of _ "unat q * 10000" 10000, simplified])
  with uq have net_le: "unat net \<le> unat ain * ?P"
    by linarith
  have "is_ok (rescale net sd dd)"
  proof (cases "unat sd < unat dd")
    case True
    have "unat net * 10 ^ (unat dd - unat sd) \<le> unat ain * ?P * 10 ^ unat dd"
      using net_le by (intro mult_le_mono power_increasing) auto
    also have "\<dots> \<le> unat ain * ?P * 10000 * 10 ^ unat dd"
      by simp
    finally have "unat net * 10 ^ (unat dd - unat sd) < 2 ^ 256"
      using room by linarith
    moreover have "unat ((10 :: u256) ^ (unat dd - unat sd)) = 10 ^ (unat dd - unat sd)"
      using dec by (simp add: unat_ten_pow)
    ultimately have "checked_mul net (10 ^ (unat dd - unat sd)) \<noteq> None"
      by (simp add: checked_mul_def)
    then show ?thesis
      using True by (auto simp: rescale_up)
  next
    case False
    have "(10 :: u256) ^ (unat sd - unat dd) \<noteq> 0"
      using dec by (simp add: ten_pow_word_neq_0)
    then have "checked_div net (10 ^ (unat sd - unat dd)) \<noteq> None"
      by (simp add: checked_div_def)
    with False show ?thesis
      by (cases "unat dd = unat sd") (auto simp: rescale_down rescale_same)
  qed
  moreover have "is_finite sp" "\<not> f_lt sp (Fin 0)" "is_finite dp" "\<not> f_le dp (Fin 0)"
      "f_le (Fin 0) spread" "f_lt spread (Fin 100)"
    using valid by simp_all
  ultimately show ?thesis
    by (simp add: amount_out_def Let_def m q m' n)
qed

theorem amount_out_succeeds_witness:
  "is_ok (amount_out 1000 (Fin 2) 8 (Fin 3) 18 (Fin 1))"
  by (rule amount_out_succeeds [where s = 2 and d = 3 and x = 1]) (simp_all add: price_fixed_2_3)

text \<open>
  The spread in basis points is truncated from a rounded product, so a configured spread can
  lose a basis point: 0.29 percent is charged as 28 basis points, not 29.
\<close>

theorem spread_029_is_28_bps: "spread_bps (fl (29 / 100)) = 28"
proof -
  have "fl (29 / 100) = Fin (of_int 5224175567749775 * 2 powi (- 2 - 52))"
    by (rule fl_eval) (simp_all add: power_int_def power_one_over round_even_def Let_def)
  moreover have "fl (of_int 5224175567749775 * 2 powi (- 2 - 52) * 100)
      = Fin (of_int 8162774324609023 * 2 powi (4 - 52))"
    by (rule fl_eval) (simp_all add: power_int_def power_one_over round_even_def Let_def)
  ultimately show ?thesis
    by (simp add: spread_bps_def power_int_def power_one_over)
qed

section \<open>Price storage\<close>

definition DEFAULT_MAX_AGE_SECS :: u64 where
  "DEFAULT_MAX_AGE_SECS = 300"

definition MAX_JUMP_RATIO :: f64 where
  "MAX_JUMP_RATIO = Fin (1 / 2)"

record price_storage =
  ps_channels :: "(channel_id, unit) hashmap"
  ps_prices :: "(channel_id, f64 \<times> u64) hashmap"
  ps_max_age_secs :: u64

definition ps_with_max_age :: "channel_id list \<Rightarrow> u64 \<Rightarrow> price_storage" where
  "ps_with_max_age chs max_age =
     \<lparr>ps_channels = fold (\<lambda>ch. hm_insert ch ()) chs hm_empty, ps_prices = hm_empty,
      ps_max_age_secs = max_age\<rparr>"

definition ps_new :: "channel_id list \<Rightarrow> price_storage" where
  "ps_new chs = ps_with_max_age chs DEFAULT_MAX_AGE_SECS"

definition ps_get :: "u64 \<Rightarrow> price_storage \<Rightarrow> channel_id \<Rightarrow> f64 option" where
  "ps_get now_unix ps ch =
     Option.bind (hm_get (ps_prices ps) ch) (\<lambda>(price, ts).
       if is_finite price \<and> f_lt (Fin 0) price \<and> saturating_sub now_unix ts \<le> ps_max_age_secs ps
       then Some price else None)"

definition ps_channels_list :: "price_storage \<Rightarrow> channel_id list" where
  "ps_channels_list ps = map fst (hm_iter (ps_channels ps))"

text \<open>\<open>set\<close> reads the clock twice: for the staleness of the last price, and for the new entry.\<close>

definition ps_set :: "u64 \<Rightarrow> u64 \<Rightarrow> price_storage \<Rightarrow> channel_id \<Rightarrow> f64 \<Rightarrow> price_storage" where
  "ps_set now_get now_insert ps ch price =
     (if \<not> is_finite price \<or> f_le price (Fin 0) then ps
      else if (case ps_get now_get ps ch of
                 Some prev \<Rightarrow> f_lt MAX_JUMP_RATIO (f_div (f_abs (f_sub price prev)) prev)
               | None \<Rightarrow> False) then ps
      else ps\<lparr>ps_channels := hm_insert ch () (ps_channels ps),
              ps_prices := hm_insert ch (price, now_insert) (ps_prices ps)\<rparr>)"

definition positive_price :: "f64 \<Rightarrow> bool" where
  "positive_price p = (\<exists>x. p = Fin x \<and> 0 < x)"

lemma positive_price_iff: "is_finite p \<and> f_lt (Fin 0) p \<longleftrightarrow> positive_price p"
  by (cases p) (simp_all add: positive_price_def)

lemma positive_price_iff2: "\<not> is_finite p \<or> f_le p (Fin 0) \<longleftrightarrow> \<not> positive_price p"
  by (cases p) (auto simp: positive_price_def)

lemma ps_get_Some:
  "ps_get now_unix ps ch = Some p \<longleftrightarrow>
     positive_price p \<and> (\<exists>ts. hm_get (ps_prices ps) ch = Some (p, ts) \<and>
        unat now_unix - unat ts \<le> unat (ps_max_age_secs ps))"
  by (auto simp: ps_get_def positive_price_iff [symmetric] word_le_nat_alt rust_arith
      split: option.splits bind_splits if_splits)

lemma ps_set_cases:
  obtains (unchanged) "ps_set ng ni ps ch p = ps"
  | (stored) "positive_price p" and
    "\<And>prev. ps_get ng ps ch = Some prev \<Longrightarrow>
       \<not> f_lt MAX_JUMP_RATIO (f_div (f_abs (f_sub p prev)) prev)" and
    "ps_set ng ni ps ch p = ps\<lparr>ps_channels := hm_insert ch () (ps_channels ps),
        ps_prices := hm_insert ch (p, ni) (ps_prices ps)\<rparr>"
proof (cases "positive_price p \<and> (\<forall>prev. ps_get ng ps ch = Some prev \<longrightarrow>
       \<not> f_lt MAX_JUMP_RATIO (f_div (f_abs (f_sub p prev)) prev))")
  case True
  then have "ps_set ng ni ps ch p = ps\<lparr>ps_channels := hm_insert ch () (ps_channels ps),
        ps_prices := hm_insert ch (p, ni) (ps_prices ps)\<rparr>"
    unfolding ps_set_def positive_price_iff2 by (simp split: option.splits)
  with True show ?thesis
    by (blast intro: stored)
next
  case False
  then have "ps_set ng ni ps ch p = ps"
    unfolding ps_set_def positive_price_iff2 by (auto split: option.splits)
  then show ?thesis
    by (rule unchanged)
qed

text \<open>
  A price storage reached from an empty one by calls of \<open>set\<close> holds positive finite prices
  only, so a price that \<open>get\<close> withholds is withheld for its age alone.
\<close>

inductive ps_reachable :: "price_storage \<Rightarrow> bool" where
  ps_start: "ps_reachable (ps_with_max_age chs age)"
| ps_step: "ps_reachable ps \<Longrightarrow> ps_reachable (ps_set ng ni ps ch p)"

lemma ps_reachable_positive:
  "ps_reachable ps \<Longrightarrow> hm_get (ps_prices ps) ch = Some (p, ts) \<Longrightarrow> positive_price p"
proof (induction arbitrary: ch p ts rule: ps_reachable.induct)
  case (ps_start chs age)
  then show ?case
    by (simp add: ps_with_max_age_def)
next
  case (ps_step ps ng ni ch' p')
  then show ?case
    by (cases rule: ps_set_cases [of ng ni ps ch' p']) (auto split: if_splits)
qed

text \<open>
  In every reachable price storage \<open>get\<close> returns a price exactly when one was stored for
  the channel and it is not older than the maximum age; what it returns is positive and finite.
\<close>

theorem ps_get_iff_fresh:
  assumes "ps_reachable ps"
  shows "ps_get now_unix ps ch = Some p \<longleftrightarrow>
     (\<exists>ts. hm_get (ps_prices ps) ch = Some (p, ts) \<and>
        unat now_unix - unat ts \<le> unat (ps_max_age_secs ps)) \<and> positive_price p"
  using ps_reachable_positive [OF assms] by (auto simp: ps_get_Some)

theorem ps_get_iff_fresh_witness:
  "ps_get 100 (ps_set 5 5 (ps_new []) KaspaTn10 (Fin 2)) KaspaTn10 = Some (Fin 2)"
proof -
  have reach: "ps_reachable (ps_set 5 5 (ps_new []) KaspaTn10 (Fin 2))"
    unfolding ps_new_def by (intro ps_step ps_start)
  have "hm_get (ps_prices (ps_set 5 5 (ps_new []) KaspaTn10 (Fin 2))) KaspaTn10 = Some (Fin 2, 5)"
    and "ps_max_age_secs (ps_set 5 5 (ps_new []) KaspaTn10 (Fin 2)) = 300"
    by (simp_all add: ps_set_def ps_new_def ps_with_max_age_def ps_get_def DEFAULT_MAX_AGE_SECS_def)
  then show ?thesis
    using ps_get_iff_fresh [OF reach, of 100 KaspaTn10 "Fin 2"] by (simp add: positive_price_def)
qed

lemma f_sub_Fin [simp]: "f_sub (Fin x) (Fin y) = fl (x - y)"
  by (simp add: f_sub_def)

lemma abs_lower_of_error: "\<bar>d - x\<bar> \<le> \<bar>x\<bar> / c \<Longrightarrow> \<bar>x\<bar> * (1 - 1 / c) \<le> \<bar>d :: rat\<bar>"
proof -
  assume "\<bar>d - x\<bar> \<le> \<bar>x\<bar> / c"
  moreover have "\<bar>x\<bar> * (1 - 1 / c) = \<bar>x\<bar> - \<bar>x\<bar> / c"
    by (simp add: right_diff_distrib)
  ultimately show ?thesis
    by linarith
qed

lemma jump_check_bound:
  assumes l: "2 powi (- 1000) \<le> l"
    and ok: "\<not> f_lt MAX_JUMP_RATIO (f_div (f_abs (f_sub (Fin a) (Fin l))) (Fin l))"
  shows "\<bar>a - l\<bar> \<le> l * (1 / 2 + 1 / 2 ^ 52)"
proof (rule ccontr)
  assume "\<not> ?thesis"
  then have far: "l * (1 / 2 + 1 / 2 ^ 52) < \<bar>a - l\<bar>"
    by simp
  have l0: "0 < l"
    using l zero_less_power_int [of "2 :: rat" "- 1000"] by linarith
  have small: "(2 :: rat) powi (- 1022) \<le> 2 powi (- 1001)" "(2 :: rat) powi (- 1001) = 2 powi (- 1000) / 2"
    by (simp_all add: power_int_def power_one_over)
  have normal: "2 powi (- 1022) \<le> \<bar>a - l\<bar>"
  proof -
    have "l / 2 \<le> \<bar>a - l\<bar>"
      using far l0 by (simp add: algebra_simps)
    then show ?thesis
      using small l by linarith
  qed
  show False
  proof (cases "fl (a - l)")
    case NaN
    then show ?thesis
      by (auto simp: fl_def Let_def split: if_splits)
  next
    case (Inf neg)
    then show ?thesis
      using ok l0 by (simp add: MAX_JUMP_RATIO_def)
  next
    case (Fin d)
    have d: "\<bar>d - (a - l)\<bar> \<le> \<bar>a - l\<bar> / 2 ^ 53"
      using Fin normal by (rule fl_error)
    then have "\<bar>a - l\<bar> * (1 - 1 / 2 ^ 53) \<le> \<bar>d\<bar>"
      by (rule abs_lower_of_error)
    moreover have "l * (1 / 2 + 1 / 2 ^ 52) * (1 - 1 / 2 ^ 53) < \<bar>a - l\<bar> * (1 - 1 / 2 ^ 53)"
      using far by (rule mult_strict_right_mono) simp
    ultimately have "l * ((1 / 2 + 1 / 2 ^ 52) * (1 - 1 / 2 ^ 53)) < \<bar>d\<bar>"
      by (simp add: algebra_simps)
    then have q: "(1 / 2 + 1 / 2 ^ 52) * (1 - 1 / 2 ^ 53) < \<bar>d\<bar> / l"
      using l0 by (simp add: field_simps)
    show ?thesis
    proof (cases "fl (\<bar>d\<bar> / l)")
      case NaN
      then show ?thesis
        by (auto simp: fl_def Let_def split: if_splits)
    next
      case (Inf neg)
      then have "\<not> neg"
        using l0 by (auto simp: fl_def Let_def divide_less_0_iff split: if_splits)
      then show ?thesis
        using ok Fin l0 Inf by (simp add: MAX_JUMP_RATIO_def \<open>fl (a - l) = Fin d\<close>)
    next
      case (Fin r)
      have pos: "0 < \<bar>d\<bar> / l"
        using q by (rule less_trans [rotated]) simp
      have "2 powi (- 1022) \<le> \<bar>\<bar>d\<bar> / l\<bar>"
      proof -
        have "(2 :: rat) powi (- 1022) \<le> (1 / 2 + 1 / 2 ^ 52) * (1 - 1 / 2 ^ 53)"
          by (simp add: power_int_def power_one_over)
        then show ?thesis
          using q pos by linarith
      qed
      with Fin have "\<bar>r - \<bar>d\<bar> / l\<bar> \<le> \<bar>\<bar>d\<bar> / l\<bar> / 2 ^ 53"
        by (rule fl_error)
      then have "\<bar>\<bar>d\<bar> / l\<bar> * (1 - 1 / 2 ^ 53) \<le> \<bar>r\<bar>"
        by (rule abs_lower_of_error)
      moreover have "0 \<le> r"
        using Fin pos by (auto intro: fl_sign)
      ultimately have "\<bar>d\<bar> / l * (1 - 1 / 2 ^ 53) \<le> r"
        using l0 by simp
      moreover have "(1 / 2 + 1 / 2 ^ 52) * (1 - 1 / 2 ^ 53) * (1 - 1 / 2 ^ 53)
          < \<bar>d\<bar> / l * (1 - 1 / 2 ^ 53)"
        using q by (rule mult_strict_right_mono) simp
      moreover have "(1 / 2 :: rat) < (1 / 2 + 1 / 2 ^ 52) * (1 - 1 / 2 ^ 53) * (1 - 1 / 2 ^ 53)"
        by simp
      ultimately have "1 / 2 < r"
        by linarith
      then show ?thesis
        using ok l0 Fin by (simp add: MAX_JUMP_RATIO_def \<open>fl (a - l) = Fin d\<close>)
    qed
  qed
qed

text \<open>
  (C14) The oracle guard, over the rationals and not only in floating point: while the last price
  of a channel is fresh, a call of \<open>set\<close> that changes the stored prices moves the price by at
  most half of the last one, up to the rounding of the two floating-point operations.
\<close>

theorem ps_set_bounded_jump:
  assumes prev: "ps_get now_get ps ch = Some (Fin l)" and "2 powi (- 1000) \<le> l"
    and changed: "hm_get (ps_prices (ps_set now_get now_insert ps ch (Fin a))) ch
        \<noteq> hm_get (ps_prices ps) ch"
  shows "0 < a \<and> \<bar>a - l\<bar> \<le> l * (1 / 2 + 1 / 2 ^ 52)"
proof (cases rule: ps_set_cases [of now_get now_insert ps ch "Fin a"])
  case unchanged
  then show ?thesis
    using changed by simp
next
  case stored
  then show ?thesis
    using jump_check_bound [OF assms(2)] prev by (simp add: positive_price_def)
qed

theorem ps_set_bounded_jump_witness:
  "ps_get 100 (ps_set 5 5 (ps_new []) KaspaTn10 (Fin 2)) KaspaTn10 = Some (Fin 2) \<and>
   ps_get 100 (ps_set 100 100 (ps_set 5 5 (ps_new []) KaspaTn10 (Fin 2)) KaspaTn10 (Fin 3)) KaspaTn10
     = Some (Fin 3) \<and>
   (0 :: rat) < 3 \<and> \<bar>3 - 2 :: rat\<bar> \<le> 2 * (1 / 2 + 1 / 2 ^ 52)"
proof -
  let ?ps = "ps_set 5 5 (ps_new []) KaspaTn10 (Fin 2)"
  have price: "hm_get (ps_prices ?ps) KaspaTn10 = Some (Fin 2, 5)" and age: "ps_max_age_secs ?ps = 300"
    by (simp_all add: ps_set_def ps_new_def ps_with_max_age_def ps_get_def DEFAULT_MAX_AGE_SECS_def)
  have got: "ps_get 100 ?ps KaspaTn10 = Some (Fin 2)"
    using price age by (simp add: ps_get_Some positive_price_def)
  have "fl (1 / 2) = Fin (of_int 4503599627370496 * 2 powi (- 1 - 52))"
    by (rule fl_eval) (simp_all add: power_int_def power_one_over round_even_def Let_def)
  then have "\<not> f_lt MAX_JUMP_RATIO (f_div (f_abs (f_sub (Fin 3) (Fin 2))) (Fin 2))"
    by (simp add: MAX_JUMP_RATIO_def power_int_def power_one_over)
  then have new: "hm_get (ps_prices (ps_set 100 100 ?ps KaspaTn10 (Fin 3))) KaspaTn10 = Some (Fin 3, 100)"
    "ps_max_age_secs (ps_set 100 100 ?ps KaspaTn10 (Fin 3)) = 300"
    using got age by (simp_all add: ps_set_def [of 100])
  have "(0 :: rat) < 3 \<and> \<bar>3 - 2 :: rat\<bar> \<le> 2 * (1 / 2 + 1 / 2 ^ 52)"
    by (rule ps_set_bounded_jump [OF got, where now_insert = 100])
      (use new(1) price in \<open>simp_all add: power_int_def power_one_over\<close>)
  then show ?thesis
    using got new by (simp add: ps_get_Some [of 100 "ps_set 100 100 ?ps KaspaTn10 (Fin 3)"]
        positive_price_def)
qed

end
