(* ===== verification/Handler.thy ===== *)
theory Handler
  imports Swap_Tracker Amounts
begin

text \<open>
  The crate \<open>handler\<close>: what a node does with a swap request and with an event of one of its
  chains. The functions of other crates (SHA-256, hexadecimal encoding, the parsers of \<open>alloy\<close>)
  are the fields of \<open>externs\<close>. The clock reading \<open>now_unix\<close> is the same within one call.
\<close>

record externs =
  x_sha256 :: "bytes \<Rightarrow> bytes"
  x_hex_encode :: "bytes \<Rightarrow> string"
  x_address_from_str :: "string \<Rightarrow> bytes option"
  x_u256_from_str :: "string \<Rightarrow> u256 option"

section \<open>Configuration and errors\<close>

record handler_config =
  hc_min_trade_usd :: f64
  hc_max_trade_usd :: f64
  hc_spread_percent :: f64
  hc_commit_buffer_secs :: u64

record handler =
  h_price_storage :: price_storage
  h_swap_tracker :: swap_tracker
  h_config :: handler_config
  h_address_lookup_table :: "(channel_id, string) hashmap"
  h_block_confirmations :: "(channel_id, u64) hashmap"

datatype handler_error =
    AlloyRuintParse
  | MissingPriceData channel_id
  | TradeTooSmall string f64 f64
  | TradeTooLarge string f64 f64
  | MissingAddress channel_id
  | LocalSigner string
  | ParseFloat string
  | SwapTrackerError swap_tracker_error
  | HandlerSwapNotFound bytes
  | InvalidState bytes
  | InvalidChannelId channel_id
  | NotAddressedToUs bytes
  | SystemTime string
  | InvalidAmount u256
  | InvalidLockTimeDuration u64
  | ChainTimeUnavailable channel_id
  | Price amount_error
  | UnknownChannel channel_id
  | Other string

text \<open>\<open>rejection_reason\<close>: only the two limit errors are reported to the requester.\<close>

definition rejection_reason :: "(handler_error \<Rightarrow> string) \<Rightarrow> handler_error \<Rightarrow> string option" where
  "rejection_reason to_string e =
     (case e of
        TradeTooSmall _ _ _ \<Rightarrow> Some (to_string e)
      | TradeTooLarge _ _ _ \<Rightarrow> Some (to_string e)
      | _ \<Rightarrow> None)"

definition handler_new ::
  "price_storage \<Rightarrow> swap_tracker \<Rightarrow> handler_config \<Rightarrow> (channel_id, string) hashmap
     \<Rightarrow> (channel_id, u64) hashmap \<Rightarrow> handler" where
  "handler_new ps t cfg addrs confs =
     \<lparr>h_price_storage = ps, h_swap_tracker = t, h_config = cfg, h_address_lookup_table = addrs,
      h_block_confirmations = confs\<rparr>"

definition knows_channel :: "handler \<Rightarrow> channel_id \<Rightarrow> bool" where
  "knows_channel h ch = hm_contains (h_block_confirmations h) ch"

definition required_init_lock_secs :: "channel_id \<Rightarrow> u64 \<Rightarrow> bool \<Rightarrow> u64" where
  "required_init_lock_secs destination commit_buffer_secs with_buffer =
     (if \<not> with_buffer then lock_time_secs destination * 2
      else lock_time_secs destination * 2 + commit_buffer_secs)"

section \<open>Addresses\<close>

definition normalised_address_eq ::
  "externs \<Rightarrow> channel_id \<Rightarrow> string \<Rightarrow> string \<Rightarrow> bool" where
  "normalised_address_eq ext ch a b =
     (let a = trim a; b = trim b
      in if a = b then True
         else case ch of
                KaspaTn10 \<Rightarrow> a = b
              | _ \<Rightarrow> (case (x_address_from_str ext a, x_address_from_str ext b) of
                       (Some la, Some lb) \<Rightarrow> la = lb
                     | _ \<Rightarrow> False))"

section \<open>Reads\<close>

definition try_channel :: "u8 \<Rightarrow> (channel_id, handler_error) result" where
  "try_channel v = map_err Other (channel_try_from v)"

definition get_counterparty_channel_id ::
  "handler \<Rightarrow> bytes \<Rightarrow> channel_id \<Rightarrow> (channel_id option, handler_error) result" where
  "get_counterparty_channel_id h sid our_channel =
     (case get_swap (h_swap_tracker h) sid of
        None \<Rightarrow> Inr None
      | Some record \<Rightarrow>
          r_bind (try_channel (cm_source (sr_init_commitment record))) (\<lambda>init_source.
            case sr_counter_commitment record of
              None \<Rightarrow> Inr None
            | Some counter \<Rightarrow>
                r_bind (try_channel (cm_source counter)) (\<lambda>counter_source.
                  if init_source = our_channel then Inr (Some counter_source)
                  else Inr (Some init_source))))"

definition get_commitment_for_channel ::
  "handler \<Rightarrow> bytes \<Rightarrow> channel_id \<Rightarrow> (commitment_v1 option, handler_error) result" where
  "get_commitment_for_channel h sid ch =
     (case get_swap (h_swap_tracker h) sid of
        None \<Rightarrow> Inr None
      | Some record \<Rightarrow>
          r_bind (try_channel (cm_source (sr_init_commitment record))) (\<lambda>init_source.
            if init_source = ch then Inr (Some (sr_init_commitment record))
            else case sr_counter_commitment record of
                   None \<Rightarrow> Inr None
                 | Some counter \<Rightarrow>
                     r_bind (try_channel (cm_source counter)) (\<lambda>counter_source.
                       if counter_source = ch then Inr (Some counter) else Inr None)))"

section \<open>Proposals\<close>

record swap_request =
  rq_origin :: u8
  rq_destination :: u8
  rq_amount :: string

record trade_proposal =
  tp_origin :: channel_id
  tp_destination :: channel_id
  tp_amount_in :: string
  tp_amount_out :: string
  tp_sender_destination_address :: string
  tp_commit_unlock_offset_secs :: u64

text \<open>
  \<open>amount_in.to_string().parse::<f64>()\<close> cannot fail on the digits of a number: it is the
  nearest double. The power of ten wraps at 128 bits, as \<open>10u128.pow\<close> does.
\<close>

definition amount_in_usd :: "u256 \<Rightarrow> u8 \<Rightarrow> f64 \<Rightarrow> f64" where
  "amount_in_usd amount_in dec source_usd_price =
     f_mul (f_div (f_of_nat (unat amount_in)) (f_of_nat (unat ((10 :: u128) ^ unat dec))))
       source_usd_price"

definition create_proposal ::
  "externs \<Rightarrow> u64 \<Rightarrow> handler \<Rightarrow> swap_request \<Rightarrow> (trade_proposal, handler_error) result" where
  "create_proposal ext now_unix h request =
     r_bind (try_channel (rq_origin request)) (\<lambda>origin.
     r_bind (try_channel (rq_destination request)) (\<lambda>destination.
     r_bind (ok_or (ps_get now_unix (h_price_storage h) origin) (MissingPriceData origin))
       (\<lambda>source_usd_price.
     r_bind (ok_or (ps_get now_unix (h_price_storage h) destination) (MissingPriceData destination))
       (\<lambda>destination_usd_price.
     r_bind (ok_or (x_u256_from_str ext (rq_amount request)) AlloyRuintParse) (\<lambda>amount_in.
     let usd = amount_in_usd amount_in (decimals origin) source_usd_price; cfg = h_config h in
     if f_lt usd (hc_min_trade_usd cfg)
     then Inl (TradeTooSmall (rq_amount request) usd (hc_min_trade_usd cfg))
     else if f_lt (hc_max_trade_usd cfg) usd
     then Inl (TradeTooLarge (rq_amount request) usd (hc_max_trade_usd cfg))
     else
     r_bind (map_err Price (amount_out amount_in source_usd_price (decimals origin)
               destination_usd_price (decimals destination) (hc_spread_percent cfg))) (\<lambda>output.
     r_bind (ok_or (hm_get (h_address_lookup_table h) origin) (UnknownChannel origin))
       (\<lambda>sender_destination_address.
       Inr \<lparr>tp_origin = destination, tp_destination = origin,
            tp_amount_in = show_nat (unat output), tp_amount_out = rq_amount request,
            tp_sender_destination_address = sender_destination_address,
            tp_commit_unlock_offset_secs =
              required_init_lock_secs destination (hc_commit_buffer_secs cfg) True\<rparr>)))))))"

section \<open>Commitments\<close>

definition with_tracker ::
  "handler \<Rightarrow> (swap_tracker, swap_tracker_error) result \<Rightarrow> (handler, handler_error) result" where
  "with_tracker h r = r_bind (map_err SwapTrackerError r) (\<lambda>t. Inr (h\<lparr>h_swap_tracker := t\<rparr>))"

definition handle_external_commitment ::
  "u64 \<Rightarrow> handler \<Rightarrow> commitment_v1 \<Rightarrow> (handler, handler_error) result" where
  "handle_external_commitment now_unix h commitment =
     (case get_swap (h_swap_tracker h) (cm_swap_id commitment) of
        None \<Rightarrow> with_tracker h
          (set_init_commitment now_unix (h_swap_tracker h) (cm_swap_id commitment) commitment)
      | Some record \<Rightarrow>
          if sr_init_commitment record = commitment
             \<or> sr_counter_commitment record = Some commitment
             \<or> cm_source (sr_init_commitment record) = cm_source commitment
          then Inr h
          else with_tracker h
            (set_counter_commitment (h_swap_tracker h) (cm_swap_id commitment) commitment))"

definition build_counter_commitment ::
  "externs \<Rightarrow> u64 \<Rightarrow> handler \<Rightarrow> bytes \<Rightarrow> commitment_v1 \<Rightarrow> channel_id \<Rightarrow> channel_id
     \<Rightarrow> chain_clock \<Rightarrow> (commitment_v1, handler_error) result" where
  "build_counter_commitment ext now_unix h sid init source_channel destination_channel clock =
     r_bind (ok_or (x_u256_from_str ext (am_value (cm_amount init))) AlloyRuintParse) (\<lambda>amount_in.
     r_bind (ok_or (ps_get now_unix (h_price_storage h) source_channel)
               (MissingPriceData source_channel)) (\<lambda>source_usd_price.
     let usd = amount_in_usd amount_in (am_decimals (cm_amount init)) source_usd_price;
         cfg = h_config h in
     if f_lt usd (hc_min_trade_usd cfg) \<or> f_lt (hc_max_trade_usd cfg) usd
     then Inl (InvalidAmount amount_in)
     else
     r_bind (ok_or (ps_get now_unix (h_price_storage h) destination_channel)
               (MissingPriceData destination_channel)) (\<lambda>destination_usd_price.
     r_bind (map_err Price (amount_out amount_in source_usd_price (decimals source_channel)
               destination_usd_price (decimals destination_channel) (hc_spread_percent cfg))) (\<lambda>out.
     r_bind (ok_or (clock_now_checked now_unix clock source_channel)
               (ChainTimeUnavailable source_channel)) (\<lambda>source_now.
     let remaining = saturating_sub (cm_unlock_ts init) source_now;
         threshold = required_init_lock_secs destination_channel (hc_commit_buffer_secs cfg) False in
     if remaining < threshold then Inl (InvalidLockTimeDuration remaining)
     else
     r_bind (ok_or (clock_now_checked now_unix clock destination_channel)
               (ChainTimeUnavailable destination_channel)) (\<lambda>dest_now.
     r_bind (ok_or (hm_get (h_address_lookup_table h) destination_channel)
               (MissingAddress destination_channel)) (\<lambda>mm_destination.
     r_bind (ok_or (hm_get (h_address_lookup_table h) source_channel)
               (MissingAddress source_channel)) (\<lambda>mm_source.
       Inr \<lparr>cm_swap_id = sid,
            cm_addresses = addresses_new mm_destination
              (ad_sender_destination (cm_addresses init)) mm_source,
            cm_amount = amount_new (show_nat (unat out)) (decimals destination_channel),
            cm_secret_hash = cm_secret_hash init,
            cm_unlock_ts = dest_now + lock_time_secs destination_channel,
            cm_source = channel_as_u8 destination_channel,
            cm_destination = channel_as_u8 source_channel\<rparr>))))))))"

definition handle_internal_commitment ::
  "externs \<Rightarrow> u64 \<Rightarrow> handler \<Rightarrow> commitment_v1 \<Rightarrow> channel_id \<Rightarrow> chain_clock
     \<Rightarrow> (commitment_v1, handler_error) result" where
  "handle_internal_commitment ext now_unix h commitment ch clock =
     r_bind (ok_or (get_swap (h_swap_tracker h) (cm_swap_id commitment))
               (HandlerSwapNotFound (cm_swap_id commitment))) (\<lambda>record.
     if sr_counter_commitment record \<noteq> None \<or> sr_resolution record \<noteq> None
     then Inl (InvalidState (cm_swap_id commitment))
     else let init = sr_init_commitment record in
     r_bind (try_channel (cm_source init)) (\<lambda>source_channel.
     r_bind (try_channel (cm_destination init)) (\<lambda>destination_channel.
     if destination_channel \<noteq> ch then Inl (InvalidChannelId destination_channel)
     else
     r_bind (ok_or (hm_get (h_address_lookup_table h) source_channel)
               (MissingAddress source_channel)) (\<lambda>our_source_address.
     if \<not> normalised_address_eq ext source_channel (ad_receiver (cm_addresses init)) our_source_address
     then Inl (NotAddressedToUs (cm_swap_id commitment))
     else build_counter_commitment ext now_unix h (cm_swap_id commitment) init source_channel
            destination_channel clock))))"

section \<open>Reveals, refunds and the dispatch of chain events\<close>

definition handle_external_reveal ::
  "externs \<Rightarrow> handler \<Rightarrow> reveal_v1 \<Rightarrow> (handler, handler_error) result" where
  "handle_external_reveal ext h reveal =
     with_tracker h (set_revealed (x_sha256 ext) (x_hex_encode ext) (h_swap_tracker h)
       (rv_swap_id reveal) (rv_secret reveal))"

definition handle_external_refund :: "handler \<Rightarrow> refund_v1 \<Rightarrow> (handler, handler_error) result" where
  "handle_external_refund h refund =
     with_tracker h (set_refunded (h_swap_tracker h) (rf_swap_id refund))"

datatype effect =
    Broadcast channel_id chain_event
  | TransmitReveal commitment_v1

text \<open>
  The handler's state after the call and the result: a commitment with an unknown destination
  byte is recorded before the error is returned. An error of the internal commitment is logged
  and adds no effect.
\<close>

definition on_commitment ::
  "externs \<Rightarrow> u64 \<Rightarrow> handler \<Rightarrow> channel_id \<Rightarrow> commitment_v1 \<Rightarrow> chain_clock
     \<Rightarrow> handler \<times> (effect list, handler_error) result" where
  "on_commitment ext now_unix h source commitment clock =
     (case handle_external_commitment now_unix h commitment of
        Inl e \<Rightarrow> (h, Inl e)
      | Inr h' \<Rightarrow>
          (h', r_bind (try_channel (cm_destination commitment)) (\<lambda>destination.
             Inr (TransmitReveal commitment #
               (if destination \<noteq> source
                then case handle_internal_commitment ext now_unix h' commitment destination clock of
                       Inr counter \<Rightarrow> [Broadcast destination (Commitment counter)]
                     | Inl _ \<Rightarrow> []
                else [])))))"

definition on_reveal ::
  "externs \<Rightarrow> handler \<Rightarrow> channel_id \<Rightarrow> reveal_v1
     \<Rightarrow> handler \<times> (effect list, handler_error) result" where
  "on_reveal ext h source reveal =
     (case handle_external_reveal ext h reveal of
        Inl e \<Rightarrow> (h, Inl e)
      | Inr h' \<Rightarrow>
          (h', r_bind (get_counterparty_channel_id h' (rv_swap_id reveal) source) (\<lambda>cp.
             case cp of
               None \<Rightarrow> Inr []
             | Some counterparty \<Rightarrow>
                 r_bind (get_commitment_for_channel h' (rv_swap_id reveal) counterparty) (\<lambda>cm.
                   case cm of
                     None \<Rightarrow> Inr []
                   | Some commitment \<Rightarrow>
                       if x_sha256 ext (rv_secret reveal) = cm_secret_hash commitment
                       then Inr [Broadcast counterparty (Reveal reveal)] else Inr []))))"

definition on_refund ::
  "handler \<Rightarrow> refund_v1 \<Rightarrow> handler \<times> (effect list, handler_error) result" where
  "on_refund h refund =
     (case handle_external_refund h refund of
        Inl e \<Rightarrow> (h, Inl e)
      | Inr h' \<Rightarrow> (h', Inr []))"

fun on_chain_event ::
  "externs \<Rightarrow> u64 \<Rightarrow> handler \<Rightarrow> channel_id \<Rightarrow> chain_event \<Rightarrow> chain_clock
     \<Rightarrow> handler \<times> (effect list, handler_error) result" where
  "on_chain_event ext now_unix h source (Commitment c) clock = on_commitment ext now_unix h source c clock"
| "on_chain_event ext now_unix h source (Reveal r) clock = on_reveal ext h source r"
| "on_chain_event ext now_unix h source (Refund r) clock = on_refund h r"

section \<open>What a successful call has checked\<close>

lemma try_channel_Inr [simp]: "try_channel v = Inr ch \<longleftrightarrow> v = channel_as_u8 ch"
  by (simp add: try_channel_def map_err_eq_Inr channel_try_from_eq_Inr)

lemma try_channel_as_u8 [simp]: "try_channel (channel_as_u8 ch) = Inr ch"
  by simp

lemma with_tracker_Inr:
  "with_tracker h r = Inr h' \<longleftrightarrow> (\<exists>t. r = Inr t \<and> h' = h\<lparr>h_swap_tracker := t\<rparr>)"
  by (auto simp: with_tracker_def result_simps)

text \<open>The facts behind a counter commitment, each named by the check of the code it comes from.\<close>

lemma build_counter_commitment_Inr:
  "build_counter_commitment ext now_unix h sid init src dst clock = Inr counter \<longleftrightarrow>
   (\<exists>ain sp dp out source_now dest_now mmd mms.
      x_u256_from_str ext (am_value (cm_amount init)) = Some ain \<and>
      ps_get now_unix (h_price_storage h) src = Some sp \<and>
      \<not> f_lt (amount_in_usd ain (am_decimals (cm_amount init)) sp) (hc_min_trade_usd (h_config h)) \<and>
      \<not> f_lt (hc_max_trade_usd (h_config h)) (amount_in_usd ain (am_decimals (cm_amount init)) sp) \<and>
      ps_get now_unix (h_price_storage h) dst = Some dp \<and>
      amount_out ain sp (decimals src) dp (decimals dst) (hc_spread_percent (h_config h)) = Inr out \<and>
      clock_now_checked now_unix clock src = Some source_now \<and>
      \<not> saturating_sub (cm_unlock_ts init) source_now < lock_time_secs dst * 2 \<and>
      clock_now_checked now_unix clock dst = Some dest_now \<and>
      hm_get (h_address_lookup_table h) dst = Some mmd \<and>
      hm_get (h_address_lookup_table h) src = Some mms \<and>
      counter = \<lparr>cm_swap_id = sid,
         cm_addresses = addresses_new mmd (ad_sender_destination (cm_addresses init)) mms,
         cm_amount = amount_new (show_nat (unat out)) (decimals dst),
         cm_secret_hash = cm_secret_hash init,
         cm_unlock_ts = dest_now + lock_time_secs dst,
         cm_source = channel_as_u8 dst, cm_destination = channel_as_u8 src\<rparr>)"
  unfolding build_counter_commitment_def Let_def required_init_lock_secs_def
  by (simp only: result_simps not_False_eq_True if_True simp_thms de_Morgan_disj sum.inject ex_simps)
    blast

lemma handle_internal_commitment_Inr:
  "handle_internal_commitment ext now_unix h c ch clock = Inr counter \<longleftrightarrow>
   (\<exists>r src ours.
      get_swap (h_swap_tracker h) (cm_swap_id c) = Some r \<and> stage r = Initialized \<and>
      cm_source (sr_init_commitment r) = channel_as_u8 src \<and>
      cm_destination (sr_init_commitment r) = channel_as_u8 ch \<and>
      hm_get (h_address_lookup_table h) src = Some ours \<and>
      normalised_address_eq ext src (ad_receiver (cm_addresses (sr_init_commitment r))) ours \<and>
      build_counter_commitment ext now_unix h (cm_swap_id c) (sr_init_commitment r) src ch clock
        = Inr counter)"
proof -
  have st: "stage r = Initialized \<longleftrightarrow> \<not> (sr_counter_commitment r \<noteq> None \<or> sr_resolution r \<noteq> None)" for r
    by (auto simp: stage_def split: option.splits)
  show ?thesis
    unfolding handle_internal_commitment_def Let_def st
    by (simp only: result_simps try_channel_Inr) auto
qed

lemma lock_time_twice: "unat (lock_time_secs ch * 2) = 2 * unat (lock_time_secs ch)"
  by (cases ch) simp_all

lemma decimals_le: "unat (decimals ch) \<le> 77"
  by (cases ch) simp_all

text \<open>
  (C1) The time lock that makes the swap safe for the market maker: when the handler builds a
  counter commitment, the counter leg runs out at least one lock time of its chain before the
  init leg does, up to the skew between the two chain clocks. The maker therefore has that
  long to use a secret that is revealed at the last moment.
\<close>

theorem counter_unlocks_before_init:
  assumes "build_counter_commitment ext now_unix h sid init src dst clock = Inr counter"
    and "clock_now_checked now_unix clock src = Some source_now"
    and "clock_now_checked now_unix clock dst = Some dest_now"
    and skew: "unat dest_now \<le> unat source_now + skew"
    and sane: "unat dest_now + 3600 < 2 ^ 64"
  shows "unat (cm_unlock_ts counter) + unat (lock_time_secs dst) \<le> unat (cm_unlock_ts init) + skew
     \<and> unat dest_now < unat (cm_unlock_ts counter)"
proof -
  have "\<not> saturating_sub (cm_unlock_ts init) source_now < lock_time_secs dst * 2"
    and unlock: "cm_unlock_ts counter = dest_now + lock_time_secs dst"
    using assms(1-3) by (auto simp: build_counter_commitment_Inr)
  then have "2 * unat (lock_time_secs dst) \<le> unat (cm_unlock_ts init) - unat source_now"
    by (simp add: word_less_nat_alt rust_arith lock_time_twice)
  moreover have "unat (dest_now + lock_time_secs dst) = unat dest_now + unat (lock_time_secs dst)"
    using sane lock_time_secs_bounds [of dst] by (intro unat_add_no_wrap) simp
  ultimately show ?thesis
    using skew lock_time_secs_bounds [of dst] unfolding unlock by linarith
qed

text \<open>
  The counter commitment the handler builds for a recorded swap is one the tracker accepts,
  provided the user wrote the maker's address exactly as the maker's own table has it: the leg
  mirrors the init leg, and locking the swap with it succeeds.
\<close>

theorem counter_commitment_locks:
  assumes built: "handle_internal_commitment ext now_unix h c ch clock = Inr counter"
    and "get_swap (h_swap_tracker h) (cm_swap_id c) = Some r"
    and "cm_swap_id (sr_init_commitment r) = cm_swap_id c"
    and exact: "\<And>src. cm_source (sr_init_commitment r) = channel_as_u8 src \<Longrightarrow>
       hm_get (h_address_lookup_table h) src = Some (ad_receiver (cm_addresses (sr_init_commitment r)))"
  shows "mirrors (sr_init_commitment r) counter \<and>
    is_ok (set_counter_commitment (h_swap_tracker h) (cm_swap_id c) counter)"
proof -
  from built assms(2) obtain src where src: "cm_source (sr_init_commitment r) = channel_as_u8 src"
      "cm_destination (sr_init_commitment r) = channel_as_u8 ch" "stage r = Initialized"
      "build_counter_commitment ext now_unix h (cm_swap_id c) (sr_init_commitment r) src ch clock
        = Inr counter"
    by (auto simp: handle_internal_commitment_Inr)
  have "mirrors (sr_init_commitment r) counter"
    using src(4) exact [OF src(1)] assms(3) src(1,2)
    by (auto simp: build_counter_commitment_Inr mirrors_def addresses_new_def)
  with assms(2) src(3) show ?thesis
    by (auto simp: is_ok_iff set_counter_commitment_Inr)
qed

lemma unat_ten_pow_u128: "n \<le> 38 \<Longrightarrow> unat ((10 :: u128) ^ n) = 10 ^ n"
proof -
  assume "n \<le> 38"
  then have "(10 :: nat) ^ n \<le> 10 ^ 38"
    by (intro power_increasing) auto
  also have "\<dots> < 2 ^ 128"
    by simp
  finally have "unat (of_nat (10 ^ n) :: u128) = 10 ^ n"
    by (simp only: unsigned_of_nat) (simp add: take_bit_nat_eq_self)
  then show ?thesis
    by simp
qed

lemma of_nat_unat_u256: "of_nat (unat (w :: u256)) < (2 ^ 256 :: rat)"
proof -
  have "unat w < 2 ^ 256"
    using unsigned_less [of w, where 'a = nat] by simp
  then show ?thesis
    by (metis of_nat_less_iff of_nat_numeral of_nat_power)
qed

text \<open>The quotient of two rounded numbers, rounded.\<close>

lemma quotient_factor:
  fixes A T a t q :: rat
  defines "e \<equiv> 1 / 2 ^ 53 :: rat"
  assumes "0 \<le> A" "0 < T" "A * (1 - e) \<le> a" "a \<le> A * (1 + e)" "T * (1 - e) \<le> t" "t \<le> T * (1 + e)"
    "a / t * (1 - e) \<le> q" "q \<le> a / t * (1 + e)"
  shows "A / T * ((1 - e) * (1 - e) / (1 + e)) \<le> q" "q \<le> A / T * ((1 + e) * (1 + e) / (1 - e))"
proof -
  have e: "0 < 1 - e" "0 < 1 + e"
    by (simp_all add: e_def)
  have t: "0 < T * (1 - e)" "0 < t"
    using assms(3,6) e by (simp, meson order_less_le_trans assms(3,6) e(1) mult_pos_pos)
  have a: "0 \<le> a"
    using assms(2,4) e by (meson mult_nonneg_nonneg order_less_imp_le order_trans)
  have "A * (1 - e) / (T * (1 + e)) \<le> a / t"
    using assms(2,4,7) t a e by (intro frac_le) auto
  then have "A * (1 - e) / (T * (1 + e)) * (1 - e) \<le> a / t * (1 - e)"
    using e by (intro mult_right_mono) auto
  with assms(8) show "A / T * ((1 - e) * (1 - e) / (1 + e)) \<le> q"
    by (simp add: mult_ac)
  have "a / t \<le> A * (1 + e) / (T * (1 - e))"
    using assms(2,5,6) t a e by (intro frac_le) auto
  then have "a / t * (1 + e) \<le> A * (1 + e) / (T * (1 - e)) * (1 + e)"
    using e by (intro mult_right_mono) auto
  with assms(9) show "q \<le> A / T * ((1 + e) * (1 + e) / (1 - e))"
    by (simp add: mult_ac)
qed

text \<open>The value in dollars that the limits are compared with is the real one up to four roundings.\<close>

lemma usd_quotient:
  fixes ain :: u256 and dec :: u8
  assumes dec: "unat dec \<le> 38"
  defines "B \<equiv> of_nat (unat ain) / 10 ^ unat dec :: rat"
  obtains q where
    "f_div (f_of_nat (unat (ain :: u256))) (f_of_nat (unat ((10 :: u128) ^ unat (dec :: u8)))) = Fin q"
    "B * ((1 - 1 / 2 ^ 53) * (1 - 1 / 2 ^ 53) / (1 + 1 / 2 ^ 53)) \<le> q"
    "q \<le> B * ((1 + 1 / 2 ^ 53) * (1 + 1 / 2 ^ 53) / (1 - 1 / 2 ^ 53))"
proof -
  define A T :: rat where "A = of_nat (unat ain)" and "T = 10 ^ unat dec"
  have A: "0 \<le> A" "A = 0 \<or> 1 \<le> A"
    unfolding A_def by (cases "unat ain"; simp only: of_nat_0_le_iff of_nat_0; simp)+
  have A256: "A < 2 ^ 256"
    unfolding A_def by (rule of_nat_unat_u256)
  have T: "1 \<le> T" "T \<le> 10 ^ 38"
    using dec power_increasing [of "unat dec" 38 "10 :: rat"] by (simp_all add: T_def)
  have "\<bar>A\<bar> \<le> 2 ^ 1000" "\<bar>T\<bar> \<le> 2 ^ 1000"
    using A(1) A256 T by simp_all
  then obtain a t where a: "fl A = Fin a" and t: "fl T = Fin t"
    using fl_finite by blast
  have T0: "0 < T" "0 \<le> T" "1 / 10 ^ 40 \<le> T" and A40: "A = 0 \<or> 1 / 10 ^ 40 \<le> A"
    using T(1) A(2) by auto
  note Ta = fl_factor [OF a A(1) normal_ge [OF A40]]
  note Tt = fl_factor [OF t T0(2) normal_ge [OF disjI2 [OF T0(3)]]]
  have t0: "1 / 2 \<le> t" "t \<le> 2 * 10 ^ 38"
    using T Tt by simp_all
  have a0: "0 \<le> a" "a \<le> 2 ^ 257"
    using fl_sign [OF a A(1)] Ta(2) A256 by simp_all
  have "a / t \<le> 2 ^ 257 / (1 / 2)"
    using a0 t0 by (intro frac_le) auto
  then have at: "0 \<le> a / t" "\<bar>a / t\<bar> \<le> 2 ^ 1000"
    using a0 t0 by simp_all
  then obtain q where q: "fl (a / t) = Fin q"
    using fl_finite by blast
  have q40: "a / t = 0 \<or> 1 / 10 ^ 40 \<le> a / t"
  proof (cases "A = 0")
    case True
    with a show ?thesis
      by simp
  next
    case False
    then have "1 / 2 \<le> a"
      using A Ta by simp
    then have "(1 / 2) / (2 * 10 ^ 38) \<le> a / t"
      using t0 by (intro frac_le) auto
    moreover have "(1 :: rat) / 10 ^ 40 \<le> (1 / 2) / (2 * 10 ^ 38)"
      by simp
    ultimately show ?thesis
      by linarith
  qed
  have "f_div (f_of_nat (unat ain)) (f_of_nat (unat ((10 :: u128) ^ unat dec))) = Fin q"
    using a t q t0 dec by (simp add: f_of_nat_def unat_ten_pow_u128 A_def T_def)
  moreover note quotient_factor [OF A(1) T0(1) Ta Tt fl_factor [OF q at(1) normal_ge [OF q40]]]
  ultimately show ?thesis
    using that by (simp only: A_def T_def B_def)
qed

lemma amount_in_usd_close:
  fixes ain :: u256 and dec :: u8
  assumes s: "0 \<le> s" and dec: "unat dec \<le> 38"
  defines "V \<equiv> of_nat (unat ain) / 10 ^ unat dec * s :: rat"
  shows "amount_in_usd ain dec (Fin s) = Inf False \<or>
    (\<exists>v. amount_in_usd ain dec (Fin s) = Fin v \<and>
         V * (1 - 1 / 2 ^ 50) - 1 / 2 ^ 1075 \<le> v \<and> v \<le> V * (1 + 1 / 2 ^ 50) + 1 / 2 ^ 1075)"
proof -
  define B where "B = (of_nat (unat ain) / 10 ^ unat dec :: rat)"
  define c1 c2 :: rat where "c1 = (1 - 1 / 2 ^ 53) * (1 - 1 / 2 ^ 53) / (1 + 1 / 2 ^ 53)"
    and "c2 = (1 + 1 / 2 ^ 53) * (1 + 1 / 2 ^ 53) / (1 - 1 / 2 ^ 53)"
  obtain q where q: "f_div (f_of_nat (unat ain)) (f_of_nat (unat ((10 :: u128) ^ unat dec))) = Fin q"
      "B * c1 \<le> q" "q \<le> B * c2"
    using usd_quotient [OF dec, of ain] unfolding B_def c1_def c2_def by blast
  have B: "0 \<le> B"
    unfolding B_def by (intro divide_nonneg_nonneg of_nat_0_le_iff) simp
  have V: "V = B * s" "0 \<le> V"
    using s B by (simp_all only: V_def B_def mult_nonneg_nonneg)
  have qs: "V * c1 \<le> q * s" "q * s \<le> V * c2"
    using mult_right_mono [OF q(2) s] mult_right_mono [OF q(3) s] by (simp_all add: V(1) mult_ac)
  have "0 \<le> V * c1"
    using V(2) by (simp add: c1_def)
  with qs have qs0: "0 \<le> q * s"
    by linarith
  have usd: "amount_in_usd ain dec (Fin s) = fl (q * s)"
    by (simp add: amount_in_usd_def q(1))
  consider "fl (q * s) = Inf False" | v where "fl (q * s) = Fin v"
    using fl_nonneg [OF qs0] by blast
  then show ?thesis
  proof cases
    case (2 v)
    then have "\<bar>v - q * s\<bar> \<le> q * s / 2 ^ 53 + 1 / 2 ^ 1075"
      using fl_abs_error [OF 2] qs0 by simp
    then have vq: "q * s * (1 - 1 / 2 ^ 53) - 1 / 2 ^ 1075 \<le> v" "v \<le> q * s * (1 + 1 / 2 ^ 53) + 1 / 2 ^ 1075"
      by (simp_all only: right_diff_distrib distrib_left mult_1_right times_divide_eq_right abs_le_iff) linarith+
    have "V * (1 - 1 / 2 ^ 50) \<le> V * (c1 * (1 - 1 / 2 ^ 53))"
      using V(2) by (intro mult_left_mono) (simp_all add: c1_def)
    also have "\<dots> \<le> q * s * (1 - 1 / 2 ^ 53)"
      using qs(1) by simp
    finally have lo: "V * (1 - 1 / 2 ^ 50) - 1 / 2 ^ 1075 \<le> v"
      using vq(1) by linarith
    have "q * s * (1 + 1 / 2 ^ 53) \<le> V * (c2 * (1 + 1 / 2 ^ 53))"
      using qs(2) by simp
    also have "\<dots> \<le> V * (1 + 1 / 2 ^ 50)"
      using V(2) by (intro mult_left_mono) (simp_all add: c2_def)
    finally have "v \<le> V * (1 + 1 / 2 ^ 50) + 1 / 2 ^ 1075"
      using vq(2) by linarith
    with lo 2 usd show ?thesis
      by simp
  qed (simp add: usd)
qed

lemma usd_within_limits:
  fixes ain :: u256 and dec :: u8
  assumes "0 \<le> s" and "unat dec \<le> 38"
    and "\<not> f_lt (amount_in_usd ain dec (Fin s)) (Fin lo)" and "\<not> f_lt (Fin hi) (amount_in_usd ain dec (Fin s))"
  defines "V \<equiv> of_nat (unat ain) / 10 ^ unat dec * s :: rat"
  shows "lo \<le> V * (1 + 1 / 2 ^ 50) + 1 / 2 ^ 1075 \<and> V * (1 - 1 / 2 ^ 50) - 1 / 2 ^ 1075 \<le> hi"
proof -
  from amount_in_usd_close [OF assms(1,2), of ain] obtain v where
      "amount_in_usd ain dec (Fin s) = Fin v" "V * (1 - 1 / 2 ^ 50) - 1 / 2 ^ 1075 \<le> v"
      "v \<le> V * (1 + 1 / 2 ^ 50) + 1 / 2 ^ 1075"
    unfolding V_def using assms(4) by auto
  moreover from this(1) have "lo \<le> v" "v \<le> hi"
    using assms(3,4) by simp_all
  ultimately show ?thesis
    by linarith
qed

text \<open>
  (C2) What the maker locks is never worth more than what the user locked, less the spread, in the
  quoted prices \<open>s\<close> and \<open>d\<close> of the storage and the configured spread of \<open>x\<close> percent: the output in
  coins at the destination price less half a unit of its eighth decimal is at most the input in
  coins at the source price plus half a unit of its eighth decimal, times one minus the spread
  less one basis point (\<open>1 / 2 ^ 53\<close> is the relative rounding of the conversions; destination prices
  from \<open>10 ^ 30\<close> on saturate and are excluded). And the counter is built only for a swap whose
  value in dollars, in the decimals the deposit names, is inside the configured limits, up to a relative
  rounding of \<open>1 / 2 ^ 50\<close>.
\<close>

theorem counter_amount_fair_and_limited:
  assumes "build_counter_commitment ext now_unix h sid init src dst clock = Inr counter"
  shows "\<exists>ain s d x out.
    x_u256_from_str ext (am_value (cm_amount init)) = Some ain \<and>
    ps_get now_unix (h_price_storage h) src = Some (Fin s) \<and>
    ps_get now_unix (h_price_storage h) dst = Some (Fin d) \<and>
    hc_spread_percent (h_config h) = Fin x \<and> 0 < s \<and> 0 < d \<and> 0 \<le> x \<and> x < 100 \<and>
    parse_uint 256 (am_value (cm_amount counter)) = Some out \<and>
    am_decimals (cm_amount counter) = decimals dst \<and>
    (d \<le> 10 ^ 30 \<longrightarrow>
      of_nat out / 10 ^ unat (decimals dst) * (d * (1 - 1 / 2 ^ 53) - 5 / 10 ^ 9)
        \<le> of_nat (unat ain) / 10 ^ unat (decimals src) * (s * (1 + 1 / 2 ^ 53) + 5 / 10 ^ 9)
             * (1 - (x * (1 - 1 / 2 ^ 53) - 1 / 100) / 100)) \<and>
    (\<forall>lo hi. hc_min_trade_usd (h_config h) = Fin lo \<and> hc_max_trade_usd (h_config h) = Fin hi \<and>
        unat (am_decimals (cm_amount init)) \<le> 38 \<longrightarrow>
      lo \<le> of_nat (unat ain) / 10 ^ unat (am_decimals (cm_amount init)) * s * (1 + 1 / 2 ^ 50) + 1 / 2 ^ 1075 \<and>
      of_nat (unat ain) / 10 ^ unat (am_decimals (cm_amount init)) * s * (1 - 1 / 2 ^ 50) - 1 / 2 ^ 1075 \<le> hi)"
proof -
  from assms obtain ain sp dp out where f:
      "x_u256_from_str ext (am_value (cm_amount init)) = Some ain"
      "ps_get now_unix (h_price_storage h) src = Some sp"
      "ps_get now_unix (h_price_storage h) dst = Some dp"
      "amount_out ain sp (decimals src) dp (decimals dst) (hc_spread_percent (h_config h)) = Inr out"
      "\<not> f_lt (amount_in_usd ain (am_decimals (cm_amount init)) sp) (hc_min_trade_usd (h_config h))"
      "\<not> f_lt (hc_max_trade_usd (h_config h)) (amount_in_usd ain (am_decimals (cm_amount init)) sp)"
      "cm_amount counter = amount_new (show_nat (unat out)) (decimals dst)"
    by (auto simp: build_counter_commitment_Inr)
  obtain s d where sd: "sp = Fin s" "0 < s" "dp = Fin d" "0 < d"
    using f(2,3) by (cases sp; cases dp) (auto simp: ps_get_Some positive_price_def)
  obtain x where x: "hc_spread_percent (h_config h) = Fin x" "0 \<le> x" "x < 100"
    using f(4) sd by (cases "hc_spread_percent (h_config h)") (auto simp: amount_out_def split: if_splits)
  note out = f(4) [unfolded sd x]
  have "unat out < 2 ^ 256"
    using unsigned_less [where w = out and 'a = nat] by simp
  then have parse: "parse_uint 256 (am_value (cm_amount counter)) = Some (unat out)"
    by (simp add: f(7) amount_new_def parse_uint_show_nat)
  have dec: "am_decimals (cm_amount counter) = decimals dst"
    by (simp add: f(7) amount_new_def)
  have lim: "lo \<le> of_nat (unat ain) / 10 ^ unat (am_decimals (cm_amount init)) * s * (1 + 1 / 2 ^ 50) + 1 / 2 ^ 1075 \<and>
      of_nat (unat ain) / 10 ^ unat (am_decimals (cm_amount init)) * s * (1 - 1 / 2 ^ 50) - 1 / 2 ^ 1075 \<le> hi"
    if "hc_min_trade_usd (h_config h) = Fin lo \<and> hc_max_trade_usd (h_config h) = Fin hi \<and>
        unat (am_decimals (cm_amount init)) \<le> 38" for lo hi
    using that f(5,6) sd(1,2) by (intro usd_within_limits) simp_all
  show ?thesis
    by (rule exI [of _ ain], rule exI [of _ s], rule exI [of _ d], rule exI [of _ x], rule exI [of _ "unat out"])
      (intro conjI [OF parse] conjI [OF dec] conjI [OF f(1)] conjI [OF f(2) [unfolded sd]]
         conjI [OF f(3) [unfolded sd]] conjI [OF x(1)] conjI [OF x(2)] conjI [OF x(3)] conjI [OF sd(2)]
         conjI [OF sd(4)] conjI impI allI amount_out_le_quoted [OF out decimals_le decimals_le]
         conjunct1 [OF lim] conjunct2 [OF lim]; simp only: simp_thms)
qed

section \<open>A concrete handler for the witnesses\<close>

definition sample_ext :: externs where
  "sample_ext = \<lparr>x_sha256 = id, x_hex_encode = hex_lower, x_address_from_str = (\<lambda>_. None),
     x_u256_from_str = (\<lambda>s. map_option of_nat (parse_uint 256 s))\<rparr>"

definition sample_prices :: price_storage where
  "sample_prices = \<lparr>ps_channels = hm_empty,
     ps_prices = hm_insert EthereumSepolia (Fin 3, 1000) (hm_insert KaspaTn10 (Fin 2, 1000) hm_empty),
     ps_max_age_secs = 300\<rparr>"

definition sample_cfg :: handler_config where
  "sample_cfg = \<lparr>hc_min_trade_usd = Fin 0, hc_max_trade_usd = Fin 10000000000000,
     hc_spread_percent = Fin 1, hc_commit_buffer_secs = 960\<rparr>"

definition sample_swap :: commitment_v1 where
  "sample_swap = commitment_new [1] (addresses_new ''0xuser'' ''0xmm'' ''kaspa:user'')
     (amount_new ''1000000000000'' 0) [7] 10000 1 0"

definition sample_handler :: handler where
  "sample_handler = \<lparr>h_price_storage = sample_prices,
     h_swap_tracker = \<lparr>swaps = hm_insert [1] \<lparr>sr_init_commitment = sample_swap,
        sr_counter_commitment = None, sr_resolution = None, sr_created_at = 1000\<rparr> hm_empty\<rparr>,
     h_config = sample_cfg,
     h_address_lookup_table = hm_insert EthereumSepolia ''0xmm'' (hm_insert KaspaTn10 ''kaspa:mm'' hm_empty),
     h_block_confirmations = hm_empty\<rparr>"

definition sample_clock :: chain_clock where
  "sample_clock = clock_new hm_empty"

definition sample_reply :: commitment_v1 where
  "sample_reply = commitment_new [1] (addresses_new ''kaspa:mm'' ''kaspa:user'' ''0xmm'')
     (amount_new (show_nat 148) 8) [7] 1180 0 1"

lemmas sample_defs = sample_handler_def sample_cfg_def sample_swap_def sample_reply_def
  sample_clock_def sample_ext_def commitment_new_def addresses_new_def amount_new_def clock_new_def

lemma sample_parse: "x_u256_from_str sample_ext ''1000000000000'' = Some 1000000000000"
proof -
  have "parse_uint 256 ''1000000000000'' = Some 1000000000000"
    by (simp add: parse_uint_def strip_plus_def digits_val_def is_digit_def digit_val_def)
  then show ?thesis
    by (simp add: sample_ext_def)
qed

lemma sample_price:
  "ps_get 1000 sample_prices EthereumSepolia = Some (Fin 3)"
  "ps_get 1000 sample_prices KaspaTn10 = Some (Fin 2)"
  by (simp_all add: ps_get_Some sample_prices_def positive_price_def)

lemma sample_usd: "amount_in_usd 1000000000000 0 (Fin 3) = Fin 3000000000000"
  by (simp add: amount_in_usd_def f_of_nat_def)

lemma sample_out: "amount_out 1000000000000 (Fin 3) 18 (Fin 2) 8 (Fin 1) = Inr 148"
  by (simp add: amount_out_def price_fixed_2_3 Let_def spread_bps_def rescale_def
      checked_mul_def checked_div_def saturating_sub_def)

lemma sample_build:
  "build_counter_commitment sample_ext 1000 sample_handler [1] sample_swap EthereumSepolia KaspaTn10
     sample_clock = Inr sample_reply"
  unfolding build_counter_commitment_Inr
  by (rule exI [of _ 1000000000000], rule exI [of _ "Fin 3"], rule exI [of _ "Fin 2"],
      rule exI [of _ 148], rule exI [of _ 1000], rule exI [of _ 1000],
      rule exI [of _ "''kaspa:mm''"], rule exI [of _ "''0xmm''"])
    (use sample_parse sample_price sample_usd sample_out in
      \<open>simp add: sample_defs clock_now_checked_def saturating_sub_def\<close>)

lemma sample_internal:
  "handle_internal_commitment sample_ext 1000 sample_handler sample_swap KaspaTn10 sample_clock
     = Inr sample_reply"
proof -
  have "cm_swap_id sample_swap = [1]"
    by (simp add: sample_defs)
  then show ?thesis
    unfolding handle_internal_commitment_Inr
    by (intro exI [of _ "\<lparr>sr_init_commitment = sample_swap, sr_counter_commitment = None,
          sr_resolution = None, sr_created_at = 1000\<rparr>"] exI [of _ EthereumSepolia] exI [of _ "''0xmm''"])
      (use sample_build in \<open>simp add: sample_handler_def get_swap_def stage_def\<close>,
       simp add: sample_defs normalised_address_eq_def)
qed

theorem counter_unlocks_before_init_witness:
  "unat (cm_unlock_ts sample_reply) + unat (lock_time_secs KaspaTn10) \<le> unat (cm_unlock_ts sample_swap) + 0
   \<and> unat (1000 :: u64) < unat (cm_unlock_ts sample_reply)"
  by (rule counter_unlocks_before_init [OF sample_build, where source_now = 1000])
    (simp_all add: clock_now_checked_def sample_defs)

theorem counter_commitment_locks_witness:
  "mirrors sample_swap sample_reply \<and>
   is_ok (set_counter_commitment (h_swap_tracker sample_handler) [1] sample_reply)"
proof -
  let ?r = "\<lparr>sr_init_commitment = sample_swap, sr_counter_commitment = None,
     sr_resolution = None, sr_created_at = 1000\<rparr>"
  have "mirrors (sr_init_commitment ?r) sample_reply \<and>
    is_ok (set_counter_commitment (h_swap_tracker sample_handler) (cm_swap_id sample_swap) sample_reply)"
  proof (rule counter_commitment_locks [OF sample_internal])
    fix src
    assume "cm_source (sr_init_commitment ?r) = channel_as_u8 src"
    then have "src = EthereumSepolia"
      by (cases src) (simp_all add: sample_defs)
    then show "hm_get (h_address_lookup_table sample_handler) src
        = Some (ad_receiver (cm_addresses (sr_init_commitment ?r)))"
      by (simp add: sample_defs)
  qed (simp_all add: sample_defs get_swap_def)
  then show ?thesis
    by (simp add: sample_swap_def commitment_new_def)
qed

theorem counter_amount_fair_and_limited_witness:
  "parse_uint 256 (am_value (cm_amount sample_reply)) = Some 148 \<and>
   (148 :: rat) / 10 ^ 8 * (2 * (1 - 1 / 2 ^ 53) - 5 / 10 ^ 9)
     \<le> 1000000000000 / 10 ^ 18 * (3 * (1 + 1 / 2 ^ 53) + 5 / 10 ^ 9) * (1 - (1 * (1 - 1 / 2 ^ 53) - 1 / 100) / 100) \<and>
   0 \<le> (1000000000000 :: rat) / 10 ^ 0 * 3 * (1 + 1 / 2 ^ 50) + 1 / 2 ^ 1075 \<and>
   (1000000000000 :: rat) / 10 ^ 0 * 3 * (1 - 1 / 2 ^ 50) - 1 / 2 ^ 1075 \<le> 10000000000000"
proof -
  have parse: "parse_uint 256 (am_value (cm_amount sample_reply)) = Some 148"
    by (simp add: sample_reply_def commitment_new_def amount_new_def parse_uint_show_nat del: show_nat.simps)
  have "ps_get 1000 (h_price_storage sample_handler) EthereumSepolia = Some (Fin 3)"
    "ps_get 1000 (h_price_storage sample_handler) KaspaTn10 = Some (Fin 2)"
    "hc_spread_percent (h_config sample_handler) = Fin 1" "hc_min_trade_usd (h_config sample_handler) = Fin 0"
    "hc_max_trade_usd (h_config sample_handler) = Fin 10000000000000"
    "x_u256_from_str sample_ext (am_value (cm_amount sample_swap)) = Some 1000000000000"
    "am_decimals (cm_amount sample_swap) = 0"
    using sample_price sample_parse by (simp_all add: sample_defs)
  with counter_amount_fair_and_limited [OF sample_build] parse show ?thesis
    by simp
qed

section \<open>Quotes and events\<close>

lemma create_proposal_Inr:
  "create_proposal ext now_unix h rq = Inr p \<Longrightarrow>
   rq_origin rq = channel_as_u8 src \<Longrightarrow> rq_destination rq = channel_as_u8 dst \<Longrightarrow>
   \<exists>sp dp ain out ours.
      ps_get now_unix (h_price_storage h) src = Some sp \<and>
      ps_get now_unix (h_price_storage h) dst = Some dp \<and>
      x_u256_from_str ext (rq_amount rq) = Some ain \<and>
      \<not> f_lt (amount_in_usd ain (decimals src) sp) (hc_min_trade_usd (h_config h)) \<and>
      \<not> f_lt (hc_max_trade_usd (h_config h)) (amount_in_usd ain (decimals src) sp) \<and>
      amount_out ain sp (decimals src) dp (decimals dst) (hc_spread_percent (h_config h)) = Inr out \<and>
      hm_get (h_address_lookup_table h) src = Some ours \<and>
      p = \<lparr>tp_origin = dst, tp_destination = src, tp_amount_in = show_nat (unat out),
           tp_amount_out = rq_amount rq, tp_sender_destination_address = ours,
           tp_commit_unlock_offset_secs =
             required_init_lock_secs dst (hc_commit_buffer_secs (h_config h)) True\<rparr>"
  unfolding create_proposal_def Let_def
  by (simp only: result_simps try_channel_Inr channel_as_u8_inject ex_simps sum.inject) blast

text \<open>
  (C11) A quote is honoured: if the user locks the quoted input for the quoted offset, counted from
  a time \<open>t\<close>, and the deposit reaches the maker no later than the commit buffer after \<open>t\<close>,
  then, at unchanged prices, the handler answers with a counter commitment over exactly the
  quoted amount whose sender destination is the address of the quote.
\<close>

theorem quote_honoured:
  fixes t :: u64
  assumes quote: "create_proposal ext now_unix h
      \<lparr>rq_origin = channel_as_u8 src, rq_destination = channel_as_u8 dst, rq_amount = v\<rparr> = Inr p"
    and paid: "cm_amount init = amount_new v (decimals src)"
    and clocks: "clock_now_checked now_unix clock src = Some source_now"
      "clock_now_checked now_unix clock dst = Some dest_now"
    and locked: "unat t + unat (tp_commit_unlock_offset_secs p) \<le> unat (cm_unlock_ts init)"
    and in_time: "unat source_now \<le> unat t + unat (hc_commit_buffer_secs (h_config h))"
    and buffer: "unat (hc_commit_buffer_secs (h_config h)) + 7200 < 2 ^ 64"
    and addr: "hm_get (h_address_lookup_table h) dst = Some mmd"
  shows "\<exists>counter. build_counter_commitment ext now_unix h sid init src dst clock = Inr counter \<and>
     cm_amount counter = amount_new (tp_amount_in p) (decimals dst) \<and>
     ad_sender_destination (cm_addresses counter) = tp_sender_destination_address p"
proof -
  from create_proposal_Inr [OF quote, of src dst] obtain sp dp ain out ours where f:
      "ps_get now_unix (h_price_storage h) src = Some sp"
      "ps_get now_unix (h_price_storage h) dst = Some dp" "x_u256_from_str ext v = Some ain"
      "\<not> f_lt (amount_in_usd ain (decimals src) sp) (hc_min_trade_usd (h_config h))"
      "\<not> f_lt (hc_max_trade_usd (h_config h)) (amount_in_usd ain (decimals src) sp)"
      "amount_out ain sp (decimals src) dp (decimals dst) (hc_spread_percent (h_config h)) = Inr out"
      "hm_get (h_address_lookup_table h) src = Some ours"
      "tp_amount_in p = show_nat (unat out)" "tp_sender_destination_address p = ours"
      "tp_commit_unlock_offset_secs p = lock_time_secs dst * 2 + hc_commit_buffer_secs (h_config h)"
    by (auto simp: required_init_lock_secs_def)
  have "unat (tp_commit_unlock_offset_secs p)
      = 2 * unat (lock_time_secs dst) + unat (hc_commit_buffer_secs (h_config h))"
    unfolding f(10) using buffer lock_time_secs_bounds [of dst]
    by (subst unat_add_no_wrap) (simp_all add: lock_time_twice)
  then have "\<not> saturating_sub (cm_unlock_ts init) source_now < lock_time_secs dst * 2"
    using locked in_time by (simp add: word_less_nat_alt rust_arith lock_time_twice)
  then show ?thesis
    using f clocks addr paid
    by (auto simp: build_counter_commitment_Inr amount_new_def addresses_new_def)
qed

text \<open>
  (C9) No secret is lost: when a reveal with the right preimage is seen on one leg of a locked
  swap, the handler completes the swap and broadcasts the same reveal on the other leg.
\<close>

theorem valid_reveal_forwarded:
  assumes swap: "get_swap (h_swap_tracker h) sid = Some r" "sr_resolution r = None"
      "sr_counter_commitment r = Some c"
    and legs: "mirrors (sr_init_commitment r) c"
      "cm_source (sr_init_commitment r) = channel_as_u8 a" "cm_source c = channel_as_u8 b" "a \<noteq> b"
    and secret: "x_sha256 ext s = cm_secret_hash c" and hex: "hex_encoder (x_hex_encode ext)"
    and seen: "source = a \<or> source = b"
  shows "\<exists>h'. on_chain_event ext now_unix h source (Reveal (reveal_new sid s)) clock
        = (h', Inr [Broadcast (if source = a then b else a) (Reveal (reveal_new sid s))]) \<and>
     stage_of (h_swap_tracker h') sid = Some Completed"
proof -
  let ?t = "(h_swap_tracker h)\<lparr>swaps := hm_insert sid
      (r\<lparr>sr_resolution := Some (x_hex_encode ext s)\<rparr>) (swaps (h_swap_tracker h))\<rparr>"
  have "set_revealed (x_sha256 ext) (x_hex_encode ext) (h_swap_tracker h) sid s = Inr ?t"
    using swap secret by (auto simp: set_revealed_Inr)
  then have rev: "handle_external_reveal ext h (reveal_new sid s) = Inr (h\<lparr>h_swap_tracker := ?t\<rparr>)"
    by (simp add: handle_external_reveal_def reveal_new_def with_tracker_Inr)
  have got: "get_swap ?t sid = Some (r\<lparr>sr_resolution := Some (x_hex_encode ext s)\<rparr>)"
    by simp
  have hash: "cm_secret_hash (sr_init_commitment r) = cm_secret_hash c"
    using legs(1) by (simp add: mirrors_def)
  have "stage (r\<lparr>sr_resolution := Some (x_hex_encode ext s)\<rparr>) = Completed"
    using hex_encoder_not_refunded [OF hex] by (simp add: stage_def)
  then show ?thesis
    using rev got swap legs secret seen hash
    by (auto simp: on_reveal_def get_counterparty_channel_id_def get_commitment_for_channel_def
        reveal_new_def stage_of_def)
qed

lemma on_commitment_Inr:
  "on_commitment ext now_unix h source c clock = (h', Inr effs) \<longleftrightarrow>
     handle_external_commitment now_unix h c = Inr h' \<and>
     (\<exists>dst. cm_destination c = channel_as_u8 dst \<and>
        effs = TransmitReveal c #
          (if dst \<noteq> source
           then case handle_internal_commitment ext now_unix h' c dst clock of
                  Inr counter \<Rightarrow> [Broadcast dst (Commitment counter)] | Inl _ \<Rightarrow> []
           else []))"
  by (auto simp: on_commitment_def r_bind_eq_Inr split: sum.splits)

lemma on_commitment_broadcast:
  assumes "on_commitment ext now_unix h source c clock = (h', Inr effs)"
    and "Broadcast ch ev \<in> set effs"
  shows "\<exists>counter. ev = Commitment counter \<and> ch \<noteq> source \<and> cm_destination c = channel_as_u8 ch \<and>
     handle_internal_commitment ext now_unix h' c ch clock = Inr counter \<and>
     effs = [TransmitReveal c, Broadcast ch (Commitment counter)]"
  using assms by (auto simp: on_commitment_Inr split: if_splits sum.splits)

lemma on_reveal_broadcast:
  assumes "on_reveal ext h source rv = (h', Inr effs)" and "Broadcast ch ev \<in> set effs"
  shows "ev = Reveal rv \<and> (\<exists>cm. get_commitment_for_channel h' (rv_swap_id rv) ch = Inr (Some cm) \<and>
     x_sha256 ext (rv_secret rv) = cm_secret_hash cm)"
proof -
  from assms(1) obtain cp where cp: "get_counterparty_channel_id h' (rv_swap_id rv) source = Inr cp"
    by (auto simp: on_reveal_def r_bind_eq_Inr split: sum.splits)
  with assms obtain to where to: "cp = Some to"
    by (cases cp) (auto simp: on_reveal_def split: sum.splits)
  from assms(1) cp to obtain cm where cm: "get_commitment_for_channel h' (rv_swap_id rv) to = Inr cm"
    by (auto simp: on_reveal_def r_bind_eq_Inr split: sum.splits)
  with assms cp to show ?thesis
    by (cases cm) (auto simp: on_reveal_def split: sum.splits if_splits)
qed

text \<open>
  (C10) Nothing is broadcast without cause. A commitment is broadcast only in answer to a commitment
  event, on another channel than the one it came from, for a recorded and still unlocked swap
  whose receiver on the source channel is the maker's own address; a reveal is broadcast only
  in answer to the same reveal, and only with a preimage of the hash on the leg it goes to; a
  refund is never broadcast.
\<close>

theorem broadcasts_are_justified:
  assumes run: "on_chain_event ext now_unix h source ev clock = (h', Inr effs)"
    and eff: "Broadcast ch out \<in> set effs"
  shows "case out of
      Commitment counter \<Rightarrow>
        (\<exists>c r src ours. ev = Commitment c \<and> ch \<noteq> source \<and>
           get_swap (h_swap_tracker h') (cm_swap_id c) = Some r \<and> stage r = Initialized \<and>
           cm_source (sr_init_commitment r) = channel_as_u8 src \<and>
           cm_destination (sr_init_commitment r) = channel_as_u8 ch \<and>
           hm_get (h_address_lookup_table h') src = Some ours \<and>
           normalised_address_eq ext src (ad_receiver (cm_addresses (sr_init_commitment r))) ours)
    | Reveal rv \<Rightarrow> ev = Reveal rv \<and>
        (\<exists>cm. get_commitment_for_channel h' (rv_swap_id rv) ch = Inr (Some cm) \<and>
           x_sha256 ext (rv_secret rv) = cm_secret_hash cm)
    | Refund rf \<Rightarrow> False"
proof (cases ev)
  case (Commitment c)
  with run have "on_commitment ext now_unix h source c clock = (h', Inr effs)"
    by simp
  from on_commitment_broadcast [OF this eff] Commitment show ?thesis
    by (auto simp: handle_internal_commitment_Inr)
next
  case (Reveal rv)
  with run have "on_reveal ext h source rv = (h', Inr effs)"
    by simp
  from on_reveal_broadcast [OF this eff] Reveal show ?thesis
    by auto
next
  case (Refund rf)
  with run eff show ?thesis
    by (auto simp: on_refund_def split: sum.splits)
qed

lemma external_commitment_same_source:
  assumes "handle_external_commitment now_unix h c = Inr h'"
    and "get_swap (h_swap_tracker h') (cm_swap_id c) = Some r" and "stage r = Initialized"
  shows "cm_source (sr_init_commitment r) = cm_source c"
  using assms
  by (auto simp: handle_external_commitment_def with_tracker_Inr tracker_op_Inr stage_def
      split: option.splits if_splits)

text \<open>
  A later life of the handler: chain events in any order, each at its own time, with the price
  storage and the chain clocks as they are then.
\<close>

fun handler_run ::
  "externs \<Rightarrow> handler \<Rightarrow> (u64 \<times> price_storage \<times> channel_id \<times> chain_event \<times> chain_clock) list \<Rightarrow> handler" where
  "handler_run ext h [] = h"
| "handler_run ext h ((now_unix, ps, source, ev, clock) # evs) =
     handler_run ext (fst (on_chain_event ext now_unix (h\<lparr>h_price_storage := ps\<rparr>) source ev clock)) evs"

definition keeps_init :: "handler \<Rightarrow> handler \<Rightarrow> bool" where
  "keeps_init h h' \<longleftrightarrow>
     h_address_lookup_table h' = h_address_lookup_table h \<and> h_config h' = h_config h \<and>
     (\<forall>sid r. get_swap (h_swap_tracker h) sid = Some r \<longrightarrow>
        (\<exists>r'. get_swap (h_swap_tracker h') sid = Some r' \<and> sr_init_commitment r' = sr_init_commitment r))"

lemma keeps_init_refl: "keeps_init h h"
  by (simp add: keeps_init_def)

lemma keeps_init_trans: "keeps_init h h' \<Longrightarrow> keeps_init h' h'' \<Longrightarrow> keeps_init h h''"
  unfolding keeps_init_def by (elim conjE; intro conjI; force)

lemma keeps_init_prices [simp]: "keeps_init (h\<lparr>h_price_storage := ps\<rparr>) h' \<longleftrightarrow> keeps_init h h'"
  by (simp add: keeps_init_def)

lemma external_keeps_init:
  "handle_external_commitment now_unix h c = Inr h' \<Longrightarrow> keeps_init h h'"
  "handle_external_reveal ext h rv = Inr h' \<Longrightarrow> keeps_init h h'"
  "handle_external_refund h rf = Inr h' \<Longrightarrow> keeps_init h h'"
  by (auto simp: keeps_init_def handle_external_commitment_def handle_external_reveal_def
      handle_external_refund_def with_tracker_Inr tracker_op_Inr split: option.splits if_splits)

lemma on_chain_event_keeps_init: "keeps_init h (fst (on_chain_event ext now_unix h source ev clock))"
  by (cases ev)
    (auto simp: on_commitment_def on_reveal_def on_refund_def keeps_init_refl split: sum.splits
      intro: external_keeps_init)

lemma handler_run_keeps_init: "keeps_init h (handler_run ext h evs)"
proof (induction ext h evs rule: handler_run.induct)
  case (2 ext h now_unix ps source ev clock evs)
  then show ?case
    using on_chain_event_keeps_init [of "h\<lparr>h_price_storage := ps\<rparr>" ext now_unix source ev clock]
    by (auto elim: keeps_init_trans)
qed (simp add: keeps_init_refl)

lemma counter_same_legs:
  assumes "build_counter_commitment ext now_unix h sid init src dst clock = Inr counter"
    and "build_counter_commitment ext now_unix' h' sid init src dst clock' = Inr counter'"
    and "h_address_lookup_table h' = h_address_lookup_table h"
  shows "cm_swap_id counter' = cm_swap_id counter \<and> cm_addresses counter' = cm_addresses counter \<and>
     cm_secret_hash counter' = cm_secret_hash counter"
  using assms by (auto simp: build_counter_commitment_Inr)

text \<open>
  (C12) A counter commitment is not remembered until its own chain confirms it. Once the handler
  has asked for one, then after any later chain events, at any later time and prices, as long as
  the swap has no counter leg and no resolution on record, a further commitment event with the
  same swap id, source and destination, whatever else it says, makes the handler build a counter for
  the first recorded deposit again, with the prices and clocks of that moment, and, when that
  succeeds, broadcast it: another lock of the same hash in favour of the same payee.
\<close>

theorem replay_rebroadcasts_counter:
  assumes first: "on_chain_event ext now_unix h source (Commitment c) clock = (h', Inr effs)"
    and eff: "Broadcast dst (Commitment counter) \<in> set effs"
    and later: "hn = (handler_run ext h' evs)\<lparr>h_price_storage := ps\<rparr>"
    and open_swap: "stage_of (h_swap_tracker hn) (cm_swap_id c) = Some Initialized"
    and same: "cm_swap_id c' = cm_swap_id c" "cm_source c' = cm_source c"
      "cm_destination c' = cm_destination c"
  shows "\<exists>r src. get_swap (h_swap_tracker h') (cm_swap_id c) = Some r \<and> cm_source c = channel_as_u8 src \<and>
     on_chain_event ext now_unix' hn source (Commitment c') clock' =
       (hn, Inr (TransmitReveal c' #
          (case build_counter_commitment ext now_unix' hn (cm_swap_id c) (sr_init_commitment r) src dst clock' of
             Inr counter' \<Rightarrow> [Broadcast dst (Commitment counter')] | Inl _ \<Rightarrow> []))) \<and>
     (\<forall>counter'. build_counter_commitment ext now_unix' hn (cm_swap_id c) (sr_init_commitment r) src dst clock'
          = Inr counter' \<longrightarrow>
        cm_swap_id counter' = cm_swap_id counter \<and> cm_addresses counter' = cm_addresses counter \<and>
        cm_secret_hash counter' = cm_secret_hash counter)"
proof -
  from first have run: "on_commitment ext now_unix h source c clock = (h', Inr effs)"
    by simp
  from on_commitment_broadcast [OF run eff] have
      int: "handle_internal_commitment ext now_unix h' c dst clock = Inr counter" and
      dst: "dst \<noteq> source" "cm_destination c = channel_as_u8 dst"
    by auto
  from int obtain r src ours where r: "get_swap (h_swap_tracker h') (cm_swap_id c) = Some r" "stage r = Initialized"
      "cm_source (sr_init_commitment r) = channel_as_u8 src"
      "cm_destination (sr_init_commitment r) = channel_as_u8 dst"
      "hm_get (h_address_lookup_table h') src = Some ours"
      "normalised_address_eq ext src (ad_receiver (cm_addresses (sr_init_commitment r))) ours"
      "build_counter_commitment ext now_unix h' (cm_swap_id c) (sr_init_commitment r) src dst clock = Inr counter"
    by (auto simp: handle_internal_commitment_Inr)
  have keep: "keeps_init h' hn"
    using handler_run_keeps_init [of h' ext evs] by (simp add: later keeps_init_def)
  then obtain r2 where r2: "get_swap (h_swap_tracker hn) (cm_swap_id c) = Some r2"
      "sr_init_commitment r2 = sr_init_commitment r"
    using r(1) by (auto simp: keeps_init_def)
  then have none: "sr_counter_commitment r2 = None" "sr_resolution r2 = None"
    using open_swap by (auto simp: stage_of_def stage_def split: option.splits if_splits)
  have src: "cm_source c = channel_as_u8 src"
    using external_commitment_same_source [OF _ r(1,2)] run r(3) by (auto simp: on_commitment_Inr)
  have ext: "handle_external_commitment now_unix' hn c' = Inr hn"
    using r2 r(3) same src by (simp add: handle_external_commitment_def)
  have "handle_internal_commitment ext now_unix' hn c' dst clock'
      = build_counter_commitment ext now_unix' hn (cm_swap_id c) (sr_init_commitment r) src dst clock'"
    using r r2 none keep same by (simp add: handle_internal_commitment_def keeps_init_def)
  with ext dst same have "on_chain_event ext now_unix' hn source (Commitment c') clock' =
      (hn, Inr (TransmitReveal c' #
        (case build_counter_commitment ext now_unix' hn (cm_swap_id c) (sr_init_commitment r) src dst clock' of
           Inr counter' \<Rightarrow> [Broadcast dst (Commitment counter')] | Inl _ \<Rightarrow> [])))"
    by (simp add: on_commitment_def)
  moreover have "h_address_lookup_table hn = h_address_lookup_table h'"
    using keep by (simp add: keeps_init_def)
  ultimately show ?thesis
    using r(1) src counter_same_legs [OF r(7)] by blast
qed

definition sample_quote :: trade_proposal where
  "sample_quote = \<lparr>tp_origin = EthereumSepolia, tp_destination = KaspaTn10,
     tp_amount_in = show_nat 6599999990000000000, tp_amount_out = ''1000000000'',
     tp_sender_destination_address = ''kaspa:mm'', tp_commit_unlock_offset_secs = 2760\<rparr>"

lemma sample_proposal:
  "create_proposal sample_ext 1000 sample_handler
     \<lparr>rq_origin = channel_as_u8 KaspaTn10, rq_destination = channel_as_u8 EthereumSepolia,
      rq_amount = ''1000000000''\<rparr> = Inr sample_quote"
proof -
  have "x_u256_from_str sample_ext ''1000000000'' = Some 1000000000"
    by (simp add: sample_ext_def parse_uint_def strip_plus_def digits_val_def is_digit_def digit_val_def)
  moreover have "amount_in_usd 1000000000 8 (Fin 2) = Fin 20"
    by (simp add: amount_in_usd_def f_of_nat_def)
  moreover have "amount_out 1000000000 (Fin 2) 8 (Fin 3) 18 (Fin 1) = Inr 6599999990000000000"
    by (simp add: amount_out_def price_fixed_2_3 Let_def spread_bps_def rescale_def
        checked_mul_def checked_div_def saturating_sub_def)
  ultimately show ?thesis
    using sample_price
    by (simp add: create_proposal_def try_channel_def channel_try_from_def sample_handler_def
        sample_cfg_def required_init_lock_secs_def sample_quote_def)
qed

theorem quote_honoured_witness:
  "\<exists>counter. build_counter_commitment sample_ext 1000 sample_handler [2]
      (commitment_new [2] (addresses_new ''u'' ''kaspa:mm'' ''d'') (amount_new ''1000000000'' 8) [7] 100000 0 1)
      KaspaTn10 EthereumSepolia sample_clock = Inr counter \<and>
   cm_amount counter = amount_new (tp_amount_in sample_quote) (decimals EthereumSepolia) \<and>
   ad_sender_destination (cm_addresses counter) = tp_sender_destination_address sample_quote"
  by (rule quote_honoured [OF sample_proposal, where t = 900 and source_now = 1000 and dest_now = 1000
        and mmd = "''0xmm''"])
    (simp_all add: sample_defs sample_quote_def clock_now_checked_def)

definition sample_locked_handler :: handler where
  "sample_locked_handler = sample_handler\<lparr>h_swap_tracker := sample_locked\<rparr>"

theorem valid_reveal_forwarded_witness:
  "\<exists>h'. on_chain_event sample_ext 1000 sample_locked_handler KaspaTn10
          (Reveal (reveal_new [1] [7])) sample_clock
        = (h', Inr [Broadcast EthereumSepolia (Reveal (reveal_new [1] [7]))]) \<and>
     stage_of (h_swap_tracker h') [1] = Some Completed"
proof -
  have legs: "cm_source sample_init = channel_as_u8 EthereumSepolia"
      "cm_source sample_counter = channel_as_u8 KaspaTn10" "cm_secret_hash sample_counter = [7]"
    by (simp_all add: sample_init_def sample_counter_def commitment_new_def)
  show ?thesis
    using valid_reveal_forwarded [of sample_locked_handler "[1]" _ sample_counter EthereumSepolia
        KaspaTn10 sample_ext "[7]" KaspaTn10 1000 sample_clock] legs sample_mirrors
    by (auto simp: sample_locked_handler_def sample_ext_def hex_encoder_hex_lower)
qed

lemma sample_event:
  "on_chain_event sample_ext 1000 sample_handler EthereumSepolia (Commitment sample_swap) sample_clock
     = (sample_handler, Inr [TransmitReveal sample_swap, Broadcast KaspaTn10 (Commitment sample_reply)])"
proof -
  have "handle_external_commitment 1000 sample_handler sample_swap = Inr sample_handler"
    by (simp add: handle_external_commitment_def sample_handler_def get_swap_def sample_swap_def
        commitment_new_def)
  moreover have "cm_destination sample_swap = channel_as_u8 KaspaTn10"
    by (simp add: sample_swap_def commitment_new_def)
  ultimately show ?thesis
    unfolding on_chain_event.simps on_commitment_Inr
    by (intro conjI exI [of _ KaspaTn10]) (simp_all add: sample_internal)
qed

theorem broadcasts_are_justified_witness:
  "\<exists>c r src ours. Commitment sample_swap = Commitment c \<and> KaspaTn10 \<noteq> EthereumSepolia \<and>
     get_swap (h_swap_tracker sample_handler) (cm_swap_id c) = Some r \<and> stage r = Initialized \<and>
     cm_source (sr_init_commitment r) = channel_as_u8 src \<and>
     cm_destination (sr_init_commitment r) = channel_as_u8 KaspaTn10 \<and>
     hm_get (h_address_lookup_table sample_handler) src = Some ours \<and>
     normalised_address_eq sample_ext src (ad_receiver (cm_addresses (sr_init_commitment r))) ours"
  using broadcasts_are_justified [OF sample_event, of KaspaTn10 "Commitment sample_reply"] by simp

text \<open>
  A second deposit of one unit with the same swap id costs the maker a second full lock, ten
  seconds later and after another event.
\<close>

theorem replay_rebroadcasts_counter_witness:
  "on_chain_event sample_ext 1010 sample_handler EthereumSepolia
     (Commitment (sample_swap\<lparr>cm_amount := amount_new ''1'' 0\<rparr>)) sample_clock
   = (sample_handler, Inr [TransmitReveal (sample_swap\<lparr>cm_amount := amount_new ''1'' 0\<rparr>),
        Broadcast KaspaTn10 (Commitment (sample_reply\<lparr>cm_unlock_ts := 1190\<rparr>))])"
proof -
  let ?c' = "sample_swap\<lparr>cm_amount := amount_new ''1'' 0\<rparr>"
  let ?evs = "[(1005, sample_prices, KaspaTn10, Refund (refund_new [9]), sample_clock)]"
  have run: "(handler_run sample_ext sample_handler ?evs)\<lparr>h_price_storage := sample_prices\<rparr> = sample_handler"
    by (simp add: on_refund_def handle_external_refund_def with_tracker_def set_refunded_def
        sample_handler_def get_swap_def locked_unresolved_def)
  have build: "build_counter_commitment sample_ext 1010 sample_handler [1] sample_swap EthereumSepolia KaspaTn10
     sample_clock = Inr (sample_reply\<lparr>cm_unlock_ts := 1190\<rparr>)"
    unfolding build_counter_commitment_Inr
    by (rule exI [of _ 1000000000000], rule exI [of _ "Fin 3"], rule exI [of _ "Fin 2"],
        rule exI [of _ 148], rule exI [of _ 1010], rule exI [of _ 1010],
        rule exI [of _ "''kaspa:mm''"], rule exI [of _ "''0xmm''"])
      (use sample_parse sample_usd sample_out in \<open>simp add: sample_defs clock_now_checked_def saturating_sub_def
         ps_get_Some sample_prices_def positive_price_def\<close>)
  have get: "get_swap (h_swap_tracker sample_handler) [1] = Some \<lparr>sr_init_commitment = sample_swap,
      sr_counter_commitment = None, sr_resolution = None, sr_created_at = 1000\<rparr>"
    by (simp add: sample_handler_def get_swap_def)
  have fields: "cm_swap_id sample_swap = [1]" "cm_source sample_swap = 1" "cm_destination sample_swap = 0"
    by (simp_all add: sample_swap_def commitment_new_def)
  have src: "1 = channel_as_u8 src \<longleftrightarrow> src = EthereumSepolia" for src
    by (cases src) simp_all
  show ?thesis
    using replay_rebroadcasts_counter [OF sample_event, where dst = KaspaTn10 and counter = sample_reply
        and evs = ?evs and ps = sample_prices and hn = sample_handler and c' = ?c' and now_unix' = 1010
        and clock' = sample_clock] run build
    by (simp add: fields get src stage_of_def stage_def)
qed

end
