(* ===== verification/Settlement.thy ===== *)
theory Settlement
  imports Protocol
begin

text \<open>
  The settlement engine of the data crate (\<open>chains/settlement/\<close>, \<open>chains/record/attempt.rs\<close> and
  the queue helpers of \<open>chains/mod.rs\<close>): the attempt state with its exponential back-off, the
  retry queue, the driver that settles what is due and the boot-time reconciliation.

  The \<open>Settler\<close> trait is a record of operations over a state. The network is seen through an
  environment \<open>'n\<close> that the operations receive: the driver gets one environment per key, so
  every call may meet a different network. The contract of the trait is the locale
  \<open>settler_contract\<close>; the two chain buffers interpret it.
\<close>

section \<open>Attempts\<close>

record attempt_state =
  as_first_seen :: u64
  as_next_attempt_at :: u64
  as_attempt_count :: u32
  as_deadline :: u64
  as_nonce :: "u64 option"
  as_last_gas :: "u128 option"

definition BASE_DELAY_SECS :: u64 where "BASE_DELAY_SECS = 5"
definition MAX_DELAY_SECS :: u64 where "MAX_DELAY_SECS = 24 * 3600"
definition JITTER_MAX_SECS :: u64 where "JITTER_MAX_SECS = 60"
definition MAX_BACKOFF_SHIFT :: u32 where "MAX_BACKOFF_SHIFT = 13"
definition DEADLINE_SECS :: u64 where "DEADLINE_SECS = 7 * 24 * 3600"

lemmas attempt_consts = BASE_DELAY_SECS_def MAX_DELAY_SECS_def JITTER_MAX_SECS_def
  MAX_BACKOFF_SHIFT_def DEADLINE_SECS_def

definition attempt_new :: "u64 \<Rightarrow> attempt_state" where
  "attempt_new now =
     \<lparr>as_first_seen = now, as_next_attempt_at = now, as_attempt_count = 0,
      as_deadline = saturating_add now DEADLINE_SECS, as_nonce = None, as_last_gas = None\<rparr>"

definition due :: "attempt_state \<Rightarrow> u64 \<Rightarrow> bool" where
  "due self now = (as_next_attempt_at self \<le> now)"

definition expired :: "attempt_state \<Rightarrow> u64 \<Rightarrow> bool" where
  "expired self now = (as_deadline self \<le> now)"

definition backoff_delay :: "u32 \<Rightarrow> u64 \<Rightarrow> u64" where
  "backoff_delay count jitter =
     (let shift = min count MAX_BACKOFF_SHIFT in
      saturating_add
        (min (saturating_mul BASE_DELAY_SECS (push_bit (unat shift) 1)) MAX_DELAY_SECS)
        (jitter mod JITTER_MAX_SECS))"

definition on_failure :: "u64 \<Rightarrow> u64 \<Rightarrow> attempt_state \<Rightarrow> attempt_state" where
  "on_failure now jitter self =
     self\<lparr>as_attempt_count := saturating_add (as_attempt_count self) 1,
          as_next_attempt_at := saturating_add now (backoff_delay (as_attempt_count self) jitter)\<rparr>"

section \<open>Actions and the retry queue\<close>

datatype action = Claim | RefundAction

record action_key =
  ak_swap_id :: bytes
  ak_action :: action

definition claim_key :: "bytes \<Rightarrow> action_key" where
  "claim_key swap_id = \<lparr>ak_swap_id = swap_id, ak_action = Claim\<rparr>"

definition refund_key :: "bytes \<Rightarrow> action_key" where
  "refund_key swap_id = \<lparr>ak_swap_id = swap_id, ak_action = RefundAction\<rparr>"

type_synonym retry_queue = "(action_key, attempt_state) hashmap"

definition rq_seed :: "action_key \<Rightarrow> attempt_state \<Rightarrow> retry_queue \<Rightarrow> retry_queue" where
  "rq_seed key state q = hm_insert key state q"

definition rq_ensure :: "action_key \<Rightarrow> u64 \<Rightarrow> retry_queue \<Rightarrow> retry_queue" where
  "rq_ensure key now q = (if hm_contains q key then q else hm_insert key (attempt_new now) q)"

definition rq_due_now :: "u64 \<Rightarrow> retry_queue \<Rightarrow> action_key list" where
  "rq_due_now now q = map fst (filter (\<lambda>(_, s). due s now) (hm_iter q))"

definition rq_record_success :: "action_key \<Rightarrow> retry_queue \<Rightarrow> retry_queue" where
  "rq_record_success key q = hm_remove key q"

definition rq_record_failure :: "action_key \<Rightarrow> u64 \<Rightarrow> u64 \<Rightarrow> retry_queue \<Rightarrow> retry_queue" where
  "rq_record_failure key now jitter q = hm_modify key (on_failure now jitter) q"

definition rq_set_nonce :: "action_key \<Rightarrow> u64 \<Rightarrow> retry_queue \<Rightarrow> retry_queue" where
  "rq_set_nonce key nonce q = hm_modify key (\<lambda>s. s\<lparr>as_nonce := Some nonce\<rparr>) q"

definition rq_set_last_gas :: "action_key \<Rightarrow> u128 \<Rightarrow> retry_queue \<Rightarrow> retry_queue" where
  "rq_set_last_gas key gas q = hm_modify key (\<lambda>s. s\<lparr>as_last_gas := Some gas\<rparr>) q"

definition rq_is_stuck :: "action_key \<Rightarrow> u64 \<Rightarrow> retry_queue \<Rightarrow> bool" where
  "rq_is_stuck key now q = (case hm_get q key of None \<Rightarrow> False | Some s \<Rightarrow> expired s now)"

definition rq_get :: "action_key \<Rightarrow> retry_queue \<Rightarrow> attempt_state option" where
  "rq_get key q = hm_get q key"

lemmas rq_defs = rq_seed_def rq_ensure_def rq_record_success_def rq_record_failure_def
  rq_set_nonce_def rq_set_last_gas_def rq_get_def rq_is_stuck_def

section \<open>Pending claims and refunds\<close>

definition queue_dequeue_refund_event ::
  "(refund_v1 \<times> u64) list \<Rightarrow> chain_event \<Rightarrow> bool \<Rightarrow> (refund_v1 \<times> u64) list" where
  "queue_dequeue_refund_event pending event participate_ccr =
     (case event of
        Commitment c \<Rightarrow>
          if participate_ccr \<and> \<not> list_ex (\<lambda>(r, _). rf_swap_id r = cm_swap_id c) pending
          then pending @ [(refund_new (cm_swap_id c), cm_unlock_ts c)] else pending
      | Reveal r \<Rightarrow> filter (\<lambda>(p, _). rf_swap_id p \<noteq> rv_swap_id r) pending
      | Refund r \<Rightarrow> filter (\<lambda>(p, _). rf_swap_id p \<noteq> rf_swap_id r) pending)"

fun event_swap_id :: "chain_event \<Rightarrow> bytes" where
  "event_swap_id (Commitment c) = cm_swap_id c"
| "event_swap_id (Reveal r) = rv_swap_id r"
| "event_swap_id (Refund r) = rf_swap_id r"

definition push_pending_claim :: "reveal_v1 list \<Rightarrow> reveal_v1 \<Rightarrow> reveal_v1 list" where
  "push_pending_claim pending reveal =
     (if list_ex (\<lambda>c. rv_swap_id c = rv_swap_id reveal) pending then pending
      else pending @ [reveal])"

definition push_pending_refund ::
  "(refund_v1 \<times> u64) list \<Rightarrow> bytes \<Rightarrow> u64 \<Rightarrow> (refund_v1 \<times> u64) list \<times> bool" where
  "push_pending_refund pending swap_id unlock =
     (if list_ex (\<lambda>(p, _). rf_swap_id p = swap_id) pending then (pending, False)
      else (pending @ [(refund_new swap_id, unlock)], True))"

section \<open>The network helpers\<close>

text \<open>
  \<open>timed\<close> races a future against a timeout: \<^term>\<open>None\<close> is the timeout. \<open>retry_timed\<close> calls its
  operation up to \<open>RETRY_ATTEMPTS\<close> times; \<open>op i\<close> is what the \<open>i\<close>-th call gives.
\<close>

definition RETRY_ATTEMPTS :: nat where "RETRY_ATTEMPTS = 3"

fun retry_from :: "nat \<Rightarrow> nat \<Rightarrow> (nat \<Rightarrow> ('t, 'e) result option) \<Rightarrow> 't option" where
  "retry_from 0 attempt op = None"
| "retry_from (Suc left) attempt op =
     (case op attempt of
        Some (Inr v) \<Rightarrow> Some v
      | Some (Inl _) \<Rightarrow> retry_from left (Suc attempt) op
      | None \<Rightarrow> retry_from left (Suc attempt) op)"

definition retry_timed :: "(nat \<Rightarrow> ('t, 'e) result option) \<Rightarrow> 't option" where
  "retry_timed op = retry_from RETRY_ATTEMPTS 0 op"

lemma retry_timed_first: "op 0 = Some (Inr v) \<Longrightarrow> retry_timed op = Some v"
  by (simp add: retry_timed_def RETRY_ATTEMPTS_def numeral_3_eq_3)

lemma retry_timed_second: "op 0 = None \<Longrightarrow> op (Suc 0) = Some (Inr v) \<Longrightarrow> retry_timed op = Some v"
  by (simp add: retry_timed_def RETRY_ATTEMPTS_def numeral_3_eq_3)

text \<open>
  The browser build calls the operation once and waits for it without a timer; a channel in the browser is
  the model below with later answers that never come.
\<close>

definition retry_timed_web :: "('t, 'e) result \<Rightarrow> 't option" where
  "retry_timed_web answer = to_option answer"

lemma retry_timed_web_native: "retry_timed_web answer = retry_timed (\<lambda>i. if i = 0 then Some answer else None)"
  by (cases answer) (simp_all add: retry_timed_web_def retry_timed_def RETRY_ATTEMPTS_def numeral_3_eq_3)

section \<open>The settler interface and the driver\<close>

datatype settle_outcome = Retry string | Fatal string
datatype observation = Settled | NotSettled | Unknown
datatype metric = Retried | FatalMetric | DeadlineExceeded | Reconciled
datatype gauge = QueueDepth
datatype metric_call = Incr metric | GaugeSet gauge u64

text \<open>
  The trait \<open>Settler\<close>. \<open>so_settle\<close> returns \<^term>\<open>None\<close> as its outcome when the timeout of the
  driver strikes first; the state it returns is the one at that moment.
\<close>

record ('s, 'n) settler_ops =
  so_due_now :: "u64 \<Rightarrow> 's \<Rightarrow> action_key list"
  so_settle :: "'n \<Rightarrow> action_key \<Rightarrow> 's \<Rightarrow> settle_outcome option \<times> 's"
  so_observe :: "'n \<Rightarrow> action_key \<Rightarrow> 's \<Rightarrow> observation"
  so_record_success :: "action_key \<Rightarrow> 's \<Rightarrow> 's"
  so_record_failure :: "action_key \<Rightarrow> u64 \<Rightarrow> 's \<Rightarrow> 's"
  so_is_stuck :: "action_key \<Rightarrow> u64 \<Rightarrow> 's \<Rightarrow> bool"

definition drive_attempt ::
  "('s, 'n) settler_ops \<Rightarrow> 'n \<Rightarrow> u64 \<Rightarrow> action_key \<Rightarrow> 's \<Rightarrow> 's \<times> metric_call list" where
  "drive_attempt S env now key s =
     (let (timed_outcome, s1) = so_settle S env key s;
          outcome = (case timed_outcome of Some o1 \<Rightarrow> o1 | None \<Rightarrow> Retry ''timeout'')
      in case outcome of
           Retry reason \<Rightarrow> (so_record_failure S key now s1, [Incr Retried])
         | Fatal e \<Rightarrow> (so_record_failure S key now s1, [Incr FatalMetric]))"

definition drive_key ::
  "('s, 'n) settler_ops \<Rightarrow> 'n \<Rightarrow> u64 \<Rightarrow> action_key \<Rightarrow> 's \<Rightarrow> 's \<times> metric_call list" where
  "drive_key S env now key s =
     (if so_is_stuck S key now s then
        (if so_observe S env key s = Settled then
           (so_record_success S key s, [Incr DeadlineExceeded, Incr Reconciled])
         else
           (let (s', ms) = drive_attempt S env now key s in (s', Incr DeadlineExceeded # ms)))
      else drive_attempt S env now key s)"

fun drive_keys ::
  "('s, 'n) settler_ops \<Rightarrow> (action_key \<Rightarrow> 'n) \<Rightarrow> u64 \<Rightarrow> action_key list \<Rightarrow> 's
     \<Rightarrow> 's \<times> metric_call list" where
  "drive_keys S env now [] s = (s, [])"
| "drive_keys S env now (key # keys) s =
     (let (s1, ms1) = drive_key S (env key) now key s;
          (s2, ms2) = drive_keys S env now keys s1
      in (s2, ms1 @ ms2))"

definition drive ::
  "('s, 'n) settler_ops \<Rightarrow> (action_key \<Rightarrow> 'n) \<Rightarrow> u64 \<Rightarrow> 's \<Rightarrow> 's \<times> metric_call list" where
  "drive S env now s =
     (let (s', ms) = drive_keys S env now (so_due_now S now s) s
      in (s', ms @ [GaugeSet QueueDepth (of_nat (length (so_due_now S now s')))]))"

text \<open>\<open>settler_loop\<close>: one \<open>drive\<close> per tick, with the clock and the network of that tick.\<close>

fun settler_ticks ::
  "('s, 'n) settler_ops \<Rightarrow> (u64 \<times> (action_key \<Rightarrow> 'n)) list \<Rightarrow> 's \<Rightarrow> 's" where
  "settler_ticks S [] s = s"
| "settler_ticks S ((now, env) # ticks) s = settler_ticks S ticks (fst (drive S env now s))"

fun reconcile ::
  "('s, 'n) settler_ops \<Rightarrow> (action_key \<Rightarrow> 'n) \<Rightarrow> action_key list \<Rightarrow> 's \<Rightarrow> 's \<times> metric_call list" where
  "reconcile S env [] s = (s, [])"
| "reconcile S env (key # keys) s =
     (let (s1, ms1) = (if so_observe S (env key) key s = Settled
                       then (so_record_success S key s, [Incr Reconciled]) else (s, []));
          (s2, ms2) = reconcile S env keys s1
      in (s2, ms1 @ ms2))"

definition reconcile_on_boot ::
  "('s, 'n) settler_ops \<Rightarrow> (action_key \<Rightarrow> 'n) \<Rightarrow> u64 \<Rightarrow> 's \<Rightarrow> 's \<times> metric_call list" where
  "reconcile_on_boot S env now s = reconcile S env (so_due_now S now s) s"

section \<open>Back-off\<close>

lemma unat_min_shift: "unat (min count MAX_BACKOFF_SHIFT) = min (unat count) 13"
  by (simp add: min_def word_le_nat_alt attempt_consts)

lemma unat_push_bit_one:
  assumes "n \<le> 13"
  shows "unat (push_bit n 1 :: u64) = 2 ^ n"
proof -
  have "(2::nat) ^ n < 2 ^ 64"
    using assms by (intro power_strict_increasing) auto
  then have "unat (of_nat (2 ^ n) :: u64) = 2 ^ n"
    by (simp only: unsigned_of_nat take_bit_eq_mod) simp
  then show ?thesis
    by (simp add: push_bit_eq_mult)
qed

lemma five_pow_bound:
  assumes "n \<le> 13"
  shows "5 * 2 ^ n \<le> (40960 :: nat)"
proof -
  have "(2::nat) ^ n \<le> 2 ^ 13"
    using assms by (intro power_increasing) auto
  then show ?thesis
    by simp
qed

lemma unat_backoff_delay:
  "unat (backoff_delay count jitter) = 5 * 2 ^ min (unat count) 13 + unat jitter mod 60"
proof -
  let ?n = "min (unat count) 13"
  have pow: "unat (push_bit ?n 1 :: u64) = 2 ^ ?n"
    by (rule unat_push_bit_one) simp
  have bound: "5 * 2 ^ ?n \<le> (40960 :: nat)"
    by (rule five_pow_bound) simp
  have "unat (saturating_mul BASE_DELAY_SECS (push_bit ?n 1)) =
      min (5 * unat (push_bit ?n 1 :: u64)) (2 ^ 64 - 1)"
    by (simp only: unat_saturating_mul) (simp add: attempt_consts)
  with bound have mul: "unat (saturating_mul BASE_DELAY_SECS (push_bit ?n 1)) = 5 * 2 ^ ?n"
    by (simp only: pow) simp
  have small: "saturating_mul BASE_DELAY_SECS (push_bit ?n 1) \<le> MAX_DELAY_SECS"
    using bound by (simp only: word_le_nat_alt mul) (simp add: attempt_consts)
  have jit: "unat (jitter mod JITTER_MAX_SECS) = unat jitter mod 60"
    by (simp add: unat_mod_distrib attempt_consts)
  have "unat jitter mod 60 < 60"
    by simp
  with bound have "5 * 2 ^ ?n + unat jitter mod 60 \<le> 2 ^ LENGTH(64) - 1"
    by (simp only: len_num1 len_bit0) simp
  then show ?thesis
    unfolding backoff_delay_def Let_def unat_min_shift min_absorb1 [OF small]
      unat_saturating_add mul jit by (rule min_absorb1)
qed

lemma backoff_delay_bounds:
  "5 \<le> unat (backoff_delay count jitter)" "unat (backoff_delay count jitter) < 41020"
proof -
  have "1 \<le> (2::nat) ^ min (unat count) 13"
    by simp
  then show "5 \<le> unat (backoff_delay count jitter)"
    unfolding unat_backoff_delay by linarith
  have "5 * 2 ^ min (unat count) 13 \<le> (40960 :: nat)" "unat jitter mod 60 < 60"
    by (rule five_pow_bound) simp_all
  then show "unat (backoff_delay count jitter) < 41020"
    unfolding unat_backoff_delay by linarith
qed

text \<open>
  Exponential back-off: after its \<open>n\<close>-th failed attempt a settlement waits
  \<open>5 \<cdot> 2\<^sup>n\<close> seconds (the exponent stops at 13) plus a jitter below a minute. So the delay is
  never shorter than five seconds, never longer than 41019 seconds, and apart from the
  jitter it never shrinks; the 24-hour cap of the code is never reached.
\<close>

theorem on_failure_backoff:
  "let n = min (unat (as_attempt_count a)) 13; delay = 5 * 2 ^ n + unat jitter mod 60;
       a' = on_failure now jitter a
   in unat (as_next_attempt_at a') = min (unat now + delay) (2 ^ 64 - 1) \<and>
      5 \<le> delay \<and> delay < 41020 \<and> delay < unat MAX_DELAY_SECS \<and>
      unat (as_attempt_count a') = min (unat (as_attempt_count a) + 1) (2 ^ 32 - 1)"
  using backoff_delay_bounds [of "as_attempt_count a" jitter]
  by (simp add: on_failure_def unat_saturating_add unat_backoff_delay Let_def)
    (simp add: attempt_consts)

section \<open>The contract of a settler\<close>

text \<open>
  The schedule of an attempt is what the driver relies on; the nonce and the gas price of an
  attempt belong to the chain.
\<close>

definition schedule :: "attempt_state \<Rightarrow> u64 \<times> u64 \<times> u32 \<times> u64" where
  "schedule a = (as_first_seen a, as_next_attempt_at a, as_attempt_count a, as_deadline a)"

lemma schedule_on_failure_cong:
  "schedule a = schedule b \<Longrightarrow> schedule (on_failure now j a) = schedule (on_failure now j b)"
  by (simp add: schedule_def on_failure_def)

lemma schedule_cong_due: "schedule a = schedule b \<Longrightarrow> due a now = due b now"
  by (simp add: schedule_def due_def)

lemma schedule_cong_expired: "schedule a = schedule b \<Longrightarrow> expired a now = expired b now"
  by (simp add: schedule_def expired_def)

lemma rq_is_stuck_cong:
  "map_option schedule (hm_get q k) = map_option schedule (hm_get q' k) \<Longrightarrow>
   rq_is_stuck k now q = rq_is_stuck k now q'"
  by (auto simp: rq_is_stuck_def dest: schedule_cong_expired split: option.splits)

lemma rq_due_now_iff: "k \<in> set (rq_due_now now q) \<longleftrightarrow> (\<exists>a. hm_get q k = Some a \<and> due a now)"
  unfolding rq_due_now_def by (rule hm.filter_iter_keys)

lemma rq_due_now_distinct: "distinct (rq_due_now now q)"
  unfolding rq_due_now_def by (rule distinct_map_fst_filter) (rule hm.iter_distinct)

lemma on_failure_not_due:
  assumes "unat now + 41020 \<le> 2 ^ 64"
  shows "\<not> due (on_failure now j a) now"
  using assms backoff_delay_bounds [of "as_attempt_count a" j]
  by (simp add: due_def on_failure_def word_le_nat_alt unat_saturating_add)

text \<open>What one pass of the driver makes of the entry of a key.\<close>

definition driven ::
  "u64 \<Rightarrow> u64 \<Rightarrow> bool \<Rightarrow> attempt_state \<Rightarrow> attempt_state option" where
  "driven now jitter settled a =
     (if \<not> due a now then Some a
      else if expired a now \<and> settled then None
      else Some (on_failure now jitter a))"

locale settler_contract =
  fixes S :: "('s, 'n) settler_ops"
    and queue :: "'s \<Rightarrow> retry_queue"
    and jitter :: "action_key \<Rightarrow> u64"
    and settled :: "'n \<Rightarrow> action_key \<Rightarrow> 's \<Rightarrow> bool"
  assumes due_now: "so_due_now S now s = rq_due_now now (queue s)"
    and stuck: "so_is_stuck S k now s = rq_is_stuck k now (queue s)"
    and observe: "so_observe S env k s = Settled \<longleftrightarrow> settled env k s"
    and settled_stable: "settled env k (snd (so_settle S env' j s)) = settled env k s"
      "settled env k (so_record_success S j s) = settled env k s"
      "settled env k (so_record_failure S j now s) = settled env k s"
    and settle_schedule: "map_option schedule (hm_get (queue (snd (so_settle S env k s))) j) =
      map_option schedule (hm_get (queue s) j)"
    and success: "hm_get (queue (so_record_success S k s)) j =
      (if j = k then None else hm_get (queue s) j)"
    and failure: "hm_get (queue (so_record_failure S k now s)) j =
      (if j = k then map_option (on_failure now (jitter k)) (hm_get (queue s) k)
       else hm_get (queue s) j)"
begin

lemma attempt_schedule:
  "map_option schedule (hm_get (queue (fst (drive_attempt S env now k s))) j) =
     (if j = k then map_option (\<lambda>a. schedule (on_failure now (jitter k) a)) (hm_get (queue s) k)
      else map_option schedule (hm_get (queue s) j))"
proof -
  obtain r s1 where settle: "so_settle S env k s = (r, s1)"
    by (cases "so_settle S env k s") auto
  have keep: "map_option schedule (hm_get (queue s1) i) = map_option schedule (hm_get (queue s) i)" for i
    using settle_schedule [of env k s i] settle by simp
  have fst: "fst (drive_attempt S env now k s) = so_record_failure S k now s1"
    by (simp add: drive_attempt_def settle split: settle_outcome.split option.split)
  show ?thesis
    using keep [of j] keep [of k]
    by (cases "hm_get (queue s1) k"; cases "hm_get (queue s) k")
      (auto simp: fst failure intro: schedule_on_failure_cong)
qed

lemma drive_key_schedule:
  "map_option schedule (hm_get (queue (fst (drive_key S env now k s))) j) =
     (if j \<noteq> k then map_option schedule (hm_get (queue s) j)
      else if rq_is_stuck k now (queue s) \<and> settled env k s then None
      else map_option (\<lambda>a. schedule (on_failure now (jitter k) a)) (hm_get (queue s) k))"
  by (simp add: drive_key_def stuck observe success attempt_schedule case_prod_beta)

lemma drive_key_settled: "settled env k (fst (drive_key S env' now j s)) = settled env k s"
  by (simp add: drive_key_def drive_attempt_def case_prod_beta settled_stable
      split: settle_outcome.split option.split)

lemma drive_keys_settled: "settled env k (fst (drive_keys S env' now keys s)) = settled env k s"
  by (induction keys arbitrary: s) (simp_all add: drive_key_settled case_prod_beta)

lemma drive_keys_schedule:
  assumes "distinct keys"
  shows "map_option schedule (hm_get (queue (fst (drive_keys S env now keys s))) j) =
     (if j \<notin> set keys then map_option schedule (hm_get (queue s) j)
      else if rq_is_stuck j now (queue s) \<and> settled (env j) j s then None
      else map_option (\<lambda>a. schedule (on_failure now (jitter j) a)) (hm_get (queue s) j))"
  using assms
proof (induction keys arbitrary: s)
  case Nil
  then show ?case by simp
next
  case (Cons k keys)
  let ?s1 = "fst (drive_key S (env k) now k s)"
  have eq: "fst (drive_keys S env now (k # keys) s) = fst (drive_keys S env now keys ?s1)"
    by (simp add: case_prod_beta)
  show ?case
  proof (cases "j = k")
    case True
    with Cons show ?thesis
      by (simp only: eq) (simp add: drive_key_schedule)
  next
    case False
    then have keep: "map_option schedule (hm_get (queue ?s1) j) = map_option schedule (hm_get (queue s) j)"
      by (simp add: drive_key_schedule)
    then have "rq_is_stuck j now (queue ?s1) = rq_is_stuck j now (queue s)"
      by (rule rq_is_stuck_cong)
    moreover have "map_option (\<lambda>a. schedule (on_failure now (jitter j) a)) (hm_get (queue ?s1) j) =
        map_option (\<lambda>a. schedule (on_failure now (jitter j) a)) (hm_get (queue s) j)"
      using keep by (cases "hm_get (queue ?s1) j"; cases "hm_get (queue s) j")
        (auto intro: schedule_on_failure_cong)
    ultimately show ?thesis
      using Cons False keep by (simp only: eq) (simp add: drive_key_settled)
  qed
qed

lemma drive_fst: "fst (drive S env now s) = fst (drive_keys S env now (rq_due_now now (queue s)) s)"
  by (simp add: drive_def due_now case_prod_beta)

lemma drive_settled: "settled env k (fst (drive S env' now s)) = settled env k s"
  by (simp add: drive_fst drive_keys_settled)

lemma drive_schedule:
  "map_option schedule (hm_get (queue (fst (drive S env now s))) j) =
     (case hm_get (queue s) j of None \<Rightarrow> None
      | Some a \<Rightarrow> map_option schedule (driven now (jitter j) (settled (env j) j s) a))"
  unfolding drive_fst drive_keys_schedule [OF rq_due_now_distinct]
  by (auto simp: rq_due_now_iff driven_def rq_is_stuck_def split: option.splits)

lemma drive_nothing_due:
  assumes "unat now + 41020 \<le> 2 ^ 64"
  shows "so_due_now S now (fst (drive S env now s)) = []"
proof -
  let ?s = "fst (drive S env now s)"
  have "False" if mem: "k \<in> set (rq_due_now now (queue ?s))" for k
  proof -
    obtain a where a: "hm_get (queue ?s) k = Some a" "due a now"
      using mem by (auto simp: rq_due_now_iff)
    then obtain b c where b: "driven now (jitter k) (settled (env k) k s) b = Some c"
        and eq: "schedule a = schedule c"
      using drive_schedule [of env now s k]
      by (auto split: option.splits dest!: sym [of "Some _"])
    then have "\<not> due c now"
      using on_failure_not_due [OF assms] by (auto simp: driven_def split: if_splits)
    with a schedule_cong_due [OF eq, of now] show False
      by simp
  qed
  then have "set (rq_due_now now (queue ?s)) = {}"
    by (rule equals0I)
  then show ?thesis
    by (simp add: due_now)
qed

lemma drive_gauge_zero:
  assumes "unat now + 41020 \<le> 2 ^ 64"
  shows "last (snd (drive S env now s)) = GaugeSet QueueDepth 0"
  using drive_nothing_due [OF assms, of env s] by (simp add: drive_def case_prod_beta)

lemma ticks_keep_unsettled:
  assumes "hm_get (queue s) k = Some a"
    and "\<And>now env. (now, env) \<in> set ticks \<Longrightarrow> \<not> settled (env k) k s \<or> now < as_deadline a"
  shows "\<exists>b. hm_get (queue (settler_ticks S ticks s)) k = Some b \<and> as_deadline b = as_deadline a"
  using assms
proof (induction ticks arbitrary: s a)
  case Nil
  then show ?case by simp
next
  case (Cons t ticks)
  obtain now env where t: "t = (now, env)"
    by (cases t)
  let ?s1 = "fst (drive S env now s)"
  have "\<not> settled (env k) k s \<or> now < as_deadline a"
    using Cons.prems(2) [of now env] t by simp
  then have "\<exists>c. driven now (jitter k) (settled (env k) k s) a = Some c \<and> as_deadline c = as_deadline a"
    by (auto simp: driven_def expired_def on_failure_def)
  then obtain b where b: "hm_get (queue ?s1) k = Some b" "as_deadline b = as_deadline a"
    using drive_schedule [of env now s k] Cons.prems(1) by (auto simp: schedule_def)
  have "\<not> settled (env' k) k ?s1 \<or> now' < as_deadline b" if "(now', env') \<in> set ticks" for now' env'
    using Cons.prems(2) [of now' env'] that b(2) by (simp add: drive_settled)
  then have "\<exists>b'. hm_get (queue (settler_ticks S ticks ?s1)) k = Some b' \<and>
      as_deadline b' = as_deadline b"
    by (intro Cons.IH b(1))
  with b(2) t show ?case
    by simp
qed

lemma reconcile_settled: "settled env k (fst (reconcile S env' keys s)) = settled env k s"
  by (induction keys arbitrary: s) (simp_all add: case_prod_beta settled_stable)

lemma reconcile_queue:
  "hm_get (queue (fst (reconcile S env keys s))) j =
     (if j \<in> set keys \<and> settled (env j) j s then None else hm_get (queue s) j)"
proof (induction keys arbitrary: s)
  case Nil
  then show ?case by simp
next
  case (Cons k keys)
  then show ?case
    by (auto simp: observe success settled_stable case_prod_beta)
qed

end

end
