(* ===== verification/Borsh.thy ===== *)
theory Borsh
  imports Stroem_Prelude
begin

text \<open>
  The serialisation interface of the borsh crate, which the source calls and does not contain: the
  record \<open>borsh_codec\<close> and the round-trip hypothesis \<open>borsh_roundtrip\<close>. The second half
  builds a codec of the documented format (little-endian integers, a tag byte for options, a 32-bit length
  before vectors) from combinators that keep the round trip; the examples of the other theories
  instantiate the interface with it.
\<close>

section \<open>The interface\<close>

record 'a borsh_codec =
  bo_to_vec :: "'a \<Rightarrow> (bytes, string) result"
  bo_try_from_slice :: "bytes \<Rightarrow> ('a, string) result"

definition borsh_roundtrip :: "'a borsh_codec \<Rightarrow> bool" where
  "borsh_roundtrip B = (\<forall>x b. bo_to_vec B x = Inr b \<longrightarrow> bo_try_from_slice B b = Inr x)"

section \<open>Little-endian integers\<close>

fun le_bytes :: "nat \<Rightarrow> nat \<Rightarrow> bytes" where
  "le_bytes 0 n = []"
| "le_bytes (Suc k) n = of_nat (n mod 256) # le_bytes k (n div 256)"

fun le_nat :: "bytes \<Rightarrow> nat" where
  "le_nat [] = 0"
| "le_nat (b # bs) = unat b + 256 * le_nat bs"

lemma length_le_bytes [simp]: "length (le_bytes k n) = k"
  by (induction k arbitrary: n) auto

lemma unat_byte_of_nat: "unat (of_nat (n mod 256) :: u8) = n mod 256"
  by (simp add: unsigned_of_nat take_bit_eq_mod)

lemma le_nat_le_bytes: "n < 256 ^ k \<Longrightarrow> le_nat (le_bytes k n) = n"
proof (induction k arbitrary: n)
  case 0
  then show ?case by simp
next
  case (Suc k)
  then have "n div 256 < 256 ^ k"
    by (simp add: less_mult_imp_div_less mult.commute)
  with Suc.IH show ?case
    by (simp add: unat_byte_of_nat)
qed

text \<open>\<open>u64::to_le_bytes\<close> and \<open>u64::from_le_bytes\<close>.\<close>

definition to_le_bytes :: "u64 \<Rightarrow> bytes" where
  "to_le_bytes w = le_bytes 8 (unat w)"

definition from_le_bytes :: "bytes \<Rightarrow> u64" where
  "from_le_bytes bs = of_nat (le_nat bs)"

lemma from_to_le_bytes [simp]: "from_le_bytes (to_le_bytes w) = w"
proof -
  have "unat w < 256 ^ 8"
    using unsigned_less [of w] by simp
  then show ?thesis
    by (simp add: from_le_bytes_def to_le_bytes_def le_nat_le_bytes)
qed

lemma length_to_le_bytes [simp]: "length (to_le_bytes w) = 8"
  by (simp add: to_le_bytes_def)

section \<open>Format combinators\<close>

text \<open>An encoder that may reject its argument, with the decoder of a prefix of the input.\<close>

type_synonym 'a fmt = "('a \<Rightarrow> bytes option) \<times> (bytes \<Rightarrow> ('a \<times> bytes) option)"

definition fmt_ok :: "'a fmt \<Rightarrow> bool" where
  "fmt_ok c = (\<forall>x b rest. fst c x = Some b \<longrightarrow> snd c (b @ rest) = Some (x, rest))"

lemma fmt_okD: "fmt_ok c \<Longrightarrow> fst c x = Some b \<Longrightarrow> snd c (b @ rest) = Some (x, rest)"
  by (simp add: fmt_ok_def)

definition f_fixed :: "nat \<Rightarrow> bytes fmt" where
  "f_fixed n = (\<lambda>x. if length x = n then Some x else None,
                \<lambda>bs. if n \<le> length bs then Some (take n bs, drop n bs) else None)"

definition f_pair :: "'a fmt \<Rightarrow> 'b fmt \<Rightarrow> ('a \<times> 'b) fmt" where
  "f_pair c d =
     (\<lambda>(x, y). case (fst c x, fst d y) of (Some b, Some e) \<Rightarrow> Some (b @ e) | _ \<Rightarrow> None,
      \<lambda>bs. case snd c bs of None \<Rightarrow> None
           | Some (x, rest) \<Rightarrow> (case snd d rest of None \<Rightarrow> None | Some (y, r) \<Rightarrow> Some ((x, y), r)))"

definition f_iso :: "('a \<Rightarrow> 'b) \<Rightarrow> ('b \<Rightarrow> 'a) \<Rightarrow> 'b fmt \<Rightarrow> 'a fmt" where
  "f_iso f g c =
     (\<lambda>x. fst c (f x),
      \<lambda>bs. case snd c bs of None \<Rightarrow> None | Some (y, rest) \<Rightarrow> Some (g y, rest))"

definition f_option :: "'a fmt \<Rightarrow> 'a option fmt" where
  "f_option c =
     (\<lambda>x. case x of None \<Rightarrow> Some [0] | Some y \<Rightarrow> map_option (\<lambda>b. 1 # b) (fst c y),
      \<lambda>bs. case bs of [] \<Rightarrow> None
           | t # rest \<Rightarrow>
               if t = 0 then Some (None, rest)
               else if t = 1 then map_option (\<lambda>(y, r). (Some y, r)) (snd c rest) else None)"

definition f_word :: "nat \<Rightarrow> 'w::len word fmt" where
  "f_word k = (\<lambda>x. if LENGTH('w) \<le> 8 * k then Some (le_bytes k (unat x)) else None,
     \<lambda>bs. if k \<le> length bs then Some (of_nat (le_nat (take k bs)), drop k bs) else None)"

definition f_vec :: "bytes fmt" where
  "f_vec =
     (\<lambda>x. if length x < 2 ^ 32 then Some (le_bytes 4 (length x) @ x) else None,
      \<lambda>bs. if 4 \<le> length bs then
             (let n = le_nat (take 4 bs); rest = drop 4 bs
              in if n \<le> length rest then Some (take n rest, drop n rest) else None)
           else None)"

lemma fmt_ok_fixed [simp]: "fmt_ok (f_fixed n)"
  by (auto simp: fmt_ok_def f_fixed_def split: if_splits)

lemma fmt_ok_pair [simp]: "fmt_ok c \<Longrightarrow> fmt_ok d \<Longrightarrow> fmt_ok (f_pair c d)"
  by (auto simp: fmt_ok_def f_pair_def split: option.splits)

lemma fmt_ok_iso [simp]: "fmt_ok c \<Longrightarrow> (\<And>x. g (f x) = x) \<Longrightarrow> fmt_ok (f_iso f g c)"
  by (auto simp: fmt_ok_def f_iso_def)

lemma fmt_ok_option [simp]: "fmt_ok c \<Longrightarrow> fmt_ok (f_option c)"
  by (auto simp: fmt_ok_def f_option_def split: option.splits)

lemma fmt_ok_word [simp]: "fmt_ok (f_word k :: 'w::len word fmt)"
proof -
  have "of_nat (le_nat (le_bytes k (unat x))) = x" if "LENGTH('w) \<le> 8 * k" for x :: "'w word"
  proof -
    have "unat x < 2 ^ LENGTH('w)"
      by (rule unsigned_less)
    also have "(2::nat) ^ LENGTH('w) \<le> 2 ^ (8 * k)"
      using that by (intro power_increasing) auto
    also have "(2::nat) ^ (8 * k) = 256 ^ k"
      by (simp add: power_mult)
    finally show ?thesis
      by (simp add: le_nat_le_bytes)
  qed
  then show ?thesis
    by (auto simp: fmt_ok_def f_word_def split: if_splits)
qed

lemma fmt_ok_vec [simp]: "fmt_ok f_vec"
proof -
  have "le_nat (le_bytes 4 n) = n" if "n < 2 ^ 32" for n
    using that by (intro le_nat_le_bytes) simp
  then show ?thesis
    by (auto simp: fmt_ok_def f_vec_def Let_def split: if_splits)
qed

text \<open>\<open>try_from_slice\<close> rejects input that is left over.\<close>

definition borsh_of :: "'a fmt \<Rightarrow> 'a borsh_codec" where
  "borsh_of c =
     \<lparr>bo_to_vec = (\<lambda>x. ok_or (fst c x) ''invalid length''),
      bo_try_from_slice = (\<lambda>bs. case snd c bs of
           None \<Rightarrow> Inl ''Unexpected length of input''
         | Some (x, []) \<Rightarrow> Inr x
         | Some (x, _ # _) \<Rightarrow> Inl ''Not all bytes read'')\<rparr>"

lemma borsh_roundtrip_of: "fmt_ok c \<Longrightarrow> borsh_roundtrip (borsh_of c)"
  by (auto simp: borsh_roundtrip_def borsh_of_def result_simps dest: fmt_okD [where rest = "[]"])

end
