(* ===== verification/Swap_Records.thy ===== *)
theory Swap_Records
  imports Settlement Borsh
begin

text \<open>
  What a node keeps of its swaps across a restart: the persisted record (\<open>store.rs\<close>,
  \<open>types.rs\<close>), its versioned encoding (\<open>chains/record/codec.rs\<close>), the restoration at start
  (\<open>chains/record/restore.rs\<close>) and the seeding of the retry queue
  (\<open>chains/settlement/queue.rs\<close>). The Borsh serialiser is a parameter; the \<open>SwapStore\<close> trait
  is a record of operations whose contract is the locale \<open>swap_store\<close>.
\<close>

section \<open>Errors of the data crate\<close>

datatype data_error =
    UnknownChannel channel_id
  | ConfigError string
  | ConnectError string
  | RpcError string
  | SignError string
  | BroadcastError string
  | MissingKey channel_id
  | OtherError string

text \<open>A panic of the program is an error value of its own.\<close>

datatype panic = Panic string

section \<open>Persisted records\<close>

record utxo_script =
  us_redeem_script :: bytes
  us_unlock_ts :: u64
  us_deposit_target :: string

record proposal_verification =
  pv_address_matches :: bool
  pv_balance_sufficient :: bool

record persisted_swap =
  pw_script :: "utxo_script option"
  pw_pending_refund :: "(refund_v1 \<times> u64) option"
  pw_pending_claim :: "reveal_v1 option"
  pw_claim_attempt :: "attempt_state option"
  pw_refund_attempt :: "attempt_state option"

definition persisted_is_empty :: "persisted_swap \<Rightarrow> bool" where
  "persisted_is_empty self =
     (pw_script self = None \<and> pw_pending_refund self = None \<and> pw_pending_claim self = None \<and>
      pw_claim_attempt self = None \<and> pw_refund_attempt self = None)"

section \<open>The record codec\<close>

datatype record_error = Decode string | UnknownVersion u8 | Truncated

definition record_error_to_string :: "record_error \<Rightarrow> string" where
  "record_error_to_string e =
     (case e of
        Decode io \<Rightarrow> ''record decode: '' @ io
      | UnknownVersion v \<Rightarrow> ''unknown record version '' @ show_nat (unat v)
      | Truncated \<Rightarrow> ''record too short'')"

definition MAGIC :: u8 where "MAGIC = 0x53"
definition VERSION_1 :: u8 where "VERSION_1 = 1"

datatype decode_outcome = Current persisted_swap | Corrupt record_error

definition encode :: "persisted_swap borsh_codec \<Rightarrow> persisted_swap \<Rightarrow> (bytes, record_error) result" where
  "encode B swap =
     r_bind (map_err Decode (bo_to_vec B swap)) (\<lambda>body. Inr ([MAGIC] @ [VERSION_1] @ body))"

fun decode_versioned :: "persisted_swap borsh_codec \<Rightarrow> bytes \<Rightarrow> decode_outcome" where
  "decode_versioned B [] = Corrupt Truncated"
| "decode_versioned B (v # body) =
     (if v = VERSION_1 then
        (case bo_try_from_slice B body of
           Inr swap \<Rightarrow> Current swap
         | Inl e \<Rightarrow> Corrupt (Decode e))
      else Corrupt (UnknownVersion v))"

fun decode :: "persisted_swap borsh_codec \<Rightarrow> bytes \<Rightarrow> decode_outcome" where
  "decode B [] = Corrupt Truncated"
| "decode B (m # rest) = (if m = MAGIC then decode_versioned B rest else Corrupt Truncated)"

lemma decode_encode:
  "borsh_roundtrip B \<Longrightarrow> encode B swap = Inr bytes \<Longrightarrow> decode B bytes = Current swap"
  by (auto simp: encode_def result_simps borsh_roundtrip_def)

section \<open>The swap store interface\<close>

record 's swap_store_ops =
  sw_load_channel :: "channel_id \<Rightarrow> 's \<Rightarrow> (bytes \<times> bytes) list"
  sw_save :: "channel_id \<Rightarrow> bytes \<Rightarrow> bytes \<Rightarrow> 's \<Rightarrow> 's"
  sw_delete :: "channel_id \<Rightarrow> bytes \<Rightarrow> 's \<Rightarrow> 's"
  sw_quarantine :: "channel_id \<Rightarrow> bytes \<Rightarrow> bytes \<Rightarrow> string \<Rightarrow> 's \<Rightarrow> 's"

text \<open>The \<open>CursorStore\<close> trait.\<close>

record 'c cursor_store_ops =
  cs_load :: "channel_id \<Rightarrow> 'c \<Rightarrow> bytes option"
  cs_save :: "channel_id \<Rightarrow> bytes \<Rightarrow> 'c \<Rightarrow> 'c"

section \<open>Restoration\<close>

record restored_swaps =
  rs_scripts :: "(bytes, utxo_script) hashmap"
  rs_pending_refunds :: "(refund_v1 \<times> u64) list"
  rs_pending_claims :: "reveal_v1 list"
  rs_claim_attempts :: "(bytes, attempt_state) hashmap"
  rs_refund_attempts :: "(bytes, attempt_state) hashmap"

definition restored_default :: restored_swaps where
  "restored_default =
     \<lparr>rs_scripts = hm_empty, rs_pending_refunds = [], rs_pending_claims = [],
      rs_claim_attempts = hm_empty, rs_refund_attempts = hm_empty\<rparr>"

definition insert_opt :: "'k \<Rightarrow> 'v option \<Rightarrow> ('k, 'v) hashmap \<Rightarrow> ('k, 'v) hashmap" where
  "insert_opt k v m = (case v of None \<Rightarrow> m | Some x \<Rightarrow> hm_insert k x m)"

definition push_opt :: "'v option \<Rightarrow> 'v list \<Rightarrow> 'v list" where
  "push_opt v xs = (case v of None \<Rightarrow> xs | Some x \<Rightarrow> xs @ [x])"

definition restore_record :: "bytes \<Rightarrow> persisted_swap \<Rightarrow> restored_swaps \<Rightarrow> restored_swaps" where
  "restore_record swap_id rec out =
     \<lparr>rs_scripts = insert_opt swap_id (pw_script rec) (rs_scripts out),
      rs_pending_refunds = push_opt (pw_pending_refund rec) (rs_pending_refunds out),
      rs_pending_claims = push_opt (pw_pending_claim rec) (rs_pending_claims out),
      rs_claim_attempts = insert_opt swap_id (pw_claim_attempt rec) (rs_claim_attempts out),
      rs_refund_attempts = insert_opt swap_id (pw_refund_attempt rec) (rs_refund_attempts out)\<rparr>"

fun restore_rows ::
  "persisted_swap borsh_codec \<Rightarrow> 's swap_store_ops \<Rightarrow> channel_id \<Rightarrow> (bytes \<times> bytes) list
     \<Rightarrow> restored_swaps \<times> 's \<Rightarrow> restored_swaps \<times> 's" where
  "restore_rows B D ch [] (out, s) = (out, s)"
| "restore_rows B D ch ((swap_id, bytes) # rows) (out, s) =
     (case decode B bytes of
        Current rec \<Rightarrow> restore_rows B D ch rows (restore_record swap_id rec out, s)
      | Corrupt e \<Rightarrow>
          restore_rows B D ch rows
            (out, sw_quarantine D ch swap_id bytes (record_error_to_string e) s))"

definition restore ::
  "persisted_swap borsh_codec \<Rightarrow> 's swap_store_ops \<Rightarrow> channel_id \<Rightarrow> 's option
     \<Rightarrow> restored_swaps \<times> 's option" where
  "restore B D ch swap_store =
     (case swap_store of
        None \<Rightarrow> (restored_default, None)
      | Some s \<Rightarrow>
          (let (out, s') = restore_rows B D ch (sw_load_channel D ch s) (restored_default, s)
           in (out, Some s')))"

definition seed_queue :: "restored_swaps \<Rightarrow> u64 \<Rightarrow> retry_queue" where
  "seed_queue restored now =
     (let q0 = hm_empty;
          q1 = fold (\<lambda>(sid, st). rq_seed (claim_key sid) st) (hm_iter (rs_claim_attempts restored)) q0;
          q2 = fold (\<lambda>(sid, st). rq_seed (refund_key sid) st) (hm_iter (rs_refund_attempts restored)) q1;
          q3 = fold (\<lambda>c. rq_ensure (claim_key (rv_swap_id c)) now) (rs_pending_claims restored) q2
      in fold (\<lambda>(r, _). rq_ensure (refund_key (rf_swap_id r)) now) (rs_pending_refunds restored) q3)"

text \<open>
  The last lines of \<open>persist_swap\<close> of both chain buffers: a record with nothing in it is deleted,
  any other is encoded and saved; a record that cannot be encoded is logged and left.
\<close>

definition store_record ::
  "persisted_swap borsh_codec \<Rightarrow> 's swap_store_ops \<Rightarrow> channel_id \<Rightarrow> bytes \<Rightarrow> persisted_swap \<Rightarrow> 's \<Rightarrow> 's" where
  "store_record B D ch swap_id rec s =
     (if persisted_is_empty rec then sw_delete D ch swap_id s
      else case encode B rec of
             Inr bytes \<Rightarrow> sw_save D ch swap_id bytes s
           | Inl _ \<Rightarrow> s)"

section \<open>The record of a swap\<close>

definition find_refund :: "bytes \<Rightarrow> (refund_v1 \<times> u64) list \<Rightarrow> (refund_v1 \<times> u64) option" where
  "find_refund swap_id xs = find (\<lambda>(r, _). rf_swap_id r = swap_id) xs"

definition find_claim :: "bytes \<Rightarrow> reveal_v1 list \<Rightarrow> reveal_v1 option" where
  "find_claim swap_id xs = find (\<lambda>c. rv_swap_id c = swap_id) xs"

lemma find_append:
  "find P (xs @ ys) = (case find P xs of None \<Rightarrow> find P ys | Some x \<Rightarrow> Some x)"
  by (induction xs) auto

lemma find_refund_append [simp]:
  "find_refund sid (xs @ ys) = (case find_refund sid xs of None \<Rightarrow> find_refund sid ys | Some x \<Rightarrow> Some x)"
  unfolding find_refund_def by (rule find_append)

lemma find_refund_simps [simp]:
  "find_refund sid [] = None"
  "find_refund sid ((r, t) # xs) = (if rf_swap_id r = sid then Some (r, t) else find_refund sid xs)"
  by (auto simp: find_refund_def)

lemma find_refund_filter [simp]:
  "find_refund sid (filter (\<lambda>(r, _). rf_swap_id r \<noteq> k) xs) = (if sid = k then None else find_refund sid xs)"
  by (induction xs) auto

lemma find_refund_None_iff: "find_refund sid xs = None \<longleftrightarrow> \<not> list_ex (\<lambda>(r, _). rf_swap_id r = sid) xs"
  by (induction xs) (auto split: if_splits)

lemma find_refund_id: "find_refund sid xs = Some (r, t) \<Longrightarrow> rf_swap_id r = sid"
  by (induction xs) (auto split: if_splits)

lemma find_claim_append [simp]:
  "find_claim sid (xs @ ys) = (case find_claim sid xs of None \<Rightarrow> find_claim sid ys | Some x \<Rightarrow> Some x)"
  unfolding find_claim_def by (rule find_append)

lemma find_claim_simps [simp]:
  "find_claim sid [] = None"
  "find_claim sid (c # xs) = (if rv_swap_id c = sid then Some c else find_claim sid xs)"
  by (auto simp: find_claim_def)

lemma find_claim_filter [simp]:
  "find_claim sid (filter (\<lambda>c. rv_swap_id c \<noteq> k) xs) = (if sid = k then None else find_claim sid xs)"
  by (induction xs) auto

lemma find_claim_None_iff: "find_claim sid xs = None \<longleftrightarrow> \<not> list_ex (\<lambda>c. rv_swap_id c = sid) xs"
  by (induction xs) (auto split: if_splits)

lemma find_claim_id: "find_claim sid xs = Some c \<Longrightarrow> rv_swap_id c = sid"
  by (induction xs) (auto split: if_splits)

definition empty_record :: persisted_swap where
  "empty_record = \<lparr>pw_script = None, pw_pending_refund = None, pw_pending_claim = None,
     pw_claim_attempt = None, pw_refund_attempt = None\<rparr>"

lemma persisted_is_empty_iff [simp]: "persisted_is_empty r \<longleftrightarrow> r = empty_record"
  by (cases r) (auto simp: persisted_is_empty_def empty_record_def)

text \<open>What the trackers of a buffer hold about one swap.\<close>

definition live_record ::
  "(bytes, utxo_script) hashmap \<Rightarrow> (refund_v1 \<times> u64) list \<Rightarrow> reveal_v1 list \<Rightarrow> retry_queue \<Rightarrow> bytes
     \<Rightarrow> persisted_swap" where
  "live_record scripts refunds claims queue swap_id =
     \<lparr>pw_script = hm_get scripts swap_id, pw_pending_refund = find_refund swap_id refunds,
      pw_pending_claim = find_claim swap_id claims,
      pw_claim_attempt = rq_get (claim_key swap_id) queue,
      pw_refund_attempt = rq_get (refund_key swap_id) queue\<rparr>"

definition restored_view :: "restored_swaps \<Rightarrow> bytes \<Rightarrow> persisted_swap" where
  "restored_view r swap_id =
     \<lparr>pw_script = hm_get (rs_scripts r) swap_id,
      pw_pending_refund = find_refund swap_id (rs_pending_refunds r),
      pw_pending_claim = find_claim swap_id (rs_pending_claims r),
      pw_claim_attempt = hm_get (rs_claim_attempts r) swap_id,
      pw_refund_attempt = hm_get (rs_refund_attempts r) swap_id\<rparr>"

definition own_ids :: "bytes \<Rightarrow> persisted_swap \<Rightarrow> bool" where
  "own_ids swap_id r =
     ((case pw_pending_refund r of None \<Rightarrow> True | Some (x, _) \<Rightarrow> rf_swap_id x = swap_id) \<and>
      (case pw_pending_claim r of None \<Rightarrow> True | Some c \<Rightarrow> rv_swap_id c = swap_id))"

lemma live_record_own_ids: "own_ids sid (live_record scripts refunds claims queue sid)"
  by (auto simp: own_ids_def live_record_def find_refund_id find_claim_id split: option.splits)

lemma hm_get_insert_opt [simp]:
  "hm_get (insert_opt k v m) j = (if j = k \<and> v \<noteq> None then v else hm_get m j)"
  by (auto simp: insert_opt_def split: option.split)

lemma restored_view_default [simp]: "restored_view restored_default sid = empty_record"
  by (simp add: restored_view_def restored_default_def empty_record_def)

lemma restored_view_restore_record:
  assumes "own_ids sid rec" and "restored_view out sid = empty_record"
  shows "restored_view (restore_record sid rec out) j = (if j = sid then rec else restored_view out j)"
  using assms
  by (cases rec)
    (auto simp: restored_view_def restore_record_def own_ids_def empty_record_def push_opt_def
      split: option.splits)

definition record_at :: "persisted_swap borsh_codec \<Rightarrow> bytes option \<Rightarrow> persisted_swap" where
  "record_at B row =
     (case row of None \<Rightarrow> empty_record
      | Some bytes \<Rightarrow> (case decode B bytes of Current r \<Rightarrow> r | Corrupt _ \<Rightarrow> empty_record))"

lemma restore_rows_view:
  assumes "distinct (map fst rows)"
    and "\<And>sid bytes. (sid, bytes) \<in> set rows \<Longrightarrow> own_ids sid (record_at B (Some bytes))"
    and "\<And>sid. sid \<in> fst ` set rows \<Longrightarrow> restored_view out sid = empty_record"
  shows "restored_view (fst (restore_rows B D ch rows (out, s))) j =
     (if j \<in> fst ` set rows then record_at B (map_of rows j) else restored_view out j)"
  using assms
proof (induction B D ch rows "(out, s)" arbitrary: out s rule: restore_rows.induct)
  case (1 B D ch out s)
  then show ?case by simp
next
  case (2 B D ch swap_id bytes rows out s)
  have own: "own_ids swap_id (record_at B (Some bytes))" and fresh: "restored_view out swap_id = empty_record"
    using "2.prems" by auto
  have new: "swap_id \<notin> fst ` set rows"
    using "2.prems"(1) by auto
  show ?case
  proof (cases "decode B bytes")
    case (Current rec)
    then have view: "restored_view (restore_record swap_id rec out) j =
        (if j = swap_id then rec else restored_view out j)" for j
      using restored_view_restore_record [of swap_id rec out j] own fresh by (simp add: record_at_def)
    have "restored_view (fst (restore_rows B D ch rows (restore_record swap_id rec out, s))) j =
        (if j \<in> fst ` set rows then record_at B (map_of rows j)
         else restored_view (restore_record swap_id rec out) j)"
      using "2.prems" new by (intro "2.hyps"(1) [OF Current]) (auto simp: view)
    with Current new show ?thesis
      by (auto simp: view record_at_def)
  next
    case (Corrupt e)
    have "restored_view (fst (restore_rows B D ch rows
          (out, sw_quarantine D ch swap_id bytes (record_error_to_string e) s))) j =
        (if j \<in> fst ` set rows then record_at B (map_of rows j) else restored_view out j)"
      using "2.prems" by (intro "2.hyps"(2) [OF Corrupt]) auto
    with Corrupt new fresh show ?thesis
      by (auto simp: record_at_def)
  qed
qed

section \<open>Seeding the queue\<close>

lemma key_eq_iff [simp]:
  "claim_key a = claim_key b \<longleftrightarrow> a = b" "refund_key a = refund_key b \<longleftrightarrow> a = b"
  "claim_key a \<noteq> refund_key b" "refund_key a \<noteq> claim_key b"
  by (simp_all add: claim_key_def refund_key_def)

lemma ak_swap_id_keys [simp]: "ak_swap_id (claim_key sid) = sid" "ak_swap_id (refund_key sid) = sid"
  by (simp_all add: claim_key_def refund_key_def)

lemma rq_get_simps [simp]:
  "rq_get k (rq_seed j st q) = (if k = j then Some st else rq_get k q)"
  "rq_get k (rq_ensure j now q) = (if k = j \<and> rq_get k q = None then Some (attempt_new now) else rq_get k q)"
  "rq_get k (rq_record_success j q) = (if k = j then None else rq_get k q)"
  "rq_get k (rq_record_failure j now jit q) =
     (if k = j then map_option (on_failure now jit) (rq_get k q) else rq_get k q)"
  "rq_get k hm_empty = None"
  by (auto simp: rq_defs hm_contains_def)

lemma rq_get_hm: "hm_get q k = rq_get k q"
  by (simp add: rq_get_def)

lemma seed_fold_get:
  "inj key \<Longrightarrow> distinct (map fst xs) \<Longrightarrow>
   rq_get k (fold (\<lambda>(sid, st). rq_seed (key sid) st) xs q) =
     (if \<exists>sid. k = key sid \<and> sid \<in> fst ` set xs then map_of xs (inv key k) else rq_get k q)"
proof (induction xs arbitrary: q)
  case Nil
  then show ?case by simp
next
  case (Cons x xs)
  then show ?case
    by (cases x) (auto simp: inj_eq inv_f_f)
qed

lemma ensure_fold_get:
  "rq_get k (fold (\<lambda>x. rq_ensure (f x) now) xs q) =
     (if rq_get k q = None \<and> k \<in> f ` set xs then Some (attempt_new now) else rq_get k q)"
  by (induction xs arbitrary: q) auto

lemma inj_keys: "inj claim_key" "inj refund_key"
  by (auto intro: injI)

lemma map_of_hm_iter: "map_of (hm_iter m) k = hm_get m k"
proof (cases "hm_get m k")
  case None
  then show ?thesis
    by (simp add: map_of_eq_None_iff hm.iter_keys)
next
  case (Some v)
  then have "(k, v) \<in> set (hm_iter m)"
    by (simp add: hm.iter_get)
  then show ?thesis
    using hm.iter_distinct [of m] Some by simp
qed

lemma seed_hm_get:
  assumes "inj key"
  shows "rq_get k (fold (\<lambda>(sid, st). rq_seed (key sid) st) (hm_iter m) q) =
     (if \<exists>sid. k = key sid \<and> hm_get m sid \<noteq> None then hm_get m (inv key k) else rq_get k q)"
  using seed_fold_get [OF assms hm.iter_distinct, of k m q]
  by (auto simp: hm.iter_keys map_of_hm_iter assms inv_f_f)

lemma seed_queue_get:
  "rq_get (claim_key sid) (seed_queue r now) =
     (case hm_get (rs_claim_attempts r) sid of Some a \<Rightarrow> Some a
      | None \<Rightarrow> if find_claim sid (rs_pending_claims r) \<noteq> None then Some (attempt_new now) else None)"
  "rq_get (refund_key sid) (seed_queue r now) =
     (case hm_get (rs_refund_attempts r) sid of Some a \<Rightarrow> Some a
      | None \<Rightarrow> if find_refund sid (rs_pending_refunds r) \<noteq> None then Some (attempt_new now) else None)"
proof -
  have ens: "fold (\<lambda>(r, _). rq_ensure (refund_key (rf_swap_id r)) now) xs q =
      fold (\<lambda>x. rq_ensure (refund_key (rf_swap_id (fst x))) now) xs q" for xs :: "(refund_v1 \<times> u64) list" and q
    by (simp only: case_prod_unfold)
  show "rq_get (claim_key sid) (seed_queue r now) =
     (case hm_get (rs_claim_attempts r) sid of Some a \<Rightarrow> Some a
      | None \<Rightarrow> if find_claim sid (rs_pending_claims r) \<noteq> None then Some (attempt_new now) else None)"
    unfolding seed_queue_def Let_def ens ensure_fold_get seed_hm_get [OF inj_keys(1)]
      seed_hm_get [OF inj_keys(2)]
    by (auto simp: inv_f_f inj_keys find_claim_None_iff list_ex_iff split: option.split)
  show "rq_get (refund_key sid) (seed_queue r now) =
     (case hm_get (rs_refund_attempts r) sid of Some a \<Rightarrow> Some a
      | None \<Rightarrow> if find_refund sid (rs_pending_refunds r) \<noteq> None then Some (attempt_new now) else None)"
    unfolding seed_queue_def Let_def ens ensure_fold_get seed_hm_get [OF inj_keys(1)]
      seed_hm_get [OF inj_keys(2)]
    by (auto simp: inv_f_f inj_keys find_refund_None_iff list_ex_iff split: option.split intro: rev_image_eqI)
qed

section \<open>The contract of a swap store\<close>

locale swap_store =
  fixes D :: "'s swap_store_ops"
    and contents :: "'s \<Rightarrow> channel_id \<Rightarrow> bytes \<Rightarrow> bytes option"
  assumes load_rows: "(sid, row) \<in> set (sw_load_channel D ch s) \<longleftrightarrow> contents s ch sid = Some row"
    and load_distinct: "distinct (map fst (sw_load_channel D ch s))"
    and save_contents: "length sid = 32 \<Longrightarrow> contents (sw_save D ch sid row s) ch' j =
      (if ch' = ch \<and> j = sid then Some row else contents s ch' j)"
    and delete_contents: "length sid = 32 \<Longrightarrow> contents (sw_delete D ch sid s) ch' j =
      (if ch' = ch \<and> j = sid then None else contents s ch' j)"
    and quarantine_contents: "contents (sw_quarantine D ch sid row reason s) = contents s"
begin

lemma map_of_load: "map_of (sw_load_channel D ch s) sid = contents s ch sid"
  using load_rows load_distinct
  by (metis map_of_SomeD map_of_eq_None_iff map_of_is_SomeI not_None_eq)

lemma restore_view:
  assumes "\<And>sid. own_ids sid (record_at B (contents s ch sid))"
  shows "restored_view (fst (restore B D ch (Some s))) sid = record_at B (contents s ch sid)"
proof -
  have "restored_view (fst (restore_rows B D ch (sw_load_channel D ch s) (restored_default, s))) sid =
      (if sid \<in> fst ` set (sw_load_channel D ch s) then record_at B (map_of (sw_load_channel D ch s) sid)
       else restored_view restored_default sid)"
    using assms load_rows by (intro restore_rows_view load_distinct) (auto, metis)
  moreover have "sid \<in> fst ` set (sw_load_channel D ch s) \<longleftrightarrow> contents s ch sid \<noteq> None"
    by (auto simp: load_rows image_iff) (metis load_rows fst_conv)
  ultimately show ?thesis
    by (simp add: restore_def case_prod_beta map_of_load) (auto simp: record_at_def)
qed

lemma quarantined_contents: "contents (snd (restore_rows B D ch rows (out, s))) = contents s"
proof (induction rows arbitrary: out s)
  case Nil
  then show ?case by simp
next
  case (Cons row rows)
  then show ?case
    by (cases row) (simp add: quarantine_contents split: decode_outcome.split)
qed

lemma store_record_at:
  assumes "borsh_roundtrip B" and "is_ok (bo_to_vec B rec)" and "length sid = 32"
  shows "record_at B (contents (store_record B D ch sid rec s) ch' j) =
    (if ch' = ch \<and> j = sid then rec else record_at B (contents s ch' j))"
proof -
  obtain row where row: "encode B rec = Inr row"
    using assms(2) by (auto simp: encode_def result_simps)
  then have "decode B row = Current rec"
    by (rule decode_encode [OF assms(1)])
  with row assms(3) show ?thesis
    by (auto simp: store_record_def save_contents delete_contents record_at_def)
qed

end

section \<open>A codec of records\<close>

text \<open>
  The Borsh format of \<open>PersistedSwap\<close>: it satisfies the hypothesis of the round trips, and it encodes
  every record whose identifiers have 32 bytes and whose strings fit a 32-bit length.
\<close>

definition f_id :: "bytes fmt" where
  "f_id = f_fixed 32"

definition f_string :: "string fmt" where
  "f_string = f_iso bytes_of_chars chars_of_bytes f_vec"

definition f_script :: "utxo_script fmt" where
  "f_script = f_iso (\<lambda>s. (us_redeem_script s, us_unlock_ts s, us_deposit_target s))
     (\<lambda>(a, b, c). \<lparr>us_redeem_script = a, us_unlock_ts = b, us_deposit_target = c\<rparr>)
     (f_pair f_vec (f_pair (f_word 8) f_string))"

definition f_attempt :: "attempt_state fmt" where
  "f_attempt = f_iso
     (\<lambda>s. (as_first_seen s, as_next_attempt_at s, as_attempt_count s, as_deadline s, as_nonce s, as_last_gas s))
     (\<lambda>(a, b, c, d, e, f). \<lparr>as_first_seen = a, as_next_attempt_at = b, as_attempt_count = c,
        as_deadline = d, as_nonce = e, as_last_gas = f\<rparr>)
     (f_pair (f_word 8) (f_pair (f_word 8) (f_pair (f_word 4) (f_pair (f_word 8)
       (f_pair (f_option (f_word 8)) (f_option (f_word 16)))))))"

definition f_persisted :: "persisted_swap fmt" where
  "f_persisted = f_iso
     (\<lambda>s. (pw_script s, pw_pending_refund s, pw_pending_claim s, pw_claim_attempt s, pw_refund_attempt s))
     (\<lambda>(a, b, c, d, e). \<lparr>pw_script = a, pw_pending_refund = b, pw_pending_claim = c,
        pw_claim_attempt = d, pw_refund_attempt = e\<rparr>)
     (f_pair (f_option f_script)
       (f_pair (f_option (f_pair (f_iso rf_swap_id refund_new f_id) (f_word 8)))
       (f_pair (f_option (f_iso (\<lambda>r. (rv_swap_id r, rv_secret r)) (\<lambda>(a, b). reveal_new a b)
           (f_pair f_id f_id)))
       (f_pair (f_option f_attempt) (f_option f_attempt)))))"

definition record_codec :: "persisted_swap borsh_codec" where
  "record_codec = borsh_of f_persisted"

lemma record_codec_roundtrip: "borsh_roundtrip record_codec"
  unfolding record_codec_def f_persisted_def f_attempt_def f_script_def f_string_def f_id_def
  by (intro borsh_roundtrip_of fmt_ok_iso fmt_ok_pair fmt_ok_option fmt_ok_word fmt_ok_vec fmt_ok_fixed)
    (simp_all add: refund_new_def reveal_new_def)

end
