(* ===== verification/Storage.thy ===== *)
theory Storage
  imports Swap_Records
begin

text \<open>
  The crate \<open>storage\<close>: the embedded database of a node with its four tables (peers, cursors,
  swaps, quarantine) and the stores built on it. The database engine redb is a parameter: a record of
  its transactions, each of which commits or reports an error. What the code relies on is the
  locale \<open>redb\<close> (a transaction that succeeds has its documented effect); \<open>redb_reliable\<close> adds
  that no transaction fails. \<open>DbSwapStore\<close> over a reliable database satisfies the contract
  \<open>swap_store\<close>.
\<close>

section \<open>The database engine\<close>

datatype db_error = Redb string | Commit string | Transaction string | Table string | StorageErr string

text \<open>
  Each entry is one transaction of the code: begin, open the named table, the operation, and for
  the writing ones the commit. The disk maps a path to the database that the file there holds;
  \<open>rd_create\<close> is \<open>Database::builder().create\<close>, which opens the database of an existing file and
  makes an empty one where there is no file; \<open>rd_open_tables\<close> is the transaction of
  \<open>PeerDb::new\<close> that opens the named tables, so that they exist from then on.
  \<open>rd_range t lo hi\<close> lists the rows of \<open>t\<close> with \<open>lo \<le> key < hi\<close>, without upper bound for
  \<^term>\<open>None\<close>; \<open>rd_iter\<close> lists all rows.
\<close>

record 'd redb_ops =
  rd_create :: "(string \<Rightarrow> 'd option) \<Rightarrow> string \<Rightarrow> ('d, db_error) result"
  rd_open_tables :: "string list \<Rightarrow> 'd \<Rightarrow> ('d, db_error) result"
  rd_get :: "string \<Rightarrow> bytes \<Rightarrow> 'd \<Rightarrow> (bytes option, db_error) result"
  rd_range :: "string \<Rightarrow> bytes \<Rightarrow> bytes option \<Rightarrow> 'd \<Rightarrow> ((bytes \<times> bytes) list, db_error) result"
  rd_iter :: "string \<Rightarrow> 'd \<Rightarrow> ((bytes \<times> bytes) list, db_error) result"
  rd_len :: "string \<Rightarrow> 'd \<Rightarrow> (u64, db_error) result"
  rd_insert :: "string \<Rightarrow> bytes \<Rightarrow> bytes \<Rightarrow> 'd \<Rightarrow> ('d, db_error) result"
  rd_remove :: "string \<Rightarrow> bytes \<Rightarrow> 'd \<Rightarrow> ('d, db_error) result"

definition PEERS :: string where "PEERS = ''peers''"
definition CURSORS :: string where "CURSORS = ''cursors''"
definition SWAPS :: string where "SWAPS = ''swaps''"
definition QUARANTINE :: string where "QUARANTINE = ''quarantine''"

definition peer_db_new :: "'d redb_ops \<Rightarrow> (string \<Rightarrow> 'd option) \<Rightarrow> string \<Rightarrow> ('d, db_error) result" where
  "peer_db_new R disk path =
     r_bind (rd_create R disk path) (\<lambda>inner.
     rd_open_tables R [PEERS, CURSORS, SWAPS, QUARANTINE] inner)"

section \<open>The table of swaps\<close>

definition swap_key :: "channel_id \<Rightarrow> bytes \<Rightarrow> bytes" where
  "swap_key ch swap_id = channel_as_u8 ch # swap_id"

definition swap_row :: "bytes \<times> bytes \<Rightarrow> (bytes \<times> bytes) option" where
  "swap_row row =
     (case row of (key, value) \<Rightarrow>
        (case key of
           [] \<Rightarrow> None
         | _ # rest \<Rightarrow> if length rest = 32 then Some (rest, value) else None))"

definition get_swaps_for_channel ::
  "'d redb_ops \<Rightarrow> channel_id \<Rightarrow> 'd \<Rightarrow> ((bytes \<times> bytes) list, db_error) result" where
  "get_swaps_for_channel R ch d =
     (let chan = channel_as_u8 ch;
          lo = [chan];
          hi = [chan + 1];
          range = (if chan = - 1 then rd_range R SWAPS lo None d else rd_range R SWAPS lo (Some hi) d)
      in r_bind range (\<lambda>rows. Inr (List.map_filter swap_row rows)))"

definition set_swap :: "'d redb_ops \<Rightarrow> channel_id \<Rightarrow> bytes \<Rightarrow> bytes \<Rightarrow> 'd \<Rightarrow> ('d, db_error) result" where
  "set_swap R ch swap_id rec d = rd_insert R SWAPS (swap_key ch swap_id) rec d"

definition remove_swap :: "'d redb_ops \<Rightarrow> channel_id \<Rightarrow> bytes \<Rightarrow> 'd \<Rightarrow> ('d, db_error) result" where
  "remove_swap R ch swap_id d = rd_remove R SWAPS (swap_key ch swap_id) d"

section \<open>Quarantine\<close>

definition quarantine_key :: "channel_id \<Rightarrow> bytes \<Rightarrow> bytes" where
  "quarantine_key ch swap_id = channel_as_u8 ch # swap_id"

definition quarantine_swap :: "'d redb_ops \<Rightarrow> channel_id \<Rightarrow> bytes \<Rightarrow> bytes \<Rightarrow> 'd \<Rightarrow> ('d, db_error) result" where
  "quarantine_swap R ch swap_id raw d = rd_insert R QUARANTINE (quarantine_key ch swap_id) raw d"

definition quarantined_count :: "'d redb_ops \<Rightarrow> 'd \<Rightarrow> (u64, db_error) result" where
  "quarantined_count R d = rd_len R QUARANTINE d"

section \<open>The swap store\<close>

definition db_load_channel :: "'d redb_ops \<Rightarrow> channel_id \<Rightarrow> 'd \<Rightarrow> (bytes \<times> bytes) list" where
  "db_load_channel R ch d =
     (case get_swaps_for_channel R ch d of Inr rows \<Rightarrow> rows | Inl e \<Rightarrow> [])"

definition db_save :: "'d redb_ops \<Rightarrow> channel_id \<Rightarrow> bytes \<Rightarrow> bytes \<Rightarrow> 'd \<Rightarrow> 'd" where
  "db_save R ch swap_id rec d = (case set_swap R ch swap_id rec d of Inr d' \<Rightarrow> d' | Inl e \<Rightarrow> d)"

definition db_delete :: "'d redb_ops \<Rightarrow> channel_id \<Rightarrow> bytes \<Rightarrow> 'd \<Rightarrow> 'd" where
  "db_delete R ch swap_id d = (case remove_swap R ch swap_id d of Inr d' \<Rightarrow> d' | Inl e \<Rightarrow> d)"

definition db_quarantine :: "'d redb_ops \<Rightarrow> channel_id \<Rightarrow> bytes \<Rightarrow> bytes \<Rightarrow> string \<Rightarrow> 'd \<Rightarrow> 'd" where
  "db_quarantine R ch swap_id raw reason d =
     (case quarantine_swap R ch swap_id raw d of Inr d' \<Rightarrow> d' | Inl e \<Rightarrow> d)"

definition db_swap_store :: "'d redb_ops \<Rightarrow> 'd swap_store_ops" where
  "db_swap_store R =
     \<lparr>sw_load_channel = db_load_channel R, sw_save = db_save R, sw_delete = db_delete R,
      sw_quarantine = db_quarantine R\<rparr>"

section \<open>Cursors\<close>

definition get_cursor :: "'d redb_ops \<Rightarrow> channel_id \<Rightarrow> 'd \<Rightarrow> (bytes option, db_error) result" where
  "get_cursor R ch d = rd_get R CURSORS [channel_as_u8 ch] d"

definition set_cursor :: "'d redb_ops \<Rightarrow> channel_id \<Rightarrow> bytes \<Rightarrow> 'd \<Rightarrow> ('d, db_error) result" where
  "set_cursor R ch cursor d = rd_insert R CURSORS [channel_as_u8 ch] cursor d"

definition cursor_load :: "'d redb_ops \<Rightarrow> channel_id \<Rightarrow> 'd \<Rightarrow> bytes option" where
  "cursor_load R ch d = (case get_cursor R ch d of Inr c \<Rightarrow> c | Inl e \<Rightarrow> None)"

definition cursor_save :: "'d redb_ops \<Rightarrow> channel_id \<Rightarrow> bytes \<Rightarrow> 'd \<Rightarrow> 'd" where
  "cursor_save R ch cursor d = (case set_cursor R ch cursor d of Inr d' \<Rightarrow> d' | Inl e \<Rightarrow> d)"

definition db_cursor_store :: "'d redb_ops \<Rightarrow> 'd cursor_store_ops" where
  "db_cursor_store R = \<lparr>cs_load = cursor_load R, cs_save = cursor_save R\<rparr>"

section \<open>Peers\<close>

text \<open>The parser \<open>Url::parse\<close> and \<open>Url::as_str\<close> of the url crate are parameters.\<close>

record 'u url_ops =
  url_parse :: "string \<Rightarrow> ('u, string) result"
  url_as_str :: "'u \<Rightarrow> string"

record 'u peer =
  pr_url :: 'u

definition parse_peer_row :: "'u url_ops \<Rightarrow> bytes \<Rightarrow> bytes \<Rightarrow> 'u peer option" where
  "parse_peer_row U key value =
     (case from_utf8 value of
        None \<Rightarrow> None
      | Some s \<Rightarrow>
          (case url_parse U s of
             Inr url \<Rightarrow> Some \<lparr>pr_url = url\<rparr>
           | Inl e \<Rightarrow> None))"

definition get_peers :: "'d redb_ops \<Rightarrow> 'u url_ops \<Rightarrow> 'd \<Rightarrow> ('u peer list, db_error) result" where
  "get_peers R U d =
     r_bind (rd_iter R PEERS d) (\<lambda>rows. Inr (List.map_filter (\<lambda>(k, v). parse_peer_row U k v) rows))"

definition get_peer :: "'d redb_ops \<Rightarrow> 'u url_ops \<Rightarrow> 'u \<Rightarrow> 'd \<Rightarrow> ('u peer option, db_error) result" where
  "get_peer R U url d =
     (let key = bytes_of_chars (url_as_str U url) in
      r_bind (rd_get R PEERS key d)
        (\<lambda>row. Inr (case row of Some v \<Rightarrow> parse_peer_row U key v | None \<Rightarrow> None)))"

definition add_peer :: "'d redb_ops \<Rightarrow> 'u url_ops \<Rightarrow> 'u peer \<Rightarrow> 'd \<Rightarrow> ('d, db_error) result" where
  "add_peer R U peer d =
     (let url_bytes = bytes_of_chars (url_as_str U (pr_url peer))
      in rd_insert R PEERS url_bytes url_bytes d)"

definition remove_peer :: "'d redb_ops \<Rightarrow> string \<Rightarrow> 'd \<Rightarrow> ('d, db_error) result" where
  "remove_peer R url d = rd_remove R PEERS (bytes_of_chars url) d"

section \<open>What the code relies on\<close>

text \<open>The order of keys: byte-wise lexicographic.\<close>

fun bytes_less :: "bytes \<Rightarrow> bytes \<Rightarrow> bool" where
  "bytes_less _ [] = False"
| "bytes_less [] (_ # _) = True"
| "bytes_less (x # xs) (y # ys) = (x < y \<or> x = y \<and> bytes_less xs ys)"

definition in_range :: "bytes \<Rightarrow> bytes option \<Rightarrow> bytes \<Rightarrow> bool" where
  "in_range lo hi k = (\<not> bytes_less k lo \<and> (case hi of None \<Rightarrow> True | Some h \<Rightarrow> bytes_less k h))"

text \<open>
  \<open>tab d t\<close> is the content of table \<open>t\<close>. A transaction that returns an error promises nothing
  about its result, and the state before it stays valid: the callers keep it.
\<close>

locale redb =
  fixes R :: "'d redb_ops"
    and tab :: "'d \<Rightarrow> string \<Rightarrow> bytes \<Rightarrow> bytes option"
  assumes create_new: "rd_create R disk path = Inr d \<Longrightarrow> disk path = None \<Longrightarrow> tab d t k = None"
    and create_existing: "rd_create R disk path = Inr d \<Longrightarrow> disk path = Some f \<Longrightarrow> tab d t k = tab f t k"
    and open_tables: "rd_open_tables R ts d = Inr d' \<Longrightarrow> tab d' t k = tab d t k"
    and get: "rd_get R t k d = Inr found \<Longrightarrow> found = tab d t k"
    and range: "rd_range R t lo hi d = Inr rows \<Longrightarrow>
      (k, v) \<in> set rows \<longleftrightarrow> tab d t k = Some v \<and> in_range lo hi k"
    and range_distinct: "rd_range R t lo hi d = Inr rows \<Longrightarrow> distinct (map fst rows)"
    and iter: "rd_iter R t d = Inr rows \<Longrightarrow> (k, v) \<in> set rows \<longleftrightarrow> tab d t k = Some v"
    and insert: "rd_insert R t k v d = Inr d' \<Longrightarrow> tab d' t' j =
      (if t' = t \<and> j = k then Some v else tab d t' j)"
    and remove: "rd_remove R t k d = Inr d' \<Longrightarrow> tab d' t' j =
      (if t' = t \<and> j = k then None else tab d t' j)"

locale redb_reliable = redb R tab for R :: "'d redb_ops" and tab +
  assumes get_ok: "is_ok (rd_get R t k d)"
    and range_ok: "is_ok (rd_range R t lo hi d)"
    and iter_ok: "is_ok (rd_iter R t d)"
    and insert_ok: "is_ok (rd_insert R t k v d)"
    and remove_ok: "is_ok (rd_remove R t k d)"

definition swap_contents ::
  "('d \<Rightarrow> string \<Rightarrow> bytes \<Rightarrow> bytes option) \<Rightarrow> 'd \<Rightarrow> channel_id \<Rightarrow> bytes \<Rightarrow> bytes option" where
  "swap_contents tab d ch sid = (if length sid = 32 then tab d SWAPS (swap_key ch sid) else None)"

lemma swap_key_inject [simp]: "swap_key a x = swap_key b y \<longleftrightarrow> a = b \<and> x = y"
  by (simp add: swap_key_def)

lemma channel_as_u8_small [simp]: "channel_as_u8 ch \<noteq> - 1"
  by (cases ch) simp_all

lemma in_channel_range:
  "in_range [channel_as_u8 ch] (Some [channel_as_u8 ch + 1]) k \<longleftrightarrow> (\<exists>rest. k = channel_as_u8 ch # rest)"
proof (cases k)
  case Nil
  then show ?thesis by (simp add: in_range_def)
next
  case (Cons x xs)
  have "\<not> x < channel_as_u8 ch \<and> x < channel_as_u8 ch + 1 \<longleftrightarrow> x = channel_as_u8 ch"
    by (cases ch) (auto simp: word_less_nat_alt word_unat_eq_iff)
  moreover have "\<not> bytes_less ys []" for ys
    by (cases ys) simp_all
  ultimately show ?thesis
    using Cons by (auto simp: in_range_def)
qed

lemma swap_row_eq_Some:
  "swap_row kv = Some (sid, v) \<longleftrightarrow> length sid = 32 \<and> (\<exists>p. kv = (p # sid, v))"
  by (cases kv) (auto simp: swap_row_def split: list.splits if_splits)

lemma set_map_filter_iff: "y \<in> set (List.map_filter f xs) \<longleftrightarrow> (\<exists>x \<in> set xs. f x = Some y)"
  by (induction xs) (auto simp: List.map_filter_simps split: option.splits)

lemma distinct_swap_rows:
  assumes "distinct (map fst rows)" and "\<And>k v. (k, v) \<in> set rows \<Longrightarrow> \<exists>rest. k = c # rest"
  shows "distinct (map fst (List.map_filter swap_row rows))"
  using assms
proof (induction rows)
  case Nil
  then show ?case by (simp add: List.map_filter_simps)
next
  case (Cons kv rows)
  obtain rest v where kv: "kv = (c # rest, v)"
    using Cons.prems(2) by (cases kv) auto
  have IH: "distinct (map fst (List.map_filter swap_row rows))"
    using Cons by auto
  have "rest \<notin> fst ` set (List.map_filter swap_row rows)"
  proof
    assume "rest \<in> fst ` set (List.map_filter swap_row rows)"
    then obtain p w where "(p # rest, w) \<in> set rows"
      by (auto simp: set_map_filter_iff swap_row_eq_Some)
    with Cons.prems(2) have "(c # rest, w) \<in> set rows"
      by fastforce
    with Cons.prems(1) kv show False
      by (auto simp: rev_image_eqI)
  qed
  moreover have "swap_row kv = (if length rest = 32 then Some (rest, v) else None)"
    by (simp add: kv swap_row_def)
  ultimately show ?case
    using IH by (simp add: List.map_filter_simps)
qed

context redb
begin

lemma peer_db_new_rows:
  assumes "peer_db_new R disk path = Inr d"
  shows "disk path = None \<Longrightarrow> tab d t k = None" and "disk path = Some f \<Longrightarrow> tab d = tab f"
proof -
  obtain inner where "rd_create R disk path = Inr inner" "rd_open_tables R [PEERS, CURSORS, SWAPS, QUARANTINE] inner = Inr d"
    using assms by (auto simp: peer_db_new_def result_simps)
  then show "disk path = None \<Longrightarrow> tab d t k = None" and "disk path = Some f \<Longrightarrow> tab d = tab f"
    using create_new create_existing open_tables by (auto simp: fun_eq_iff)
qed

lemma load_channel_rows:
  assumes "get_swaps_for_channel R ch d = Inr rows"
  shows "(sid, v) \<in> set rows \<longleftrightarrow> swap_contents tab d ch sid = Some v" and "distinct (map fst rows)"
proof -
  obtain raw where raw: "rd_range R SWAPS [channel_as_u8 ch] (Some [channel_as_u8 ch + 1]) d = Inr raw"
      and rows: "rows = List.map_filter swap_row raw"
    using assms by (auto simp: get_swaps_for_channel_def result_simps Let_def)
  note mem = range [OF raw, unfolded in_channel_range]
  show "(sid, v) \<in> set rows \<longleftrightarrow> swap_contents tab d ch sid = Some v"
    by (auto simp: rows set_map_filter_iff swap_row_eq_Some mem swap_contents_def swap_key_def)
  show "distinct (map fst rows)"
    unfolding rows using range_distinct [OF raw] mem by (intro distinct_swap_rows) auto
qed

lemma save_cases:
  "swap_contents tab (db_save R ch sid v d) = swap_contents tab d \<or>
   (\<forall>ch' j. swap_contents tab (db_save R ch sid v d) ch' j =
     (if length sid = 32 \<and> ch' = ch \<and> j = sid then Some v else swap_contents tab d ch' j))"
proof (cases "set_swap R ch sid v d")
  case (Inl e)
  then show ?thesis by (simp add: db_save_def)
next
  case (Inr d')
  then have "tab d' t j = (if t = SWAPS \<and> j = swap_key ch sid then Some v else tab d t j)" for t j
    using insert [of SWAPS "swap_key ch sid" v d d' t j] by (simp add: set_swap_def)
  with Inr show ?thesis
    by (auto simp: db_save_def swap_contents_def)
qed

lemma quarantine_keeps: "swap_contents tab (db_quarantine R ch sid v reason d) = swap_contents tab d"
proof (cases "quarantine_swap R ch sid v d")
  case (Inl e)
  then show ?thesis by (simp add: db_quarantine_def)
next
  case (Inr d')
  then have "tab d' SWAPS j = tab d SWAPS j" for j
    using insert [of QUARANTINE "quarantine_key ch sid" v d d' SWAPS j]
    by (simp add: quarantine_swap_def QUARANTINE_def SWAPS_def)
  with Inr show ?thesis
    by (auto simp: db_quarantine_def swap_contents_def fun_eq_iff)
qed

lemma cursor_after_save:
  assumes "set_cursor R ch c d = Inr d'" and "is_ok (get_cursor R ch' d')"
  shows "cursor_load R ch' d' = (if ch' = ch then Some c else tab d CURSORS [channel_as_u8 ch'])"
proof -
  obtain v where v: "get_cursor R ch' d' = Inr v"
    using assms(2) by (auto simp: result_simps)
  then have "v = tab d' CURSORS [channel_as_u8 ch']"
    by (auto simp: get_cursor_def dest: get)
  moreover have "tab d' t j = (if t = CURSORS \<and> j = [channel_as_u8 ch] then Some c else tab d t j)" for t j
    using assms(1) insert [of CURSORS "[channel_as_u8 ch]" c d d' t j] by (simp add: set_cursor_def)
  ultimately show ?thesis
    using v by (simp add: cursor_load_def)
qed

end

sublocale redb_reliable \<subseteq> db: swap_store "db_swap_store R" "swap_contents tab"
proof unfold_locales
  fix ch ch' :: channel_id and d :: 'd and sid row j reason
  obtain rows where rows: "get_swaps_for_channel R ch d = Inr rows"
    using range_ok [of SWAPS "[channel_as_u8 ch]" "Some [channel_as_u8 ch + 1]" d]
    by (auto simp: get_swaps_for_channel_def result_simps Let_def)
  show "(sid, row) \<in> set (sw_load_channel (db_swap_store R) ch d) \<longleftrightarrow> swap_contents tab d ch sid = Some row"
    using load_channel_rows(1) [OF rows] rows by (simp add: db_swap_store_def db_load_channel_def)
  show "distinct (map fst (sw_load_channel (db_swap_store R) ch d))"
    using load_channel_rows(2) [OF rows] rows by (simp add: db_swap_store_def db_load_channel_def)
  obtain d' where ins: "set_swap R ch sid row d = Inr d'"
    using insert_ok [of SWAPS "swap_key ch sid" row d] by (auto simp: set_swap_def result_simps)
  obtain d'' where rem: "remove_swap R ch sid d = Inr d''"
    using remove_ok [of SWAPS "swap_key ch sid" d] by (auto simp: remove_swap_def result_simps)
  assume len: "length sid = 32"
  show "swap_contents tab (sw_save (db_swap_store R) ch sid row d) ch' j =
      (if ch' = ch \<and> j = sid then Some row else swap_contents tab d ch' j)"
    using ins insert [of SWAPS "swap_key ch sid" row d d'] len
    by (auto simp: db_swap_store_def db_save_def set_swap_def swap_contents_def)
  show "swap_contents tab (sw_delete (db_swap_store R) ch sid d) ch' j =
      (if ch' = ch \<and> j = sid then None else swap_contents tab d ch' j)"
    using rem remove [of SWAPS "swap_key ch sid" d d''] len
    by (auto simp: db_swap_store_def db_delete_def remove_swap_def swap_contents_def)
next
  fix ch :: channel_id and d :: 'd and sid row reason
  show "swap_contents tab (sw_quarantine (db_swap_store R) ch sid row reason d) = swap_contents tab d"
    using quarantine_keeps by (simp add: db_swap_store_def)
qed

section \<open>An in-memory database\<close>

text \<open>A database whose tables are one finite map; it meets every hypothesis above.\<close>

type_synonym mem_db = "(string \<times> bytes, bytes) hashmap"

definition mem_rows :: "string \<Rightarrow> (bytes \<Rightarrow> bool) \<Rightarrow> mem_db \<Rightarrow> (bytes \<times> bytes) list" where
  "mem_rows t P d =
     map (\<lambda>((t', k), v). (k, v)) (filter (\<lambda>((t', k), v). t' = t \<and> P k) (hm_iter d))"

definition mem_redb :: "mem_db redb_ops" where
  "mem_redb =
     \<lparr>rd_create = (\<lambda>disk path. Inr (case disk path of None \<Rightarrow> hm_empty | Some f \<Rightarrow> f)),
      rd_open_tables = (\<lambda>ts d. Inr d),
      rd_get = (\<lambda>t k d. Inr (hm_get d (t, k))),
      rd_range = (\<lambda>t lo hi d. Inr (mem_rows t (in_range lo hi) d)),
      rd_iter = (\<lambda>t d. Inr (mem_rows t (\<lambda>_. True) d)),
      rd_len = (\<lambda>t d. Inr (of_nat (length (mem_rows t (\<lambda>_. True) d)))),
      rd_insert = (\<lambda>t k v d. Inr (hm_insert (t, k) v d)),
      rd_remove = (\<lambda>t k d. Inr (hm_remove (t, k) d))\<rparr>"

definition mem_tab :: "mem_db \<Rightarrow> string \<Rightarrow> bytes \<Rightarrow> bytes option" where
  "mem_tab d t k = hm_get d (t, k)"

lemma mem_rows_iff: "(k, v) \<in> set (mem_rows t P d) \<longleftrightarrow> mem_tab d t k = Some v \<and> P k"
  by (force simp: mem_rows_def mem_tab_def hm.iter_get [symmetric])

lemma mem_rows_distinct: "distinct (map fst (mem_rows t P d))"
proof -
  let ?xs = "filter (\<lambda>((t', k), v). t' = t \<and> P k) (hm_iter d)"
  have "distinct (map fst ?xs)"
    by (intro distinct_map_fst_filter hm.iter_distinct)
  moreover have "map fst ?xs = map (Pair t) (map fst (mem_rows t P d))"
    by (auto simp: mem_rows_def)
  ultimately have "distinct (map (Pair t) (map fst (mem_rows t P d)))"
    by simp
  then show ?thesis
    by (simp only: distinct_map)
qed

interpretation mem: redb_reliable mem_redb mem_tab
  by unfold_locales
    (auto simp: mem_redb_def mem_rows_iff mem_rows_distinct, auto simp: mem_tab_def)

section \<open>Properties\<close>

datatype store_call =
    SaveCall channel_id bytes bytes
  | DeleteCall channel_id bytes
  | QuarantineCall channel_id bytes bytes string

fun run_store_call :: "'d redb_ops \<Rightarrow> store_call \<Rightarrow> 'd \<Rightarrow> 'd" where
  "run_store_call R (SaveCall ch sid row) d = db_save R ch sid row d"
| "run_store_call R (DeleteCall ch sid) d = db_delete R ch sid d"
| "run_store_call R (QuarantineCall ch sid raw reason) d = db_quarantine R ch sid raw reason d"

text \<open>The specification: a partial map from channels and swap ids to rows.\<close>

type_synonym swap_map = "channel_id \<Rightarrow> bytes \<Rightarrow> bytes option"

fun spec_store_call :: "store_call \<Rightarrow> swap_map \<Rightarrow> swap_map" where
  "spec_store_call (SaveCall ch sid row) m = m(ch := (m ch)(sid := Some row))"
| "spec_store_call (DeleteCall ch sid) m = m(ch := (m ch)(sid := None))"
| "spec_store_call (QuarantineCall ch sid raw reason) m = m"

fun call_id :: "store_call \<Rightarrow> bytes" where
  "call_id (SaveCall ch sid row) = sid"
| "call_id (DeleteCall ch sid) = sid"
| "call_id (QuarantineCall ch sid raw reason) = sid"

context redb_reliable
begin

lemma run_call_contents:
  "length (call_id c) = 32 \<Longrightarrow>
   swap_contents tab (run_store_call R c d) = spec_store_call c (swap_contents tab d)"
  using db.save_contents db.delete_contents db.quarantine_contents
  by (cases c) (auto simp: fun_eq_iff db_swap_store_def)

lemma run_calls_contents:
  "\<forall>c \<in> set calls. length (call_id c) = 32 \<Longrightarrow>
   swap_contents tab (fold (run_store_call R) calls d) = fold spec_store_call calls (swap_contents tab d)"
  by (induction calls arbitrary: d) (simp_all add: run_call_contents)

lemma load_after_calls:
  "\<forall>c \<in> set calls. length (call_id c) = 32 \<Longrightarrow>
   (sid, row) \<in> set (db_load_channel R ch (fold (run_store_call R) calls d)) \<longleftrightarrow>
   fold spec_store_call calls (swap_contents tab d) ch sid = Some row"
  using db.load_rows [of sid row ch "fold (run_store_call R) calls d"]
  by (simp add: db_swap_store_def run_calls_contents)

lemma db_load_distinct: "distinct (map fst (db_load_channel R ch d))"
  using db.load_distinct [of ch d] by (simp add: db_swap_store_def)

end

text \<open>
  (C20) The swap store over a database that does not fail is a map from channels and swap ids to
  records: after any sequence of saves, deletions and quarantines, starting with whatever rows the
  database has, loading a channel returns exactly the rows that the map holds for this channel, each
  swap once, and no row of another channel; and \<open>PeerDb::new\<close> on the file of that database returns the
  same rows again.
\<close>

theorem db_store_refines_map:
  assumes "redb_reliable R tab"
    and "\<forall>c \<in> set calls. length (call_id c) = 32"
    and "d' = fold (run_store_call R) calls d"
  shows "((sid, row) \<in> set (db_load_channel R ch d') \<longleftrightarrow>
            fold spec_store_call calls (swap_contents tab d) ch sid = Some row) \<and>
         distinct (map fst (db_load_channel R ch d')) \<and>
         (\<forall>disk path d''. disk path = Some d' \<and> peer_db_new R disk path = Inr d'' \<longrightarrow>
            ((sid, row) \<in> set (db_load_channel R ch d'') \<longleftrightarrow>
               fold spec_store_call calls (swap_contents tab d) ch sid = Some row))"
proof -
  have "redb R tab"
    using assms(1) by (simp add: redb_reliable_def)
  then have "swap_contents tab d'' = swap_contents tab d'"
    if "disk path = Some d'" "peer_db_new R disk path = Inr d''" for disk path d''
    using redb.peer_db_new_rows(2) [OF _ that(2,1)] by (simp add: swap_contents_def fun_eq_iff)
  then show ?thesis
    using redb_reliable.load_after_calls [OF assms(1,2), of sid row ch] redb_reliable.db_load_distinct [OF assms(1)]
      redb_reliable.load_after_calls [OF assms(1), of "[]" sid row ch] redb_reliable.run_calls_contents [OF assms(1,2)]
    by (auto simp: assms(3))
qed

definition mem_cursors :: "mem_db cursor_store_ops" where
  "mem_cursors = \<lparr>cs_load = cursor_load mem_redb, cs_save = cursor_save mem_redb\<rparr>"

definition sample_calls :: "store_call list" where
  "sample_calls =
     [SaveCall KaspaTn10 (replicate 32 1) [10], SaveCall EthereumSepolia (replicate 32 1) [20],
      SaveCall KaspaTn10 (replicate 32 2) [30], DeleteCall KaspaTn10 (replicate 32 2),
      SaveCall KaspaTn10 (replicate 32 1) [11]]"

lemma mem_cursors_eq: "db_cursor_store mem_redb = mem_cursors"
  by (simp add: db_cursor_store_def mem_cursors_def)

lemma mem_peer_db_new: "peer_db_new mem_redb disk path = Inr (case disk path of None \<Rightarrow> hm_empty | Some f \<Rightarrow> f)"
  by (simp add: peer_db_new_def mem_redb_def)

theorem db_store_refines_map_witness:
  "\<exists>d''. peer_db_new mem_redb [''node.db'' \<mapsto> fold (run_store_call mem_redb) sample_calls hm_empty] ''node.db'' = Inr d'' \<and>
   (replicate 32 1, [11]) \<in> set (db_load_channel mem_redb KaspaTn10 d'') \<and>
   (replicate 32 2, [30]) \<notin> set (db_load_channel mem_redb KaspaTn10
      (fold (run_store_call mem_redb) sample_calls hm_empty))"
proof -
  have ids: "\<forall>c \<in> set sample_calls. length (call_id c) = 32"
    by (simp add: sample_calls_def)
  have ne: "replicate 32 (1 :: u8) \<noteq> replicate 32 2"
    by (simp add: replicate_eq_replicate)
  let ?d = "fold (run_store_call mem_redb) sample_calls hm_empty"
  have new: "peer_db_new mem_redb [''node.db'' \<mapsto> ?d] ''node.db'' = Inr ?d"
    by (simp only: mem_peer_db_new) simp
  have spec: "fold spec_store_call sample_calls (swap_contents mem_tab hm_empty) KaspaTn10 (replicate 32 1) = Some [11]"
    "fold spec_store_call sample_calls (swap_contents mem_tab hm_empty) KaspaTn10 (replicate 32 2) = None"
    using ne by (simp_all add: sample_calls_def swap_contents_def)
  note store = db_store_refines_map [OF mem.redb_reliable_axioms ids refl, of _ _ KaspaTn10 hm_empty]
  have "(replicate 32 1, [11]) \<in> set (db_load_channel mem_redb KaspaTn10 ?d)"
    using conjunct2 [OF conjunct2 [OF store]] new spec(1) by (metis fun_upd_same)
  moreover have "(replicate 32 2, [30]) \<notin> set (db_load_channel mem_redb KaspaTn10 ?d)"
    using conjunct1 [OF store] spec(2) by simp
  ultimately show ?thesis
    using new by blast
qed

text \<open>
  A database that does fail loses at most the write that failed: after a save the swap rows are
  either what they were or what they were with this one row replaced, and a quarantine never touches
  them.
\<close>

lemma db_failure_is_atomic:
  assumes "redb R tab"
  shows "(swap_contents tab (db_save R ch sid row d) = swap_contents tab d \<or>
          swap_contents tab (db_save R ch sid row d) =
            spec_store_call (SaveCall ch sid row) (swap_contents tab d) \<or> length sid \<noteq> 32) \<and>
         swap_contents tab (db_quarantine R ch sid row reason d) = swap_contents tab d"
  using redb.save_cases [OF assms, of ch sid row d] redb.quarantine_keeps [OF assms]
  by (auto simp: fun_eq_iff)

end
