(* ===== verification/Evm_Chain.thy ===== *)
theory Evm_Chain
  imports Storage
begin

text \<open>
  The EVM channel of the data crate (\<open>chains/evm/\<close>). The file follows the source: the log
  cursor (\<open>finality.rs\<close>), the decoding of logs (\<open>decode.rs\<close>), the buffer with its persisted state
  (\<open>mod.rs\<close>, \<open>persist.rs\<close>, \<open>connect.rs\<close>), polling (\<open>poll.rs\<close>), emission (\<open>emit.rs\<close>,
  \<open>broadcast/\<close>), signing (\<open>signing.rs\<close>), replacement of transactions (\<open>replace.rs\<close>) and
  settlement (\<open>settle.rs\<close>, \<open>settler.rs\<close>, \<open>reconcile.rs\<close>).

  What the node and the alloy library answer is an environment: \<open>evm_net\<close> holds the answers
  of the RPC calls of one operation (a call made through \<open>retry_timed\<close> has one answer per
  attempt, \<^term>\<open>None\<close> being a timeout), \<open>alloy\<close> the pure functions of alloy and of SHA-256.
  An operation that sends transactions returns the list of those it sent.
\<close>

section \<open>Errors, transactions and the environment\<close>

datatype gas_payment = Eip1559 | Legacy

type_synonym address = bytes

record evm_log =
  lg_address :: address
  lg_topics :: "bytes list"
  lg_data :: bytes

text \<open>The events and the view function of the contract interface (\<open>contracts.rs\<close>).\<close>

record commitment_log =
  cl_swapId :: bytes
  cl_sender :: address
  cl_receiver :: address
  cl_sender_destination_address :: bytes
  cl_amount :: u256
  cl_secretHash :: bytes
  cl_timelock :: u256
  cl_destination :: u8

record claim_log =
  ml_swapId :: bytes
  ml_secret :: bytes
  ml_solver :: address
  ml_receiverAmount :: u256
  ml_solverReward :: u256

record refund_log =
  fl_swapId :: bytes

record evm_swap =
  sv_sender :: address
  sv_sender_destination_address :: bytes
  sv_receiver :: address
  sv_amount :: u256
  sv_secretHash :: bytes
  sv_timelock :: u256
  sv_initialized :: bool
  sv_finalized :: bool

datatype evm_call =
    NewSwap address address bytes bytes u256 u8 bytes
  | ClaimCall bytes bytes
  | RefundCall bytes

datatype gas_fields = NoGas | GasPrice u128 | MaxFee u128 u128

record evm_tx =
  tx_to :: address
  tx_call :: evm_call
  tx_value :: u256
  tx_nonce :: "u64 option"
  tx_gas :: gas_fields

record receipt =
  rc_status :: bool
  rc_transaction_hash :: string

text \<open>When the timeout of the driver cuts a settlement short: before it changed the queue, or after.\<close>

datatype cut = NoCut | CutBefore | CutAfter

record evm_net =
  en_connect :: "string \<Rightarrow> (unit, string) result"
  en_connect_signed :: "string \<Rightarrow> (unit, string) result"
  en_block_number :: "nat \<Rightarrow> (u64, string) result option"
  en_get_logs :: "address \<Rightarrow> u64 \<Rightarrow> u64 \<Rightarrow> nat \<Rightarrow> (evm_log list, string) result option"
  en_block_timestamp :: "(u64 option, string) result option"
  en_gas_price :: "nat \<Rightarrow> (u128, string) result option"
  en_tx_count :: "address \<Rightarrow> nat \<Rightarrow> (u64, string) result option"
  en_tx_count_pending :: "address \<Rightarrow> nat \<Rightarrow> (u64, string) result option"
  en_balance :: "address \<Rightarrow> nat \<Rightarrow> (u256, string) result option"
  en_swaps :: "address \<Rightarrow> bytes \<Rightarrow> (evm_swap, string) result option"
  en_swaps_finalized :: "address \<Rightarrow> bytes \<Rightarrow> (evm_swap, string) result option"
  en_send :: "evm_tx \<Rightarrow> (unit, string) result option"
  en_receipt :: "evm_tx \<Rightarrow> (receipt, string) result option"
  en_cut :: cut

record alloy =
  ex_sha256 :: "bytes \<Rightarrow> bytes"
  ex_parse_address :: "string \<Rightarrow> (address, string) result"
  ex_show_address :: "address \<Rightarrow> string"
  ex_parse_u256 :: "string \<Rightarrow> (u256, string) result"
  ex_signer_address :: "string \<Rightarrow> (address, string) result"
  ex_sign_message :: "string \<Rightarrow> bytes \<Rightarrow> (bytes, string) result"
  ex_parse_signature :: "bytes \<Rightarrow> (bytes, string) result"
  ex_recover_address :: "bytes \<Rightarrow> bytes \<Rightarrow> (address, string) result"
  ex_decode_commitment :: "evm_log \<Rightarrow> (commitment_log, string) result"
  ex_decode_claim :: "evm_log \<Rightarrow> (claim_log, string) result"
  ex_decode_refund :: "evm_log \<Rightarrow> (refund_log, string) result"

definition parse_address :: "alloy \<Rightarrow> string \<Rightarrow> string \<Rightarrow> (address, data_error) result" where
  "parse_address X label value =
     map_err (\<lambda>e. BroadcastError (label @ '' address '' @ value @ '': '' @ e)) (ex_parse_address X value)"

section \<open>The log cursor\<close>

record poll_state =
  pl_cursor :: u64

definition DEFAULT_POLL_INTERVAL_MS :: u64 where "DEFAULT_POLL_INTERVAL_MS = 10000"
definition DEFAULT_MAX_BLOCKS_PER_POLL :: u64 where "DEFAULT_MAX_BLOCKS_PER_POLL = 1000"

definition next_range :: "poll_state \<Rightarrow> u64 \<Rightarrow> u64 \<Rightarrow> u64 \<Rightarrow> (u64 \<times> u64) option" where
  "next_range self current_block confirmations max_blocks_per_poll =
     (case checked_sub current_block confirmations of
        None \<Rightarrow> None
      | Some d \<Rightarrow>
          (case checked_add d 1 of
             None \<Rightarrow> None
           | Some confirmed_end \<Rightarrow>
               (let from = pl_cursor self in
                if confirmed_end \<le> from then None
                else (let m = max max_blocks_per_poll 1;
                          fin = min confirmed_end (saturating_add from m)
                      in Some (from, fin)))))"

definition advance :: "u64 \<Rightarrow> poll_state \<Rightarrow> poll_state" where
  "advance fin self = self\<lparr>pl_cursor := fin\<rparr>"

definition poll_once ::
  "evm_net \<Rightarrow> address \<Rightarrow> u64 \<Rightarrow> u64 \<Rightarrow> poll_state \<Rightarrow> evm_log list \<times> poll_state" where
  "poll_once net htlc confirmations max_blocks self =
     (case retry_timed (en_block_number net) of
        None \<Rightarrow> ([], self)
      | Some current \<Rightarrow>
          (case next_range self current confirmations max_blocks of
             None \<Rightarrow> ([], self)
           | Some (from, fin) \<Rightarrow>
               (case retry_timed (en_get_logs net htlc from (fin - 1)) of
                  None \<Rightarrow> ([], self)
                | Some logs \<Rightarrow> (logs, advance fin self))))"

section \<open>Logs\<close>

text \<open>\<open>Uint::to\<close> panics when the value does not fit.\<close>

definition uint_to_u64 :: "u256 \<Rightarrow> (u64, panic) result" where
  "uint_to_u64 w = (if unat w < 2 ^ 64 then Inr (ucast w) else Inl (Panic ''Uint conversion error''))"

definition decode_log :: "alloy \<Rightarrow> evm_log \<Rightarrow> channel_id \<Rightarrow> (chain_event option, panic) result" where
  "decode_log X log ch =
     (case ex_decode_commitment X log of
        Inr d \<Rightarrow>
          r_bind (uint_to_u64 (cl_timelock d)) (\<lambda>timelock.
          Inr (Some (Commitment (commitment_new (cl_swapId d)
            (addresses_new (ex_show_address X (cl_sender d)) (ex_show_address X (cl_receiver d))
               (from_utf8_lossy (cl_sender_destination_address d)))
            (amount_new (show_nat (unat (cl_amount d))) (decimals ch))
            (cl_secretHash d) timelock (channel_as_u8 ch) (cl_destination d)))))
      | Inl _ \<Rightarrow>
          (case ex_decode_claim X log of
             Inr d \<Rightarrow> Inr (Some (Reveal (reveal_new (ml_swapId d) (ml_secret d))))
           | Inl _ \<Rightarrow>
               (case ex_decode_refund X log of
                  Inr d \<Rightarrow> Inr (Some (Refund (refund_new (fl_swapId d))))
                | Inl _ \<Rightarrow> Inr None)))"

section \<open>The buffer\<close>

text \<open>
  \<open>Evm\<close> with its \<open>EvmState\<close>; \<open>'s\<close> and \<open>'c\<close> are the states behind the swap store and the cursor
  store. The signed provider exists or not; the read provider is the environment.
\<close>

record ('s, 'c) evm =
  ev_channel_id :: channel_id
  ev_htlc_address :: address
  ev_minimum_block_confirmations :: u64
  ev_poll_interval_secs :: u64
  ev_max_blocks_per_poll :: u64
  ev_participate_ccr :: bool
  ev_gas_payment :: gas_payment
  ev_private_key :: "string option"
  ev_signed_provider :: bool
  ev_poll :: poll_state
  ev_pending_refunds :: "(refund_v1 \<times> u64) list"
  ev_pending_claims :: "reveal_v1 list"
  ev_next_poll_secs :: u64
  ev_last_block_ts :: "(u64 \<times> u64) option"
  ev_cursor_store :: "'c option"
  ev_swap_store :: "'s option"
  ev_queue :: retry_queue

definition evm_signed :: "('s, 'c) evm \<Rightarrow> (unit, data_error) result" where
  "evm_signed self = (if ev_signed_provider self then Inr () else Inl (MissingKey (ev_channel_id self)))"

definition evm_record :: "('s, 'c) evm \<Rightarrow> bytes \<Rightarrow> persisted_swap" where
  "evm_record self swap_id =
     \<lparr>pw_script = None,
      pw_pending_refund = find (\<lambda>(r, _). rf_swap_id r = swap_id) (ev_pending_refunds self),
      pw_pending_claim = find (\<lambda>c. rv_swap_id c = swap_id) (ev_pending_claims self),
      pw_claim_attempt = rq_get (claim_key swap_id) (ev_queue self),
      pw_refund_attempt = rq_get (refund_key swap_id) (ev_queue self)\<rparr>"

definition evm_persist_swap ::
  "persisted_swap borsh_codec \<Rightarrow> 's swap_store_ops \<Rightarrow> bytes \<Rightarrow> ('s, 'c) evm \<Rightarrow> ('s, 'c) evm" where
  "evm_persist_swap B D swap_id self =
     (case ev_swap_store self of
        None \<Rightarrow> self
      | Some store \<Rightarrow>
          self\<lparr>ev_swap_store :=
            Some (store_record B D (ev_channel_id self) swap_id (evm_record self swap_id) store)\<rparr>)"

fun is_commitment :: "chain_event \<Rightarrow> bool" where
  "is_commitment (Commitment c) = True"
| "is_commitment (Reveal r) = False"
| "is_commitment (Refund r) = False"

definition evm_track_actionable_event ::
  "persisted_swap borsh_codec \<Rightarrow> 's swap_store_ops \<Rightarrow> u64 \<Rightarrow> chain_event \<Rightarrow> ('s, 'c) evm \<Rightarrow> ('s, 'c) evm" where
  "evm_track_actionable_event B D now event self =
     (let swap_id = event_swap_id event;
          self1 = self\<lparr>ev_pending_refunds :=
            queue_dequeue_refund_event (ev_pending_refunds self) event (ev_participate_ccr self)\<rparr>;
          self2 = (if \<not> is_commitment event
            then self1\<lparr>ev_pending_claims := filter (\<lambda>c. rv_swap_id c \<noteq> swap_id) (ev_pending_claims self1)\<rparr>
            else self1);
          self3 = (if is_commitment event then
              (if ev_participate_ccr self2
               then self2\<lparr>ev_queue := rq_ensure (refund_key swap_id) now (ev_queue self2)\<rparr> else self2)
            else self2\<lparr>ev_queue := rq_record_success (refund_key swap_id)
                   (rq_record_success (claim_key swap_id) (ev_queue self2))\<rparr>)
      in evm_persist_swap B D swap_id self3)"

section \<open>Polling\<close>

text \<open>An operation that reads the wall clock several times gets \<open>clk\<close>: \<open>clk i\<close> is the \<open>i\<close>-th reading.\<close>

definition current_block_timestamp :: "evm_net \<Rightarrow> u64 option" where
  "current_block_timestamp net =
     (case en_block_timestamp net of Some (Inr (Some ts)) \<Rightarrow> Some ts | _ \<Rightarrow> None)"

fun evm_handle_logs ::
  "persisted_swap borsh_codec \<Rightarrow> 's swap_store_ops \<Rightarrow> alloy \<Rightarrow> (nat \<Rightarrow> u64) \<Rightarrow> nat \<Rightarrow> evm_log list
     \<Rightarrow> ('s, 'c) evm
     \<Rightarrow> ((channel_id \<times> chain_event) list, panic) result \<times> ('s, 'c) evm" where
  "evm_handle_logs B D X clk i [] self = (Inr [], self)"
| "evm_handle_logs B D X clk i (log # logs) self =
     (case decode_log X log (ev_channel_id self) of
        Inl p \<Rightarrow> (Inl p, self)
      | Inr None \<Rightarrow> evm_handle_logs B D X clk (Suc i) logs self
      | Inr (Some event) \<Rightarrow>
          (case evm_handle_logs B D X clk (Suc i) logs
                  (evm_track_actionable_event B D (clk i) event self) of
             (r, self') \<Rightarrow> (r_bind r (\<lambda>events. Inr ((ev_channel_id self, event) # events)), self')))"

definition evm_poll_finalized ::
  "persisted_swap borsh_codec \<Rightarrow> 's swap_store_ops \<Rightarrow> 'c cursor_store_ops \<Rightarrow> alloy \<Rightarrow> evm_net \<Rightarrow> (nat \<Rightarrow> u64)
     \<Rightarrow> ('s, 'c) evm \<Rightarrow> ((channel_id \<times> chain_event) list, panic) result \<times> ('s, 'c) evm" where
  "evm_poll_finalized B D C X net clk self =
     (if clk 0 < ev_next_poll_secs self then (Inr [], self)
      else
        (let self1 = self\<lparr>ev_next_poll_secs := clk 0 + ev_poll_interval_secs self\<rparr>;
             (logs, poll) = poll_once net (ev_htlc_address self1) (ev_minimum_block_confirmations self1)
               (ev_max_blocks_per_poll self1) (ev_poll self1);
             self2 = self1\<lparr>ev_poll := poll\<rparr>;
             self3 = self2\<lparr>ev_cursor_store := map_option
               (cs_save C (ev_channel_id self2) (to_le_bytes (pl_cursor poll))) (ev_cursor_store self2)\<rparr>
         in case evm_handle_logs B D X clk 1 logs self3 of
              (Inl p, self4) \<Rightarrow> (Inl p, self4)
            | (Inr events, self4) \<Rightarrow>
                (Inr events,
                 (case current_block_timestamp net of
                    Some ts \<Rightarrow> self4\<lparr>ev_last_block_ts := Some (ts, clk (Suc (length logs)))\<rparr>
                  | None \<Rightarrow> self4))))"

section \<open>Broadcasting\<close>

text \<open>
  The common end of the three submissions: send under the network timeout, wait for the receipt under
  the receipt timeout, and fail when the transaction reverted.
\<close>

definition send_and_confirm :: "evm_net \<Rightarrow> string \<Rightarrow> evm_tx \<Rightarrow> (unit, data_error) result" where
  "send_and_confirm net label tx =
     (case en_send net tx of
        None \<Rightarrow> Inl (BroadcastError (label @ '' send: timed out''))
      | Some (Inl e) \<Rightarrow> Inl (BroadcastError (label @ '' send: '' @ e))
      | Some (Inr _) \<Rightarrow>
          (case en_receipt net tx of
             None \<Rightarrow> Inl (BroadcastError (label @ '' receipt: timed out''))
           | Some (Inl e) \<Rightarrow> Inl (BroadcastError (label @ '' receipt: '' @ e))
           | Some (Inr receipt) \<Rightarrow>
               if \<not> rc_status receipt
               then Inl (BroadcastError (label @ '' reverted: tx '' @ rc_transaction_hash receipt))
               else Inr ()))"

definition parse_value :: "alloy \<Rightarrow> string \<Rightarrow> (u256, data_error) result" where
  "parse_value X value =
     map_err (\<lambda>e. BroadcastError (''amount '' @ value @ '': '' @ e)) (ex_parse_u256 X value)"

definition resolve_gas_price :: "evm_net \<Rightarrow> gas_payment \<Rightarrow> (u128 option, data_error) result" where
  "resolve_gas_price net gp =
     (case gp of
        Eip1559 \<Rightarrow> Inr None
      | Legacy \<Rightarrow>
          r_bind (ok_or (retry_timed (en_gas_price net)) (BroadcastError ''gas price: timed out''))
            (\<lambda>g. Inr (Some (saturating_mul g 6 div 5))))"

definition evm_submit_commitment ::
  "alloy \<Rightarrow> evm_net \<Rightarrow> address \<Rightarrow> commitment_v1 \<Rightarrow> gas_payment \<Rightarrow> (unit, data_error) result \<times> evm_tx list" where
  "evm_submit_commitment X net htlc c gp =
     (case r_bind (parse_address X ''sender'' (ad_sender (cm_addresses c))) (\<lambda>sender.
           r_bind (parse_address X ''receiver'' (ad_receiver (cm_addresses c))) (\<lambda>receiver.
           r_bind (parse_value X (am_value (cm_amount c))) (\<lambda>value.
           r_bind (resolve_gas_price net gp) (\<lambda>price.
           Inr \<lparr>tx_to = htlc,
                tx_call = NewSwap sender receiver (bytes_of_chars (ad_sender_destination (cm_addresses c)))
                  (cm_secret_hash c) (ucast (cm_unlock_ts c)) (cm_destination c) (cm_swap_id c),
                tx_value = value, tx_nonce = None,
                tx_gas = (case price of Some g \<Rightarrow> GasPrice g | None \<Rightarrow> NoGas)\<rparr>)))) of
        Inl e \<Rightarrow> (Inl e, [])
      | Inr tx \<Rightarrow> (send_and_confirm net ''newSwap'' tx, [tx]))"

definition apply_gas_and_nonce :: "evm_tx \<Rightarrow> u64 \<Rightarrow> u128 \<Rightarrow> gas_payment \<Rightarrow> evm_tx" where
  "apply_gas_and_nonce base nonce gas_price gp =
     (let base = base\<lparr>tx_nonce := Some nonce\<rparr> in
      case gp of
        Eip1559 \<Rightarrow> base\<lparr>tx_gas := MaxFee gas_price gas_price\<rparr>
      | Legacy \<Rightarrow> base\<lparr>tx_gas := GasPrice gas_price\<rparr>)"

definition secret_matches :: "alloy \<Rightarrow> bytes \<Rightarrow> bytes \<Rightarrow> bool" where
  "secret_matches X secret secret_hash = (ex_sha256 X secret = secret_hash)"

definition claim_skip_reason ::
  "bool \<Rightarrow> bool \<Rightarrow> bool \<Rightarrow> u64 option \<Rightarrow> u64 \<Rightarrow> string option" where
  "claim_skip_reason initialized finalized secret_ok chain_now timelock =
     (if \<not> initialized \<or> finalized then Some ''not claimable''
      else if \<not> secret_ok then Some ''revealed secret does not match on-chain hash''
      else case chain_now of
             Some now \<Rightarrow> if timelock \<le> now then Some ''timelock expired'' else None
           | None \<Rightarrow> None)"

definition base_tx :: "address \<Rightarrow> evm_call \<Rightarrow> evm_tx" where
  "base_tx htlc call = \<lparr>tx_to = htlc, tx_call = call, tx_value = 0, tx_nonce = None, tx_gas = NoGas\<rparr>"

definition evm_submit_claim ::
  "alloy \<Rightarrow> evm_net \<Rightarrow> address \<Rightarrow> reveal_v1 \<Rightarrow> u64 \<Rightarrow> u128 \<Rightarrow> gas_payment
     \<Rightarrow> (unit, data_error) result \<times> evm_tx list" where
  "evm_submit_claim X net htlc reveal nonce gas_price gp =
     (case en_swaps net htlc (rv_swap_id reveal) of
        None \<Rightarrow> (Inl (BroadcastError ''swaps lookup: timed out''), [])
      | Some (Inl e) \<Rightarrow> (Inl (BroadcastError (''swaps lookup: '' @ e)), [])
      | Some (Inr swap) \<Rightarrow>
          (let secret_ok = secret_matches X (rv_secret reveal) (sv_secretHash swap);
               chain_now = current_block_timestamp net;
               timelock = (if unat (sv_timelock swap) < 2 ^ 64 then ucast (sv_timelock swap) else - 1)
           in case claim_skip_reason (sv_initialized swap) (sv_finalized swap) secret_ok chain_now timelock of
                Some reason \<Rightarrow> (Inr (), [])
              | None \<Rightarrow>
                  (let tx = apply_gas_and_nonce
                         (base_tx htlc (ClaimCall (rv_swap_id reveal) (rv_secret reveal))) nonce gas_price gp
                   in (send_and_confirm net ''claim'' tx, [tx]))))"

definition evm_submit_refund ::
  "evm_net \<Rightarrow> address \<Rightarrow> bytes \<Rightarrow> u64 \<Rightarrow> u128 \<Rightarrow> gas_payment \<Rightarrow> (unit, data_error) result \<times> evm_tx list" where
  "evm_submit_refund net htlc swap_id nonce gas_price gp =
     (let tx = apply_gas_and_nonce (base_tx htlc (RefundCall swap_id)) nonce gas_price gp
      in (send_and_confirm net ''refund'' tx, [tx]))"

definition evm_emit_event ::
  "persisted_swap borsh_codec \<Rightarrow> 's swap_store_ops \<Rightarrow> alloy \<Rightarrow> evm_net \<Rightarrow> u64 \<Rightarrow> chain_event \<Rightarrow> ('s, 'c) evm
     \<Rightarrow> ((unit, data_error) result \<times> evm_tx list) \<times> ('s, 'c) evm" where
  "evm_emit_event B D X net now event self =
     (case event of
        Commitment c \<Rightarrow>
          (case evm_signed self of
             Inl e \<Rightarrow> ((Inl e, []), self)
           | Inr _ \<Rightarrow> (evm_submit_commitment X net (ev_htlc_address self) c (ev_gas_payment self), self))
      | Reveal r \<Rightarrow>
          (if ev_participate_ccr self then
             (let self1 = self\<lparr>ev_pending_claims := push_pending_claim (ev_pending_claims self) r\<rparr>;
                  self2 = self1\<lparr>ev_queue := rq_ensure (claim_key (rv_swap_id r)) now (ev_queue self1)\<rparr>
              in ((Inr (), []), evm_persist_swap B D (rv_swap_id r) self2))
           else ((Inr (), []), self))
      | Refund _ \<Rightarrow> ((Inr (), []), self))"

section \<open>Signing\<close>

definition address_from_private_key :: "alloy \<Rightarrow> string \<Rightarrow> (string, data_error) result" where
  "address_from_private_key X pk =
     r_bind (map_err (\<lambda>e. SignError (''local signer: '' @ e)) (ex_signer_address X pk))
       (\<lambda>a. Inr (ex_show_address X a))"

definition verify_lp_signature ::
  "alloy \<Rightarrow> bytes \<Rightarrow> string \<Rightarrow> bytes \<Rightarrow> (string \<times> bool, data_error) result" where
  "verify_lp_signature X digest claimed_address signature_bytes =
     r_bind (map_err (\<lambda>e. SignError (''invalid claimed address: '' @ e))
         (ex_parse_address X (trim claimed_address))) (\<lambda>claimed.
     r_bind (map_err (\<lambda>e. SignError (''signature parse: '' @ e)) (ex_parse_signature X signature_bytes))
       (\<lambda>signature.
     r_bind (map_err (\<lambda>e. SignError (''recover address: '' @ e)) (ex_recover_address X signature digest))
       (\<lambda>recovered.
     Inr (ex_show_address X recovered, recovered = claimed))))"

definition query_balance :: "alloy \<Rightarrow> evm_net \<Rightarrow> string \<Rightarrow> (u256, data_error) result" where
  "query_balance X net addr =
     r_bind (map_err (\<lambda>e. RpcError (''invalid address '' @ addr @ '': '' @ e)) (ex_parse_address X (trim addr)))
       (\<lambda>a. ok_or (retry_timed (en_balance net a)) (RpcError ''get_balance: timed out''))"

definition evm_sign_with_balance ::
  "alloy \<Rightarrow> evm_net \<Rightarrow> string \<Rightarrow> bytes \<Rightarrow> u256 \<Rightarrow> (string \<times> bytes, data_error) result" where
  "evm_sign_with_balance X net pk digest required_balance =
     r_bind (map_err (\<lambda>e. SignError (''local signer: '' @ e)) (ex_signer_address X pk)) (\<lambda>addr.
     r_bind (query_balance X net (ex_show_address X addr)) (\<lambda>balance.
     if balance < required_balance
     then Inl (SignError (''insufficient balance at '' @ ex_show_address X addr @ '': have ''
            @ show_nat (unat balance) @ '', need '' @ show_nat (unat required_balance)))
     else r_bind (map_err (\<lambda>e. SignError (''sign_message: '' @ e)) (ex_sign_message X pk digest))
            (\<lambda>sig. Inr (ex_show_address X addr, sig))))"

definition evm_verify_with_balance ::
  "alloy \<Rightarrow> evm_net \<Rightarrow> bytes \<Rightarrow> string \<Rightarrow> bytes \<Rightarrow> u256 \<Rightarrow> (proposal_verification, data_error) result" where
  "evm_verify_with_balance X net digest claimed_address signature_bytes required_balance =
     r_bind (verify_lp_signature X digest claimed_address signature_bytes) (\<lambda>(signer, address_matches).
     r_bind (query_balance X net claimed_address) (\<lambda>balance.
     Inr \<lparr>pv_address_matches = address_matches, pv_balance_sufficient = (required_balance \<le> balance)\<rparr>))"

section \<open>The buffer interface\<close>

definition evm_lp_address :: "alloy \<Rightarrow> ('s, 'c) evm \<Rightarrow> (string, data_error) result" where
  "evm_lp_address X self =
     r_bind (ok_or (ev_private_key self) (MissingKey (ev_channel_id self))) (address_from_private_key X)"

definition evm_chain_now :: "u64 \<Rightarrow> ('s, 'c) evm \<Rightarrow> u64 option" where
  "evm_chain_now now self =
     (let max_age = max (saturating_mul (ev_poll_interval_secs self) 3) 30 in
      case ev_last_block_ts self of
        None \<Rightarrow> None
      | Some (ts, observed) \<Rightarrow> if max_age < saturating_sub now observed then None else Some ts)"

definition required_balance :: "alloy \<Rightarrow> string \<Rightarrow> (u256, data_error) result" where
  "required_balance X s = map_err (\<lambda>e. SignError (''required_balance: '' @ e)) (ex_parse_u256 X s)"

definition evm_sign_message ::
  "alloy \<Rightarrow> evm_net \<Rightarrow> bytes \<Rightarrow> string \<Rightarrow> ('s, 'c) evm \<Rightarrow> (string \<times> bytes, data_error) result" where
  "evm_sign_message X net digest required self =
     r_bind (ok_or (ev_private_key self) (MissingKey (ev_channel_id self))) (\<lambda>pk.
     r_bind (required_balance X required) (\<lambda>amount. evm_sign_with_balance X net pk digest amount))"

definition evm_verify_message ::
  "alloy \<Rightarrow> evm_net \<Rightarrow> bytes \<Rightarrow> string \<Rightarrow> bytes \<Rightarrow> string \<Rightarrow> (proposal_verification, data_error) result" where
  "evm_verify_message X net digest claimed_address signature required =
     r_bind (required_balance X required) (\<lambda>amount.
       evm_verify_with_balance X net digest claimed_address signature amount)"

section \<open>Replacement of transactions\<close>

definition MAX_GAS_BUMPS :: u32 where "MAX_GAS_BUMPS = 12"
definition MAX_GAS_PRICE_WEI :: u128 where "MAX_GAS_PRICE_WEI = 5000000000000"

definition bump_gas :: "u128 \<Rightarrow> u128" where
  "bump_gas gas = saturating_mul gas 115 div 100"

definition escalated_gas :: "u128 \<Rightarrow> u32 \<Rightarrow> u128" where
  "escalated_gas base attempt_count =
     min ((bump_gas ^^ unat (min attempt_count MAX_GAS_BUMPS)) base) MAX_GAS_PRICE_WEI"

definition replacement_gas :: "u128 \<Rightarrow> attempt_state \<Rightarrow> u128" where
  "replacement_gas base attempt =
     (let gas = escalated_gas base (as_attempt_count attempt) in
      case as_last_gas attempt of
        Some prev \<Rightarrow> min (max gas (bump_gas prev)) MAX_GAS_PRICE_WEI
      | None \<Rightarrow> gas)"

definition account_address :: "alloy \<Rightarrow> ('s, 'c) evm \<Rightarrow> address option" where
  "account_address X self =
     Option.bind (ev_private_key self) (\<lambda>pk.
     Option.bind (to_option (address_from_private_key X pk)) (\<lambda>a. to_option (ex_parse_address X a)))"

definition replacement ::
  "persisted_swap borsh_codec \<Rightarrow> 's swap_store_ops \<Rightarrow> alloy \<Rightarrow> evm_net \<Rightarrow> action_key \<Rightarrow> ('s, 'c) evm
     \<Rightarrow> (u64 \<times> u128) option \<times> ('s, 'c) evm" where
  "replacement B D X net key self =
     (case rq_get key (ev_queue self) of
        None \<Rightarrow> (None, self)
      | Some attempt \<Rightarrow>
          (case retry_timed (en_gas_price net) of
             None \<Rightarrow> (None, self)
           | Some base \<Rightarrow>
               (let gas = replacement_gas base attempt in
                case account_address X self of
                  None \<Rightarrow> (None, self)
                | Some addr \<Rightarrow>
                    (case retry_timed (en_tx_count net addr) of
                       None \<Rightarrow> (None, self)
                     | Some confirmed \<Rightarrow>
                         (let chosen =
                            (case as_nonce attempt of
                               Some n \<Rightarrow> if confirmed \<le> n then Some (n, ev_queue self) else
                                 map_option (\<lambda>pending. (max pending confirmed,
                                     rq_set_nonce key (max pending confirmed) (ev_queue self)))
                                   (retry_timed (en_tx_count_pending net addr))
                             | None \<Rightarrow>
                                 map_option (\<lambda>pending. (max pending confirmed,
                                     rq_set_nonce key (max pending confirmed) (ev_queue self)))
                                   (retry_timed (en_tx_count_pending net addr)))
                          in case chosen of
                               None \<Rightarrow> (None, self)
                             | Some (nonce, q) \<Rightarrow>
                                 (Some (nonce, gas),
                                  evm_persist_swap B D (ak_swap_id key)
                                    (self\<lparr>ev_queue := rq_set_last_gas key gas q\<rparr>)))))))"

section \<open>Settlement\<close>

definition evm_settle_refund ::
  "persisted_swap borsh_codec \<Rightarrow> 's swap_store_ops \<Rightarrow> alloy \<Rightarrow> evm_net \<Rightarrow> action_key \<Rightarrow> ('s, 'c) evm
     \<Rightarrow> (settle_outcome \<times> evm_tx list) \<times> ('s, 'c) evm" where
  "evm_settle_refund B D X net key self =
     (if \<not> is_ok (evm_signed self) then ((Fatal ''missing key'', []), self)
      else case map_option snd (find (\<lambda>(r, _). rf_swap_id r = ak_swap_id key) (ev_pending_refunds self)) of
        None \<Rightarrow> ((Retry ''no_refund_intent'', []), self)
      | Some unlock \<Rightarrow>
          (case current_block_timestamp net of
             None \<Rightarrow> ((Retry ''block_ts_timeout'', []), self)
           | Some block_ts \<Rightarrow>
               if block_ts < unlock then ((Retry ''not_yet_unlocked'', []), self)
               else
                 (case replacement B D X net key self of
                    (None, self') \<Rightarrow> ((Retry ''replacement_unavailable'', []), self')
                  | (Some (nonce, gas), self') \<Rightarrow>
                      (case evm_submit_refund net (ev_htlc_address self') (ak_swap_id key) nonce gas
                              (ev_gas_payment self') of
                         (Inr _, txs) \<Rightarrow> ((Retry ''submitted_awaiting_inclusion'', txs), self')
                       | (Inl e, txs) \<Rightarrow> ((Retry ''broadcast_error'', txs), self')))))"

definition evm_settle_claim ::
  "persisted_swap borsh_codec \<Rightarrow> 's swap_store_ops \<Rightarrow> alloy \<Rightarrow> evm_net \<Rightarrow> action_key \<Rightarrow> ('s, 'c) evm
     \<Rightarrow> (settle_outcome \<times> evm_tx list) \<times> ('s, 'c) evm" where
  "evm_settle_claim B D X net key self =
     (if \<not> is_ok (evm_signed self) then ((Fatal ''missing key'', []), self)
      else case find (\<lambda>c. rv_swap_id c = ak_swap_id key) (ev_pending_claims self) of
        None \<Rightarrow> ((Retry ''no_reveal'', []), self)
      | Some reveal \<Rightarrow>
          (case replacement B D X net key self of
             (None, self') \<Rightarrow> ((Retry ''replacement_unavailable'', []), self')
           | (Some (nonce, gas), self') \<Rightarrow>
               (case evm_submit_claim X net (ev_htlc_address self') reveal nonce gas (ev_gas_payment self') of
                  (Inr _, txs) \<Rightarrow> ((Retry ''submitted_awaiting_inclusion'', txs), self')
                | (Inl e, txs) \<Rightarrow> ((Retry ''broadcast_error'', txs), self'))))"

definition evm_settle ::
  "persisted_swap borsh_codec \<Rightarrow> 's swap_store_ops \<Rightarrow> alloy \<Rightarrow> evm_net \<Rightarrow> action_key \<Rightarrow> ('s, 'c) evm
     \<Rightarrow> (settle_outcome \<times> evm_tx list) \<times> ('s, 'c) evm" where
  "evm_settle B D X net key self =
     (case ak_action key of
        RefundAction \<Rightarrow> evm_settle_refund B D X net key self
      | Claim \<Rightarrow> evm_settle_claim B D X net key self)"

definition observation_from :: "bool \<Rightarrow> bool \<Rightarrow> observation" where
  "observation_from finalized initialized =
     (if finalized then Settled else if initialized then NotSettled else Unknown)"

definition evm_observe_onchain :: "evm_net \<Rightarrow> action_key \<Rightarrow> ('s, 'c) evm \<Rightarrow> observation" where
  "evm_observe_onchain net key self =
     (case en_swaps_finalized net (ev_htlc_address self) (ak_swap_id key) of
        Some (Inr swap) \<Rightarrow> observation_from (sv_finalized swap) (sv_initialized swap)
      | _ \<Rightarrow> Unknown)"

definition evm_jitter :: "action_key \<Rightarrow> u64" where
  "evm_jitter key = sum_list (map ucast (ak_swap_id key))"

definition evm_record_success ::
  "persisted_swap borsh_codec \<Rightarrow> 's swap_store_ops \<Rightarrow> action_key \<Rightarrow> ('s, 'c) evm \<Rightarrow> ('s, 'c) evm" where
  "evm_record_success B D key self =
     (let self1 = self\<lparr>ev_queue := rq_record_success key (ev_queue self)\<rparr>;
          self2 = (case ak_action key of
            Claim \<Rightarrow> self1\<lparr>ev_pending_claims :=
              filter (\<lambda>c. rv_swap_id c \<noteq> ak_swap_id key) (ev_pending_claims self1)\<rparr>
          | RefundAction \<Rightarrow> self1\<lparr>ev_pending_refunds :=
              filter (\<lambda>(r, _). rf_swap_id r \<noteq> ak_swap_id key) (ev_pending_refunds self1)\<rparr>)
      in evm_persist_swap B D (ak_swap_id key) self2)"

definition evm_record_failure ::
  "persisted_swap borsh_codec \<Rightarrow> 's swap_store_ops \<Rightarrow> action_key \<Rightarrow> u64 \<Rightarrow> ('s, 'c) evm \<Rightarrow> ('s, 'c) evm" where
  "evm_record_failure B D key now self =
     evm_persist_swap B D (ak_swap_id key)
       (self\<lparr>ev_queue := rq_record_failure key now (evm_jitter key) (ev_queue self)\<rparr>)"

definition evm_settle_timed ::
  "persisted_swap borsh_codec \<Rightarrow> 's swap_store_ops \<Rightarrow> alloy \<Rightarrow> evm_net \<Rightarrow> action_key \<Rightarrow> ('s, 'c) evm
     \<Rightarrow> settle_outcome option \<times> ('s, 'c) evm" where
  "evm_settle_timed B D X net key self =
     (case evm_settle B D X net key self of
        ((out, txs), self') \<Rightarrow>
          (case en_cut net of
             NoCut \<Rightarrow> (Some out, self')
           | CutBefore \<Rightarrow> (None, self)
           | CutAfter \<Rightarrow> (None, self')))"

definition evm_settler ::
  "persisted_swap borsh_codec \<Rightarrow> 's swap_store_ops \<Rightarrow> alloy \<Rightarrow> (('s, 'c) evm, evm_net) settler_ops" where
  "evm_settler B D X =
     \<lparr>so_due_now = (\<lambda>now self. rq_due_now now (ev_queue self)),
      so_settle = evm_settle_timed B D X,
      so_observe = evm_observe_onchain,
      so_record_success = evm_record_success B D,
      so_record_failure = evm_record_failure B D,
      so_is_stuck = (\<lambda>key now self. rq_is_stuck key now (ev_queue self))\<rparr>"

section \<open>Connecting\<close>

record evm_config =
  ec_rpc_url :: string
  ec_htlc_address :: string
  ec_minimum_block_confirmations :: u64
  ec_poll_interval_ms :: u64
  ec_max_blocks_per_poll :: u64
  ec_participate_ccr :: bool
  ec_gas_payment :: gas_payment

definition build_providers :: "alloy \<Rightarrow> evm_net \<Rightarrow> string \<Rightarrow> string option \<Rightarrow> (bool, data_error) result" where
  "build_providers X net rpc_url private_key =
     r_bind (map_err (\<lambda>e. ConnectError (''evm provider: '' @ e)) (en_connect net rpc_url)) (\<lambda>_.
     case private_key of
       Some pk \<Rightarrow>
         r_bind (map_err (\<lambda>e. ConfigError (''private_key: '' @ e)) (ex_signer_address X pk)) (\<lambda>_.
         r_bind (map_err (\<lambda>e. ConnectError (''evm signed provider: '' @ e)) (en_connect_signed net rpc_url))
           (\<lambda>_. Inr True))
     | None \<Rightarrow> Inr False)"

definition restored_cursor :: "'c cursor_store_ops \<Rightarrow> channel_id \<Rightarrow> 'c option \<Rightarrow> u64 \<Rightarrow> u64" where
  "restored_cursor C ch cursor_store fallback =
     (case Option.bind cursor_store (cs_load C ch) of
        Some b \<Rightarrow> if length b = 8 then from_le_bytes b else fallback
      | None \<Rightarrow> fallback)"

definition evm_connect ::
  "persisted_swap borsh_codec \<Rightarrow> 's swap_store_ops \<Rightarrow> 'c cursor_store_ops \<Rightarrow> alloy \<Rightarrow> evm_net
     \<Rightarrow> (action_key \<Rightarrow> evm_net) \<Rightarrow> (nat \<Rightarrow> u64) \<Rightarrow> channel_id \<Rightarrow> (evm_config, string) result \<Rightarrow> string option
     \<Rightarrow> 'c option \<Rightarrow> 's option \<Rightarrow> (('s, 'c) evm, data_error) result" where
  "evm_connect B D C X net boot clk ch parsed_cfg private_key cursor_store swap_db =
     r_bind (map_err (\<lambda>e. ConfigError (''evm config: '' @ e)) parsed_cfg) (\<lambda>cfg.
     r_bind (parse_address X ''htlc_address'' (ec_htlc_address cfg)) (\<lambda>htlc_address.
     r_bind (build_providers X net (ec_rpc_url cfg) private_key) (\<lambda>signed_provider.
     r_bind (ok_or (retry_timed (en_block_number net)) (ConnectError ''get_block_number: timed out'')) (\<lambda>head.
     let fallback_cursor = saturating_add (saturating_sub head (ec_minimum_block_confirmations cfg)) 1;
         cursor = restored_cursor C ch cursor_store fallback_cursor;
         (restored, swap_db') = restore B D ch swap_db;
         buffer = \<lparr>ev_channel_id = ch, ev_htlc_address = htlc_address,
           ev_minimum_block_confirmations = ec_minimum_block_confirmations cfg,
           ev_poll_interval_secs = max (ec_poll_interval_ms cfg div 1000) 1,
           ev_max_blocks_per_poll = ec_max_blocks_per_poll cfg,
           ev_participate_ccr = ec_participate_ccr cfg, ev_gas_payment = ec_gas_payment cfg,
           ev_private_key = private_key, ev_signed_provider = signed_provider,
           ev_poll = \<lparr>pl_cursor = cursor\<rparr>,
           ev_pending_refunds = rs_pending_refunds restored,
           ev_pending_claims = rs_pending_claims restored,
           ev_next_poll_secs = 0, ev_last_block_ts = None,
           ev_cursor_store = cursor_store, ev_swap_store = swap_db',
           ev_queue = seed_queue restored (clk 0)\<rparr>
     in Inr (fst (reconcile_on_boot (evm_settler B D X) boot (clk 1) buffer))))))"

end
