(* ===== verification/Evm_Settlement.thy ===== *)
theory Evm_Settlement
  imports Evm_Chain
begin

text \<open>
  What the EVM channel guarantees: the cursor covers the chain without gaps or repetitions, replacement
  transactions keep their nonce and never lower their price, claims and refunds are sent only when they can
  succeed, the settler meets the contract of the driver, and the persisted records are those of the memory,
  so that a restart resumes every claim and refund.
\<close>

section \<open>Frame lemmas\<close>

lemma evm_persist_frame [simp]:
  "ev_queue (evm_persist_swap B D sid self) = ev_queue self"
  "ev_pending_refunds (evm_persist_swap B D sid self) = ev_pending_refunds self"
  "ev_pending_claims (evm_persist_swap B D sid self) = ev_pending_claims self"
  "ev_channel_id (evm_persist_swap B D sid self) = ev_channel_id self"
  "ev_htlc_address (evm_persist_swap B D sid self) = ev_htlc_address self"
  "ev_participate_ccr (evm_persist_swap B D sid self) = ev_participate_ccr self"
  "ev_gas_payment (evm_persist_swap B D sid self) = ev_gas_payment self"
  "ev_poll (evm_persist_swap B D sid self) = ev_poll self"
  "ev_cursor_store (evm_persist_swap B D sid self) = ev_cursor_store self"
  by (simp_all add: evm_persist_swap_def split: option.split)

lemma replacement_cases:
  obtains (unavailable) "replacement B D X net key self = (None, self)"
  | (fresh) base a attempt confirmed pending nonce gas where
      "rq_get key (ev_queue self) = Some attempt" "retry_timed (en_gas_price net) = Some base"
      "account_address X self = Some a" "retry_timed (en_tx_count net a) = Some confirmed"
      "retry_timed (en_tx_count_pending net a) = Some pending"
      "as_nonce attempt = None \<or> (\<exists>n. as_nonce attempt = Some n \<and> n < confirmed)"
      "nonce = max pending confirmed" "gas = replacement_gas base attempt"
      "replacement B D X net key self = (Some (nonce, gas), evm_persist_swap B D (ak_swap_id key)
         (self\<lparr>ev_queue := rq_set_last_gas key gas (rq_set_nonce key nonce (ev_queue self))\<rparr>))"
  | (reused) base a attempt confirmed nonce gas where
      "rq_get key (ev_queue self) = Some attempt" "retry_timed (en_gas_price net) = Some base"
      "account_address X self = Some a" "retry_timed (en_tx_count net a) = Some confirmed"
      "as_nonce attempt = Some nonce" "confirmed \<le> nonce" "gas = replacement_gas base attempt"
      "replacement B D X net key self = (Some (nonce, gas), evm_persist_swap B D (ak_swap_id key)
         (self\<lparr>ev_queue := rq_set_last_gas key gas (ev_queue self)\<rparr>))"
proof (cases "rq_get key (ev_queue self)")
  case None
  then show ?thesis
    by (intro unavailable) (simp add: replacement_def)
next
  case attempt: (Some attempt)
  show ?thesis
  proof (cases "retry_timed (en_gas_price net)")
    case None
    with attempt show ?thesis
      by (intro unavailable) (simp add: replacement_def)
  next
    case base: (Some base)
    show ?thesis
    proof (cases "account_address X self")
      case None
      with attempt base show ?thesis
        by (intro unavailable) (simp add: replacement_def Let_def)
    next
      case a: (Some a)
      show ?thesis
      proof (cases "retry_timed (en_tx_count net a)")
        case None
        with attempt base a show ?thesis
          by (intro unavailable) (simp add: replacement_def Let_def)
      next
        case confirmed: (Some confirmed)
        note known = attempt base a confirmed
        show ?thesis
        proof (cases "\<exists>n. as_nonce attempt = Some n \<and> confirmed \<le> n")
          case True
          then obtain n where "as_nonce attempt = Some n" "confirmed \<le> n"
            by blast
          with known show ?thesis
            by (intro reused) (simp_all add: replacement_def Let_def)
        next
          case False
          then have stale: "as_nonce attempt = None \<or> (\<exists>n. as_nonce attempt = Some n \<and> n < confirmed)"
            by (cases "as_nonce attempt") auto
          show ?thesis
          proof (cases "retry_timed (en_tx_count_pending net a)")
            case None
            with known stale show ?thesis
              by (intro unavailable) (auto simp: replacement_def Let_def not_le [symmetric])
          next
            case (Some pending)
            with known stale show ?thesis
              by (intro fresh) (auto simp: replacement_def Let_def not_le [symmetric])
          qed
        qed
      qed
    qed
  qed
qed

lemma replacement_frame:
  "ev_htlc_address (snd (replacement B D X net key self)) = ev_htlc_address self"
  "ev_channel_id (snd (replacement B D X net key self)) = ev_channel_id self"
  "ev_participate_ccr (snd (replacement B D X net key self)) = ev_participate_ccr self"
  "ev_pending_refunds (snd (replacement B D X net key self)) = ev_pending_refunds self"
  "ev_pending_claims (snd (replacement B D X net key self)) = ev_pending_claims self"
  by (cases rule: replacement_cases [of B D X net key self]; simp)+

lemma schedule_set_nonce [simp]: "schedule (a\<lparr>as_nonce := n\<rparr>) = schedule a"
  by (simp add: schedule_def)

lemma schedule_set_gas [simp]: "schedule (a\<lparr>as_last_gas := g\<rparr>) = schedule a"
  by (simp add: schedule_def)

lemma rq_get_set [simp]:
  "rq_get k (rq_set_nonce j n q) =
     (if k = j then map_option (\<lambda>a. a\<lparr>as_nonce := Some n\<rparr>) (rq_get k q) else rq_get k q)"
  "rq_get k (rq_set_last_gas j g q) =
     (if k = j then map_option (\<lambda>a. a\<lparr>as_last_gas := Some g\<rparr>) (rq_get k q) else rq_get k q)"
  by (simp_all add: rq_defs)

lemma replacement_schedule:
  "map_option schedule (rq_get j (ev_queue (snd (replacement B D X net key self)))) =
   map_option schedule (rq_get j (ev_queue self))"
  by (cases rule: replacement_cases [of B D X net key self]) (auto simp: option.map_comp o_def)

lemma evm_settle_state:
  "snd (evm_settle B D X net key self) = self \<or>
   snd (evm_settle B D X net key self) = snd (replacement B D X net key self)"
  by (auto simp: evm_settle_def evm_settle_refund_def evm_settle_claim_def
      split: action.split option.split prod.split sum.split)

lemma evm_settle_timed_state:
  "snd (evm_settle_timed B D X net key self) = self \<or>
   snd (evm_settle_timed B D X net key self) = snd (replacement B D X net key self)"
  using evm_settle_state [of B D X net key self]
  by (auto simp: evm_settle_timed_def split: prod.splits cut.split)

section \<open>The contract of the driver\<close>

definition evm_settled :: "evm_net \<Rightarrow> action_key \<Rightarrow> ('s, 'c) evm \<Rightarrow> bool" where
  "evm_settled net key self =
     (case en_swaps_finalized net (ev_htlc_address self) (ak_swap_id key) of
        Some (Inr swap) \<Rightarrow> sv_finalized swap
      | _ \<Rightarrow> False)"

lemma evm_settled_cong: "ev_htlc_address a = ev_htlc_address b \<Longrightarrow> evm_settled net k a = evm_settled net k b"
  by (simp add: evm_settled_def)

interpretation evm: settler_contract "evm_settler B D X" ev_queue evm_jitter evm_settled
  for B :: "persisted_swap borsh_codec" and D :: "'s swap_store_ops" and X :: alloy
proof unfold_locales
  fix now :: u64 and s :: "('s, 'c) evm" and k j :: action_key and env env' :: evm_net
  show "so_due_now (evm_settler B D X) now s = rq_due_now now (ev_queue s)"
    by (simp add: evm_settler_def)
  show "so_is_stuck (evm_settler B D X) k now s = rq_is_stuck k now (ev_queue s)"
    by (simp add: evm_settler_def)
  show "so_observe (evm_settler B D X) env k s = Settled \<longleftrightarrow> evm_settled env k s"
    by (simp add: evm_settler_def evm_observe_onchain_def evm_settled_def observation_from_def
        split: option.split sum.split)
  show "evm_settled env k (snd (so_settle (evm_settler B D X) env' j s)) = evm_settled env k s"
    using evm_settle_timed_state [of B D X env' j s]
    by (intro evm_settled_cong) (auto simp: evm_settler_def replacement_frame)
  show "evm_settled env k (so_record_success (evm_settler B D X) j s) = evm_settled env k s"
    by (rule evm_settled_cong) (simp add: evm_settler_def evm_record_success_def Let_def split: action.split)
  show "evm_settled env k (so_record_failure (evm_settler B D X) j now s) = evm_settled env k s"
    by (rule evm_settled_cong) (simp add: evm_settler_def evm_record_failure_def)
  show "map_option schedule (hm_get (ev_queue (snd (so_settle (evm_settler B D X) env k s))) j) =
      map_option schedule (hm_get (ev_queue s) j)"
    using evm_settle_timed_state [of B D X env k s] replacement_schedule [of j B D X env k s]
    by (auto simp: evm_settler_def rq_get_hm)
  show "hm_get (ev_queue (so_record_success (evm_settler B D X) k s)) j =
      (if j = k then None else hm_get (ev_queue s) j)"
    by (simp add: evm_settler_def evm_record_success_def Let_def rq_get_hm split: action.split)
  show "hm_get (ev_queue (so_record_failure (evm_settler B D X) k now s)) j =
      (if j = k then map_option (on_failure now (evm_jitter k)) (hm_get (ev_queue s) k)
       else hm_get (ev_queue s) j)"
    by (simp add: evm_settler_def evm_record_failure_def rq_get_hm)
qed

text \<open>
  (C19) No claim and no refund is ever dropped: however often the driver runs, at whatever times and against
  whatever network, a queued action stays queued unless some pass of the driver after its deadline saw
  the swap finalised on the chain.
\<close>

theorem evm_actions_never_dropped:
  assumes "rq_get key (ev_queue self) = Some a"
    and "\<forall>(now, env) \<in> set ticks. \<not> evm_settled (env key) key self \<or> now < as_deadline a"
  shows "\<exists>b. rq_get key (ev_queue (settler_ticks (evm_settler B D X) ticks self)) = Some b \<and>
    as_deadline b = as_deadline a"
  using evm.ticks_keep_unsettled [of self key a ticks B D X] assms by (auto simp: rq_get_hm)

text \<open>
  One pass of the driver over the EVM channel: an action that is not due keeps its schedule; a due one
  is removed if it is past its deadline and settled on the chain, and otherwise rescheduled with the
  next back-off delay. So nothing is due any more when the pass ends, and the queue depth that
  it reports is always zero.
\<close>

theorem evm_drive_reschedules:
  assumes "unat now + 41020 \<le> 2 ^ 64"
  shows "map_option schedule (rq_get key (ev_queue (fst (drive (evm_settler B D X) env now self)))) =
      (case rq_get key (ev_queue self) of None \<Rightarrow> None
       | Some a \<Rightarrow> if \<not> due a now then Some (schedule a)
           else if expired a now \<and> evm_settled (env key) key self then None
           else Some (schedule (on_failure now (evm_jitter key) a))) \<and>
    rq_due_now now (ev_queue (fst (drive (evm_settler B D X) env now self))) = [] \<and>
    last (snd (drive (evm_settler B D X) env now self)) = GaugeSet QueueDepth 0"
  using evm.drive_schedule [of B D X env now self key] evm.drive_nothing_due [OF assms, of B D X env self]
    evm.drive_gauge_zero [OF assms, of B D X env self]
  by (auto simp: rq_get_hm driven_def evm.due_now split: option.splits)

section \<open>Settlement attempts\<close>

lemma unat_bump_gas:
  assumes "unat g * 115 < 2 ^ 128"
  shows "unat (bump_gas g) = unat g * 115 div 100"
  using assms by (simp add: bump_gas_def unat_div_distrib unat_saturating_mul)

lemma bump_gas_mono_cap:
  assumes "prev \<le> MAX_GAS_PRICE_WEI"
  shows "prev \<le> bump_gas prev"
proof -
  have "unat prev \<le> 5000000000000"
    using assms by (simp add: word_le_nat_alt MAX_GAS_PRICE_WEI_def)
  then show ?thesis
    by (simp add: word_le_nat_alt unat_bump_gas)
qed

lemma replacement_gas_bounds:
  "replacement_gas base a \<le> MAX_GAS_PRICE_WEI"
  "as_last_gas a = Some prev \<Longrightarrow> prev \<le> MAX_GAS_PRICE_WEI \<Longrightarrow>
   min (bump_gas prev) MAX_GAS_PRICE_WEI \<le> replacement_gas base a \<and> prev \<le> replacement_gas base a"
  using bump_gas_mono_cap [of prev]
  by (auto simp: replacement_gas_def escalated_gas_def Let_def le_max_iff_disj split: option.split)

text \<open>The same in numbers: the cap is 5000 gwei and the step 115 hundredths, rounded down.\<close>

lemma replacement_gas_numbers:
  "unat (replacement_gas base a) \<le> 5000000000000"
  "as_last_gas a = Some prev \<Longrightarrow> unat prev \<le> 5000000000000 \<Longrightarrow>
   min (unat prev * 115 div 100) 5000000000000 \<le> unat (replacement_gas base a)"
proof -
  show "unat (replacement_gas base a) \<le> 5000000000000"
    using replacement_gas_bounds(1) [of base a] by (simp add: word_le_nat_alt MAX_GAS_PRICE_WEI_def)
  assume prev: "as_last_gas a = Some prev" "unat prev \<le> 5000000000000"
  then have "min (bump_gas prev) MAX_GAS_PRICE_WEI \<le> replacement_gas base a"
    by (intro conjunct1 [OF replacement_gas_bounds(2)]) (simp_all add: word_le_nat_alt MAX_GAS_PRICE_WEI_def)
  then have "min (unat (bump_gas prev)) (unat MAX_GAS_PRICE_WEI) \<le> unat (replacement_gas base a)"
    by (auto simp: word_le_nat_alt min_def split: if_splits)
  with prev(2) show "min (unat prev * 115 div 100) 5000000000000 \<le> unat (replacement_gas base a)"
    by (simp add: unat_bump_gas MAX_GAS_PRICE_WEI_def)
qed

text \<open>
  (C18) Replacing a transaction: every attempt to settle an action pays at most 5000 gwei
  (\<open>5 * 10 ^ 12\<close> wei) and, when there was an attempt before it at a price within that maximum, at
  least 1.15 times its price, rounded down to a whole wei, or the maximum; it reuses the nonce of that attempt
  until the chain has confirmed a transaction with this nonce, and it remembers the nonce and the price
  it used.
\<close>

theorem replacement_escalates:
  assumes "replacement B D X net key self = (Some (nonce, gas), self')"
    and "rq_get key (ev_queue self) = Some a"
  shows "unat gas \<le> 5000000000000 \<and>
    (\<forall>prev. as_last_gas a = Some prev \<and> unat prev \<le> 5000000000000 \<longrightarrow>
       min (unat prev * 115 div 100) 5000000000000 \<le> unat gas) \<and>
    (\<exists>addr confirmed. account_address X self = Some addr \<and>
       retry_timed (en_tx_count net addr) = Some confirmed \<and> confirmed \<le> nonce \<and>
       (\<forall>n. as_nonce a = Some n \<and> confirmed \<le> n \<longrightarrow> nonce = n)) \<and>
    (\<exists>a'. rq_get key (ev_queue self') = Some a' \<and> as_nonce a' = Some nonce \<and> as_last_gas a' = Some gas)"
proof (cases rule: replacement_cases [of B D X net key self])
  case unavailable
  with assms show ?thesis by simp
next
  case (fresh base addr attempt confirmed pending nonce' gas')
  with assms have eqs: "nonce = max pending confirmed" "gas = replacement_gas base a" "attempt = a"
      "rq_get key (ev_queue self') = Some (a\<lparr>as_nonce := Some nonce, as_last_gas := Some gas\<rparr>)"
    by auto
  then show ?thesis
    using fresh replacement_gas_numbers(1) [of base a] replacement_gas_numbers(2) [of a _ base] by auto
next
  case (reused base addr attempt confirmed nonce' gas')
  with assms have "nonce' = nonce" "gas = replacement_gas base a" "attempt = a"
      "rq_get key (ev_queue self') = Some (a\<lparr>as_last_gas := Some gas\<rparr>)"
    by auto
  then show ?thesis
    using reused replacement_gas_numbers(1) [of base a] replacement_gas_numbers(2) [of a _ base] by auto
qed

lemma evm_submit_claim_txs:
  assumes "tx \<in> set (snd (evm_submit_claim X net htlc reveal nonce gas gp))"
  shows "tx = apply_gas_and_nonce (base_tx htlc (ClaimCall (rv_swap_id reveal) (rv_secret reveal))) nonce gas gp \<and>
    (\<exists>swap. en_swaps net htlc (rv_swap_id reveal) = Some (Inr swap) \<and>
       sv_initialized swap \<and> \<not> sv_finalized swap \<and> ex_sha256 X (rv_secret reveal) = sv_secretHash swap \<and>
       (\<forall>now. current_block_timestamp net = Some now \<longrightarrow> unat now < unat (sv_timelock swap)))"
proof -
  have lock: "unat now < unat w" if "\<not> (if unat w < 2 ^ 64 then ucast w else - 1) \<le> now"
    for w :: u256 and now :: u64
    using that unsigned_less [of now, where ?'a = nat]
    by (cases "unat w < 2 ^ 64") (auto simp: word_le_nat_alt unsigned_ucast_eq take_bit_eq_mod)
  show ?thesis
    using assms lock
    by (auto simp: evm_submit_claim_def claim_skip_reason_def secret_matches_def Let_def
        split: option.splits sum.splits if_splits)
qed

text \<open>
  (C17) What a settlement of an EVM action may send: for a claim, only the claim of this swap with the
  revealed secret, and only while the contract shows the swap initialised and open and the secret
  matches its hash; when the block time is known, also only before the lock has run out (when the block
  time cannot be read, the claim is sent without that check); for a refund, only the refund of this swap,
  and only once the block time is known and has reached the unlock time of the pending refund. Both go
  to the contract, from a signed provider.
\<close>

theorem evm_settle_sends_only_valid:
  assumes "evm_settle B D X net key self = ((out, txs), self')" and "tx \<in> set txs"
  shows "(ak_action key = Claim \<longrightarrow>
      (\<exists>reveal swap. find_claim (ak_swap_id key) (ev_pending_claims self) = Some reveal \<and>
        tx_call tx = ClaimCall (ak_swap_id key) (rv_secret reveal) \<and>
        en_swaps net (ev_htlc_address self) (ak_swap_id key) = Some (Inr swap) \<and>
        sv_initialized swap \<and> \<not> sv_finalized swap \<and> ex_sha256 X (rv_secret reveal) = sv_secretHash swap \<and>
        (\<forall>now. current_block_timestamp net = Some now \<longrightarrow> unat now < unat (sv_timelock swap)))) \<and>
    (ak_action key = RefundAction \<longrightarrow>
      (\<exists>r unlock now. find_refund (ak_swap_id key) (ev_pending_refunds self) = Some (r, unlock) \<and>
        tx_call tx = RefundCall (ak_swap_id key) \<and>
        current_block_timestamp net = Some now \<and> unlock \<le> now)) \<and>
    tx_to tx = ev_htlc_address self \<and> ev_signed_provider self"
proof (cases "ak_action key")
  case Claim
  then obtain reveal nonce gas s1 where
      find: "find_claim (ak_swap_id key) (ev_pending_claims self) = Some reveal"
      and rep: "replacement B D X net key self = (Some (nonce, gas), s1)"
      and tx: "tx \<in> set (snd (evm_submit_claim X net (ev_htlc_address s1) reveal nonce gas (ev_gas_payment s1)))"
      and signed: "ev_signed_provider self"
    using assms
    by (auto simp: evm_settle_def evm_settle_claim_def find_claim_def evm_signed_def
        split: option.splits prod.splits sum.splits if_splits)
  have htlc: "ev_htlc_address s1 = ev_htlc_address self"
    using replacement_frame(1) [of B D X net key self] rep by simp
  show ?thesis
    using evm_submit_claim_txs [OF tx] find_claim_id [OF find] find signed Claim
    by (auto simp: htlc apply_gas_and_nonce_def base_tx_def Let_def split: gas_payment.splits)
next
  case RefundAction
  then obtain r unlock now nonce gas s1 where
      find: "find_refund (ak_swap_id key) (ev_pending_refunds self) = Some (r, unlock)"
      and now: "current_block_timestamp net = Some now" "unlock \<le> now"
      and rep: "replacement B D X net key self = (Some (nonce, gas), s1)"
      and tx: "tx \<in> set (snd (evm_submit_refund net (ev_htlc_address s1) (ak_swap_id key) nonce gas
                 (ev_gas_payment s1)))"
      and signed: "ev_signed_provider self"
    using assms
    by (auto simp: evm_settle_def evm_settle_refund_def find_refund_def evm_signed_def not_less
        split: option.splits prod.splits sum.splits if_splits)
  have htlc: "ev_htlc_address s1 = ev_htlc_address self"
    using replacement_frame(1) [of B D X net key self] rep by simp
  show ?thesis
    using tx find now signed RefundAction
    by (auto simp: htlc evm_submit_refund_def apply_gas_and_nonce_def base_tx_def Let_def
        split: gas_payment.splits)
qed

section \<open>Polling\<close>

lemma next_range_Some_iff:
  "next_range st current confirmations mx = Some r \<longleftrightarrow>
   (\<exists>d ce. checked_sub current confirmations = Some d \<and> checked_add d 1 = Some ce \<and>
      \<not> ce \<le> pl_cursor st \<and>
      r = (pl_cursor st, min ce (saturating_add (pl_cursor st) (max mx 1))))"
  unfolding next_range_def Let_def
  by (cases "checked_sub current confirmations"; cases "checked_add (the (checked_sub current confirmations)) 1")
    (simp_all add: eq_commute [of "Pair _ _"])

lemma next_range_Some:
  assumes "next_range st current confirmations mx = Some (lo, fin)"
  shows "lo = pl_cursor st" and "unat lo < unat fin"
    and "unat fin + unat confirmations \<le> unat current + 1"
    and "unat fin = min (unat current - unat confirmations + 1) (unat lo + max (unat mx) 1) \<or>
         unat fin = 2 ^ 64 - 1"
proof -
  obtain d ce where d: "checked_sub current confirmations = Some d" and ce: "checked_add d 1 = Some ce"
      and lt: "\<not> ce \<le> pl_cursor st"
      and lo: "lo = pl_cursor st"
      and fin: "fin = min ce (saturating_add (pl_cursor st) (max mx 1))"
    using assms unfolding next_range_Some_iff by blast
  have ce': "unat ce = unat current - unat confirmations + 1" "unat confirmations \<le> unat current"
    using d ce by (auto simp: rust_arith)
  have mx: "unat (max mx 1) = max (unat mx) 1"
    by (simp add: max_def word_le_nat_alt)
  have sum: "unat (saturating_add (pl_cursor st) (max mx 1)) =
      min (unat (pl_cursor st) + max (unat mx) 1) (2 ^ 64 - 1)"
    by (simp add: unat_saturating_add mx)
  have fin': "unat fin = min (unat ce) (unat (saturating_add (pl_cursor st) (max mx 1)))"
    by (simp add: fin min_def word_le_nat_alt)
  have less: "unat (pl_cursor st) < unat ce"
    using lt by (simp add: not_le word_less_nat_alt)
  have "unat ce < 2 ^ 64"
    using unsigned_less [of ce, where ?'a = nat] by simp
  show "lo = pl_cursor st"
    by (rule lo)
  show "unat lo < unat fin"
    using less \<open>unat ce < 2 ^ 64\<close> unfolding lo fin' sum by linarith
  show "unat fin + unat confirmations \<le> unat current + 1"
    unfolding fin' ce'(1) using ce'(2) by linarith
  show "unat fin = min (unat current - unat confirmations + 1) (unat lo + max (unat mx) 1) \<or>
      unat fin = 2 ^ 64 - 1"
    unfolding fin' ce'(1) lo sum by linarith
qed

fun poll_run ::
  "address \<Rightarrow> u64 \<Rightarrow> u64 \<Rightarrow> evm_net list \<Rightarrow> poll_state \<Rightarrow> evm_log list \<times> poll_state" where
  "poll_run htlc confirmations mx [] st = ([], st)"
| "poll_run htlc confirmations mx (net # nets) st =
     (let (logs, st1) = poll_once net htlc confirmations mx st;
          (more, st2) = poll_run htlc confirmations mx nets st1
      in (logs @ more, st2))"

text \<open>
  A node whose log queries are answered from the blocks of one chain: a query that succeeds returns the
  logs of the blocks of its range, in order.
\<close>

definition serves_chain :: "address \<Rightarrow> (nat \<Rightarrow> evm_log list) \<Rightarrow> evm_net \<Rightarrow> bool" where
  "serves_chain htlc blocks net =
     (\<forall>from to i logs. en_get_logs net htlc from to i = Some (Inr logs) \<longrightarrow>
        logs = concat (map blocks [unat from ..< unat to + 1]))"

definition heads_below :: "nat \<Rightarrow> evm_net \<Rightarrow> bool" where
  "heads_below head net = (\<forall>i n. en_block_number net i = Some (Inr n) \<longrightarrow> unat n \<le> head)"

lemma retry_from_Some: "retry_from k i op = Some v \<Longrightarrow> \<exists>j. op j = Some (Inr v)"
  by (induction k i op rule: retry_from.induct) (auto split: option.splits sum.splits)

lemma retry_timed_Some: "retry_timed op = Some v \<Longrightarrow> \<exists>j. op j = Some (Inr v)"
  unfolding retry_timed_def by (rule retry_from_Some)

lemma poll_once_cases:
  assumes "poll_once net htlc confirmations mx st = (logs, st')"
  obtains (idle) "logs = []" "st' = st"
  | (read) current lo fin where "retry_timed (en_block_number net) = Some current"
      "next_range st current confirmations mx = Some (lo, fin)"
      "retry_timed (en_get_logs net htlc lo (fin - 1)) = Some logs" "st' = advance fin st"
proof (cases "retry_timed (en_block_number net)")
  case None
  with assms show ?thesis
    by (intro idle) (simp_all add: poll_once_def)
next
  case current: (Some current)
  show ?thesis
  proof (cases "next_range st current confirmations mx")
    case None
    with assms current show ?thesis
      by (intro idle) (simp_all add: poll_once_def)
  next
    case range: (Some r)
    obtain lo fin where r: "r = (lo, fin)"
      by (cases r)
    show ?thesis
    proof (cases "retry_timed (en_get_logs net htlc lo (fin - 1))")
      case None
      with assms current range r show ?thesis
        by (intro idle) (simp_all add: poll_once_def)
    next
      case (Some found)
      with assms current range r show ?thesis
        by (intro read [of current lo fin]) (simp_all add: poll_once_def)
    qed
  qed
qed

lemma poll_once_chain:
  assumes "serves_chain htlc blocks net" and "heads_below head net"
    and "poll_once net htlc confirmations mx st = (logs, st')"
  shows "logs = concat (map blocks [unat (pl_cursor st) ..< unat (pl_cursor st')])"
    and "pl_cursor st \<le> pl_cursor st'"
    and "st' = st \<or> unat (pl_cursor st') + unat confirmations \<le> head + 1"
proof -
  consider (idle) "logs = []" "st' = st"
    | (read) current lo fin where "retry_timed (en_block_number net) = Some current"
        "next_range st current confirmations mx = Some (lo, fin)"
        "retry_timed (en_get_logs net htlc lo (fin - 1)) = Some logs" "st' = advance fin st"
    by (rule poll_once_cases [OF assms(3)])
  then have "logs = concat (map blocks [unat (pl_cursor st) ..< unat (pl_cursor st')]) \<and>
      pl_cursor st \<le> pl_cursor st' \<and>
      (st' = st \<or> unat (pl_cursor st') + unat confirmations \<le> head + 1)"
  proof cases
    case idle
    then show ?thesis by simp
  next
    case read
    note rng = next_range_Some [OF read(2)]
    have pos: "unat (fin - 1) + 1 = unat fin"
      using rng(2) by (simp add: unat_sub word_le_nat_alt)
    have "logs = concat (map blocks [unat lo ..< unat (fin - 1) + 1])"
      using retry_timed_Some [OF read(3)] assms(1) unfolding serves_chain_def by blast
    then have "logs = concat (map blocks [unat lo ..< unat fin])"
      by (simp only: pos)
    moreover have "unat current \<le> head"
      using retry_timed_Some [OF read(1)] assms(2) by (auto simp: heads_below_def)
    ultimately show ?thesis
      using rng read(4) by (simp add: advance_def word_le_nat_alt)
  qed
  then show "logs = concat (map blocks [unat (pl_cursor st) ..< unat (pl_cursor st')])"
    and "pl_cursor st \<le> pl_cursor st'"
    and "st' = st \<or> unat (pl_cursor st') + unat confirmations \<le> head + 1"
    by blast+
qed

text \<open>
  (C16) Polling loses no event and reports none twice: over any sequence of polls, whatever calls fail or
  time out, the logs that were returned are exactly the logs of the blocks from the first cursor to
  the last, in order; the cursor never moves back, and it never passes a block with fewer than the
  configured confirmations.
\<close>

theorem polls_deliver_each_block_once:
  assumes "\<forall>net \<in> set nets. serves_chain htlc blocks net \<and> heads_below head net"
    and "poll_run htlc confirmations mx nets st = (logs, st')"
  shows "logs = concat (map blocks [unat (pl_cursor st) ..< unat (pl_cursor st')]) \<and>
    pl_cursor st \<le> pl_cursor st' \<and>
    (st' = st \<or> unat (pl_cursor st') + unat confirmations \<le> head + 1)"
  using assms
proof (induction nets arbitrary: st logs)
  case Nil
  then show ?case by simp
next
  case (Cons net nets)
  obtain logs1 st1 where one: "poll_once net htlc confirmations mx st = (logs1, st1)"
    by fastforce
  obtain logs2 where run: "poll_run htlc confirmations mx nets st1 = (logs2, st')" and logs: "logs = logs1 @ logs2"
    using Cons.prems(2) one by (auto simp: Let_def split: prod.splits)
  note step = poll_once_chain [OF _ _ one, of blocks head]
  have IH: "logs2 = concat (map blocks [unat (pl_cursor st1) ..< unat (pl_cursor st')])"
      "pl_cursor st1 \<le> pl_cursor st'"
      "st' = st1 \<or> unat (pl_cursor st') + unat confirmations \<le> head + 1"
    using Cons.IH [OF _ run] Cons.prems(1) by auto
  have c: "unat (pl_cursor st) \<le> unat (pl_cursor st1)" "unat (pl_cursor st1) \<le> unat (pl_cursor st')"
    using step(2) Cons.prems(1) IH(2) by (auto simp: word_le_nat_alt)
  then have "[unat (pl_cursor st) ..< unat (pl_cursor st')] =
      [unat (pl_cursor st) ..< unat (pl_cursor st1)] @ [unat (pl_cursor st1) ..< unat (pl_cursor st')]"
    by (metis le_add_diff_inverse upt_add_eq_append)
  with step(1) Cons.prems(1) IH(1) have
      "logs = concat (map blocks [unat (pl_cursor st) ..< unat (pl_cursor st')])"
    by (simp add: logs)
  moreover have "pl_cursor st \<le> pl_cursor st'"
    using c by (simp add: word_le_nat_alt)
  moreover have "st' = st \<or> unat (pl_cursor st') + unat confirmations \<le> head + 1"
    using step(3) Cons.prems(1) IH(3) by auto
  ultimately show ?case
    by blast
qed

section \<open>Examples\<close>

definition sample_alloy :: alloy where
  "sample_alloy =
     \<lparr>ex_sha256 = (\<lambda>b. b), ex_parse_address = (\<lambda>s. Inr (bytes_of_chars s)),
      ex_show_address = chars_of_bytes, ex_parse_u256 = (\<lambda>s. Inr 0), ex_signer_address = (\<lambda>s. Inr (bytes_of_chars s)),
      ex_sign_message = (\<lambda>k d. Inr d), ex_parse_signature = Inr, ex_recover_address = (\<lambda>s d. Inr s),
      ex_decode_commitment = (\<lambda>l. Inl ''other event''),
      ex_decode_claim = (\<lambda>l. Inl ''other event''),
      ex_decode_refund = (\<lambda>l. if length (lg_data l) = 32 then Inr \<lparr>fl_swapId = lg_data l\<rparr> else Inl ''other event'')\<rparr>"

definition sample_net :: evm_net where
  "sample_net =
     \<lparr>en_connect = (\<lambda>_. Inr ()), en_connect_signed = (\<lambda>_. Inr ()), en_block_number = (\<lambda>_. Some (Inr 100)),
      en_get_logs = (\<lambda>_ _ _ i. if i = 0 then None else Some (Inr [])),
      en_block_timestamp = Some (Inr (Some 2000)),
      en_gas_price = (\<lambda>_. Some (Inr 1000)), en_tx_count = (\<lambda>_ _. Some (Inr 7)),
      en_tx_count_pending = (\<lambda>_ _. Some (Inr 8)), en_balance = (\<lambda>_ _. Some (Inr 0)),
      en_swaps = (\<lambda>_ _. None), en_swaps_finalized = (\<lambda>_ _. None), en_send = (\<lambda>_. Some (Inr ())),
      en_receipt = (\<lambda>_. None), en_cut = NoCut\<rparr>"

definition sample_evm_config :: evm_config where
  "sample_evm_config =
     \<lparr>ec_rpc_url = ''http://localhost:8545'', ec_htlc_address = ''htlc'', ec_minimum_block_confirmations = 3,
      ec_poll_interval_ms = DEFAULT_POLL_INTERVAL_MS, ec_max_blocks_per_poll = DEFAULT_MAX_BLOCKS_PER_POLL,
      ec_participate_ccr = True, ec_gas_payment = Eip1559\<rparr>"

definition sample_evm :: "(mem_db, mem_db) evm" where
  "sample_evm =
     \<lparr>ev_channel_id = EthereumSepolia, ev_htlc_address = [1], ev_minimum_block_confirmations = 3,
      ev_poll_interval_secs = 10, ev_max_blocks_per_poll = 1000, ev_participate_ccr = True,
      ev_gas_payment = Eip1559, ev_private_key = Some ''key'', ev_signed_provider = True,
      ev_poll = \<lparr>pl_cursor = 50\<rparr>, ev_pending_refunds = [], ev_pending_claims = [],
      ev_next_poll_secs = 0, ev_last_block_ts = None,
      ev_cursor_store = Some (cursor_save mem_redb EthereumSepolia (to_le_bytes 50) hm_empty),
      ev_swap_store = Some hm_empty, ev_queue = hm_empty\<rparr>"

definition busy_evm :: "(mem_db, mem_db) evm" where
  "busy_evm = sample_evm\<lparr>
     ev_pending_refunds := [(refund_new (replicate 32 3), 1500)],
     ev_queue := rq_seed (refund_key (replicate 32 3))
       \<lparr>as_first_seen = 900, as_next_attempt_at = 950, as_attempt_count = 2, as_deadline = 990,
        as_nonce = Some 7, as_last_gas = Some 2000\<rparr> hm_empty\<rparr>"

lemma sample_account: "account_address sample_alloy busy_evm = Some (bytes_of_chars ''key'')"
  by (simp add: account_address_def busy_evm_def sample_evm_def address_from_private_key_def sample_alloy_def)

lemma bump_examples: "bump_gas 1000 = 1150" "bump_gas 1150 = 1322" "bump_gas 2000 = 2300"
  by (simp_all add: bump_gas_def saturating_mul_def unsigned_numeral)

lemma sample_replacement:
  "\<exists>self'. replacement record_codec (db_swap_store mem_redb) sample_alloy sample_net
      (refund_key (replicate 32 3)) busy_evm = (Some (7, 2300), self')"
proof -
  have "retry_timed (en_gas_price sample_net) = Some 1000"
      "retry_timed (en_tx_count sample_net a) = Some 7" for a
    by (simp_all add: retry_timed_first sample_net_def)
  moreover have "unat (min 2 MAX_GAS_BUMPS) = Suc (Suc 0)"
    by (simp add: MAX_GAS_BUMPS_def min_def)
  then have "escalated_gas 1000 2 = 1322"
    by (simp add: escalated_gas_def MAX_GAS_PRICE_WEI_def bump_examples min_def)
  ultimately show ?thesis
    using sample_account
    by (simp add: replacement_def Let_def replacement_gas_def)
      (simp add: busy_evm_def replacement_gas_def bump_examples MAX_GAS_PRICE_WEI_def)
qed

theorem replacement_escalates_witness:
  "\<exists>self'. replacement record_codec (db_swap_store mem_redb) sample_alloy sample_net
      (refund_key (replicate 32 3)) busy_evm = (Some (7, 2300), self') \<and>
    min (unat (2000 :: u128) * 115 div 100) 5000000000000 \<le> unat (2300 :: u128) \<and>
    (\<exists>a'. rq_get (refund_key (replicate 32 3)) (ev_queue self') = Some a' \<and> as_last_gas a' = Some 2300)"
proof -
  obtain self' where rep: "replacement record_codec (db_swap_store mem_redb) sample_alloy sample_net
      (refund_key (replicate 32 3)) busy_evm = (Some (7, 2300), self')"
    using sample_replacement by blast
  have "rq_get (refund_key (replicate 32 3)) (ev_queue busy_evm) =
      Some \<lparr>as_first_seen = 900, as_next_attempt_at = 950, as_attempt_count = 2, as_deadline = 990,
        as_nonce = Some 7, as_last_gas = Some 2000\<rparr>"
    by (simp add: busy_evm_def)
  from replacement_escalates [OF rep this] have
      "min (unat (2000 :: u128) * 115 div 100) 5000000000000 \<le> unat (2300 :: u128)"
      "\<exists>a'. rq_get (refund_key (replicate 32 3)) (ev_queue self') = Some a' \<and> as_last_gas a' = Some 2300"
    by (simp, blast)
  with rep show ?thesis
    by blast
qed

definition finalised_net :: evm_net where
  "finalised_net = sample_net\<lparr>en_swaps_finalized := (\<lambda>_ _. Some (Inr
     \<lparr>sv_sender = [], sv_sender_destination_address = [], sv_receiver = [], sv_amount = 0, sv_secretHash = [],
      sv_timelock = 0, sv_initialized = True, sv_finalized = True\<rparr>))\<rparr>"

theorem evm_actions_never_dropped_witness:
  "\<exists>b. rq_get (refund_key (replicate 32 3)) (ev_queue
      (settler_ticks (evm_settler record_codec (db_swap_store mem_redb) sample_alloy)
         [(960, \<lambda>_. finalised_net), (2000, \<lambda>_. sample_net)] busy_evm)) = Some b \<and> as_deadline b = 990"
proof -
  have a: "rq_get (refund_key (replicate 32 3)) (ev_queue busy_evm) =
      Some \<lparr>as_first_seen = 900, as_next_attempt_at = 950, as_attempt_count = 2, as_deadline = 990,
        as_nonce = Some 7, as_last_gas = Some 2000\<rparr>"
    by (simp add: busy_evm_def)
  have "\<forall>(now, env) \<in> set [(960 :: u64, \<lambda>_. finalised_net), (2000, \<lambda>_. sample_net)].
      \<not> evm_settled (env (refund_key (replicate 32 3))) (refund_key (replicate 32 3)) busy_evm \<or> now < 990"
    by (simp add: evm_settled_def sample_net_def)
  then show ?thesis
    using evm_actions_never_dropped [OF a, of "[(960, \<lambda>_. finalised_net), (2000, \<lambda>_. sample_net)]"
        record_codec "db_swap_store mem_redb" sample_alloy]
    by simp
qed

theorem evm_drive_reschedules_witness:
  "rq_due_now 2000 (ev_queue (fst (drive (evm_settler record_codec (db_swap_store mem_redb) sample_alloy)
      (\<lambda>_. sample_net) 2000 busy_evm))) = [] \<and>
   map_option schedule (rq_get (refund_key (replicate 32 3)) (ev_queue (fst
      (drive (evm_settler record_codec (db_swap_store mem_redb) sample_alloy) (\<lambda>_. finalised_net) 2000 busy_evm))))
    = None"
proof -
  have now: "unat (2000 :: u64) + 41020 \<le> 2 ^ 64"
    by simp
  have "evm_settled finalised_net k busy_evm" for k
    by (simp add: evm_settled_def finalised_net_def)
  moreover have "rq_get (refund_key (replicate 32 3)) (ev_queue busy_evm) =
      Some \<lparr>as_first_seen = 900, as_next_attempt_at = 950, as_attempt_count = 2, as_deadline = 990,
        as_nonce = Some 7, as_last_gas = Some 2000\<rparr>"
    by (simp add: busy_evm_def)
  ultimately show ?thesis
    using evm_drive_reschedules [OF now, of "refund_key (replicate 32 3)" record_codec "db_swap_store mem_redb"
        sample_alloy "\<lambda>_. sample_net" busy_evm]
      evm_drive_reschedules [OF now, of "refund_key (replicate 32 3)" record_codec "db_swap_store mem_redb"
        sample_alloy "\<lambda>_. finalised_net" busy_evm]
    by (simp add: due_def expired_def)
qed

theorem evm_settle_sends_only_valid_witness:
  "\<exists>out tx self'. evm_settle record_codec (db_swap_store mem_redb) sample_alloy sample_net
      (refund_key (replicate 32 3)) busy_evm = ((out, [tx]), self') \<and>
    tx_call tx = RefundCall (replicate 32 3) \<and> tx_to tx = [1]"
proof -
  obtain self' where rep: "replacement record_codec (db_swap_store mem_redb) sample_alloy sample_net
      (refund_key (replicate 32 3)) busy_evm = (Some (7, 2300), self')"
    using sample_replacement by blast
  have busy: "ev_pending_refunds busy_evm = [(refund_new (replicate 32 3), 1500)]"
      "ev_htlc_address busy_evm = [1]" "is_ok (evm_signed busy_evm)"
    by (simp_all add: busy_evm_def sample_evm_def evm_signed_def)
  have act: "ak_action (refund_key (replicate 32 3)) = RefundAction"
    by (simp add: refund_key_def)
  have now: "current_block_timestamp sample_net = Some 2000"
    by (simp add: current_block_timestamp_def sample_net_def)
  have sent: "send_and_confirm sample_net label tx = Inl (BroadcastError (label @ '' receipt: timed out''))" for label tx
    by (simp add: send_and_confirm_def sample_net_def)
  obtain out tx where settle: "evm_settle record_codec (db_swap_store mem_redb) sample_alloy sample_net
      (refund_key (replicate 32 3)) busy_evm = ((out, [tx]), self')"
    by (simp add: evm_settle_def act evm_settle_refund_def busy refund_new_def now rep evm_submit_refund_def Let_def
        sent)
  show ?thesis
    using evm_settle_sends_only_valid [OF settle, of tx] settle by (auto simp: act busy)
qed

theorem polls_deliver_each_block_once_witness:
  "poll_run [1] 3 1000 [sample_net, sample_net] \<lparr>pl_cursor = 50\<rparr> = ([], \<lparr>pl_cursor = 98\<rparr>) \<and>
   (50 :: u64) \<le> 98 \<and> unat (98 :: u64) + unat (3 :: u64) \<le> 100 + 1"
proof -
  have range: "next_range \<lparr>pl_cursor = 50\<rparr> 100 3 1000 = Some (50, 98)"
      "next_range \<lparr>pl_cursor = 98\<rparr> 100 3 1000 = None"
    by (simp_all add: next_range_def checked_sub_def checked_add_def saturating_add_def unsigned_numeral
        max_def min_def word_le_nat_alt)
  have run: "poll_run [1] 3 1000 [sample_net, sample_net] \<lparr>pl_cursor = 50\<rparr> = ([], \<lparr>pl_cursor = 98\<rparr>)"
  proof -
    have "retry_timed (en_block_number sample_net) = Some 100"
        "retry_timed (en_get_logs sample_net [1] 50 (98 - 1)) = Some []"
      by (simp_all add: retry_timed_first retry_timed_second sample_net_def)
    then show ?thesis
      by (simp add: poll_once_def range advance_def)
  qed
  have env: "\<forall>net \<in> set [sample_net, sample_net]. serves_chain [1] (\<lambda>_. []) net \<and> heads_below 100 net"
    by (simp add: serves_chain_def heads_below_def sample_net_def)
  from polls_deliver_each_block_once [OF env run] run show ?thesis
    by simp
qed

end
