(* ===== verification/Swap_Sync.thy ===== *)
theory Swap_Sync
  imports Swap_Records
begin

text \<open>
  Write-through persistence: what the EVM and the Kaspa buffer have in common. Each keeps a record per
  swap in memory and rewrites the stored record after every change; the locale \<open>persisted_buffer\<close>
  states that interface, and its lemmas say that memory and store stay in step and that a restart reads
  back what the memory held.
\<close>

section \<open>Keys and trackers\<close>

lemma find_refund_queue_dequeue:
  "find_refund j (queue_dequeue_refund_event xs e ccr) =
     (if j = event_swap_id e then
        (case e of Commitment c \<Rightarrow> if ccr \<and> find_refund j xs = None then Some (refund_new j, cm_unlock_ts c)
           else find_refund j xs
         | _ \<Rightarrow> None)
      else find_refund j xs)"
  by (cases e) (auto simp: queue_dequeue_refund_event_def find_refund_None_iff [symmetric] refund_new_def
      split: option.split)

lemma find_claim_push:
  "find_claim j (push_pending_claim xs r) =
     (if j = rv_swap_id r \<and> find_claim j xs = None then Some r else find_claim j xs)"
  using find_claim_None_iff [of "rv_swap_id r" xs]
  by (auto simp: push_pending_claim_def split: option.split)

lemma key_cases:
  obtains (claim) "k = claim_key (ak_swap_id k)" "ak_action k = Claim"
  | (refund) "k = refund_key (ak_swap_id k)" "ak_action k = RefundAction"
  by (cases "ak_action k") (auto simp: claim_key_def refund_key_def)

lemma key_iff:
  "claim_key sid = k \<longleftrightarrow> ak_swap_id k = sid \<and> ak_action k = Claim"
  "refund_key sid = k \<longleftrightarrow> ak_swap_id k = sid \<and> ak_action k = RefundAction"
  by (cases k; auto simp: claim_key_def refund_key_def)+

section \<open>Sizes\<close>

definition fixed_record :: "persisted_swap \<Rightarrow> bool" where
  "fixed_record r =
     (pw_script r = None \<and>
      (case pw_pending_refund r of None \<Rightarrow> True | Some (x, _) \<Rightarrow> length (rf_swap_id x) = 32) \<and>
      (case pw_pending_claim r of None \<Rightarrow> True
       | Some c \<Rightarrow> length (rv_swap_id c) = 32 \<and> length (rv_secret c) = 32))"

definition sized_script :: "utxo_script \<Rightarrow> bool" where
  "sized_script s = (length (us_redeem_script s) < 2 ^ 32 \<and> length (us_deposit_target s) < 2 ^ 32)"

definition sized_record :: "persisted_swap \<Rightarrow> bool" where
  "sized_record r =
     ((case pw_script r of None \<Rightarrow> True | Some s \<Rightarrow> sized_script s) \<and> fixed_record (r\<lparr>pw_script := None\<rparr>))"

definition sized_event :: "chain_event \<Rightarrow> bool" where
  "sized_event e =
     (length (event_swap_id e) = 32 \<and> (case e of Reveal r \<Rightarrow> length (rv_secret r) = 32 | _ \<Rightarrow> True))"

text \<open>
  Borsh encodes every record without a script, whose fields have a fixed size, and every record whose
  byte strings have a length of 32 bits.
\<close>

definition borsh_fixed :: "persisted_swap borsh_codec \<Rightarrow> bool" where
  "borsh_fixed B = (\<forall>r. fixed_record r \<longrightarrow> is_ok (bo_to_vec B r))"

definition borsh_sized :: "persisted_swap borsh_codec \<Rightarrow> bool" where
  "borsh_sized B = (\<forall>r. sized_record r \<longrightarrow> is_ok (bo_to_vec B r))"

lemma record_codec_fixed: "borsh_fixed record_codec"
  by (auto simp: borsh_fixed_def fixed_record_def record_codec_def borsh_of_def f_persisted_def f_iso_def
      f_pair_def f_option_def f_attempt_def f_word_def f_id_def f_fixed_def result_simps
      split: option.splits prod.splits)

lemma record_codec_sized: "borsh_sized record_codec"
  by (auto simp: borsh_sized_def sized_record_def sized_script_def fixed_record_def record_codec_def borsh_of_def
      f_persisted_def f_iso_def f_pair_def f_option_def f_attempt_def f_word_def f_id_def f_fixed_def
      f_script_def f_string_def f_vec_def bytes_of_chars_def result_simps split: option.splits prod.splits)

section \<open>Seeding a restored queue\<close>

definition seeded_attempt :: "u64 \<Rightarrow> 'a option \<Rightarrow> attempt_state option \<Rightarrow> attempt_state option" where
  "seeded_attempt now pending attempt =
     (case attempt of Some a \<Rightarrow> Some a | None \<Rightarrow> map_option (\<lambda>_. attempt_new now) pending)"

definition seeded :: "u64 \<Rightarrow> persisted_swap \<Rightarrow> persisted_swap" where
  "seeded now r =
     r\<lparr>pw_claim_attempt := seeded_attempt now (pw_pending_claim r) (pw_claim_attempt r),
       pw_refund_attempt := seeded_attempt now (pw_pending_refund r) (pw_refund_attempt r)\<rparr>"

lemma seed_queue_record:
  "live_record (rs_scripts r) (rs_pending_refunds r) (rs_pending_claims r) (seed_queue r now) sid =
     seeded now (restored_view r sid)"
  by (cases "find_refund sid (rs_pending_refunds r)")
    (auto simp: live_record_def seeded_def seeded_attempt_def restored_view_def seed_queue_get split: option.split)

lemma seeded_complete:
  assumes "pw_pending_refund r \<noteq> None \<longrightarrow> pw_refund_attempt r \<noteq> None"
    and "pw_pending_claim r \<noteq> None \<longrightarrow> pw_claim_attempt r \<noteq> None"
  shows "seeded now r = r"
  using assms
  by (cases r; cases "pw_pending_refund r") (auto simp: seeded_def seeded_attempt_def split: option.split)

lemma seeded_same [simp]:
  "pw_script (seeded now r) = pw_script r" "pw_pending_refund (seeded now r) = pw_pending_refund r"
  "pw_pending_claim (seeded now r) = pw_pending_claim r"
  by (simp_all add: seeded_def)

section \<open>The interface\<close>

text \<open>
  \<open>rec b sid\<close> is what the buffer \<open>b\<close> holds about a swap, \<open>ok\<close> the shape of such records, and \<open>stale\<close>
  the swaps whose stored record is still to be rewritten.
\<close>

definition record_sync ::
  "persisted_swap borsh_codec \<Rightarrow> ('s \<Rightarrow> channel_id \<Rightarrow> bytes \<Rightarrow> bytes option) \<Rightarrow> (bytes \<Rightarrow> persisted_swap \<Rightarrow> bool)
     \<Rightarrow> ('b \<Rightarrow> channel_id) \<Rightarrow> ('b \<Rightarrow> 's option) \<Rightarrow> ('b \<Rightarrow> bytes \<Rightarrow> persisted_swap) \<Rightarrow> bytes set \<Rightarrow> 'b
     \<Rightarrow> bool" where
  "record_sync B contents ok chan store_of rec stale b =
     ((\<forall>sid. ok sid (rec b sid)) \<and>
      (\<exists>store. store_of b = Some store \<and>
         (\<forall>sid. sid \<notin> stale \<longrightarrow> record_at B (contents store (chan b) sid) = rec b sid)))"

locale persisted_buffer = swap_store D contents
  for D :: "'s swap_store_ops" and contents :: "'s \<Rightarrow> channel_id \<Rightarrow> bytes \<Rightarrow> bytes option" +
  fixes B :: "persisted_swap borsh_codec" and ok :: "bytes \<Rightarrow> persisted_swap \<Rightarrow> bool"
    and chan :: "'b \<Rightarrow> channel_id" and store_of :: "'b \<Rightarrow> 's option" and rec :: "'b \<Rightarrow> bytes \<Rightarrow> persisted_swap"
    and persist :: "bytes \<Rightarrow> 'b \<Rightarrow> 'b"
  assumes roundtrip: "borsh_roundtrip B"
    and encodes: "ok sid r \<Longrightarrow> is_ok (bo_to_vec B r)"
    and own: "own_ids sid (rec b sid)"
    and persist_rec: "rec (persist sid b) = rec b"
    and persist_chan: "chan (persist sid b) = chan b"
    and persist_store: "store_of (persist sid b) =
      map_option (store_record B D (chan b) sid (rec b sid)) (store_of b)"
begin

lemma sync_update:
  assumes inv: "record_sync B contents ok chan store_of rec stale b"
    and same: "store_of b' = store_of b" "chan b' = chan b"
    and others: "\<And>j. j \<noteq> sid \<Longrightarrow> rec b' j = rec b j"
    and len: "length sid = 32" and good: "ok sid (rec b' sid)"
  shows "record_sync B contents ok chan store_of rec (stale - {sid}) (persist sid b')"
proof -
  obtain store where store: "store_of b = Some store"
      and recs: "\<And>j. j \<notin> stale \<Longrightarrow> record_at B (contents store (chan b) j) = rec b j"
    using inv by (auto simp: record_sync_def)
  have "record_at B (contents (store_record B D (chan b') sid (rec b' sid) store) (chan b') j) = rec b' j"
    if "j \<notin> stale - {sid}" for j
    using that store_record_at [OF roundtrip encodes [OF good] len] recs others same by auto
  moreover have "ok j (rec b' j)" for j
    using inv others good by (cases "j = sid") (auto simp: record_sync_def)
  ultimately show ?thesis
    using store same by (simp add: record_sync_def persist_rec persist_chan persist_store)
qed

lemma restored_records:
  assumes "record_sync B contents ok chan store_of rec {} b" and "store_of b = Some store"
    and "restore B D (chan b) (Some store) = (r, Some store')"
  shows "restored_view r sid = rec b sid" and "contents store' = contents store"
proof -
  have recs: "record_at B (contents store (chan b) j) = rec b j" for j
    using assms(1,2) by (auto simp: record_sync_def)
  then show "restored_view r sid = rec b sid"
    using restore_view [of B store "chan b" sid] own assms(3) by simp
  show "contents store' = contents store"
    using assms(3) quarantined_contents [of B "chan b" _ restored_default store]
    by (auto simp: restore_def split: prod.splits) (metis snd_conv)
qed

lemma sync_restored:
  assumes "record_sync B contents ok chan store_of rec {} b" and "store_of b = Some store"
    and "store_of b' = Some store'" "contents store' = contents store" "chan b' = chan b" "rec b' = rec b"
  shows "record_sync B contents ok chan store_of rec {} b'"
  using assms by (auto simp: record_sync_def)

end

end
