(* ===== verification/Evm_Recovery.thy ===== *)
theory Evm_Recovery
  imports Evm_Settlement Swap_Sync
begin

text \<open>
  Crash recovery of the EVM channel. \<open>evm_step\<close> is one atomic operation of the buffer: a poll, an emission,
  an attempt to settle, a recorded success or failure, in any order and against any network. In every
  state that such steps reach from a recovered one, the swap store holds exactly what the memory
  holds; so \<open>Evm::connect\<close> after a crash resumes with the same claims, refunds, attempts and cursor.
\<close>

section \<open>The invariant\<close>

text \<open>
  Per swap: only 32-byte identifiers are tracked, and a pending claim or refund has its entry in the
  retry queue.
\<close>

definition evm_record_ok :: "bytes \<Rightarrow> persisted_swap \<Rightarrow> bool" where
  "evm_record_ok sid r =
     (fixed_record r \<and> (r \<noteq> empty_record \<longrightarrow> length sid = 32) \<and>
      (pw_pending_refund r \<noteq> None \<longrightarrow> pw_refund_attempt r \<noteq> None) \<and>
      (pw_pending_claim r \<noteq> None \<longrightarrow> pw_claim_attempt r \<noteq> None))"

definition evm_synced ::
  "persisted_swap borsh_codec \<Rightarrow> ('s \<Rightarrow> channel_id \<Rightarrow> bytes \<Rightarrow> bytes option) \<Rightarrow> ('s, 'c) evm \<Rightarrow> bool" where
  "evm_synced B contents self =
     (\<exists>store. ev_swap_store self = Some store \<and>
        (\<forall>sid. record_at B (contents store (ev_channel_id self) sid) = evm_record self sid))"

definition evm_inv ::
  "persisted_swap borsh_codec \<Rightarrow> ('s \<Rightarrow> channel_id \<Rightarrow> bytes \<Rightarrow> bytes option) \<Rightarrow> ('s, 'c) evm \<Rightarrow> bool" where
  "evm_inv B contents self = ((\<forall>sid. evm_record_ok sid (evm_record self sid)) \<and> evm_synced B contents self)"

lemma evm_record_live:
  "evm_record self sid =
     live_record hm_empty (ev_pending_refunds self) (ev_pending_claims self) (ev_queue self) sid"
  by (simp add: evm_record_def live_record_def find_refund_def find_claim_def)

lemma evm_inv_sync:
  "evm_inv B contents = record_sync B contents evm_record_ok ev_channel_id ev_swap_store evm_record {}"
  by (simp add: fun_eq_iff evm_inv_def evm_synced_def record_sync_def)

text \<open>The environment the buffer relies on.\<close>

locale evm_environment = swap_store D contents
  for D :: "'s swap_store_ops" and contents :: "'s \<Rightarrow> channel_id \<Rightarrow> bytes \<Rightarrow> bytes option" +
  fixes B :: "persisted_swap borsh_codec" and C :: "'c cursor_store_ops" and X :: alloy
  assumes roundtrip: "borsh_roundtrip B"
    and encodes: "borsh_fixed B"
    and cursor_kept: "cs_load C ch (cs_save C ch cursor st) = Some cursor"
    and commitment_size: "ex_decode_commitment X log = Inr cl \<Longrightarrow> length (cl_swapId cl) = 32"
    and claim_size: "ex_decode_claim X log = Inr ml \<Longrightarrow> length (ml_swapId ml) = 32 \<and> length (ml_secret ml) = 32"
    and refund_size: "ex_decode_refund X log = Inr fl \<Longrightarrow> length (fl_swapId fl) = 32"
begin

lemma persisted: "persisted_buffer D contents B evm_record_ok ev_channel_id ev_swap_store evm_record (evm_persist_swap B D)"
proof unfold_locales
  show "borsh_roundtrip B" by (rule roundtrip)
  show "is_ok (bo_to_vec B r)" if "evm_record_ok sid r" for sid r
    using encodes that by (simp add: borsh_fixed_def evm_record_ok_def)
  show "own_ids sid (evm_record b sid)" for sid and b :: "('s, 'd) evm"
    by (simp add: evm_record_live live_record_own_ids)
qed (simp_all add: evm_record_def fun_eq_iff, simp add: evm_persist_swap_def evm_record_def split: option.split)

end

sublocale evm_environment \<subseteq> synced: persisted_buffer D contents B evm_record_ok ev_channel_id ev_swap_store
  evm_record "evm_persist_swap B D"
  by (rule persisted)

context evm_environment
begin

lemma inv_update:
  fixes self self' :: "('s, 'd) evm"
  assumes "evm_inv B contents self"
    and "ev_swap_store self' = ev_swap_store self" "ev_channel_id self' = ev_channel_id self"
    and "\<And>j. j \<noteq> sid \<Longrightarrow> evm_record self' j = evm_record self j"
    and "length sid = 32" and "evm_record_ok sid (evm_record self' sid)"
  shows "evm_inv B contents (evm_persist_swap B D sid self')"
  using synced.sync_update [OF assms(1) [unfolded evm_inv_sync] assms(2-6)]
  by (simp add: evm_inv_sync)

end

section \<open>Steps\<close>

inductive evm_step ::
  "persisted_swap borsh_codec \<Rightarrow> 's swap_store_ops \<Rightarrow> 'c cursor_store_ops \<Rightarrow> alloy
     \<Rightarrow> ('s, 'c) evm \<Rightarrow> ('s, 'c) evm \<Rightarrow> bool"
  for B D C X where
  poll: "evm_step B D C X self (snd (evm_poll_finalized B D C X net clk self))"
| emit: "sized_event e \<Longrightarrow> evm_step B D C X self (snd (evm_emit_event B D X net now e self))"
| settle: "evm_step B D C X self (snd (evm_settle_timed B D X net key self))"
| success: "length (ak_swap_id key) = 32 \<Longrightarrow> evm_step B D C X self (evm_record_success B D key self)"
| failure: "length (ak_swap_id key) = 32 \<Longrightarrow> evm_step B D C X self (evm_record_failure B D key now self)"

lemma record_cong:
  assumes "find_refund j (ev_pending_refunds a) = find_refund j (ev_pending_refunds b)"
    and "find_claim j (ev_pending_claims a) = find_claim j (ev_pending_claims b)"
    and "rq_get (claim_key j) (ev_queue a) = rq_get (claim_key j) (ev_queue b)"
    and "rq_get (refund_key j) (ev_queue a) = rq_get (refund_key j) (ev_queue b)"
  shows "evm_record a j = evm_record b j"
  using assms by (simp add: evm_record_live live_record_def)

lemma is_commitment_cases: "is_commitment e \<longleftrightarrow> (\<exists>c. e = Commitment c)"
  by (cases e) auto

context evm_environment
begin

lemma record_ok: "evm_inv B contents self \<Longrightarrow> evm_record_ok sid (evm_record self sid)"
  by (simp add: evm_inv_def)

lemma track_inv:
  assumes "evm_inv B contents self" and "sized_event e"
  shows "evm_inv B contents (evm_track_actionable_event B D now e self)"
proof -
  let ?sid = "event_swap_id e"
  obtain self' where track: "evm_track_actionable_event B D now e self = evm_persist_swap B D ?sid self'"
      and store: "ev_swap_store self' = ev_swap_store self" "ev_channel_id self' = ev_channel_id self"
      and refunds: "ev_pending_refunds self' =
        queue_dequeue_refund_event (ev_pending_refunds self) e (ev_participate_ccr self)"
      and claims: "ev_pending_claims self' = (if is_commitment e then ev_pending_claims self
        else filter (\<lambda>c. rv_swap_id c \<noteq> ?sid) (ev_pending_claims self))"
      and queue: "ev_queue self' = (if is_commitment e then
          (if ev_participate_ccr self then rq_ensure (refund_key ?sid) now (ev_queue self) else ev_queue self)
        else rq_record_success (refund_key ?sid) (rq_record_success (claim_key ?sid) (ev_queue self)))"
    by (simp add: evm_track_actionable_event_def Let_def)
  have "evm_record self' j = evm_record self j" if "j \<noteq> ?sid" for j
    using that by (intro record_cong) (simp_all add: refunds claims queue find_refund_queue_dequeue)
  moreover have "evm_record_ok ?sid (evm_record self' ?sid)"
    using record_ok [OF assms(1), of ?sid] assms(2)
    by (cases e)
      (auto simp: evm_record_ok_def fixed_record_def sized_event_def evm_record_live live_record_def refunds
        claims queue find_refund_queue_dequeue refund_new_def split: option.splits)
  ultimately show ?thesis
    unfolding track using assms store
    by (intro inv_update [OF assms(1)]) (simp_all add: sized_event_def)
qed

lemma emit_inv:
  assumes "evm_inv B contents self" and "sized_event e"
  shows "evm_inv B contents (snd (evm_emit_event B D X net now e self))"
proof (cases "\<exists>r. e = Reveal r \<and> ev_participate_ccr self")
  case False
  then have "snd (evm_emit_event B D X net now e self) = self"
    by (auto simp: evm_emit_event_def split: chain_event.splits sum.splits)
  with assms(1) show ?thesis by simp
next
  case True
  then obtain r where e: "e = Reveal r" and ccr: "ev_participate_ccr self"
    by blast
  let ?self = "self\<lparr>ev_pending_claims := push_pending_claim (ev_pending_claims self) r,
    ev_queue := rq_ensure (claim_key (rv_swap_id r)) now (ev_queue self)\<rparr>"
  have "evm_record ?self j = evm_record self j" if "j \<noteq> rv_swap_id r" for j
    using that by (intro record_cong) (simp_all add: find_claim_push)
  moreover have "evm_record_ok (rv_swap_id r) (evm_record ?self (rv_swap_id r))"
    using record_ok [OF assms(1), of "rv_swap_id r"] assms(2)
    by (auto simp: evm_record_ok_def fixed_record_def sized_event_def e evm_record_live live_record_def
        find_claim_push         split: option.splits)
  ultimately have "evm_inv B contents (evm_persist_swap B D (rv_swap_id r) ?self)"
    using assms by (intro inv_update [OF assms(1)]) (simp_all add: sized_event_def e)
  then show ?thesis
    by (simp add: evm_emit_event_def e ccr Let_def)
qed

lemma success_inv:
  assumes "evm_inv B contents self" and "length (ak_swap_id key) = 32"
  shows "evm_inv B contents (evm_record_success B D key self)"
proof -
  obtain self' where success: "evm_record_success B D key self = evm_persist_swap B D (ak_swap_id key) self'"
      and store: "ev_swap_store self' = ev_swap_store self" "ev_channel_id self' = ev_channel_id self"
      and queue: "ev_queue self' = rq_record_success key (ev_queue self)"
      and claims: "ev_pending_claims self' = (if ak_action key = Claim
        then filter (\<lambda>c. rv_swap_id c \<noteq> ak_swap_id key) (ev_pending_claims self) else ev_pending_claims self)"
      and refunds: "ev_pending_refunds self' = (if ak_action key = Claim then ev_pending_refunds self
        else filter (\<lambda>(r, _). rf_swap_id r \<noteq> ak_swap_id key) (ev_pending_refunds self))"
    by (cases "ak_action key") (simp_all add: evm_record_success_def Let_def)
  have ne: "claim_key j \<noteq> key" "refund_key j \<noteq> key" if "j \<noteq> ak_swap_id key" for j
    using that by auto
  have "evm_record self' j = evm_record self j" if "j \<noteq> ak_swap_id key" for j
    using that by (intro record_cong) (simp_all add: claims refunds queue ne)
  moreover have "evm_record_ok (ak_swap_id key) (evm_record self' (ak_swap_id key))"
    using record_ok [OF assms(1), of "ak_swap_id key"] assms(2)
    by (cases "ak_action key")
      (auto simp: evm_record_ok_def fixed_record_def evm_record_live live_record_def claims refunds queue
        key_iff split: option.splits)
  ultimately show ?thesis
    unfolding success using assms store by (intro inv_update [OF assms(1)]) simp_all
qed

text \<open>An operation that only changes the entry of a key and keeps which keys are queued.\<close>

lemma queue_entry_inv:
  assumes inv: "evm_inv B contents self" and len: "length (ak_swap_id key) = 32"
    and q: "\<And>k. rq_get k q = (if k = key then map_option f (rq_get k (ev_queue self)) else rq_get k (ev_queue self))"
  shows "evm_inv B contents (evm_persist_swap B D (ak_swap_id key) (self\<lparr>ev_queue := q\<rparr>))"
proof -
  have ne: "claim_key j \<noteq> key" "refund_key j \<noteq> key" if "j \<noteq> ak_swap_id key" for j
    using that by auto
  have "evm_record (self\<lparr>ev_queue := q\<rparr>) j = evm_record self j" if "j \<noteq> ak_swap_id key" for j
    using that by (intro record_cong) (simp_all add: q ne)
  moreover have "evm_record_ok (ak_swap_id key) (evm_record (self\<lparr>ev_queue := q\<rparr>) (ak_swap_id key))"
    using record_ok [OF inv, of "ak_swap_id key"] len
    by (auto simp: evm_record_ok_def fixed_record_def evm_record_live live_record_def q)
  ultimately show ?thesis
    using len by (intro inv_update [OF inv]) simp_all
qed

lemma failure_inv:
  assumes "evm_inv B contents self" and "length (ak_swap_id key) = 32"
  shows "evm_inv B contents (evm_record_failure B D key now self)"
  unfolding evm_record_failure_def using assms
  by (rule queue_entry_inv [where f = "on_failure now (evm_jitter key)"]) simp

lemma settle_inv:
  assumes inv: "evm_inv B contents self"
  shows "evm_inv B contents (snd (evm_settle_timed B D X net key self))"
proof -
  have len: "length (ak_swap_id key) = 32" if "rq_get key (ev_queue self) = Some a" for a
  proof (cases key rule: key_cases)
    case claim
    then have "pw_claim_attempt (evm_record self (ak_swap_id key)) = Some a"
      using that by (simp add: evm_record_def)
    then show ?thesis
      using record_ok [OF inv, of "ak_swap_id key"] by (auto simp: evm_record_ok_def empty_record_def)
  next
    case refund
    then have "pw_refund_attempt (evm_record self (ak_swap_id key)) = Some a"
      using that by (simp add: evm_record_def)
    then show ?thesis
      using record_ok [OF inv, of "ak_swap_id key"] by (auto simp: evm_record_ok_def empty_record_def)
  qed
  have "evm_inv B contents (snd (replacement B D X net key self))"
  proof (cases rule: replacement_cases [of B D X net key self])
    case unavailable
    with inv show ?thesis by simp
  next
    case (fresh base a attempt confirmed pending nonce gas)
    have "evm_inv B contents (evm_persist_swap B D (ak_swap_id key)
        (self\<lparr>ev_queue := rq_set_last_gas key gas (rq_set_nonce key nonce (ev_queue self))\<rparr>))"
      by (rule queue_entry_inv [OF inv len [OF fresh(1)],
            where f = "\<lambda>a. a\<lparr>as_nonce := Some nonce, as_last_gas := Some gas\<rparr>"])
        (simp add: option.map_comp o_def)
    with fresh show ?thesis by simp
  next
    case (reused base a attempt confirmed nonce gas)
    have "evm_inv B contents (evm_persist_swap B D (ak_swap_id key)
        (self\<lparr>ev_queue := rq_set_last_gas key gas (ev_queue self)\<rparr>))"
      by (rule queue_entry_inv [OF inv len [OF reused(1)], where f = "\<lambda>a. a\<lparr>as_last_gas := Some gas\<rparr>"]) simp
    with reused show ?thesis by simp
  qed
  with inv show ?thesis
    using evm_settle_timed_state [of B D X net key self] by auto
qed

end

context evm_environment
begin

lemma decode_sized: "decode_log X log ch = Inr (Some e) \<Longrightarrow> sized_event e"
  by (auto simp: decode_log_def sized_event_def result_simps commitment_new_def reveal_new_def refund_new_def
      split: sum.splits dest: commitment_size claim_size refund_size)

lemma handle_logs_inv:
  "evm_inv B contents self \<Longrightarrow> evm_inv B contents (snd (evm_handle_logs B D X clk i logs self))"
proof (induction logs arbitrary: i self)
  case Nil
  then show ?case by simp
next
  case (Cons log logs)
  show ?case
  proof (cases "decode_log X log (ev_channel_id self)")
    case (Inl p)
    with Cons.prems show ?thesis by simp
  next
    case (Inr r)
    show ?thesis
    proof (cases r)
      case None
      with Inr Cons show ?thesis by simp
    next
      case (Some e)
      with Inr Cons.prems have "evm_inv B contents (evm_track_actionable_event B D (clk i) e self)"
        by (intro track_inv decode_sized [of log "ev_channel_id self"]) simp_all
      with Inr Some Cons.IH show ?thesis
        by (simp add: case_prod_beta)
    qed
  qed
qed

lemma inv_frame:
  assumes "evm_inv B contents self"
    and "ev_swap_store self' = ev_swap_store self" "ev_channel_id self' = ev_channel_id self"
      "ev_pending_refunds self' = ev_pending_refunds self" "ev_pending_claims self' = ev_pending_claims self"
      "ev_queue self' = ev_queue self"
  shows "evm_inv B contents self'"
  using assms by (simp add: evm_inv_def evm_synced_def evm_record_def)

lemma poll_inv:
  assumes "evm_inv B contents self"
  shows "evm_inv B contents (snd (evm_poll_finalized B D C X net clk self))"
proof (cases "clk 0 < ev_next_poll_secs self")
  case True
  with assms show ?thesis by (simp add: evm_poll_finalized_def)
next
  case False
  obtain logs poll where one: "poll_once net (ev_htlc_address self) (ev_minimum_block_confirmations self)
      (ev_max_blocks_per_poll self) (ev_poll self) = (logs, poll)"
    by fastforce
  let ?self = "self\<lparr>ev_next_poll_secs := clk 0 + ev_poll_interval_secs self, ev_poll := poll,
    ev_cursor_store := map_option (cs_save C (ev_channel_id self) (to_le_bytes (pl_cursor poll)))
      (ev_cursor_store self)\<rparr>"
  have "evm_inv B contents ?self"
    by (rule inv_frame [OF assms]) simp_all
  then have inv: "evm_inv B contents (snd (evm_handle_logs B D X clk 1 logs ?self))"
    by (rule handle_logs_inv)
  obtain r s4 where logs: "evm_handle_logs B D X clk 1 logs ?self = (r, s4)"
    by fastforce
  have "snd (evm_poll_finalized B D C X net clk self) = s4 \<or>
      (\<exists>ts. snd (evm_poll_finalized B D C X net clk self) = s4\<lparr>ev_last_block_ts := ts\<rparr>)"
    using False logs
    by (auto simp: evm_poll_finalized_def one Let_def split: sum.split option.split)
  then show ?thesis
    using inv logs by (auto intro: inv_frame [of s4])
qed

lemma step_inv: "evm_step B D C X self self' \<Longrightarrow> evm_inv B contents self \<Longrightarrow> evm_inv B contents self'"
  by (induction rule: evm_step.induct)
    (auto intro: poll_inv emit_inv settle_inv success_inv failure_inv)

lemma steps_inv: "(evm_step B D C X)\<^sup>*\<^sup>* self self' \<Longrightarrow> evm_inv B contents self \<Longrightarrow> evm_inv B contents self'"
  by (induction rule: rtranclp_induct) (auto intro: step_inv)

section \<open>Recovery\<close>

lemma restore_seed_record:
  assumes inv: "evm_inv B contents self" and store: "ev_swap_store self = Some store"
    and r: "restore B D (ev_channel_id self) (Some store) = (r, Some store')"
  shows "live_record hm_empty (rs_pending_refunds r) (rs_pending_claims r) (seed_queue r now) sid =
    evm_record self sid"
proof -
  have view: "restored_view r sid = evm_record self sid"
    using synced.restored_records(1) [OF inv [unfolded evm_inv_sync] store r] .
  then have "hm_get (rs_scripts r) sid = None"
    by (simp add: restored_view_def evm_record_def)
  then have "live_record hm_empty (rs_pending_refunds r) (rs_pending_claims r) (seed_queue r now) sid =
      seeded now (evm_record self sid)"
    using seed_queue_record [of r now sid] view by (simp add: live_record_def)
  also have "\<dots> = evm_record self sid"
    using record_ok [OF inv, of sid] by (intro seeded_complete) (auto simp: evm_record_ok_def)
  finally show ?thesis .
qed

end

lemma so_success: "so_record_success (evm_settler B D X) = evm_record_success B D"
  by (simp add: evm_settler_def)

lemma reconcile_evm_record:
  assumes "\<And>k. k \<in> set keys \<Longrightarrow> ak_swap_id k = sid \<Longrightarrow> \<not> evm_settled (boot k) k self"
  shows "evm_record (fst (reconcile (evm_settler B D X) boot keys self)) sid = evm_record self sid"
  using assms
proof (induction keys arbitrary: self)
  case Nil
  then show ?case by simp
next
  case (Cons k keys)
  have rest: "evm_settled (boot j) j (evm_record_success B D k self) = evm_settled (boot j) j self" for j
    by (rule evm_settled_cong) (simp add: evm_record_success_def Let_def split: action.split)
  have other: "evm_record (evm_record_success B D k self) sid = evm_record self sid" if "ak_swap_id k \<noteq> sid"
  proof (cases k rule: key_cases)
    case claim
    with that show ?thesis
      by (intro record_cong; subst (1) claim(1)) (auto simp: evm_record_success_def Let_def split: action.split)
  next
    case refund
    with that show ?thesis
      by (intro record_cong; subst (1) refund(1)) (auto simp: evm_record_success_def Let_def split: action.split)
  qed
  show ?case
  proof (cases "evm_settled (boot k) k self")
    case True
    then have "ak_swap_id k \<noteq> sid"
      using Cons.prems by auto
    with True Cons rest other show ?thesis
      by (simp add: evm.observe case_prod_beta so_success)
  next
    case False
    with Cons show ?thesis
      by (simp add: evm.observe case_prod_beta)
  qed
qed

section \<open>The cursor\<close>

definition cursor_saved :: "'c cursor_store_ops \<Rightarrow> ('s, 'c) evm \<Rightarrow> bool" where
  "cursor_saved C self =
     (\<exists>c. ev_cursor_store self = Some c \<and>
        cs_load C (ev_channel_id self) c = Some (to_le_bytes (pl_cursor (ev_poll self))))"

definition cursor_view :: "('s, 'c) evm \<Rightarrow> channel_id \<times> poll_state \<times> 'c option" where
  "cursor_view self = (ev_channel_id self, ev_poll self, ev_cursor_store self)"

lemma cursor_saved_cong: "cursor_view a = cursor_view b \<Longrightarrow> cursor_saved C a = cursor_saved C b"
  by (simp add: cursor_saved_def cursor_view_def)

lemma cursor_view_persist [simp]: "cursor_view (evm_persist_swap B D sid self) = cursor_view self"
  by (simp add: cursor_view_def)

lemma cursor_view_update [simp]:
  "cursor_view (self\<lparr>ev_queue := q\<rparr>) = cursor_view self"
  "cursor_view (self\<lparr>ev_pending_claims := cs\<rparr>) = cursor_view self"
  "cursor_view (self\<lparr>ev_pending_refunds := rs\<rparr>) = cursor_view self"
  "cursor_view (self\<lparr>ev_last_block_ts := ts\<rparr>) = cursor_view self"
  by (simp_all add: cursor_view_def)

lemma cursor_view_track: "cursor_view (evm_track_actionable_event B D now e self) = cursor_view self"
  by (simp add: evm_track_actionable_event_def Let_def)

lemma cursor_view_logs: "cursor_view (snd (evm_handle_logs B D X clk i logs self)) = cursor_view self"
  by (induction logs arbitrary: i self)
    (simp_all add: cursor_view_track case_prod_beta split: sum.split option.split)

lemma cursor_view_success: "cursor_view (evm_record_success B D key self) = cursor_view self"
  by (simp add: evm_record_success_def Let_def split: action.split)

lemma cursor_view_settle: "cursor_view (snd (evm_settle_timed B D X net key self)) = cursor_view self"
proof -
  have "cursor_view (snd (replacement B D X net key self)) = cursor_view self"
    by (cases rule: replacement_cases [of B D X net key self]) simp_all
  then show ?thesis
    using evm_settle_timed_state [of B D X net key self] by auto
qed

lemma cursor_view_emit: "cursor_view (snd (evm_emit_event B D X net now e self)) = cursor_view self"
  by (simp add: evm_emit_event_def Let_def split: chain_event.split sum.split)

lemma cursor_view_reconcile:
  "cursor_view (fst (reconcile (evm_settler B D X) boot keys self)) = cursor_view self"
  by (induction keys arbitrary: self) (simp_all add: case_prod_beta so_success cursor_view_success)

context evm_environment
begin

lemma poll_cursor_saved:
  assumes "cursor_saved C self"
  shows "cursor_saved C (snd (evm_poll_finalized B D C X net clk self))"
proof (cases "clk 0 < ev_next_poll_secs self")
  case True
  with assms show ?thesis by (simp add: evm_poll_finalized_def)
next
  case False
  obtain logs poll where one: "poll_once net (ev_htlc_address self) (ev_minimum_block_confirmations self)
      (ev_max_blocks_per_poll self) (ev_poll self) = (logs, poll)"
    by fastforce
  let ?self = "self\<lparr>ev_next_poll_secs := clk 0 + ev_poll_interval_secs self, ev_poll := poll,
    ev_cursor_store := map_option (cs_save C (ev_channel_id self) (to_le_bytes (pl_cursor poll)))
      (ev_cursor_store self)\<rparr>"
  obtain r s4 where logs: "evm_handle_logs B D X clk 1 logs ?self = (r, s4)"
    by fastforce
  have "cursor_view (snd (evm_poll_finalized B D C X net clk self)) = cursor_view s4"
    using False logs by (simp add: evm_poll_finalized_def one Let_def split: sum.split option.split)
  also have "\<dots> = cursor_view ?self"
    using cursor_view_logs [of B D X clk 1 logs ?self] logs by simp
  finally have "cursor_saved C (snd (evm_poll_finalized B D C X net clk self)) = cursor_saved C ?self"
    by (rule cursor_saved_cong)
  moreover have "cursor_saved C ?self"
    using assms by (auto simp: cursor_saved_def cursor_kept)
  ultimately show ?thesis by simp
qed

lemma step_cursor_saved: "evm_step B D C X self self' \<Longrightarrow> cursor_saved C self \<Longrightarrow> cursor_saved C self'"
proof (induction rule: evm_step.induct)
  case (poll self net clk)
  then show ?case by (rule poll_cursor_saved)
next
  case (emit e self net now)
  then show ?case using cursor_saved_cong [OF cursor_view_emit] by blast
next
  case (settle self net key)
  then show ?case using cursor_saved_cong [OF cursor_view_settle] by blast
next
  case (success key self)
  then show ?case using cursor_saved_cong [OF cursor_view_success] by blast
next
  case (failure key self now)
  have "cursor_view (evm_record_failure B D key now self) = cursor_view self"
    by (simp add: evm_record_failure_def)
  with failure show ?case using cursor_saved_cong by blast
qed

lemma steps_cursor_saved:
  "(evm_step B D C X)\<^sup>*\<^sup>* self self' \<Longrightarrow> cursor_saved C self \<Longrightarrow> cursor_saved C self'"
  by (induction rule: rtranclp_induct) (auto intro: step_cursor_saved)

lemma restored_cursor_saved:
  "cursor_saved C self \<Longrightarrow>
   restored_cursor C (ev_channel_id self) (ev_cursor_store self) fallback = pl_cursor (ev_poll self)"
  by (auto simp: cursor_saved_def restored_cursor_def)

end

section \<open>Reconnecting\<close>

context evm_environment
begin

lemma connect_cases:
  assumes "evm_connect B D C X net boot clk ch cfg pk cursor_db (Some store) = Inr self'"
  obtains buffer r store' fallback where
    "self' = fst (reconcile (evm_settler B D X) boot (rq_due_now (clk 1) (ev_queue buffer)) buffer)"
    "restore B D ch (Some store) = (r, Some store')"
    "ev_swap_store buffer = Some store'" "ev_channel_id buffer = ch"
    "ev_pending_refunds buffer = rs_pending_refunds r" "ev_pending_claims buffer = rs_pending_claims r"
    "ev_queue buffer = seed_queue r (clk 0)"
    "pl_cursor (ev_poll buffer) = restored_cursor C ch cursor_db fallback"
  using assms
  by (auto simp: evm_connect_def result_simps reconcile_on_boot_def evm.due_now restore_def
      split: prod.splits)

lemma reconcile_inv:
  assumes "evm_inv B contents self" and "\<And>k. k \<in> set keys \<Longrightarrow> length (ak_swap_id k) = 32"
  shows "evm_inv B contents (fst (reconcile (evm_settler B D X) boot keys self))"
  using assms
  by (induction keys arbitrary: self) (simp_all add: case_prod_beta so_success success_inv)

lemma connect_recovers:
  assumes inv: "evm_inv B contents self" and saved: "cursor_saved C self"
    and connect: "evm_connect B D C X net boot clk (ev_channel_id self) cfg pk (ev_cursor_store self)
      (ev_swap_store self) = Inr self'"
  shows "evm_inv B contents self'" and "pl_cursor (ev_poll self') = pl_cursor (ev_poll self)"
    and "(\<And>k. ak_swap_id k = sid \<Longrightarrow> \<not> evm_settled (boot k) k self') \<Longrightarrow>
      evm_record self' sid = evm_record self sid"
proof -
  obtain store where store: "ev_swap_store self = Some store"
    using inv by (auto simp: evm_inv_def evm_synced_def)
  obtain buffer r store' fallback where
      self': "self' = fst (reconcile (evm_settler B D X) boot (rq_due_now (clk 1) (ev_queue buffer)) buffer)"
      and r: "restore B D (ev_channel_id self) (Some store) = (r, Some store')"
      and buffer: "ev_swap_store buffer = Some store'" "ev_channel_id buffer = ev_channel_id self"
        "ev_pending_refunds buffer = rs_pending_refunds r" "ev_pending_claims buffer = rs_pending_claims r"
        "ev_queue buffer = seed_queue r (clk 0)"
        "pl_cursor (ev_poll buffer) = restored_cursor C (ev_channel_id self) (ev_cursor_store self) fallback"
    using connect_cases [OF connect [unfolded store]] by metis
  have rec: "evm_record buffer j = evm_record self j" for j
    using restore_seed_record [OF inv store r, of "clk 0" j] by (simp add: evm_record_live buffer)
  have "contents store' = contents store"
    using synced.restored_records(2) [OF inv [unfolded evm_inv_sync] store r] .
  with inv store buffer rec have inv': "evm_inv B contents buffer"
    by (auto simp: evm_inv_def evm_synced_def)
  have due32: "length (ak_swap_id k) = 32" if mem: "k \<in> set (rq_due_now (clk 1) (ev_queue buffer))" for k
  proof -
    have "evm_record buffer (ak_swap_id k) \<noteq> empty_record"
      using mem by (cases k rule: key_cases)
        (auto simp: rq_due_now_iff rq_get_hm evm_record_def empty_record_def)
    then show ?thesis
      using record_ok [OF inv'] by (auto simp: evm_record_ok_def)
  qed
  show "evm_inv B contents self'"
    unfolding self' by (rule reconcile_inv [OF inv' due32])
  have view: "cursor_view self' = cursor_view buffer"
    unfolding self' by (rule cursor_view_reconcile)
  then show "pl_cursor (ev_poll self') = pl_cursor (ev_poll self)"
    using buffer(6) restored_cursor_saved [OF saved] by (simp add: cursor_view_def)
  have settled: "evm_settled env k self' = evm_settled env k buffer" for env k
    unfolding self' by (rule evm.reconcile_settled)
  show "evm_record self' sid = evm_record self sid"
    if "\<And>k. ak_swap_id k = sid \<Longrightarrow> \<not> evm_settled (boot k) k self'"
  proof -
    have "evm_record self' sid = evm_record buffer sid"
      unfolding self' by (rule reconcile_evm_record) (use that settled in blast)
    then show ?thesis
      by (simp add: rec)
  qed
qed

end

section \<open>A panic while polling\<close>

lemma handle_logs_panic:
  assumes "decode_log X log (ev_channel_id self) = Inl p"
    and "\<forall>l \<in> set before. is_ok (decode_log X l (ev_channel_id self))"
  shows "fst (evm_handle_logs B D X clk i (before @ log # after) self) = Inl p"
  using assms
proof (induction before arbitrary: i self)
  case Nil
  then show ?case by simp
next
  case (Cons l before)
  then obtain r where r: "decode_log X l (ev_channel_id self) = Inr r"
    by (auto simp: result_simps)
  have ch: "ev_channel_id (evm_track_actionable_event B D now e self) = ev_channel_id self" for now e
    using cursor_view_track [of B D now e self] by (simp add: cursor_view_def)
  show ?case
  proof (cases r)
    case None
    with r Cons show ?thesis by simp
  next
    case (Some e)
    with r Cons.IH [of "evm_track_actionable_event B D (clk i) e self" "Suc i"] Cons.prems
    show ?thesis
      by (simp add: case_prod_beta ch)
  qed
qed

text \<open>
  (C21) A commitment log whose timelock does not fit 64 bits makes the poll panic: none of the events of the
  polled range is reported, while the cursor in memory and in the cursor store has already moved past
  them.
\<close>

theorem huge_timelock_loses_range:
  assumes "ev_next_poll_secs self \<le> clk 0"
    and "poll_once net (ev_htlc_address self) (ev_minimum_block_confirmations self)
      (ev_max_blocks_per_poll self) (ev_poll self) = (before @ log # after, poll)"
    and "ex_decode_commitment X log = Inr d" and "2 ^ 64 \<le> unat (cl_timelock d)"
    and "\<forall>l \<in> set before. is_ok (decode_log X l (ev_channel_id self))"
  shows "fst (evm_poll_finalized B D C X net clk self) = Inl (Panic ''Uint conversion error'') \<and>
    ev_poll (snd (evm_poll_finalized B D C X net clk self)) = poll \<and>
    ev_cursor_store (snd (evm_poll_finalized B D C X net clk self)) =
      map_option (cs_save C (ev_channel_id self) (to_le_bytes (pl_cursor poll))) (ev_cursor_store self)"
proof -
  let ?self = "self\<lparr>ev_next_poll_secs := clk 0 + ev_poll_interval_secs self, ev_poll := poll,
    ev_cursor_store := map_option (cs_save C (ev_channel_id self) (to_le_bytes (pl_cursor poll)))
      (ev_cursor_store self)\<rparr>"
  have "decode_log X log (ev_channel_id ?self) = Inl (Panic ''Uint conversion error'')"
    using assms(3,4) by (simp add: decode_log_def uint_to_u64_def)
  then have panic: "fst (evm_handle_logs B D X clk 1 (before @ log # after) ?self) = Inl (Panic ''Uint conversion error'')"
    using assms(5) by (intro handle_logs_panic) simp_all
  obtain s4 where logs: "evm_handle_logs B D X clk 1 (before @ log # after) ?self = (Inl (Panic ''Uint conversion error''), s4)"
    using panic by (metis prod.collapse)
  have "evm_poll_finalized B D C X net clk self = (Inl (Panic ''Uint conversion error''), s4)"
    using assms(1,2) logs by (simp add: evm_poll_finalized_def Let_def not_less)
  moreover have "cursor_view s4 = cursor_view ?self"
    using cursor_view_logs [of B D X clk 1 "before @ log # after" ?self] logs by simp
  ultimately show ?thesis
    by (simp add: cursor_view_def)
qed

text \<open>
  (C15) Crash recovery: whatever polls, emissions and settlement attempts an EVM channel has performed,
  and against whatever network, reconnecting over its stores brings back the cursor and, for every
  swap that the chain does not show as finalised, exactly the pending refund, the pending claim
  and the two attempt states it had in memory; and the restarted channel is again in a state from
  which this holds.
\<close>

theorem evm_crash_recovery:
  assumes "evm_environment D contents B C X"
    and "evm_inv B contents start" and "cursor_saved C start"
    and "(evm_step B D C X)\<^sup>*\<^sup>* start self"
    and "evm_connect B D C X net boot clk (ev_channel_id self) cfg pk (ev_cursor_store self)
      (ev_swap_store self) = Inr self'"
  shows "evm_inv B contents self' \<and> pl_cursor (ev_poll self') = pl_cursor (ev_poll self) \<and>
    ((\<forall>k. ak_swap_id k = sid \<longrightarrow> \<not> evm_settled (boot k) k self') \<longrightarrow>
       evm_record self' sid = evm_record self sid)"
  using evm_environment.connect_recovers [OF assms(1) evm_environment.steps_inv [OF assms(1,4,2)]
      evm_environment.steps_cursor_saved [OF assms(1,4,3)] assms(5)]
  by blast

section \<open>An instance\<close>

interpretation mem_evm: evm_environment "db_swap_store mem_redb" "swap_contents mem_tab" record_codec
  mem_cursors sample_alloy
proof -
  have "swap_store (db_swap_store mem_redb) (swap_contents mem_tab)"
    by (rule mem.db.swap_store_axioms)
  then show "evm_environment (db_swap_store mem_redb) (swap_contents mem_tab) record_codec mem_cursors sample_alloy"
    unfolding evm_environment_def evm_environment_axioms_def
    by (auto simp: record_codec_roundtrip record_codec_fixed sample_alloy_def mem_cursors_def cursor_load_def
        cursor_save_def get_cursor_def set_cursor_def mem_redb_def split: if_splits)
qed

definition sample_claim_event :: chain_event where
  "sample_claim_event = Reveal (reveal_new (replicate 32 1) (replicate 32 2))"

lemma sample_start_ok:
  "evm_inv record_codec (swap_contents mem_tab) sample_evm" "cursor_saved mem_cursors sample_evm"
proof -
  have "evm_record sample_evm sid = empty_record" for sid
    by (simp add: evm_record_def sample_evm_def empty_record_def)
  then show "evm_inv record_codec (swap_contents mem_tab) sample_evm"
    by (simp add: evm_inv_def evm_synced_def evm_record_ok_def fixed_record_def)
      (simp add: sample_evm_def empty_record_def swap_contents_def mem_tab_def record_at_def)
  show "cursor_saved mem_cursors sample_evm"
    by (simp add: cursor_saved_def sample_evm_def mem_cursors_def cursor_load_def get_cursor_def
        cursor_save_def set_cursor_def mem_redb_def)
qed

theorem evm_crash_recovery_witness:
  "\<exists>self'. evm_connect record_codec (db_swap_store mem_redb) mem_cursors sample_alloy sample_net
      (\<lambda>_. sample_net) (\<lambda>_. 1000) EthereumSepolia (Inr sample_evm_config) None
      (ev_cursor_store sample_evm)
      (ev_swap_store (snd (evm_emit_event record_codec (db_swap_store mem_redb) sample_alloy sample_net 1000
         sample_claim_event sample_evm))) = Inr self' \<and>
    pl_cursor (ev_poll self') = 50 \<and>
    pw_pending_claim (evm_record self' (replicate 32 1)) = Some (reveal_new (replicate 32 1) (replicate 32 2))"
proof -
  let ?D = "db_swap_store mem_redb"
  let ?self = "snd (evm_emit_event record_codec ?D sample_alloy sample_net 1000 sample_claim_event sample_evm)"
  have step: "(evm_step record_codec ?D mem_cursors sample_alloy)\<^sup>*\<^sup>* sample_evm ?self"
    by (intro r_into_rtranclp evm_step.emit) (simp add: sized_event_def sample_claim_event_def reveal_new_def)
  have view: "cursor_view ?self = cursor_view sample_evm"
    by (rule cursor_view_emit)
  have rec: "pw_pending_claim (evm_record ?self (replicate 32 1)) = Some (reveal_new (replicate 32 1) (replicate 32 2))"
    by (simp add: evm_emit_event_def sample_claim_event_def evm_record_live live_record_def reveal_new_def
        push_pending_claim_def) (simp add: sample_evm_def)
  obtain self' where conn: "evm_connect record_codec ?D mem_cursors sample_alloy sample_net (\<lambda>_. sample_net)
      (\<lambda>_. 1000) EthereumSepolia (Inr sample_evm_config) None (ev_cursor_store sample_evm) (ev_swap_store ?self)
      = Inr self'"
    by (simp add: evm_connect_def parse_address_def build_providers_def sample_alloy_def sample_net_def
        retry_timed_first Let_def case_prod_beta)
  have chan: "ev_channel_id ?self = EthereumSepolia" "ev_cursor_store ?self = ev_cursor_store sample_evm"
      "pl_cursor (ev_poll ?self) = 50"
    using view by (simp_all add: cursor_view_def) (simp_all add: sample_evm_def)
  have "\<not> evm_settled sample_net k self'" for k
    by (simp add: evm_settled_def sample_net_def)
  then have "pl_cursor (ev_poll self') = 50 \<and>
      evm_record self' (replicate 32 1) = evm_record ?self (replicate 32 1)"
    using evm_crash_recovery [OF mem_evm.evm_environment_axioms sample_start_ok step, of sample_net
        "\<lambda>_. sample_net" "\<lambda>_. 1000" "Inr sample_evm_config" None self' "replicate 32 1"] conn
    by (simp add: chan)
  with conn rec show ?thesis
    by auto
qed

definition huge_alloy :: alloy where
  "huge_alloy = sample_alloy\<lparr>ex_decode_commitment := (\<lambda>_. Inr
     \<lparr>cl_swapId = replicate 32 1, cl_sender = [], cl_receiver = [], cl_sender_destination_address = [],
      cl_amount = 1, cl_secretHash = [], cl_timelock = - 1, cl_destination = 0\<rparr>)\<rparr>"

definition one_log_net :: evm_net where
  "one_log_net = sample_net\<lparr>en_get_logs := (\<lambda>_ _ _ _. Some (Inr [\<lparr>lg_address = [], lg_topics = [], lg_data = []\<rparr>]))\<rparr>"

theorem huge_timelock_loses_range_witness:
  "fst (evm_poll_finalized record_codec (db_swap_store mem_redb) mem_cursors huge_alloy one_log_net (\<lambda>_. 1000)
      sample_evm) = Inl (Panic ''Uint conversion error'') \<and>
   pl_cursor (ev_poll (snd (evm_poll_finalized record_codec (db_swap_store mem_redb) mem_cursors huge_alloy
      one_log_net (\<lambda>_. 1000) sample_evm))) = 98"
proof -
  let ?log = "\<lparr>lg_address = [], lg_topics = [], lg_data = []\<rparr> :: evm_log"
  have range: "next_range (ev_poll sample_evm) 100 3 1000 = Some (50, 98)"
    by (simp add: sample_evm_def next_range_def checked_sub_def checked_add_def saturating_add_def unsigned_numeral
        max_def min_def word_le_nat_alt)
  have "retry_timed (en_block_number one_log_net) = Some 100"
      "retry_timed (en_get_logs one_log_net a 50 (98 - 1)) = Some [?log]" for a
    by (simp_all add: retry_timed_first one_log_net_def sample_net_def)
  then have poll: "poll_once one_log_net (ev_htlc_address sample_evm) (ev_minimum_block_confirmations sample_evm)
      (ev_max_blocks_per_poll sample_evm) (ev_poll sample_evm) = ([] @ ?log # [], \<lparr>pl_cursor = 98\<rparr>)"
    using range by (simp add: poll_once_def) (simp add: sample_evm_def advance_def)
  have dec: "ex_decode_commitment huge_alloy ?log = Inr
     \<lparr>cl_swapId = replicate 32 1, cl_sender = [], cl_receiver = [], cl_sender_destination_address = [],
      cl_amount = 1, cl_secretHash = [], cl_timelock = - 1, cl_destination = 0\<rparr>"
    by (simp add: huge_alloy_def)
  show ?thesis
    using huge_timelock_loses_range [OF _ poll dec, of "\<lambda>_. 1000"]
    by (simp add: sample_evm_def unat_minus_one_word_eq)
qed

end
