(* ===== verification/Kaspa_Script.thy ===== *)
theory Kaspa_Script
  imports Swap_Records
begin

text \<open>
  The hash time-locked contract of the Kaspa channel (\<open>chains/kaspa/contracts/\<close>) and what derives from
  it: building the redeem script, reading a commitment back out of a script, reading the signature
  scripts of claims and refunds, the deposit address (\<open>signing/p2sh.rs\<close>, \<open>broadcast/htlc.rs\<close>) and
  the validation of announced scripts.

  The script builder, the opcode reader and the addresses belong to the rusty-kaspa crates: the record
  \<open>kaspa_lib\<close> stands for them. The locale \<open>txscript\<close> holds what the code relies on: a built
  script reads back as the sequence of what was added.
\<close>

section \<open>The library\<close>

record script_public_key =
  spk_version :: u16
  spk_script :: bytes

datatype kaspa_prefix = Mainnet | Testnet | Simnet | Devnet
datatype address_version = PubKey | PubKeyECDSA | ScriptHash

record kaspa_address =
  ka_prefix :: kaspa_prefix
  ka_version :: address_version
  ka_payload :: bytes

text \<open>One opcode of a parsed script: \<open>OpCodeImplementation::value\<close> and \<open>get_data\<close>.\<close>

record opcode =
  op_value :: u8
  op_data :: bytes

text \<open>
  \<open>kl_opcode b rest\<close> is \<open>deserialize_next_opcode\<close> on an input that starts with the byte \<open>b\<close>: the
  opcode, and how many bytes of \<open>rest\<close> it takes. A script under construction is its bytes.
\<close>

record kaspa_lib =
  kl_If :: u8
  kl_Else :: u8
  kl_EndIf :: u8
  kl_False :: u8
  kl_True :: u8
  kl_SHA256 :: u8
  kl_EqualVerify :: u8
  kl_NumEqualVerify :: u8
  kl_TxInputCount :: u8
  kl_TxOutputCount :: u8
  kl_TxOutputSpk :: u8
  kl_TxOutputAmount :: u8
  kl_TxInputIndex :: u8
  kl_TxInputAmount :: u8
  kl_Sub :: u8
  kl_GreaterThanOrEqual :: u8
  kl_CheckLockTimeVerify :: u8
  kl_opcode :: "u8 \<Rightarrow> bytes \<Rightarrow> (opcode \<times> nat, string) result"
  kl_add_op :: "u8 \<Rightarrow> bytes \<Rightarrow> (bytes, string) result"
  kl_add_data :: "bytes \<Rightarrow> bytes \<Rightarrow> (bytes, string) result"
  kl_add_i64 :: "int \<Rightarrow> bytes \<Rightarrow> (bytes, string) result"
  kl_pay_to_address_script :: "kaspa_address \<Rightarrow> script_public_key"
  kl_pay_to_script_hash_script :: "bytes \<Rightarrow> script_public_key"
  kl_extract_address :: "script_public_key \<Rightarrow> kaspa_prefix \<Rightarrow> (kaspa_address, string) result"
  kl_address_to_string :: "kaspa_address \<Rightarrow> string"
  kl_address_try_from :: "string \<Rightarrow> (kaspa_address, string) result"

section \<open>Errors\<close>

datatype data_type =
    Opcode | SecretHash | SwapId | ReceiverSpk | SenderSpk | Timelock
  | SenderReceiverAddress | Destination

datatype kaspa_error =
    TxScript string
  | TooManyOpcodes
  | OpcodeMismatch nat
  | MissingData data_type
  | InvalidSecretHashLength
  | InvalidSwapIdLength
  | InvalidSigScriptLength nat nat
  | WrongBranchSelector u8 u8
  | MissingSecret
  | MissingRedeemScript
  | InvalidSecretLength
  | KaspaOther string
  | ScriptBuilder string
  | ParseInt string
  | AddressParse string
  | FromUtf8 string
  | RpcTx string
  | RpcClient string
  | SafeBlockSend string
  | SwapNotFound bytes
  | HtlcUtxoNotFound bytes
  | ScriptAnnounceAddressMismatch string string
  | ScriptAnnounceSwapIdMismatch bytes bytes
  | ScriptAnnounceTimelockMismatch u64 u64
  | InsufficientFunds u64 u64
  | NoUtxos

definition script_err :: "string \<Rightarrow> kaspa_error" where
  "script_err e = ScriptBuilder e"

fun show_data_type :: "data_type \<Rightarrow> string" where
  "show_data_type Opcode = ''Opcode''"
| "show_data_type SecretHash = ''SecretHash''"
| "show_data_type SwapId = ''SwapId''"
| "show_data_type ReceiverSpk = ''ReceiverSpk''"
| "show_data_type SenderSpk = ''SenderSpk''"
| "show_data_type Timelock = ''Timelock''"
| "show_data_type SenderReceiverAddress = ''SenderReceiverAddress''"
| "show_data_type Destination = ''Destination''"

text \<open>The \<open>Display\<close> text of an error; \<open>hex::encode\<close> of a byte string is \<open>hex_lower\<close>.\<close>

fun kaspa_error_to_string :: "kaspa_error \<Rightarrow> string" where
  "kaspa_error_to_string (TxScript e) = ''Kaspa Tx Script Error: '' @ e"
| "kaspa_error_to_string TooManyOpcodes = ''HTLC Validation: Too many opcodes in script''"
| "kaspa_error_to_string (OpcodeMismatch i) =
     ''HTLC Validation: Opcode mismatch at position '' @ show_nat i"
| "kaspa_error_to_string (MissingData d) =
     ''HTLC Validation: Missing data for datatype '' @ show_data_type d"
| "kaspa_error_to_string InvalidSecretHashLength = ''HTLC Validation: Invalid secret hash length''"
| "kaspa_error_to_string InvalidSwapIdLength = ''HTLC Validation: Invalid swap ID length''"
| "kaspa_error_to_string (InvalidSigScriptLength expected got) =
     ''Invalid signature script length: expected '' @ show_nat expected @ '', got '' @ show_nat got"
| "kaspa_error_to_string (WrongBranchSelector expected got) =
     ''Wrong branch selector: expected 0x'' @ hex_lower [expected] @ '', got 0x'' @ hex_lower [got]"
| "kaspa_error_to_string MissingSecret = ''Missing secret in signature script''"
| "kaspa_error_to_string MissingRedeemScript = ''Missing redeem script in signature script''"
| "kaspa_error_to_string InvalidSecretLength = ''Invalid secret length: expected 32 bytes''"
| "kaspa_error_to_string (KaspaOther e) = ''Other error: '' @ e"
| "kaspa_error_to_string (ScriptBuilder e) = ''Script builder error: '' @ e"
| "kaspa_error_to_string (ParseInt e) = ''Parse int error: '' @ e"
| "kaspa_error_to_string (AddressParse e) = ''Kaspa address parsing error: '' @ e"
| "kaspa_error_to_string (FromUtf8 e) = ''From utf8 error: '' @ e"
| "kaspa_error_to_string (RpcTx e) = ''Kaspa Rpc Tx Error: '' @ e"
| "kaspa_error_to_string (RpcClient e) = ''Kaspa WRpc Client error: '' @ e"
| "kaspa_error_to_string (SafeBlockSend e) = ''Safe block send error: '' @ e"
| "kaspa_error_to_string (SwapNotFound i) = ''Swap not found: '' @ hex_lower i"
| "kaspa_error_to_string (HtlcUtxoNotFound i) =
     ''HTLC UTXO not found on-chain for swap: '' @ hex_lower i"
| "kaspa_error_to_string (ScriptAnnounceAddressMismatch announced derived) =
     ''ScriptAnnounce validation: announced address '' @ announced @
     '' does not match P2SH derived from script ('' @ derived @ '')''"
| "kaspa_error_to_string (ScriptAnnounceSwapIdMismatch a b) =
     ''ScriptAnnounce validation: swap_id '' @ hex_lower a @ '' does not match announced '' @ hex_lower b"
| "kaspa_error_to_string (ScriptAnnounceTimelockMismatch s a) =
     ''ScriptAnnounce validation: timelock '' @ show_nat (unat s) @ ''s does not match announced '' @
     show_nat (unat a) @ ''s''"
| "kaspa_error_to_string (InsufficientFunds needed available) =
     ''Insufficient funds: need '' @ show_nat (unat needed) @ '' sompi, have '' @
     show_nat (unat available) @ '' sompi''"
| "kaspa_error_to_string NoUtxos = ''No UTXOs available for address''"

definition data_error_from_kaspa :: "kaspa_error \<Rightarrow> data_error" where
  "data_error_from_kaspa e = OtherError (kaspa_error_to_string e)"

section \<open>The contract\<close>

datatype expected_op_code = OpCode u8 | Data

definition EXPECTED_OPCODES :: "kaspa_lib \<Rightarrow> (expected_op_code \<times> data_type) list" where
  "EXPECTED_OPCODES L =
     [(OpCode (kl_If L), Opcode),
      (OpCode (kl_SHA256 L), Opcode),
      (Data, SecretHash),
      (OpCode (kl_EqualVerify L), Opcode),
      (OpCode (kl_TxInputCount L), Opcode),
      (Data, Opcode),
      (OpCode (kl_NumEqualVerify L), Opcode),
      (OpCode (kl_TxOutputCount L), Opcode),
      (Data, Opcode),
      (OpCode (kl_NumEqualVerify L), Opcode),
      (Data, ReceiverSpk),
      (Data, Opcode),
      (OpCode (kl_TxOutputSpk L), Opcode),
      (OpCode (kl_EqualVerify L), Opcode),
      (Data, Opcode),
      (OpCode (kl_TxOutputAmount L), Opcode),
      (OpCode (kl_TxInputIndex L), Opcode),
      (OpCode (kl_TxInputAmount L), Opcode),
      (Data, Opcode),
      (OpCode (kl_Sub L), Opcode),
      (OpCode (kl_GreaterThanOrEqual L), Opcode),
      (OpCode (kl_Else L), Opcode),
      (Data, Timelock),
      (OpCode (kl_CheckLockTimeVerify L), Opcode),
      (OpCode (kl_TxInputCount L), Opcode),
      (Data, Opcode),
      (OpCode (kl_NumEqualVerify L), Opcode),
      (OpCode (kl_TxOutputCount L), Opcode),
      (Data, Opcode),
      (OpCode (kl_NumEqualVerify L), Opcode),
      (Data, SenderSpk),
      (Data, Opcode),
      (OpCode (kl_TxOutputSpk L), Opcode),
      (OpCode (kl_EqualVerify L), Opcode),
      (Data, Opcode),
      (OpCode (kl_TxOutputAmount L), Opcode),
      (OpCode (kl_TxInputIndex L), Opcode),
      (OpCode (kl_TxInputAmount L), Opcode),
      (Data, Opcode),
      (OpCode (kl_Sub L), Opcode),
      (OpCode (kl_GreaterThanOrEqual L), Opcode),
      (OpCode (kl_EndIf L), Opcode),
      (OpCode (kl_False L), Opcode),
      (OpCode (kl_If L), Opcode),
      (Data, SwapId),
      (Data, SenderReceiverAddress),
      (Data, Destination),
      (OpCode (kl_EndIf L), Opcode)]"

definition SOLVER_REWARD :: int where "SOLVER_REWARD = 10000000"

text \<open>A chain of builder calls, each with the \<open>?\<close> operator.\<close>

datatype build_step = AddOp u8 | AddData bytes | AddI64 int

fun run_step :: "kaspa_lib \<Rightarrow> build_step \<Rightarrow> bytes \<Rightarrow> (bytes, string) result" where
  "run_step L (AddOp c) s = kl_add_op L c s"
| "run_step L (AddData d) s = kl_add_data L d s"
| "run_step L (AddI64 n) s = kl_add_i64 L n s"

fun build_script :: "kaspa_lib \<Rightarrow> build_step list \<Rightarrow> bytes \<Rightarrow> (bytes, string) result" where
  "build_script L [] s = Inr s"
| "build_script L (st # sts) s = r_bind (run_step L st s) (build_script L sts)"

definition htlc_steps ::
  "kaspa_lib \<Rightarrow> bytes \<Rightarrow> bytes \<Rightarrow> bytes \<Rightarrow> bytes \<Rightarrow> u64 \<Rightarrow> u8 \<Rightarrow> bytes \<Rightarrow> build_step list" where
  "htlc_steps L sender_spk sender_receiver_address receiver_spk secret_hash timelock destination swap_id =
     [AddOp (kl_If L),
      AddOp (kl_SHA256 L),
      AddData secret_hash,
      AddOp (kl_EqualVerify L),
      AddOp (kl_TxInputCount L),
      AddI64 2,
      AddOp (kl_NumEqualVerify L),
      AddOp (kl_TxOutputCount L),
      AddI64 2,
      AddOp (kl_NumEqualVerify L),
      AddData receiver_spk,
      AddI64 0,
      AddOp (kl_TxOutputSpk L),
      AddOp (kl_EqualVerify L),
      AddI64 0,
      AddOp (kl_TxOutputAmount L),
      AddOp (kl_TxInputIndex L),
      AddOp (kl_TxInputAmount L),
      AddI64 SOLVER_REWARD,
      AddOp (kl_Sub L),
      AddOp (kl_GreaterThanOrEqual L),
      AddOp (kl_Else L),
      AddI64 (sint timelock),
      AddOp (kl_CheckLockTimeVerify L),
      AddOp (kl_TxInputCount L),
      AddI64 2,
      AddOp (kl_NumEqualVerify L),
      AddOp (kl_TxOutputCount L),
      AddI64 2,
      AddOp (kl_NumEqualVerify L),
      AddData sender_spk,
      AddI64 0,
      AddOp (kl_TxOutputSpk L),
      AddOp (kl_EqualVerify L),
      AddI64 0,
      AddOp (kl_TxOutputAmount L),
      AddOp (kl_TxInputIndex L),
      AddOp (kl_TxInputAmount L),
      AddI64 SOLVER_REWARD,
      AddOp (kl_Sub L),
      AddOp (kl_GreaterThanOrEqual L),
      AddOp (kl_EndIf L),
      AddOp (kl_False L),
      AddOp (kl_If L),
      AddData swap_id,
      AddData sender_receiver_address,
      AddData [destination],
      AddOp (kl_EndIf L)]"

definition create_htlc_script ::
  "kaspa_lib \<Rightarrow> bytes \<Rightarrow> bytes \<Rightarrow> bytes \<Rightarrow> bytes \<Rightarrow> u64 \<Rightarrow> u8 \<Rightarrow> bytes \<Rightarrow> (bytes, string) result" where
  "create_htlc_script L sender_spk sender_receiver_address receiver_spk secret_hash timelock destination swap_id =
     build_script L
       (htlc_steps L sender_spk sender_receiver_address receiver_spk secret_hash timelock destination swap_id) []"

text \<open>Only the first eight bytes count; missing bytes are zero.\<close>

definition decode_u64_from_script :: "bytes \<Rightarrow> u64" where
  "decode_u64_from_script bs =
     (let padded = take 8 bs @ replicate (8 - length bs) 0 in from_le_bytes padded)"

section \<open>Reading scripts\<close>

function parse_script :: "kaspa_lib \<Rightarrow> bytes \<Rightarrow> (opcode list, string) result" where
  "parse_script L [] = Inr []"
| "parse_script L (b # rest) =
     r_bind (kl_opcode L b rest) (\<lambda>(op, n).
     r_bind (parse_script L (drop n rest)) (\<lambda>ops. Inr (op # ops)))"
  by pat_completeness auto
termination
  by (relation "measure (\<lambda>(L, s). length s)") auto

definition value_to_bytes :: "u8 \<Rightarrow> bytes" where
  "value_to_bytes val =
     (if val = 0x00 then [0] else if 0x51 \<le> val \<and> val \<le> 0x60 then [val - 0x50] else [])"

definition extract_opcode_data :: "opcode \<Rightarrow> bytes" where
  "extract_opcode_data op = (if op_data op \<noteq> [] then op_data op else value_to_bytes (op_value op))"

fun collect_from ::
  "kaspa_lib \<Rightarrow> nat \<Rightarrow> opcode list \<Rightarrow> (data_type, bytes) hashmap
     \<Rightarrow> ((data_type, bytes) hashmap, kaspa_error) result" where
  "collect_from L i [] data = Inr data"
| "collect_from L i (op # ops) data =
     (if i < length (EXPECTED_OPCODES L) then
        (case EXPECTED_OPCODES L ! i of
           (OpCode expected, label) \<Rightarrow>
             if op_value op \<noteq> expected then Inl (OpcodeMismatch i)
             else collect_from L (Suc i) ops data
         | (Data, label) \<Rightarrow>
             collect_from L (Suc i) ops
               (if label \<noteq> Opcode then hm_insert label (extract_opcode_data op) data else data))
      else Inl TooManyOpcodes)"

definition collect_data :: "kaspa_lib \<Rightarrow> opcode list \<Rightarrow> ((data_type, bytes) hashmap, kaspa_error) result" where
  "collect_data L script =
     (if length script \<noteq> length (EXPECTED_OPCODES L) then Inl TooManyOpcodes
      else collect_from L 0 script hm_empty)"

definition spk_to_vec :: "script_public_key \<Rightarrow> bytes" where
  "spk_to_vec spk =
     [ucast (drop_bit 8 (spk_version spk)), ucast (spk_version spk)] @ spk_script spk"

definition spk_from_bytes :: "bytes \<Rightarrow> (script_public_key, kaspa_error) result" where
  "spk_from_bytes bs =
     (case bs of
        v0 # v1 # script \<Rightarrow>
          Inr \<lparr>spk_version = push_bit 8 (ucast v0) + ucast v1, spk_script = script\<rparr>
      | _ \<Rightarrow> Inl (InvalidSigScriptLength 2 (length bs)))"

definition nonempty_data :: "(data_type, bytes) hashmap \<Rightarrow> data_type \<Rightarrow> (bytes, kaspa_error) result" where
  "nonempty_data data label =
     ok_or (case hm_get data label of Some v \<Rightarrow> if v \<noteq> [] then Some v else None | None \<Rightarrow> None)
       (MissingData label)"

definition extract_commitment ::
  "kaspa_lib \<Rightarrow> opcode list \<Rightarrow> string \<Rightarrow> kaspa_prefix \<Rightarrow> channel_id \<Rightarrow> (commitment_v1, kaspa_error) result" where
  "extract_commitment L script amount prefix source_channel_id =
     r_bind (collect_data L script) (\<lambda>data.
     r_bind (ok_or (hm_get data SwapId) (MissingData SwapId)) (\<lambda>swap_id.
     r_bind (if length swap_id = 32 then Inr swap_id else Inl InvalidSwapIdLength) (\<lambda>swap_id.
     r_bind (nonempty_data data SenderSpk) (\<lambda>sender.
     r_bind (nonempty_data data ReceiverSpk) (\<lambda>receiver.
     r_bind (ok_or (hm_get data SecretHash) (MissingData SecretHash)) (\<lambda>secret_hash.
     r_bind (if length secret_hash = 32 then Inr secret_hash else Inl InvalidSecretHashLength) (\<lambda>secret_hash.
     r_bind (nonempty_data data Timelock) (\<lambda>timelock.
     let unlock_ts_ms = decode_u64_from_script timelock;
         unlock_ts = unlock_ts_ms div 1000 in
     r_bind (nonempty_data data SenderReceiverAddress) (\<lambda>sender_destination_address.
     r_bind (nonempty_data data Destination) (\<lambda>destination.
     r_bind (spk_from_bytes sender) (\<lambda>sender_spk.
     r_bind (map_err TxScript (kl_extract_address L sender_spk prefix)) (\<lambda>sender_addr.
     r_bind (spk_from_bytes receiver) (\<lambda>receiver_spk.
     r_bind (map_err TxScript (kl_extract_address L receiver_spk prefix)) (\<lambda>receiver_addr.
     r_bind (ok_or (from_utf8 sender_destination_address) 
       (FromUtf8 (utf8_error 0 sender_destination_address))) (\<lambda>sender_destination.
     Inr (commitment_new swap_id
       (addresses_new (kl_address_to_string L sender_addr) (kl_address_to_string L receiver_addr)
          sender_destination)
       (amount_new amount 8) secret_hash unlock_ts (channel_as_u8 source_channel_id)
       (hd destination)))))))))))))))))"

definition extract_reveal_secret :: "kaspa_lib \<Rightarrow> opcode list \<Rightarrow> (bytes, kaspa_error) result" where
  "extract_reveal_secret L sig_script =
     (case sig_script of
        [secret_op, selector_op, redeem_op] \<Rightarrow>
          if op_value selector_op \<noteq> kl_True L
          then Inl (WrongBranchSelector (kl_True L) (op_value selector_op))
          else
            (let secret = extract_opcode_data secret_op in
             if secret = [] then Inl MissingSecret
             else if length secret \<noteq> 32 then Inl InvalidSecretLength
             else if extract_opcode_data redeem_op = [] then Inl MissingRedeemScript
             else Inr secret)
      | _ \<Rightarrow> Inl (InvalidSigScriptLength 3 (length sig_script)))"

definition validate_refund_sig :: "kaspa_lib \<Rightarrow> opcode list \<Rightarrow> (unit, kaspa_error) result" where
  "validate_refund_sig L sig_script =
     (case sig_script of
        [selector_op, redeem_op] \<Rightarrow>
          if op_value selector_op \<noteq> kl_False L
          then Inl (WrongBranchSelector (kl_False L) (op_value selector_op))
          else if extract_opcode_data redeem_op = [] then Inl MissingRedeemScript
          else Inr ()
      | _ \<Rightarrow> Inl (InvalidSigScriptLength 2 (length sig_script)))"

definition reconstruct ::
  "kaspa_lib \<Rightarrow> utxo_script \<Rightarrow> kaspa_prefix \<Rightarrow> channel_id \<Rightarrow> (commitment_v1, kaspa_error) result" where
  "reconstruct L script prefix source_channel_id =
     r_bind (map_err TxScript (parse_script L (us_redeem_script script))) (\<lambda>ops.
     extract_commitment L ops (us_deposit_target script) prefix source_channel_id)"

definition commitments_from_scripts ::
  "kaspa_lib \<Rightarrow> (bytes, utxo_script) hashmap \<Rightarrow> kaspa_prefix \<Rightarrow> channel_id
     \<Rightarrow> (bytes, commitment_v1) hashmap" where
  "commitments_from_scripts L scripts prefix source_channel_id =
     fold (\<lambda>(swap_id, script) out.
       case reconstruct L script prefix source_channel_id of
         Inr c \<Rightarrow> hm_insert swap_id c out
       | Inl _ \<Rightarrow> out) (hm_iter scripts) hm_empty"

section \<open>Deposit addresses and announcements\<close>

definition parse_network_prefix :: "string \<Rightarrow> (kaspa_prefix, kaspa_error) result" where
  "parse_network_prefix network_id =
     (if starts_with ''mainnet'' network_id then Inr Mainnet
      else if starts_with ''testnet'' network_id then Inr Testnet
      else if starts_with ''simnet'' network_id then Inr Simnet
      else if starts_with ''devnet'' network_id then Inr Devnet
      else Inl (KaspaOther (''unknown kaspa network id: '' @ network_id)))"

definition p2sh_components ::
  "kaspa_lib \<Rightarrow> string \<Rightarrow> commitment_v1 \<Rightarrow> (string \<times> bytes, kaspa_error) result" where
  "p2sh_components L network_id commitment =
     r_bind (parse_network_prefix network_id) (\<lambda>prefix.
     r_bind (map_err (\<lambda>e. KaspaOther (''sender address: '' @ e))
       (kl_address_try_from L (ad_sender (cm_addresses commitment)))) (\<lambda>sender_addr.
     r_bind (map_err (\<lambda>e. KaspaOther (''receiver address: '' @ e))
       (kl_address_try_from L (ad_receiver (cm_addresses commitment)))) (\<lambda>receiver_addr.
     let sender_spk = kl_pay_to_address_script L sender_addr;
         receiver_spk = kl_pay_to_address_script L receiver_addr;
         unlock_ts_ms = saturating_mul (cm_unlock_ts commitment) 1000 in
     r_bind (map_err script_err (create_htlc_script L (spk_to_vec sender_spk)
       (bytes_of_chars (ad_sender_destination (cm_addresses commitment))) (spk_to_vec receiver_spk)
       (cm_secret_hash commitment) unlock_ts_ms (cm_destination commitment) (cm_swap_id commitment)))
       (\<lambda>redeem_script.
     let p2sh_spk = kl_pay_to_script_hash_script L redeem_script in
     r_bind (map_err (\<lambda>e. KaspaOther (''p2sh address derive: '' @ e)) (kl_extract_address L p2sh_spk prefix))
       (\<lambda>p2sh_addr. Inr (kl_address_to_string L p2sh_addr, redeem_script))))))"

definition validate_script_announce ::
  "kaspa_lib \<Rightarrow> string \<Rightarrow> channel_id \<Rightarrow> string \<Rightarrow> bytes \<Rightarrow> bytes \<Rightarrow> u64 \<Rightarrow> (unit, kaspa_error) result" where
  "validate_script_announce L network_id ch announced_address redeem_script expected_swap_id
       expected_expiration_secs =
     r_bind (parse_network_prefix network_id) (\<lambda>prefix.
     r_bind (map_err TxScript (parse_script L redeem_script)) (\<lambda>opcodes.
     r_bind (extract_commitment L opcodes ''0'' prefix ch) (\<lambda>extracted.
     if cm_swap_id extracted \<noteq> expected_swap_id
     then Inl (ScriptAnnounceSwapIdMismatch (cm_swap_id extracted) expected_swap_id)
     else if cm_unlock_ts extracted \<noteq> expected_expiration_secs
     then Inl (ScriptAnnounceTimelockMismatch (cm_unlock_ts extracted) expected_expiration_secs)
     else
       (let p2sh_spk = kl_pay_to_script_hash_script L redeem_script in
        r_bind (map_err (\<lambda>e. KaspaOther (''p2sh derive: '' @ e)) (kl_extract_address L p2sh_spk prefix))
          (\<lambda>derived.
        let derived_str = kl_address_to_string L derived in
        if derived_str \<noteq> announced_address
        then Inl (ScriptAnnounceAddressMismatch announced_address derived_str)
        else Inr ())))))"

definition htlc_script_from_commitment ::
  "kaspa_lib \<Rightarrow> commitment_v1
     \<Rightarrow> (bytes \<times> script_public_key \<times> script_public_key \<times> u64, kaspa_error) result" where
  "htlc_script_from_commitment L commitment =
     (let unlock_ts_ms = saturating_mul (cm_unlock_ts commitment) 1000 in
      r_bind (map_err AddressParse (kl_address_try_from L (ad_sender (cm_addresses commitment))))
        (\<lambda>sender_addr.
      let sender_spk = kl_pay_to_address_script L sender_addr in
      r_bind (map_err AddressParse (kl_address_try_from L (ad_receiver (cm_addresses commitment))))
        (\<lambda>receiver_addr.
      let receiver_spk = kl_pay_to_address_script L receiver_addr in
      r_bind (map_err script_err (create_htlc_script L (spk_to_vec sender_spk)
        (bytes_of_chars (ad_sender_destination (cm_addresses commitment))) (spk_to_vec receiver_spk)
        (cm_secret_hash commitment) unlock_ts_ms (cm_destination commitment) (cm_swap_id commitment)))
        (\<lambda>htlc_script. Inr (htlc_script, sender_spk, receiver_spk, unlock_ts_ms)))))"

section \<open>Signature scripts\<close>

text \<open>The signature scripts that \<open>submit_reveal\<close> and \<open>submit_refund\<close> build.\<close>

definition reveal_sig_script :: "kaspa_lib \<Rightarrow> bytes \<Rightarrow> bytes \<Rightarrow> (bytes, kaspa_error) result" where
  "reveal_sig_script L secret htlc_script =
     map_err script_err (build_script L [AddData secret, AddOp (kl_True L), AddData htlc_script] [])"

definition refund_sig_script :: "kaspa_lib \<Rightarrow> bytes \<Rightarrow> (bytes, kaspa_error) result" where
  "refund_sig_script L htlc_script =
     map_err script_err (build_script L [AddOp (kl_False L), AddData htlc_script] [])"

end
