(* ===== verification/Kaspa_Contract.thy ===== *)
theory Kaspa_Contract
  imports Kaspa_Script
begin

text \<open>
  What holds of the contract of the Kaspa channel: a deposit script derived from a commitment reads
  back as that commitment, announcements of such scripts are accepted, the signature scripts of
  claims and refunds are recognised, and which parts of a foreign script the validation leaves
  unchecked.
\<close>

section \<open>Script numbers\<close>

fun le_min :: "nat \<Rightarrow> bytes" where
  "le_min n = (if n = 0 then [] else of_nat (n mod 256) # le_min (n div 256))"

declare le_min.simps [simp del]

text \<open>The minimal little-endian sign-magnitude encoding of a script number.\<close>

definition script_num :: "int \<Rightarrow> bytes" where
  "script_num n =
     (let bs = le_min (nat \<bar>n\<bar>) in
      if bs = [] then []
      else if 0x80 \<le> last bs then bs @ [if n < 0 then 0x80 else 0]
      else if n < 0 then butlast bs @ [last bs + 0x80] else bs)"

lemma le_nat_le_min [simp]: "le_nat (le_min n) = n"
proof (induction n rule: le_min.induct)
  case (1 n)
  then show ?case
    by (subst le_min.simps) (auto simp: unat_byte_of_nat)
qed

lemma le_nat_append: "le_nat (xs @ ys) = le_nat xs + 256 ^ length xs * le_nat ys"
  by (induction xs) (simp_all add: algebra_simps)

lemma le_nat_zeros [simp]: "le_nat (replicate k 0) = 0"
  by (induction k) auto

lemma length_le_min: "n < 256 ^ k \<Longrightarrow> length (le_min n) \<le> k"
proof (induction k arbitrary: n)
  case 0
  then show ?case by (simp add: le_min.simps)
next
  case (Suc k)
  then have "n div 256 < 256 ^ k"
    by (simp add: less_mult_imp_div_less mult.commute)
  with Suc.IH show ?case
    by (subst le_min.simps) auto
qed

lemma script_num_length:
  assumes "0 \<le> n" and "n < 2 ^ 63"
  shows "length (script_num n) \<le> 8"
proof -
  let ?bs = "le_min (nat n)"
  have bound: "nat n < 2 ^ 63"
    using assms by (simp add: nat_less_iff)
  then have len: "length ?bs \<le> 8"
    by (intro length_le_min) simp
  have "length ?bs < 8" if top: "?bs \<noteq> []" "0x80 \<le> last ?bs"
  proof (rule ccontr)
    assume "\<not> length ?bs < 8"
    then have "length (butlast ?bs) = 7"
      using len by simp
    moreover have "?bs = butlast ?bs @ [last ?bs]"
      using top by simp
    ultimately have "nat n = le_nat (butlast ?bs) + 256 ^ 7 * unat (last ?bs)"
      by (metis add.right_neutral le_nat.simps le_nat_append le_nat_le_min mult_zero_right)
    moreover have "128 \<le> unat (last ?bs)"
      using top(2) by (simp add: word_le_nat_alt)
    ultimately show False
      using bound by simp
  qed
  with len assms show ?thesis
    by (auto simp: script_num_def Let_def)
qed

lemma le_nat_script_num:
  assumes "0 \<le> n"
  shows "le_nat (script_num n) = nat n"
proof (cases "le_min (nat n) = []")
  case True
  then have "nat n = 0"
    using le_nat_le_min [of "nat n"] by simp
  with True assms show ?thesis
    by (simp add: script_num_def)
next
  case False
  with assms show ?thesis
    by (auto simp: script_num_def Let_def le_nat_append)
qed

lemma decode_u64_short:
  assumes "length bs \<le> 8"
  shows "decode_u64_from_script bs = of_nat (le_nat bs)"
proof -
  have "le_nat (take 8 bs @ replicate (8 - length bs) 0) = le_nat bs"
    unfolding take_all [OF assms] le_nat_append le_nat_zeros by simp
  then show ?thesis
    unfolding decode_u64_from_script_def from_le_bytes_def Let_def by (rule arg_cong)
qed

lemma uint_less_of_unat:
  assumes "unat (t :: u64) < 2 ^ 63"
  shows "uint t < 2 ^ 63"
proof -
  have "nat (uint t) < 2 ^ 63"
    using assms by (simp only: nat_uint_eq)
  then show ?thesis
    by (simp only: nat_less_iff [OF uint_ge_0] of_nat_power of_nat_numeral)
qed

lemma sint_nonneg:
  assumes "unat t < 2 ^ 63"
  shows "sint (t :: u64) = uint t"
proof -
  have "signed_take_bit 63 (uint t) = uint t"
    using uint_less_of_unat [OF assms] uint_ge_0 [of t]
    by (intro signed_take_bit_int_eq_self) linarith+
  then show ?thesis
    by (simp add: sint_uint)
qed

lemma decode_u64_script_num:
  assumes "unat t < 2 ^ 63"
  shows "decode_u64_from_script (script_num (sint t)) = (t :: u64)"
  unfolding sint_nonneg [OF assms]
    decode_u64_short [OF script_num_length [OF uint_ge_0 uint_less_of_unat [OF assms]]]
    le_nat_script_num [OF uint_ge_0]
  by simp

section \<open>What the code relies on of the script library\<close>

text \<open>
  \<open>pushes d op\<close>: the opcode \<open>op\<close> pushes the data \<open>d\<close>, either directly or, for a single small
  number, as the opcode of that number.
\<close>

definition pushes :: "bytes \<Rightarrow> opcode \<Rightarrow> bool" where
  "pushes d op =
     (op_data op = d \<and> d \<noteq> [] \<or>
      op_data op = [] \<and>
        ((d = [] \<or> d = [0]) \<and> op_value op = 0 \<or>
         (\<exists>b. d = [b] \<and> 1 \<le> b \<and> b \<le> 16 \<and> op_value op = 0x50 + b) \<or>
         d = [0x81] \<and> op_value op = 0x4F))"

text \<open>\<open>reads L p op\<close>: the bytes \<open>p\<close>, whatever follows them, read as the opcode \<open>op\<close>.\<close>

definition reads :: "kaspa_lib \<Rightarrow> bytes \<Rightarrow> opcode \<Rightarrow> bool" where
  "reads L p op = (\<exists>b bs. p = b # bs \<and> (\<forall>rest. kl_opcode L b (bs @ rest) = Inr (op, length bs)))"

definition single_codes :: "kaspa_lib \<Rightarrow> u8 set" where
  "single_codes L =
     {kl_If L, kl_Else L, kl_EndIf L, kl_False L, kl_True L, kl_SHA256 L, kl_EqualVerify L,
      kl_NumEqualVerify L, kl_TxInputCount L, kl_TxOutputCount L, kl_TxOutputSpk L, kl_TxOutputAmount L,
      kl_TxInputIndex L, kl_TxInputAmount L, kl_Sub L, kl_GreaterThanOrEqual L, kl_CheckLockTimeVerify L}"

definition step_view :: "build_step \<Rightarrow> opcode \<Rightarrow> bool" where
  "step_view st op =
     (case st of
        AddOp c \<Rightarrow> op = \<lparr>op_value = c, op_data = []\<rparr>
      | AddData d \<Rightarrow> pushes d op
      | AddI64 n \<Rightarrow> pushes (script_num n) op)"

locale txscript =
  fixes L :: kaspa_lib
  assumes add_op: "kl_add_op L c s = Inr s' \<Longrightarrow> s' = s @ [c]"
    and single_code: "c \<in> single_codes L \<Longrightarrow> reads L [c] \<lparr>op_value = c, op_data = []\<rparr>"
    and add_data: "kl_add_data L d s = Inr s' \<Longrightarrow> \<exists>p op. s' = s @ p \<and> reads L p op \<and> pushes d op"
    and add_i64: "kl_add_i64 L n s = Inr s' \<Longrightarrow> \<exists>p op. s' = s @ p \<and> reads L p op \<and> pushes (script_num n) op"
begin

lemma step_chunk:
  assumes "run_step L st s = Inr s'" and "\<forall>c. st = AddOp c \<longrightarrow> c \<in> single_codes L"
  shows "\<exists>p op. s' = s @ p \<and> reads L p op \<and> step_view st op"
proof (cases st)
  case (AddOp c)
  with assms show ?thesis
    using add_op [of c s s'] single_code [of c] by (auto simp: step_view_def)
next
  case (AddData d)
  with assms show ?thesis
    using add_data [of d s s'] by (auto simp: step_view_def)
next
  case (AddI64 n)
  with assms show ?thesis
    using add_i64 [of n s s'] by (auto simp: step_view_def)
qed

lemma build_chunks:
  assumes "build_script L sts s = Inr s'" and "\<forall>c. AddOp c \<in> set sts \<longrightarrow> c \<in> single_codes L"
  shows "\<exists>ps ops. s' = s @ concat ps \<and> list_all2 (reads L) ps ops \<and> list_all2 step_view sts ops"
  using assms
proof (induction sts arbitrary: s)
  case Nil
  then show ?case
    by (auto intro!: exI [of _ "[]"])
next
  case (Cons st sts)
  from Cons.prems obtain s1 where s1: "run_step L st s = Inr s1" "build_script L sts s1 = Inr s'"
    by (auto simp: result_simps)
  obtain p op where p: "s1 = s @ p" "reads L p op" "step_view st op"
    using step_chunk [OF s1(1)] Cons.prems(2) by auto
  obtain ps ops where "s' = s1 @ concat ps" "list_all2 (reads L) ps ops" "list_all2 step_view sts ops"
    using Cons.IH [OF s1(2)] Cons.prems(2) by auto
  with p show ?case
    by (intro exI [of _ "p # ps"] exI [of _ "op # ops"]) simp
qed

lemma parse_chunks: "list_all2 (reads L) ps ops \<Longrightarrow> parse_script L (concat ps) = Inr ops"
  by (induction ps ops rule: list_all2_induct) (auto simp: reads_def)

lemma build_parse:
  assumes "build_script L sts [] = Inr s" and "\<forall>c. AddOp c \<in> set sts \<longrightarrow> c \<in> single_codes L"
  shows "\<exists>ops. parse_script L s = Inr ops \<and> list_all2 step_view sts ops"
  using build_chunks [OF assms] parse_chunks by auto

end

section \<open>Reading a commitment back\<close>

lemma parse_script_length: "parse_script L s = Inr ops \<Longrightarrow> length ops \<le> length s"
proof (induction L s arbitrary: ops rule: parse_script.induct)
  case (1 L)
  then show ?case by simp
next
  case (2 L b rest)
  then obtain op n ops' where "kl_opcode L b rest = Inr (op, n)" "parse_script L (drop n rest) = Inr ops'"
      "ops = op # ops'"
    by (auto simp: result_simps)
  with 2 show ?case
    by fastforce
qed

lemma pushes_extract:
  assumes "pushes d op" and "d \<noteq> [0x81]"
  shows "extract_opcode_data op = (if d = [] then [0] else d)"
proof -
  have small: "value_to_bytes (0x50 + b) = [b]" if "1 \<le> b" "b \<le> 16" for b :: u8
  proof -
    have "unat (0x50 + b) = 0x50 + unat b"
      using that by (subst unat_add_no_wrap) (simp_all add: word_le_nat_alt)
    with that have "0x51 \<le> 0x50 + b" "0x50 + b \<le> 0x60" "0x50 + b \<noteq> 0"
      by (auto simp: word_le_nat_alt word_unat_eq_iff)
    then show ?thesis
      by (simp add: value_to_bytes_def)
  qed
  have "value_to_bytes 0 = [0]"
    by (simp add: value_to_bytes_def)
  with assms small show ?thesis
    by (auto simp: pushes_def extract_opcode_data_def)
qed

lemma pushes_extract_long: "pushes d op \<Longrightarrow> 2 \<le> length d \<Longrightarrow> extract_opcode_data op = d \<and> op_data op = d"
  by (auto simp: pushes_def extract_opcode_data_def)

fun insert_label ::
  "(expected_op_code \<times> data_type) \<Rightarrow> opcode \<Rightarrow> (data_type, bytes) hashmap \<Rightarrow> (data_type, bytes) hashmap" where
  "insert_label (OpCode c, label) op data = data"
| "insert_label (Data, label) op data =
     (if label \<noteq> Opcode then hm_insert label (extract_opcode_data op) data else data)"

fun op_matches :: "(expected_op_code \<times> data_type) \<Rightarrow> opcode \<Rightarrow> bool" where
  "op_matches (OpCode c, label) op = (op_value op = c)"
| "op_matches (Data, label) op = True"

lemma collect_from_ok:
  assumes "list_all2 op_matches es ops" and "drop i (EXPECTED_OPCODES L) = es @ tail"
  shows "collect_from L i ops data = Inr (fold (\<lambda>(e, op). insert_label e op) (zip es ops) data)"
  using assms
proof (induction es ops arbitrary: i data rule: list_all2_induct)
  case Nil
  then show ?case by simp
next
  case (Cons e es op ops)
  have i: "i < length (EXPECTED_OPCODES L)"
    using Cons.prems by (metis append_Cons drop_eq_Nil list.discI not_le)
  then have "EXPECTED_OPCODES L ! i = e" "drop (Suc i) (EXPECTED_OPCODES L) = es @ tail"
    using Cons.prems by (simp_all add: Cons_nth_drop_Suc [symmetric])
  with i Cons show ?case
    by (cases "(e, op)" rule: op_matches.cases) auto
qed

lemma collect_data_ok:
  "list_all2 op_matches (EXPECTED_OPCODES L) ops \<Longrightarrow>
   collect_data L ops = Inr (fold (\<lambda>(e, op). insert_label e op) (zip (EXPECTED_OPCODES L) ops) hm_empty)"
  using collect_from_ok [of "EXPECTED_OPCODES L" ops 0 L "[]" hm_empty]
  by (simp add: collect_data_def list_all2_lengthD)

lemma collect_from_unlabelled:
  assumes "i + j < length (EXPECTED_OPCODES L)" and "EXPECTED_OPCODES L ! (i + j) = (Data, Opcode)"
  shows "collect_from L i (ops[j := op]) data = collect_from L i ops data"
  using assms
proof (induction L i ops data arbitrary: j rule: collect_from.induct)
  case (1 L i data)
  then show ?case by simp
next
  case (2 L i o' ops data)
  show ?case
  proof (cases j)
    case 0
    with 2 show ?thesis by simp
  next
    case (Suc k)
    with 2 show ?thesis
      by (auto split: prod.split expected_op_code.split)
  qed
qed

lemma script_num_not_negative_one:
  assumes "0 \<le> n"
  shows "script_num n \<noteq> [0x81]"
proof
  assume eq: "script_num n = [0x81]"
  then have "n = 129"
    using le_nat_script_num [OF assms] assms by simp
  moreover have "le_min 129 = [0x81]"
    by (simp add: le_min.simps)
  ultimately show False
    using eq by (simp add: script_num_def)
qed

lemma htlc_steps_single_codes:
  "\<forall>c. AddOp c \<in> set (htlc_steps L ss sra rs sh t dst sid) \<longrightarrow> c \<in> single_codes L"
  by (auto simp: htlc_steps_def single_codes_def)

lemma htlc_steps_match:
  assumes "list_all2 step_view (htlc_steps L ss sra rs sh t dst sid) ops"
  shows "list_all2 op_matches (EXPECTED_OPCODES L) ops"
proof -
  have "list_all2 (\<lambda>e st. \<forall>op. step_view st op \<longrightarrow> op_matches e op) (EXPECTED_OPCODES L)
      (htlc_steps L ss sra rs sh t dst sid)"
    by (simp add: EXPECTED_OPCODES_def htlc_steps_def step_view_def)
  from list_all2_trans [OF _ this assms] show ?thesis
    by auto
qed

lemma htlc_collect:
  assumes "list_all2 step_view (htlc_steps L ss sra rs sh t dst sid) ops"
  shows "\<exists>data. collect_data L ops = Inr data \<and>
    hm_get data SecretHash = Some (extract_opcode_data (ops ! 2)) \<and> pushes sh (ops ! 2) \<and>
    hm_get data ReceiverSpk = Some (extract_opcode_data (ops ! 10)) \<and> pushes rs (ops ! 10) \<and>
    hm_get data Timelock = Some (extract_opcode_data (ops ! 22)) \<and> pushes (script_num (sint t)) (ops ! 22) \<and>
    hm_get data SenderSpk = Some (extract_opcode_data (ops ! 30)) \<and> pushes ss (ops ! 30) \<and>
    hm_get data SwapId = Some (extract_opcode_data (ops ! 44)) \<and> pushes sid (ops ! 44) \<and>
    hm_get data SenderReceiverAddress = Some (extract_opcode_data (ops ! 45)) \<and> pushes sra (ops ! 45) \<and>
    hm_get data Destination = Some (extract_opcode_data (ops ! 46)) \<and> pushes [dst] (ops ! 46)"
proof -
  let ?data = "fold (\<lambda>(e, op). insert_label e op) (zip (EXPECTED_OPCODES L) ops) hm_empty"
  have len: "length ops = 48"
    using list_all2_lengthD [OF assms] by (simp add: htlc_steps_def)
  have "list_all2 step_view (htlc_steps L ss sra rs sh t dst sid) ops \<Longrightarrow> i < 48 \<Longrightarrow>
     step_view (htlc_steps L ss sra rs sh t dst sid ! i) (ops ! i)" for i
    by (rule list_all2_nthD) (simp_all add: htlc_steps_def)
  note view = this [OF assms]
  have views: "pushes sh (ops ! 2)" "pushes rs (ops ! 10)" "pushes (script_num (sint t)) (ops ! 22)"
      "pushes ss (ops ! 30)" "pushes sid (ops ! 44)" "pushes sra (ops ! 45)" "pushes [dst] (ops ! 46)"
    using view [of 2] view [of 10] view [of 22] view [of 30] view [of 44] view [of 45] view [of 46]
    by (simp_all add: htlc_steps_def step_view_def)
  have ops: "ops = map ((!) ops) [0..<48]"
    using map_nth [of ops] len by simp
  have data: "?data = hm_insert Destination (extract_opcode_data (ops ! 46))
      (hm_insert SenderReceiverAddress (extract_opcode_data (ops ! 45))
      (hm_insert SwapId (extract_opcode_data (ops ! 44))
      (hm_insert SenderSpk (extract_opcode_data (ops ! 30))
      (hm_insert Timelock (extract_opcode_data (ops ! 22))
      (hm_insert ReceiverSpk (extract_opcode_data (ops ! 10))
      (hm_insert SecretHash (extract_opcode_data (ops ! 2)) hm_empty))))))"
    by (subst ops) (simp add: EXPECTED_OPCODES_def upt_rec, simp add: eval_nat_numeral)
  show ?thesis
    using views
    by (intro exI [of _ ?data]) (simp add: collect_data_ok [OF htlc_steps_match [OF assms]] data)
qed

lemma u16_from_be_bytes:
  "push_bit 8 (ucast (ucast (drop_bit 8 v) :: u8)) + ucast (ucast v :: u8) = (v :: u16)"
proof -
  have v: "unat v < 65536"
    using unsigned_less [of v, where ?'a = nat] by simp
  then have hi: "unat (ucast (drop_bit 8 v) :: u8) = unat v div 256"
    by (simp add: unsigned_ucast_eq drop_bit_eq_div unat_div_distrib take_bit_eq_mod)
  have lo: "unat (ucast v :: u8) = unat v mod 256"
    by (simp add: unsigned_ucast_eq take_bit_eq_mod)
  have "v = of_nat (256 * (unat v div 256) + unat v mod 256)"
    by simp
  also have "\<dots> = of_nat (256 * unat (ucast (drop_bit 8 v) :: u8) + unat (ucast v :: u8))"
    by (simp only: hi lo)
  also have "\<dots> = push_bit 8 (ucast (ucast (drop_bit 8 v) :: u8)) + ucast (ucast v :: u8)"
    by (simp add: push_bit_eq_mult mult.commute)
  finally show ?thesis
    by simp
qed

lemma spk_from_to_vec [simp]: "spk_from_bytes (spk_to_vec spk) = Inr spk"
  by (simp add: spk_from_bytes_def spk_to_vec_def u16_from_be_bytes)

lemma length_spk_to_vec: "2 \<le> length (spk_to_vec spk)"
  by (simp add: spk_to_vec_def)

lemma nonempty_data_Some [simp]:
  "hm_get data label = Some v \<Longrightarrow> v \<noteq> [] \<Longrightarrow> nonempty_data data label = Inr v"
  by (simp add: nonempty_data_def)

lemma extract_htlc:
  assumes ops: "list_all2 step_view (htlc_steps L (spk_to_vec sspk) sra (spk_to_vec rspk) sh t dst sid) ops"
    and lengths: "length sh = 32" "length sid = 32"
    and dest: "sra \<noteq> []" "sra \<noteq> [0x81]" "from_utf8 sra = Some sender_dest" "dst \<noteq> 0x81"
    and t: "unat t < 2 ^ 63"
    and addrs: "kl_extract_address L sspk prefix = Inr sa" "kl_extract_address L rspk prefix = Inr ra"
  shows "extract_commitment L ops amount prefix ch =
    Inr (commitment_new sid
      (addresses_new (kl_address_to_string L sa) (kl_address_to_string L ra) sender_dest)
      (amount_new amount 8) sh (t div 1000) (channel_as_u8 ch) dst)"
proof -
  obtain data where data: "collect_data L ops = Inr data"
      "hm_get data SecretHash = Some (extract_opcode_data (ops ! 2))" "pushes sh (ops ! 2)"
      "hm_get data ReceiverSpk = Some (extract_opcode_data (ops ! 10))" "pushes (spk_to_vec rspk) (ops ! 10)"
      "hm_get data Timelock = Some (extract_opcode_data (ops ! 22))" "pushes (script_num (sint t)) (ops ! 22)"
      "hm_get data SenderSpk = Some (extract_opcode_data (ops ! 30))" "pushes (spk_to_vec sspk) (ops ! 30)"
      "hm_get data SwapId = Some (extract_opcode_data (ops ! 44))" "pushes sid (ops ! 44)"
      "hm_get data SenderReceiverAddress = Some (extract_opcode_data (ops ! 45))" "pushes sra (ops ! 45)"
      "hm_get data Destination = Some (extract_opcode_data (ops ! 46))" "pushes [dst] (ops ! 46)"
    using htlc_collect [OF ops] by blast
  let ?tb = "extract_opcode_data (ops ! 22)"
  have tb: "?tb = (if script_num (sint t) = [] then [0] else script_num (sint t))"
    using data(7) t by (intro pushes_extract) (simp_all add: script_num_not_negative_one sint_nonneg)
  have "decode_u64_from_script [0] = decode_u64_from_script []"
    by (simp add: decode_u64_from_script_def from_le_bytes_def le_nat_append)
  with tb have unlock: "?tb \<noteq> []" "decode_u64_from_script ?tb = t"
    using decode_u64_script_num [OF t] by (auto split: if_splits)
  have "extract_opcode_data (ops ! 2) = sh" "extract_opcode_data (ops ! 44) = sid"
      "extract_opcode_data (ops ! 10) = spk_to_vec rspk" "extract_opcode_data (ops ! 30) = spk_to_vec sspk"
      "extract_opcode_data (ops ! 45) = sra" "extract_opcode_data (ops ! 46) = [dst]"
    using data lengths dest length_spk_to_vec
    by (simp_all add: pushes_extract_long pushes_extract)
  moreover have "spk_to_vec sspk \<noteq> []" "spk_to_vec rspk \<noteq> []"
    by (simp_all add: spk_to_vec_def)
  ultimately show ?thesis
    using data unlock lengths dest addrs by (simp add: extract_commitment_def Let_def)
qed

section \<open>Deposit scripts\<close>

text \<open>An address string that belongs to the network and is in canonical form.\<close>

definition canonical_address :: "kaspa_lib \<Rightarrow> kaspa_prefix \<Rightarrow> string \<Rightarrow> bool" where
  "canonical_address L prefix s =
     (case kl_address_try_from L s of
        Inl _ \<Rightarrow> False
      | Inr a \<Rightarrow> kl_address_to_string L a = s \<and>
          kl_extract_address L (kl_pay_to_address_script L a) prefix = Inr a)"

definition deposit_ok :: "kaspa_lib \<Rightarrow> kaspa_prefix \<Rightarrow> commitment_v1 \<Rightarrow> bool" where
  "deposit_ok L prefix c =
     (length (cm_swap_id c) = 32 \<and> length (cm_secret_hash c) = 32 \<and>
      canonical_address L prefix (ad_sender (cm_addresses c)) \<and>
      canonical_address L prefix (ad_receiver (cm_addresses c)) \<and>
      ad_sender_destination (cm_addresses c) \<noteq> [] \<and>
      utf8_valid (bytes_of_chars (ad_sender_destination (cm_addresses c))) \<and>
      cm_destination c \<noteq> 0x81 \<and> unat (cm_unlock_ts c) * 1000 < 2 ^ 63)"

definition read_back :: "commitment_v1 \<Rightarrow> string \<Rightarrow> channel_id \<Rightarrow> commitment_v1" where
  "read_back c amount ch = c\<lparr>cm_amount := amount_new amount 8, cm_source := channel_as_u8 ch\<rparr>"

lemma saturating_mul_div:
  assumes "unat x * 1000 < 2 ^ 63"
  shows "unat (saturating_mul x 1000 :: u64) < 2 ^ 63" and "saturating_mul x 1000 div 1000 = (x :: u64)"
proof -
  have eq: "unat (saturating_mul x 1000) = unat x * 1000"
    using assms by (simp add: unat_saturating_mul)
  then show "unat (saturating_mul x 1000) < 2 ^ 63"
    using assms by simp
  show "saturating_mul x 1000 div 1000 = x"
    using eq by (simp add: word_unat_eq_iff unat_div_distrib)
qed

lemma utf8_invalid_81: "utf8_valid bs \<Longrightarrow> bs \<noteq> [0x81]"
  by (auto simp: utf8_chunk_def utf8_width_def)

lemma read_back_eq:
  "read_back c amount ch = commitment_new (cm_swap_id c)
     (addresses_new (ad_sender (cm_addresses c)) (ad_receiver (cm_addresses c))
       (ad_sender_destination (cm_addresses c)))
     (amount_new amount 8) (cm_secret_hash c) (cm_unlock_ts c) (channel_as_u8 ch) (cm_destination c)"
  by (simp add: read_back_def commitment_new_def addresses_new_def)

lemma bytes_of_chars_eq_Nil [simp]: "bytes_of_chars s = [] \<longleftrightarrow> s = []"
  by (simp add: bytes_of_chars_def)

context txscript
begin

lemma created_script_reads_back:
  assumes "deposit_ok L prefix c"
    and "kl_address_try_from L (ad_sender (cm_addresses c)) = Inr sa"
    and "kl_address_try_from L (ad_receiver (cm_addresses c)) = Inr ra"
    and "create_htlc_script L (spk_to_vec (kl_pay_to_address_script L sa))
      (bytes_of_chars (ad_sender_destination (cm_addresses c))) (spk_to_vec (kl_pay_to_address_script L ra))
      (cm_secret_hash c) (saturating_mul (cm_unlock_ts c) 1000) (cm_destination c) (cm_swap_id c) = Inr script"
  shows "\<exists>ops. parse_script L script = Inr ops \<and>
    (\<forall>amount ch. extract_commitment L ops amount prefix ch = Inr (read_back c amount ch))"
proof -
  let ?dest = "bytes_of_chars (ad_sender_destination (cm_addresses c))"
  let ?steps = "htlc_steps L (spk_to_vec (kl_pay_to_address_script L sa)) ?dest
      (spk_to_vec (kl_pay_to_address_script L ra)) (cm_secret_hash c)
      (saturating_mul (cm_unlock_ts c) 1000) (cm_destination c) (cm_swap_id c)"
  obtain ops where ops: "parse_script L script = Inr ops" "list_all2 step_view ?steps ops"
    using build_parse [OF _ htlc_steps_single_codes] assms(4) unfolding create_htlc_script_def by blast
  have t: "unat (cm_unlock_ts c) * 1000 < 2 ^ 63" and valid: "utf8_valid ?dest"
    using assms(1) by (simp_all add: deposit_ok_def)
  have "extract_commitment L ops amount prefix ch = Inr (read_back c amount ch)" for amount ch
    using extract_htlc [OF ops(2), of "ad_sender_destination (cm_addresses c)" prefix sa ra amount ch]
      saturating_mul_div [OF t] utf8_invalid_81 [OF valid] assms(1-3)
    by (simp add: deposit_ok_def canonical_address_def read_back_eq)
  with ops(1) show ?thesis
    by blast
qed

lemma reveal_sig_reads_back:
  assumes "reveal_sig_script L secret script = Inr sig" and "length secret = 32" and "2 \<le> length script"
  shows "\<exists>ops. parse_script L sig = Inr ops \<and> extract_reveal_secret L ops = Inr secret \<and>
    ops \<noteq> [] \<and> op_data (last ops) = script"
proof -
  have "build_script L [AddData secret, AddOp (kl_True L), AddData script] [] = Inr sig"
    using assms(1) by (simp only: reveal_sig_script_def map_err_eq_Inr)
  from build_parse [OF this] obtain ops where ops: "parse_script L sig = Inr ops"
      "list_all2 step_view [AddData secret, AddOp (kl_True L), AddData script] ops"
    by (auto simp: single_codes_def)
  then obtain a b c where abc: "ops = [a, b, c]" "pushes secret a" "op_value b = kl_True L" "pushes script c"
    by (auto simp: list_all2_Cons1 step_view_def)
  then have "extract_opcode_data a = secret" "extract_opcode_data c = script" "op_data c = script"
    using assms by (simp_all add: pushes_extract_long)
  moreover have "secret \<noteq> []" "script \<noteq> []"
    using assms by auto
  ultimately show ?thesis
    using ops(1) abc assms(2) by (simp add: extract_reveal_secret_def)
qed

lemma refund_sig_reads_back:
  assumes "refund_sig_script L script = Inr sig" and "2 \<le> length script"
  shows "\<exists>ops. parse_script L sig = Inr ops \<and> validate_refund_sig L ops = Inr () \<and>
    \<not> is_ok (extract_reveal_secret L ops) \<and> ops \<noteq> [] \<and> op_data (last ops) = script"
proof -
  have "build_script L [AddOp (kl_False L), AddData script] [] = Inr sig"
    using assms(1) by (simp only: refund_sig_script_def map_err_eq_Inr)
  from build_parse [OF this] obtain ops where ops: "parse_script L sig = Inr ops"
      "list_all2 step_view [AddOp (kl_False L), AddData script] ops"
    by (auto simp: single_codes_def)
  then obtain b c where bc: "ops = [b, c]" "op_value b = kl_False L" "pushes script c"
    by (auto simp: list_all2_Cons1 step_view_def)
  then have "extract_opcode_data c = script" "op_data c = script"
    using assms by (simp_all add: pushes_extract_long)
  moreover have "script \<noteq> []"
    using assms by auto
  ultimately show ?thesis
    using ops(1) bc by (simp add: validate_refund_sig_def extract_reveal_secret_def)
qed

lemma deposit_script_reads_back:
  assumes "parse_network_prefix net = Inr prefix" and "deposit_ok L prefix c"
    and "p2sh_components L net c = Inr (addr, script)"
  shows "\<exists>ops. parse_script L script = Inr ops \<and>
      (\<forall>amount ch. extract_commitment L ops amount prefix ch = Inr (read_back c amount ch)) \<and>
      map_option (kl_address_to_string L)
        (to_option (kl_extract_address L (kl_pay_to_script_hash_script L script) prefix)) = Some addr"
  using assms created_script_reads_back [OF assms(2)]
  by (auto simp: p2sh_components_def result_simps Let_def)

end

text \<open>
  (C22) Deposit round trip: the script that a node derives from a well-formed commitment is accepted
  by the validation every other node applies to announced scripts, with the derived address, the swap
  identifier and the expiry of the commitment; and reading the stored script (after a restart)
  gives the commitment back, with the recorded deposit target as its amount.
\<close>

theorem deposit_roundtrip:
  assumes "txscript L" and "parse_network_prefix net = Inr prefix" and "deposit_ok L prefix c"
    and "p2sh_components L net c = Inr (addr, script)"
  shows "validate_script_announce L net ch addr script (cm_swap_id c) (cm_unlock_ts c) = Inr () \<and>
    reconstruct L \<lparr>us_redeem_script = script, us_unlock_ts = ts, us_deposit_target = target\<rparr> prefix ch =
      Inr (read_back c target ch)"
proof -
  obtain ops a where "parse_script L script = Inr ops"
      "\<forall>amount ch. extract_commitment L ops amount prefix ch = Inr (read_back c amount ch)"
      "kl_extract_address L (kl_pay_to_script_hash_script L script) prefix = Inr a"
      "kl_address_to_string L a = addr"
    using txscript.deposit_script_reads_back [OF assms] by (auto simp: result_simps)
  then show ?thesis
    using assms(2) by (simp add: validate_script_announce_def reconstruct_def Let_def read_back_def)
qed

text \<open>
  (C30) Unchecked constants: whatever opcode stands at one of the ten positions of the input and output
  counts, the output indices and the solver reward, the validation of an announced script is the same.
  So from every acceptable script, replacing such an opcode and announcing the address of the result gives
  another acceptable script, for instance one whose claim branch demands an impossible number
  of inputs.
\<close>

theorem altered_script_accepted:
  assumes "validate_script_announce L net ch addr script sid expiry = Inr ()"
    and "parse_script L script = Inr ops"
    and "i \<in> {5, 8, 11, 14, 18, 25, 28, 31, 34, 38}"
    and "parse_script L script' = Inr (ops[i := op])"
    and "parse_network_prefix net = Inr prefix"
    and "kl_extract_address L (kl_pay_to_script_hash_script L script') prefix = Inr a"
  shows "validate_script_announce L net ch (kl_address_to_string L a) script' sid expiry = Inr ()"
proof -
  have "i < length (EXPECTED_OPCODES L) \<and> EXPECTED_OPCODES L ! i = (Data, Opcode)"
    using assms(3) by (auto simp: EXPECTED_OPCODES_def)
  then have "collect_data L (ops[i := op]) = collect_data L ops"
    using collect_from_unlabelled [of 0 i L ops op hm_empty] by (simp add: collect_data_def)
  then have "extract_commitment L (ops[i := op]) amount prefix ch = extract_commitment L ops amount prefix ch"
    for amount by (simp add: extract_commitment_def)
  with assms show ?thesis
    by (auto simp: validate_script_announce_def result_simps Let_def split: if_splits)
qed

section \<open>An instance of the library\<close>

text \<open>
  The push encoding of rusty-kaspa, with the opcode numbers of its \<open>codes\<close> module, and addresses
  that carry their version and payload in the clear.
\<close>

definition push_code :: "bytes \<Rightarrow> bytes option" where
  "push_code d =
     (case d of
        [] \<Rightarrow> Some [0]
      | [b] \<Rightarrow> if b = 0 then Some [0] else if b \<le> 16 then Some [0x50 + b]
               else if b = 0x81 then Some [0x4F] else Some [1, b]
      | _ \<Rightarrow> if length d \<le> 75 then Some (of_nat (length d) # d)
             else if length d \<le> 255 then Some (0x4C # of_nat (length d) # d)
             else if length d \<le> 520 then Some (0x4D # le_bytes 2 (length d) @ d) else None)"

definition read_push :: "u8 \<Rightarrow> nat \<Rightarrow> bytes \<Rightarrow> (opcode \<times> nat, string) result" where
  "read_push b k rest =
     (let n = le_nat (take k rest) in
      if length rest < k + n then Inl ''malformed push''
      else Inr (\<lparr>op_value = b, op_data = take n (drop k rest)\<rparr>, k + n))"

definition read_opcode :: "u8 \<Rightarrow> bytes \<Rightarrow> (opcode \<times> nat, string) result" where
  "read_opcode b rest =
     (if 1 \<le> b \<and> b \<le> 75 then
        (if length rest < unat b then Inl ''malformed push''
         else Inr (\<lparr>op_value = b, op_data = take (unat b) rest\<rparr>, unat b))
      else if b = 0x4C then read_push b 1 rest
      else if b = 0x4D then read_push b 2 rest
      else if b = 0x4E then read_push b 4 rest
      else Inr (\<lparr>op_value = b, op_data = []\<rparr>, 0))"

definition plain_add_data :: "bytes \<Rightarrow> bytes \<Rightarrow> (bytes, string) result" where
  "plain_add_data d s =
     (case push_code d of
        None \<Rightarrow> Inl ''element exceeds the maximum size''
      | Some p \<Rightarrow> if 10000 < length (s @ p) then Inl ''data rejected'' else Inr (s @ p))"

definition version_byte :: "address_version \<Rightarrow> u8" where
  "version_byte v = (case v of PubKey \<Rightarrow> 0 | PubKeyECDSA \<Rightarrow> 1 | ScriptHash \<Rightarrow> 8)"

definition version_of_byte :: "u8 \<Rightarrow> address_version option" where
  "version_of_byte b =
     (if b = 0 then Some PubKey else if b = 1 then Some PubKeyECDSA else if b = 8 then Some ScriptHash else None)"

definition plain_address :: "kaspa_prefix \<Rightarrow> bytes \<Rightarrow> (kaspa_address, string) result" where
  "plain_address p bs =
     (case bs of
        [] \<Rightarrow> Inl ''bad payload''
      | b # payload \<Rightarrow>
          (case version_of_byte b of
             None \<Rightarrow> Inl ''invalid version''
           | Some v \<Rightarrow> Inr \<lparr>ka_prefix = p, ka_version = v, ka_payload = payload\<rparr>))"

definition address_bytes :: "kaspa_address \<Rightarrow> bytes" where
  "address_bytes a = version_byte (ka_version a) # ka_payload a"

definition plain_lib :: kaspa_lib where
  "plain_lib =
     \<lparr>kl_If = 0x63, kl_Else = 0x67, kl_EndIf = 0x68, kl_False = 0, kl_True = 0x51, kl_SHA256 = 0xA8,
      kl_EqualVerify = 0x88, kl_NumEqualVerify = 0x9D, kl_TxInputCount = 0xB3, kl_TxOutputCount = 0xB4,
      kl_TxOutputSpk = 0xC3, kl_TxOutputAmount = 0xC2, kl_TxInputIndex = 0xB9, kl_TxInputAmount = 0xBE,
      kl_Sub = 0x94, kl_GreaterThanOrEqual = 0xA2, kl_CheckLockTimeVerify = 0xB0,
      kl_opcode = read_opcode,
      kl_add_op = (\<lambda>c s. if 10000 \<le> length s then Inl ''opcode rejected'' else Inr (s @ [c])),
      kl_add_data = plain_add_data,
      kl_add_i64 = (\<lambda>n. plain_add_data (script_num n)),
      kl_pay_to_address_script = (\<lambda>a. \<lparr>spk_version = 0, spk_script = address_bytes a\<rparr>),
      kl_pay_to_script_hash_script = (\<lambda>s. \<lparr>spk_version = 0, spk_script = 8 # s\<rparr>),
      kl_extract_address = (\<lambda>spk p. plain_address p (spk_script spk)),
      kl_address_to_string = (\<lambda>a. CHR ''k'' # chars_of_bytes (address_bytes a)),
      kl_address_try_from = (\<lambda>s. case s of
          [] \<Rightarrow> Inl ''missing prefix''
        | c # cs \<Rightarrow> if c = CHR ''k'' then plain_address Testnet (bytes_of_chars cs)
                    else Inl ''invalid prefix'')\<rparr>"

lemma plain_reads_small: "b = 0 \<or> 0x4E < b \<Longrightarrow> reads plain_lib [b] \<lparr>op_value = b, op_data = []\<rparr>"
  by (auto simp: reads_def plain_lib_def read_opcode_def word_le_nat_alt word_less_nat_alt)

lemma plain_reads_direct:
  assumes "d \<noteq> []" and "length d \<le> 75"
  shows "reads plain_lib (of_nat (length d) # d) \<lparr>op_value = of_nat (length d), op_data = d\<rparr>"
proof -
  have "unat (of_nat (length d) :: u8) = length d"
    using assms(2) by (simp add: unsigned_of_nat take_bit_nat_eq_self)
  moreover have "Suc 0 \<le> length d"
    using assms(1) by (simp add: Suc_le_eq)
  ultimately show ?thesis
    using assms(2) by (simp add: reads_def plain_lib_def read_opcode_def word_le_nat_alt)
qed

lemma read_push_sized:
  assumes "length d < 256 ^ k"
  shows "read_push b k ((le_bytes k (length d) @ d) @ rest) =
    Inr (\<lparr>op_value = b, op_data = d\<rparr>, length (le_bytes k (length d) @ d))"
  by (simp add: read_push_def le_nat_le_bytes [OF assms])

lemma plain_reads_sized:
  assumes "length d < 256 ^ k" and "kl_opcode plain_lib b = read_push b k"
  shows "reads plain_lib (b # le_bytes k (length d) @ d) \<lparr>op_value = b, op_data = d\<rparr>"
  unfolding reads_def
  by (intro exI [of _ b] exI [of _ "le_bytes k (length d) @ d"])
    (simp only: assms(2) read_push_sized [OF assms(1)] refl simp_thms)

lemma plain_sized_codes:
  "kl_opcode plain_lib 0x4C = read_push 0x4C 1" "kl_opcode plain_lib 0x4D = read_push 0x4D 2"
  unfolding plain_lib_def by (rule ext, simp add: read_opcode_def)+

lemma push_code_reads:
  assumes "push_code d = Some p"
  shows "\<exists>op. reads plain_lib p op \<and> pushes d op"
proof -
  consider (empty) "d = []" | (one) b where "d = [b]" | (long) "2 \<le> length d"
    by (cases d; cases "tl d") auto
  then show ?thesis
  proof cases
    case empty
    with assms show ?thesis
      using plain_reads_small [of 0] by (auto simp: push_code_def pushes_def)
  next
    case (one b)
    have big: "0x4E < 0x50 + b" if "b \<le> 16"
      using that by (simp add: word_less_nat_alt word_le_nat_alt unat_add_no_wrap)
    have "1 \<le> b" if "b \<noteq> 0"
      using that by (simp add: word_le_nat_alt Suc_le_eq unat_gt_0)
    then consider "b = 0" | "1 \<le> b" "b \<le> 16" | "b = 0x81" | "16 < b" "b \<noteq> 0x81"
      using not_le by blast
    then show ?thesis
    proof cases
      case 1
      with one assms show ?thesis
        using plain_reads_small [of 0] by (auto simp: push_code_def pushes_def)
    next
      case 2
      then have "p = [0x50 + b]"
        using one assms by (cases "b = 0") (simp_all add: push_code_def)
      with 2 one big show ?thesis
        using plain_reads_small [of "0x50 + b"] by (auto simp: pushes_def)
    next
      case 3
      then have "p = [0x4F]"
        using one assms by (simp add: push_code_def)
      with 3 one show ?thesis
        using plain_reads_small [of "0x4F"] by (auto simp: pushes_def)
    next
      case 4
      then have "p = [1, b]"
        using one assms by (cases "b = 0"; cases "b \<le> 16") (simp_all add: push_code_def)
      with one show ?thesis
        using plain_reads_direct [of "[b]"] by (auto simp: pushes_def)
    qed
  next
    case long
    then obtain a b e where d: "d = a # b # e"
      by (cases d; cases "tl d") auto
    have one: "le_bytes 1 (length d) = [of_nat (length d)]" if "length d \<le> 255"
      using that by simp
    consider "p = of_nat (length d) # d" "length d \<le> 75"
      | "p = 0x4C # le_bytes 1 (length d) @ d" "length d \<le> 255"
      | "p = 0x4D # le_bytes 2 (length d) @ d" "length d \<le> 520"
      using assms d by (auto simp: push_code_def split: if_splits)
    then have "\<exists>v. reads plain_lib p \<lparr>op_value = v, op_data = d\<rparr>"
    proof cases
      case 1
      then show ?thesis
        using plain_reads_direct [of d] d by auto
    next
      case 2
      then show ?thesis
        using plain_reads_sized [OF _ plain_sized_codes(1), of d] by auto
    next
      case 3
      then show ?thesis
        using plain_reads_sized [OF _ plain_sized_codes(2), of d] by auto
    qed
    then show ?thesis
      using d by (auto simp: pushes_def)
  qed
qed

interpretation plain: txscript plain_lib
proof unfold_locales
  fix c :: u8 and d s s' :: bytes and n :: int
  show "kl_add_op plain_lib c s = Inr s' \<Longrightarrow> s' = s @ [c]"
    by (auto simp: plain_lib_def split: if_splits)
  show "reads plain_lib [c] \<lparr>op_value = c, op_data = []\<rparr>" if "c \<in> single_codes plain_lib"
    using that plain_reads_small [of c] by (auto simp: single_codes_def plain_lib_def)
  have "\<exists>p op. s' = s @ p \<and> reads plain_lib p op \<and> pushes e op" if "plain_add_data e s = Inr s'" for e
    using that push_code_reads [of e] by (auto simp: plain_add_data_def split: option.splits if_splits)
  then show "kl_add_data plain_lib d s = Inr s' \<Longrightarrow> \<exists>p op. s' = s @ p \<and> reads plain_lib p op \<and> pushes d op"
    and "kl_add_i64 plain_lib n s = Inr s' \<Longrightarrow>
      \<exists>p op. s' = s @ p \<and> reads plain_lib p op \<and> pushes (script_num n) op"
    by (simp_all add: plain_lib_def)
qed

definition sample_address :: "u8 \<Rightarrow> string" where
  "sample_address b =
     kl_address_to_string plain_lib \<lparr>ka_prefix = Testnet, ka_version = PubKey, ka_payload = [b, 7, 7]\<rparr>"

definition sample_deposit :: commitment_v1 where
  "sample_deposit = commitment_new (replicate 32 3) (addresses_new (sample_address 1) (sample_address 2) ''0xa1'')
     (amount_new ''250000000'' 8) (replicate 32 9) 1760000000 0 1"

lemma sample_prefix: "parse_network_prefix ''testnet-10'' = Inr Testnet"
  by code_simp

lemma sample_addresses:
  "kl_address_try_from plain_lib (sample_address b) =
     Inr \<lparr>ka_prefix = Testnet, ka_version = PubKey, ka_payload = [b, 7, 7]\<rparr>"
  by (simp add: sample_address_def plain_lib_def plain_address_def address_bytes_def version_byte_def
      version_of_byte_def)

lemma sample_canonical: "canonical_address plain_lib Testnet (sample_address b)"
  unfolding canonical_address_def sample_addresses
  by (simp add: sample_address_def plain_lib_def plain_address_def address_bytes_def version_byte_def
      version_of_byte_def)

lemma sample_deposit_ok: "deposit_ok plain_lib Testnet sample_deposit"
  by (simp add: deposit_ok_def sample_deposit_def commitment_new_def addresses_new_def sample_canonical
      bytes_of_chars_def utf8_chunk_def utf8_width_def Let_def)

text \<open>What the builder appends for a step, and the opcode it reads back as.\<close>

fun plain_chunk :: "build_step \<Rightarrow> bytes" where
  "plain_chunk (AddOp c) = [c]"
| "plain_chunk (AddData d) = (case push_code d of Some p \<Rightarrow> p | None \<Rightarrow> [])"
| "plain_chunk (AddI64 n) = (case push_code (script_num n) of Some p \<Rightarrow> p | None \<Rightarrow> [])"

definition plain_script :: "build_step list \<Rightarrow> bytes" where
  "plain_script sts = concat (map plain_chunk sts)"

definition plain_op :: "build_step \<Rightarrow> opcode" where
  "plain_op st =
     (case plain_chunk st of
        [] \<Rightarrow> \<lparr>op_value = 0, op_data = []\<rparr>
      | b # bs \<Rightarrow> (case read_opcode b bs of Inr (op, _) \<Rightarrow> op | Inl _ \<Rightarrow> \<lparr>op_value = 0, op_data = []\<rparr>))"

fun plain_step_ok :: "build_step \<Rightarrow> bool" where
  "plain_step_ok (AddOp c) = (c \<in> single_codes plain_lib)"
| "plain_step_ok (AddData d) = (length d \<le> 520)"
| "plain_step_ok (AddI64 n) = (0 \<le> n \<and> n < 2 ^ 63)"

fun step_size :: "build_step \<Rightarrow> nat" where
  "step_size (AddOp c) = 1"
| "step_size (AddData d) = length d + 3"
| "step_size (AddI64 n) = 11"

lemma push_code_total:
  assumes "length d \<le> 520"
  obtains p where "push_code d = Some p" "length p \<le> length d + 3"
proof -
  have "\<exists>p. push_code d = Some p \<and> length p \<le> length d + 3"
    using assms by (cases d; cases "tl d") (auto simp: push_code_def)
  then show ?thesis
    using that by auto
qed

lemma reads_plain_op:
  assumes "plain_chunk st = p" and "reads plain_lib p op"
  shows "plain_op st = op"
  using assms
  by (auto simp: reads_def plain_op_def plain_lib_def dest: spec [where x = "[]"])

lemma plain_push:
  assumes "plain_chunk st = (case push_code d of Some p \<Rightarrow> p | None \<Rightarrow> [])"
    and "run_step plain_lib st s = plain_add_data d s" and "length d \<le> 520"
  shows "length (plain_chunk st) \<le> length d + 3"
    and "length (s @ plain_chunk st) \<le> 10000 \<Longrightarrow> run_step plain_lib st s = Inr (s @ plain_chunk st)"
    and "reads plain_lib (plain_chunk st) (plain_op st)"
proof -
  obtain p where p: "push_code d = Some p" "length p \<le> length d + 3"
    using assms(3) by (rule push_code_total)
  then have chunk: "plain_chunk st = p"
    using assms(1) by simp
  show "length (plain_chunk st) \<le> length d + 3"
    using chunk p by simp
  show "run_step plain_lib st s = Inr (s @ plain_chunk st)" if "length (s @ plain_chunk st) \<le> 10000"
    using that p assms(2) chunk by (simp add: plain_add_data_def)
  obtain op where "reads plain_lib p op"
    using push_code_reads [OF p(1)] by auto
  then show "reads plain_lib (plain_chunk st) (plain_op st)"
    using reads_plain_op [OF chunk] chunk by simp
qed

lemma plain_step:
  assumes "plain_step_ok st"
  shows "length (plain_chunk st) \<le> step_size st \<and>
    (length (s @ plain_chunk st) \<le> 10000 \<longrightarrow> run_step plain_lib st s = Inr (s @ plain_chunk st)) \<and>
    reads plain_lib (plain_chunk st) (plain_op st)"
proof (cases st)
  case (AddOp c)
  then have "reads plain_lib [c] \<lparr>op_value = c, op_data = []\<rparr>"
    using assms plain.single_code by simp
  then show ?thesis
    using AddOp reads_plain_op [of st "[c]"] by (simp add: plain_lib_def)
next
  case (AddData d)
  then show ?thesis
    using assms plain_push [of st d s] by (simp add: plain_lib_def)
next
  case (AddI64 n)
  then show ?thesis
    using assms plain_push [of st "script_num n" s] script_num_length [of n]
    by (simp add: plain_lib_def)
qed

lemma plain_script:
  assumes "list_all plain_step_ok sts" and "length s + sum_list (map step_size sts) \<le> 10000"
  shows "build_script plain_lib sts s = Inr (s @ plain_script sts) \<and>
    parse_script plain_lib (plain_script sts) = Inr (map plain_op sts)"
proof
  show "build_script plain_lib sts s = Inr (s @ plain_script sts)"
    using assms
  proof (induction sts arbitrary: s)
    case Nil
    then show ?case by (simp add: plain_script_def)
  next
    case (Cons st sts)
    then have "run_step plain_lib st s = Inr (s @ plain_chunk st)" "length (plain_chunk st) \<le> step_size st"
      using plain_step [of st s] by auto
    with Cons show ?case
      by (simp add: plain_script_def)
  qed
  have "list_all2 (reads plain_lib) (map plain_chunk sts) (map plain_op sts)"
    using assms(1) plain_step by (auto simp: list_all2_conv_all_nth list_all_length)
  then show "parse_script plain_lib (plain_script sts) = Inr (map plain_op sts)"
    unfolding plain_script_def by (rule plain.parse_chunks)
qed

lemma plain_script_length:
  "list_all plain_step_ok sts \<Longrightarrow> length (plain_script sts) \<le> sum_list (map step_size sts)"
  by (induction sts) (use plain_step in \<open>fastforce simp: plain_script_def\<close>)+

definition sample_steps :: "build_step list" where
  "sample_steps = htlc_steps plain_lib (spk_to_vec \<lparr>spk_version = 0, spk_script = [0, 1, 7, 7]\<rparr>)
     (bytes_of_chars ''0xa1'') (spk_to_vec \<lparr>spk_version = 0, spk_script = [0, 2, 7, 7]\<rparr>)
     (replicate 32 9) (saturating_mul 1760000000 1000) 1 (replicate 32 3)"

lemma sample_steps_ok:
  "list_all plain_step_ok sample_steps" "sum_list (map step_size sample_steps) \<le> 300"
proof -
  have "sint (saturating_mul 1760000000 1000 :: u64) = 1760000000000"
    by (simp add: saturating_mul_def)
  then show "list_all plain_step_ok sample_steps" "sum_list (map step_size sample_steps) \<le> 300"
    by (simp_all add: sample_steps_def htlc_steps_def spk_to_vec_def SOLVER_REWARD_def
        bytes_of_chars_def single_codes_def)
qed

definition plain_p2sh :: "bytes \<Rightarrow> string" where
  "plain_p2sh script = kl_address_to_string plain_lib
     \<lparr>ka_prefix = Testnet, ka_version = ScriptHash, ka_payload = script\<rparr>"

lemma plain_p2sh_address:
  "kl_extract_address plain_lib (kl_pay_to_script_hash_script plain_lib script) Testnet =
     Inr \<lparr>ka_prefix = Testnet, ka_version = ScriptHash, ka_payload = script\<rparr>"
  by (simp add: plain_lib_def plain_address_def version_of_byte_def)

lemma sample_spk:
  "kl_pay_to_address_script plain_lib \<lparr>ka_prefix = Testnet, ka_version = PubKey, ka_payload = p\<rparr> =
     \<lparr>spk_version = 0, spk_script = 0 # p\<rparr>"
  by (simp add: plain_lib_def address_bytes_def version_byte_def)

lemma sample_create:
  "create_htlc_script plain_lib (spk_to_vec \<lparr>spk_version = 0, spk_script = [0, 1, 7, 7]\<rparr>)
      (bytes_of_chars ''0xa1'') (spk_to_vec \<lparr>spk_version = 0, spk_script = [0, 2, 7, 7]\<rparr>)
      (replicate 32 9) (saturating_mul 1760000000 1000) 1 (replicate 32 3) = Inr (plain_script sample_steps)"
  using plain_script [OF sample_steps_ok(1), of "[]"] sample_steps_ok(2)
  by (simp add: create_htlc_script_def sample_steps_def [symmetric])

lemma sample_components:
  "p2sh_components plain_lib ''testnet-10'' sample_deposit =
     Inr (plain_p2sh (plain_script sample_steps), plain_script sample_steps)"
  using sample_create
  by (simp add: p2sh_components_def sample_prefix sample_deposit_def commitment_new_def addresses_new_def
      sample_addresses sample_spk plain_p2sh_address plain_p2sh_def Let_def)

lemma sample_htlc_script:
  "\<exists>rest. htlc_script_from_commitment plain_lib sample_deposit = Inr (plain_script sample_steps, rest)"
  using sample_create
  by (simp add: htlc_script_from_commitment_def sample_deposit_def commitment_new_def addresses_new_def
      sample_addresses sample_spk Let_def)

theorem deposit_roundtrip_witness:
  "validate_script_announce plain_lib ''testnet-10'' KaspaTn10 (plain_p2sh (plain_script sample_steps))
     (plain_script sample_steps) (replicate 32 3) 1760000000 = Inr () \<and>
   reconstruct plain_lib \<lparr>us_redeem_script = plain_script sample_steps, us_unlock_ts = 1760000000,
     us_deposit_target = ''250000000''\<rparr> Testnet KaspaTn10 = Inr sample_deposit"
proof -
  have "read_back sample_deposit ''250000000'' KaspaTn10 = sample_deposit"
    "cm_swap_id sample_deposit = replicate 32 3" "cm_unlock_ts sample_deposit = 1760000000"
    by (simp_all add: read_back_def sample_deposit_def commitment_new_def)
  then show ?thesis
    using deposit_roundtrip [OF plain.txscript_axioms sample_prefix sample_deposit_ok sample_components,
        of KaspaTn10 1760000000 "''250000000''"]
    by simp
qed

text \<open>A deposit script whose claim branch demands sixteen inputs, announced under its own address.\<close>

theorem altered_script_accepted_witness:
  "let script' = plain_script (sample_steps[5 := AddI64 16]) in
   validate_script_announce plain_lib ''testnet-10'' KaspaTn10 (plain_p2sh script') script'
     (replicate 32 3) 1760000000 = Inr ()"
proof -
  let ?script = "plain_script sample_steps" and ?script' = "plain_script (sample_steps[5 := AddI64 16])"
  have "list_all plain_step_ok (sample_steps[5 := AddI64 16])"
    using sample_steps_ok(1) by (auto simp: list_all_iff dest!: set_update_subset_insert [THEN subsetD])
  moreover have "sum_list (map step_size (sample_steps[5 := AddI64 16])) \<le> 300"
    using sample_steps_ok(2) by (simp add: sample_steps_def htlc_steps_def)
  ultimately have parse': "parse_script plain_lib ?script' = Inr (map plain_op (sample_steps[5 := AddI64 16]))"
    using plain_script [of "sample_steps[5 := AddI64 16]" "[]"] by simp
  have parse: "parse_script plain_lib ?script = Inr (map plain_op sample_steps)"
    using plain_script [OF sample_steps_ok(1), of "[]"] sample_steps_ok(2) by simp
  have ids: "cm_swap_id sample_deposit = replicate 32 3" "cm_unlock_ts sample_deposit = 1760000000"
    by (simp_all add: sample_deposit_def commitment_new_def)
  have "validate_script_announce plain_lib ''testnet-10'' KaspaTn10 (plain_p2sh ?script) ?script
      (replicate 32 3) 1760000000 = Inr ()"
    using plain.deposit_script_reads_back [OF sample_prefix sample_deposit_ok sample_components]
    by (auto simp: validate_script_announce_def sample_prefix Let_def read_back_def ids plain_p2sh_address)
  from altered_script_accepted [OF this parse, of 5 ?script' "plain_op (AddI64 16)" Testnet]
  show ?thesis
    using parse' by (simp add: map_update sample_prefix plain_p2sh_address plain_p2sh_def)
qed

end
