(* ===== verification/Kaspa_Decode.thy ===== *)
theory Kaspa_Decode
  imports Kaspa_Contract
begin

text \<open>
  From Kaspa blocks to chain events: the intake that pages through the block DAG and releases confirmed
  blocks (\<open>intake/\<close>), and the decoding of a block against the registered deposit scripts
  (\<open>decode/\<close>). What the node answers is an argument; the channel of confirmed blocks
  is the list of blocks sent on it.
\<close>

section \<open>Blocks\<close>

record rpc_input =
  ri_signature_script :: bytes

record rpc_output =
  ro_value :: u64
  ro_script_public_key :: script_public_key

record rpc_transaction =
  rt_inputs :: "rpc_input list"
  rt_outputs :: "rpc_output list"

record rpc_block =
  rb_daa_score :: u64
  rb_transactions :: "rpc_transaction list"

record block_outcomes =
  bo_events :: "chain_event list"
  bo_refunds :: "(bytes \<times> u64) list"

type_synonym utxo_scripts = "(string, utxo_script) hashmap"

section \<open>Spends\<close>

definition last_redeem :: "kaspa_lib \<Rightarrow> bytes \<Rightarrow> bytes option" where
  "last_redeem L sig_script =
     Option.bind (to_option (parse_script L sig_script)) (\<lambda>opcodes.
       if opcodes = [] then None
       else (let d = op_data (last opcodes) in if d = [] then None else Some d))"

definition derive_p2sh_addr :: "kaspa_lib \<Rightarrow> bytes \<Rightarrow> kaspa_prefix \<Rightarrow> string option" where
  "derive_p2sh_addr L redeem_script prefix =
     map_option (kl_address_to_string L)
       (to_option (kl_extract_address L (kl_pay_to_script_hash_script L redeem_script) prefix))"

definition classify_spend ::
  "kaspa_lib \<Rightarrow> bytes \<Rightarrow> utxo_script \<Rightarrow> kaspa_prefix \<Rightarrow> channel_id
     \<Rightarrow> (chain_event option \<times> bool, kaspa_error) result" where
  "classify_spend L sig_script utxo_script prefix ch =
     r_bind (map_err TxScript (parse_script L sig_script)) (\<lambda>sig_opcodes.
     r_bind (map_err TxScript (parse_script L (us_redeem_script utxo_script))) (\<lambda>redeem_opcodes.
     let swap_id = map_option cm_swap_id
           (to_option (extract_commitment L redeem_opcodes (us_deposit_target utxo_script) prefix ch))
     in case extract_reveal_secret L sig_opcodes of
          Inr secret \<Rightarrow>
            (case swap_id of
               None \<Rightarrow> Inr (None, False)
             | Some sid \<Rightarrow> Inr (Some (Reveal (reveal_new sid secret)), True))
        | Inl _ \<Rightarrow>
            if is_ok (validate_refund_sig L sig_opcodes) then
              (case swap_id of
                 None \<Rightarrow> Inr (None, False)
               | Some sid \<Rightarrow> Inr (Some (Refund (refund_new sid)), True))
            else Inr (None, False)))"

fun resolved_swap_id :: "chain_event \<Rightarrow> bytes option" where
  "resolved_swap_id (Reveal r) = Some (rv_swap_id r)"
| "resolved_swap_id (Refund r) = Some (rf_swap_id r)"
| "resolved_swap_id (Commitment c) = None"

text \<open>The loop over the inputs: the addresses closed, the swaps seen, the events.\<close>

type_synonym scan_state = "string list \<times> (bytes, bool) hashmap \<times> chain_event list"

definition scan_input ::
  "kaspa_lib \<Rightarrow> utxo_scripts \<Rightarrow> kaspa_prefix \<Rightarrow> channel_id \<Rightarrow> rpc_input \<Rightarrow> scan_state \<Rightarrow> scan_state" where
  "scan_input L scripts prefix ch input st =
     (case st of (closed_addrs, emit_dedup, events) \<Rightarrow>
      case Option.bind (last_redeem L (ri_signature_script input)) (\<lambda>r. derive_p2sh_addr L r prefix) of
        None \<Rightarrow> st
      | Some addr \<Rightarrow>
          (case hm_get scripts addr of
             None \<Rightarrow> st
           | Some utxo_script \<Rightarrow>
               (case classify_spend L (ri_signature_script input) utxo_script prefix ch of
                  Inr (Some event, closed) \<Rightarrow>
                    (let closed_addrs' = (if closed then closed_addrs @ [addr] else closed_addrs) in
                     case resolved_swap_id event of
                       None \<Rightarrow> (closed_addrs', emit_dedup, events @ [event])
                     | Some sid \<Rightarrow>
                         (closed_addrs', hm_insert sid True emit_dedup,
                          if hm_contains emit_dedup sid then events else events @ [event]))
                | Inr (None, _) \<Rightarrow> st
                | Inl _ \<Rightarrow> st)))"

definition scan_inputs ::
  "kaspa_lib \<Rightarrow> rpc_transaction \<Rightarrow> utxo_scripts \<Rightarrow> kaspa_prefix \<Rightarrow> channel_id \<Rightarrow> chain_event list
     \<Rightarrow> utxo_scripts \<times> chain_event list" where
  "scan_inputs L tx scripts prefix ch events =
     (case fold (scan_input L scripts prefix ch) (rt_inputs tx) ([], hm_empty, events) of
        (closed_addrs, _, events') \<Rightarrow> (fold hm_remove closed_addrs scripts, events'))"

section \<open>Deposits\<close>

definition deposit_target_valid :: "string \<Rightarrow> u64 option" where
  "deposit_target_valid target =
     (case parse_uint 64 target of
        Some v \<Rightarrow> if 0 < v then Some (of_nat v) else None
      | None \<Rightarrow> None)"

definition match_outputs ::
  "kaspa_lib \<Rightarrow> utxo_scripts \<Rightarrow> kaspa_prefix \<Rightarrow> rpc_output list \<Rightarrow> (u64 \<times> utxo_script) list" where
  "match_outputs L scripts prefix outputs =
     List.map_filter (\<lambda>output.
       Option.bind (to_option (kl_extract_address L (ro_script_public_key output) prefix)) (\<lambda>address.
       map_option (\<lambda>utxo_script. (ro_value output, utxo_script))
         (hm_get scripts (kl_address_to_string L address)))) outputs"

fun scan_matched ::
  "kaspa_lib \<Rightarrow> kaspa_prefix \<Rightarrow> channel_id \<Rightarrow> (u64 \<times> utxo_script) list
     \<Rightarrow> chain_event list \<Rightarrow> (bytes \<times> u64) list
     \<Rightarrow> (chain_event list \<times> (bytes \<times> u64) list, kaspa_error) result" where
  "scan_matched L prefix ch [] events refunds = Inr (events, refunds)"
| "scan_matched L prefix ch ((val, utxo_script) # matched) events refunds =
     r_bind (map_err TxScript (parse_script L (us_redeem_script utxo_script))) (\<lambda>script.
     case extract_commitment L script (us_deposit_target utxo_script) prefix ch of
       Inl _ \<Rightarrow> scan_matched L prefix ch matched events refunds
     | Inr commitment \<Rightarrow>
         (case deposit_target_valid (us_deposit_target utxo_script) of
            None \<Rightarrow> scan_matched L prefix ch matched events refunds
          | Some target \<Rightarrow>
              scan_matched L prefix ch matched
                (if target \<le> val then events @ [Commitment commitment] else events)
                (refunds @ [(cm_swap_id commitment, cm_unlock_ts commitment)])))"

definition scan_outputs ::
  "kaspa_lib \<Rightarrow> rpc_transaction \<Rightarrow> utxo_scripts \<Rightarrow> kaspa_prefix \<Rightarrow> channel_id
     \<Rightarrow> chain_event list \<Rightarrow> (bytes \<times> u64) list
     \<Rightarrow> (chain_event list \<times> (bytes \<times> u64) list, kaspa_error) result" where
  "scan_outputs L tx scripts prefix ch events refunds =
     scan_matched L prefix ch (match_outputs L scripts prefix (rt_outputs tx)) events refunds"

text \<open>
  \<open>handle_block_added\<close>: the transactions in order, the outputs of each before its inputs. The scripts
  are shared state, so they keep what the earlier transactions closed even when a later one fails.
\<close>

fun scan_transactions ::
  "kaspa_lib \<Rightarrow> kaspa_prefix \<Rightarrow> channel_id \<Rightarrow> rpc_transaction list \<Rightarrow> utxo_scripts
     \<Rightarrow> chain_event list \<Rightarrow> (bytes \<times> u64) list \<Rightarrow> (block_outcomes, kaspa_error) result \<times> utxo_scripts" where
  "scan_transactions L prefix ch [] scripts events refunds =
     (Inr \<lparr>bo_events = events, bo_refunds = refunds\<rparr>, scripts)"
| "scan_transactions L prefix ch (tx # txs) scripts events refunds =
     (case scan_outputs L tx scripts prefix ch events refunds of
        Inl e \<Rightarrow> (Inl e, scripts)
      | Inr (events1, refunds1) \<Rightarrow>
          (case scan_inputs L tx scripts prefix ch events1 of
             (scripts', events2) \<Rightarrow> scan_transactions L prefix ch txs scripts' events2 refunds1))"

definition handle_block_added ::
  "kaspa_lib \<Rightarrow> rpc_block \<Rightarrow> utxo_scripts \<Rightarrow> kaspa_prefix \<Rightarrow> channel_id
     \<Rightarrow> (block_outcomes, kaspa_error) result \<times> utxo_scripts" where
  "handle_block_added L safe_block scripts prefix ch =
     scan_transactions L prefix ch (rb_transactions safe_block) scripts [] []"

section \<open>The intake\<close>

type_synonym block_hash = bytes

record 'c intake =
  in_minimum_block_confirmations :: u64
  in_pending_blocks :: "(block_hash \<times> rpc_block) list"
  in_max_seen_daa :: u64
  in_cursor :: "block_hash option"
  in_cursor_store :: "'c option"
  in_channel_id :: channel_id

definition intake_new ::
  "u64 \<Rightarrow> channel_id \<Rightarrow> block_hash option \<Rightarrow> 'c option \<Rightarrow> 'c intake" where
  "intake_new minimum_block_confirmations ch initial_cursor cursor_store =
     \<lparr>in_minimum_block_confirmations = minimum_block_confirmations, in_pending_blocks = [],
      in_max_seen_daa = 0, in_cursor = initial_cursor, in_cursor_store = cursor_store, in_channel_id = ch\<rparr>"

definition in_set_cursor :: "'c cursor_store_ops \<Rightarrow> block_hash \<Rightarrow> 'c intake \<Rightarrow> 'c intake" where
  "in_set_cursor C hash self =
     self\<lparr>in_cursor := Some hash,
          in_cursor_store := map_option (cs_save C (in_channel_id self) hash) (in_cursor_store self)\<rparr>"

definition unconfirmed :: "block_hash set \<Rightarrow> block_hash \<Rightarrow> u64 \<Rightarrow> u64 \<Rightarrow> u64 \<Rightarrow> bool" where
  "unconfirmed removed hash block_daa virtual_daa threshold =
     (hash \<in> removed \<or> saturating_sub virtual_daa block_daa < threshold)"

text \<open>
  \<open>alive i\<close>: the receiver still accepts the \<open>i\<close>-th block sent. \<open>send_all\<close> drains the buffer and stops
  at the first block that is not accepted.
\<close>

fun send_all :: "(nat \<Rightarrow> bool) \<Rightarrow> rpc_block list \<Rightarrow> rpc_block list \<Rightarrow> rpc_block list \<times> bool" where
  "send_all alive [] sent = (sent, True)"
| "send_all alive (b # bs) sent =
     (if alive (length sent) then send_all alive bs (sent @ [b]) else (sent, False))"

fun flush_loop ::
  "(nat \<Rightarrow> bool) \<Rightarrow> block_hash set \<Rightarrow> block_hash set \<Rightarrow> u64 \<Rightarrow> u64 \<Rightarrow> (block_hash \<times> rpc_block) list
     \<Rightarrow> rpc_block list \<Rightarrow> block_hash option \<Rightarrow> rpc_block list \<Rightarrow> block_hash option \<times> rpc_block list" where
  "flush_loop alive removed chain_blocks virtual_daa threshold [] buffer new_cursor sent = (new_cursor, sent)"
| "flush_loop alive removed chain_blocks virtual_daa threshold ((hash, block) # pending) buffer new_cursor sent =
     (if unconfirmed removed hash (rb_daa_score block) virtual_daa threshold then (new_cursor, sent)
      else if hash \<in> chain_blocks then
        (case send_all alive (buffer @ [block]) sent of
           (sent', False) \<Rightarrow> (new_cursor, sent')
         | (sent', True) \<Rightarrow>
             flush_loop alive removed chain_blocks virtual_daa threshold pending [] (Some hash) sent')
      else flush_loop alive removed chain_blocks virtual_daa threshold pending (buffer @ [block]) new_cursor sent)"

definition flush_confirmed_blocks ::
  "'c cursor_store_ops \<Rightarrow> (nat \<Rightarrow> bool) \<Rightarrow> block_hash set \<Rightarrow> block_hash set \<Rightarrow> 'c intake
     \<Rightarrow> 'c intake \<times> rpc_block list" where
  "flush_confirmed_blocks C alive removed chain_blocks self =
     (let self1 = self\<lparr>in_pending_blocks := []\<rparr> in
      case flush_loop alive removed chain_blocks (in_max_seen_daa self) (in_minimum_block_confirmations self)
             (in_pending_blocks self) [] None [] of
        (None, sent) \<Rightarrow> (self1, sent)
      | (Some hash, sent) \<Rightarrow> (in_set_cursor C hash self1, sent))"

datatype page_step = Stop | Advance block_hash

definition next_page :: "block_hash option \<Rightarrow> block_hash \<Rightarrow> bool \<Rightarrow> page_step" where
  "next_page last_hash page_low reached_sink =
     (if reached_sink then Stop
      else case last_hash of
             Some h \<Rightarrow> if h \<noteq> page_low then Advance h else Stop
           | None \<Rightarrow> Stop)"

record dag_info =
  di_virtual_daa_score :: u64
  di_sink :: block_hash
  di_past_median_time :: u64

record blocks_response =
  br_block_hashes :: "block_hash list"
  br_blocks :: "rpc_block list"

record chain_response =
  cr_removed :: "block_hash list"
  cr_added :: "block_hash list"

text \<open>The answers of the node to one poll; \<open>iq_get_blocks i low\<close> is what page \<open>i\<close> gets.\<close>

record intake_net =
  iq_dag_info :: "nat \<Rightarrow> (dag_info, string) result option"
  iq_get_blocks :: "nat \<Rightarrow> block_hash \<Rightarrow> nat \<Rightarrow> (blocks_response, string) result option"
  iq_virtual_chain :: "block_hash \<Rightarrow> nat \<Rightarrow> (chain_response, string) result option"

definition or_insert :: "'k \<Rightarrow> 'v \<Rightarrow> ('k \<times> 'v) list \<Rightarrow> ('k \<times> 'v) list" where
  "or_insert k v m = (if k \<in> fst ` set m then m else m @ [(k, v)])"

definition add_page ::
  "block_hash \<Rightarrow> (rpc_block \<times> block_hash) list \<Rightarrow> (block_hash \<times> rpc_block) list
     \<Rightarrow> (block_hash \<times> rpc_block) list" where
  "add_page page_low page pending =
     fold (\<lambda>(block, hash) m. if hash = page_low then m else or_insert hash block m) page pending"

definition MAX_PAGES :: nat where "MAX_PAGES = 10000"

text \<open>\<open>left\<close> counts the iterations that remain of the \<open>10_000\<close>.\<close>

fun page_loop ::
  "intake_net \<Rightarrow> block_hash \<Rightarrow> nat \<Rightarrow> nat \<Rightarrow> block_hash \<Rightarrow> (block_hash \<times> rpc_block) list
     \<Rightarrow> (block_hash \<times> rpc_block) list \<times> (unit, kaspa_error) result" where
  "page_loop net sink 0 i page_low pending = (pending, Inr ())"
| "page_loop net sink (Suc left) i page_low pending =
     (case retry_timed (iq_get_blocks net i page_low) of
        None \<Rightarrow> (pending, Inl (KaspaOther ''get_blocks: timed out''))
      | Some resp \<Rightarrow>
          (let reached_sink = (sink \<in> set (br_block_hashes resp));
               last_hash = (if br_block_hashes resp = [] then None else Some (last (br_block_hashes resp)))
           in if length (br_blocks resp) \<noteq> length (br_block_hashes resp)
              then (pending, Inl (KaspaOther ''get_blocks: blocks/hashes length mismatch''))
              else
                (let pending' = add_page page_low (zip (br_blocks resp) (br_block_hashes resp)) pending in
                 case next_page last_hash page_low reached_sink of
                   Stop \<Rightarrow> (pending', Inr ())
                 | Advance h \<Rightarrow> page_loop net sink left (Suc i) h pending')))"

definition intake_poll_once ::
  "'c cursor_store_ops \<Rightarrow> intake_net \<Rightarrow> (nat \<Rightarrow> bool) \<Rightarrow> 'c intake
     \<Rightarrow> (unit, kaspa_error) result \<times> 'c intake \<times> rpc_block list" where
  "intake_poll_once C net alive self =
     (case retry_timed (iq_dag_info net) of
        None \<Rightarrow> (Inl (KaspaOther ''get_block_dag_info: timed out''), self, [])
      | Some dag \<Rightarrow>
          (let self1 = self\<lparr>in_max_seen_daa := di_virtual_daa_score dag\<rparr> in
           case in_cursor self1 of
             None \<Rightarrow> (Inr (), in_set_cursor C (di_sink dag) self1, [])
           | Some low \<Rightarrow>
               (case page_loop net (di_sink dag) MAX_PAGES 0 low [] of
                  (pending, Inl e) \<Rightarrow> (Inl e, self1\<lparr>in_pending_blocks := pending\<rparr>, [])
                | (pending, Inr _) \<Rightarrow>
                    (let self2 = self1\<lparr>in_pending_blocks := pending\<rparr> in
                     case retry_timed (iq_virtual_chain net low) of
                       None \<Rightarrow> (Inl (KaspaOther ''get_virtual_chain_from_block: timed out''), self2, [])
                     | Some vc \<Rightarrow>
                         (case flush_confirmed_blocks C alive (set (cr_removed vc)) (set (cr_added vc)) self2 of
                            (self3, sent) \<Rightarrow> (Inr (), self3, sent))))))"

end
