(* ===== verification/Kaspa_Broadcast.thy ===== *)
theory Kaspa_Broadcast
  imports Kaspa_Decode F64
begin

text \<open>
  Spending on Kaspa (\<open>broadcast/\<close>) and the signing of swap proposals (\<open>signing/keys.rs\<close>,
  \<open>signing/message.rs\<close>): selection of funding outputs, fees, the commitment transaction, and the
  claim and refund transactions that spend the outputs of a deposit address.

  \<open>kaspa_crypto\<close> stands for the k256, hex and consensus crates and the printing of doubles, \<open>kaspa_net\<close> for the node. An operation
  that submits transactions returns the list of those it submitted.
\<close>

section \<open>Transactions and the environment\<close>

record kaspa_utxo =
  ku_transaction_id :: bytes
  ku_index :: u32
  ku_amount :: u64
  ku_script_public_key :: script_public_key
  ku_block_daa_score :: u64
  ku_is_coinbase :: bool

record utxo_entry =
  ue_amount :: u64
  ue_script_public_key :: script_public_key
  ue_block_daa_score :: u64
  ue_is_coinbase :: bool

record tx_input =
  ti_previous_outpoint :: "bytes \<times> u32"
  ti_signature_script :: bytes
  ti_sequence :: u64
  ti_sig_op_count :: u8

record tx_output =
  to_value :: u64
  to_script_public_key :: script_public_key

record kaspa_tx =
  kt_inputs :: "tx_input list"
  kt_outputs :: "tx_output list"
  kt_lock_time :: u64

record kaspa_crypto =
  kc_hex_decode :: "string \<Rightarrow> (bytes, string) result"
  kc_signing_key :: "bytes \<Rightarrow> (bytes, string) result"
  kc_verifying_bytes :: "bytes \<Rightarrow> bytes"
  kc_sign_prehash :: "bytes \<Rightarrow> bytes \<Rightarrow> (bytes, string) result"
  kc_sign :: "bytes \<Rightarrow> bytes \<Rightarrow> bytes"
  kc_verifying_key :: "bytes \<Rightarrow> (bytes, string) result"
  kc_parse_signature :: "bytes \<Rightarrow> (bytes, string) result"
  kc_verify :: "bytes \<Rightarrow> bytes \<Rightarrow> bytes \<Rightarrow> bool"
  kc_signature_hash :: "kaspa_tx \<Rightarrow> utxo_entry list \<Rightarrow> nat \<Rightarrow> bytes"
  kc_masses :: "kaspa_tx \<Rightarrow> u64 \<times> u64"
  kc_transient_factor :: u64
  kc_sighash_all :: u8
  kc_show_f64 :: "f64 \<Rightarrow> string"

record kaspa_net =
  kn_server_prefix :: "nat \<Rightarrow> (kaspa_prefix, string) result option"
  kn_utxos :: "kaspa_address \<Rightarrow> nat \<Rightarrow> (kaspa_utxo list, string) result option"
  kn_utxos_once :: "kaspa_address \<Rightarrow> (kaspa_utxo list, string) result"
  kn_dag_info :: "nat \<Rightarrow> (dag_info, string) result option"
  kn_feerate :: "nat \<Rightarrow> (f64, string) result option"
  kn_submit :: "kaspa_tx \<Rightarrow> (string, string) result option"

section \<open>Keys\<close>

text \<open>\<open>str::trim_start_matches\<close> removes the pattern as often as it occurs.\<close>

lemma starts_with_length: "starts_with p s \<Longrightarrow> length p \<le> length s"
  unfolding starts_with_def by (metis length_take min.cobounded1)

function trim_start_0x :: "string \<Rightarrow> string" where
  "trim_start_0x s = (if starts_with ''0x'' s then trim_start_0x (drop 2 s) else s)"
  by pat_completeness auto
termination
  by (relation "measure length") (auto dest: starts_with_length)

declare trim_start_0x.simps [simp del]

definition kaspa_signing_key :: "kaspa_crypto \<Rightarrow> string \<Rightarrow> (bytes, kaspa_error) result" where
  "kaspa_signing_key K private_key =
     r_bind (map_err (\<lambda>e. KaspaOther (''private key hex: '' @ e)) (kc_hex_decode K (trim_start_0x private_key)))
       (\<lambda>secret_bytes. map_err (\<lambda>e. KaspaOther (''schnorr signing key: '' @ e)) (kc_signing_key K secret_bytes))"

definition pubkey_bytes :: "kaspa_crypto \<Rightarrow> bytes \<Rightarrow> (bytes, kaspa_error) result" where
  "pubkey_bytes K key =
     (if length (kc_verifying_bytes K key) = 32 then Inr (kc_verifying_bytes K key)
      else Inl (KaspaOther ''verifying key not 32 bytes''))"

definition pubkey_address :: "kaspa_prefix \<Rightarrow> bytes \<Rightarrow> kaspa_address" where
  "pubkey_address prefix pubkey = \<lparr>ka_prefix = prefix, ka_version = PubKey, ka_payload = pubkey\<rparr>"

definition lp_address_from_private_key ::
  "kaspa_lib \<Rightarrow> kaspa_crypto \<Rightarrow> string \<Rightarrow> string \<Rightarrow> (string, kaspa_error) result" where
  "lp_address_from_private_key L K network_id private_key =
     r_bind (kaspa_signing_key K private_key) (\<lambda>key.
     r_bind (parse_network_prefix network_id) (\<lambda>prefix.
     r_bind (pubkey_bytes K key) (\<lambda>pubkey.
     Inr (kl_address_to_string L (pubkey_address prefix pubkey)))))"

section \<open>Messages\<close>

definition kaspa_query_balance ::
  "kaspa_lib \<Rightarrow> kaspa_net \<Rightarrow> string \<Rightarrow> (u64, kaspa_error) result" where
  "kaspa_query_balance L net address =
     r_bind (map_err (\<lambda>e. KaspaOther (''invalid kaspa address '' @ address @ '': '' @ e))
       (kl_address_try_from L address)) (\<lambda>parsed_addr.
     r_bind (map_err (\<lambda>e. KaspaOther (''get_utxos_by_addresses: '' @ e)) (kn_utxos_once net parsed_addr))
       (\<lambda>utxos. Inr (sum_list (map ku_amount utxos))))"

definition kaspa_sign_with_balance ::
  "kaspa_lib \<Rightarrow> kaspa_crypto \<Rightarrow> kaspa_net \<Rightarrow> string \<Rightarrow> string \<Rightarrow> bytes \<Rightarrow> u64
     \<Rightarrow> (string \<times> bytes, kaspa_error) result" where
  "kaspa_sign_with_balance L K net network_id private_key digest required_balance =
     r_bind (kaspa_signing_key K private_key) (\<lambda>key.
     r_bind (parse_network_prefix network_id) (\<lambda>prefix.
     r_bind (pubkey_bytes K key) (\<lambda>pubkey.
     let address_str = kl_address_to_string L (pubkey_address prefix pubkey) in
     r_bind (kaspa_query_balance L net address_str) (\<lambda>balance.
     if balance < required_balance
     then Inl (KaspaOther (''insufficient balance at '' @ address_str @ '': have '' @ show_nat (unat balance)
            @ '', need '' @ show_nat (unat required_balance)))
     else Inr (address_str, kc_sign K key digest)))))"

fun show_version :: "address_version \<Rightarrow> string" where
  "show_version PubKey = ''PubKey''"
| "show_version PubKeyECDSA = ''PubKeyECDSA''"
| "show_version ScriptHash = ''ScriptHash''"

definition kaspa_verify_lp_signature ::
  "kaspa_lib \<Rightarrow> kaspa_crypto \<Rightarrow> bytes \<Rightarrow> string \<Rightarrow> bytes \<Rightarrow> (bool, kaspa_error) result" where
  "kaspa_verify_lp_signature L K digest claimed_address signature_bytes =
     r_bind (map_err (\<lambda>e. KaspaOther (''invalid claimed address: '' @ e)) (kl_address_try_from L claimed_address))
       (\<lambda>claimed.
     if ka_version claimed \<noteq> PubKey
     then Inl (KaspaOther (''claimed address is not P2PK (version='' @ show_version (ka_version claimed) @ '')''))
     else if length (ka_payload claimed) \<noteq> 32
     then Inl (KaspaOther (''claimed address payload is '' @ show_nat (length (ka_payload claimed))
            @ '' bytes, expected 32''))
     else
       r_bind (map_err (\<lambda>e. KaspaOther (''verifying key: '' @ e)) (kc_verifying_key K (ka_payload claimed)))
         (\<lambda>verifying_key.
       r_bind (map_err (\<lambda>e. KaspaOther (''signature parse: '' @ e)) (kc_parse_signature K signature_bytes))
         (\<lambda>signature. Inr (kc_verify K verifying_key digest signature))))"

definition kaspa_verify_with_balance ::
  "kaspa_lib \<Rightarrow> kaspa_crypto \<Rightarrow> kaspa_net \<Rightarrow> bytes \<Rightarrow> string \<Rightarrow> bytes \<Rightarrow> u64
     \<Rightarrow> (proposal_verification, kaspa_error) result" where
  "kaspa_verify_with_balance L K net digest claimed_address signature_bytes required_balance =
     r_bind (kaspa_verify_lp_signature L K digest claimed_address signature_bytes) (\<lambda>address_matches.
     r_bind (kaspa_query_balance L net claimed_address) (\<lambda>balance.
     Inr \<lparr>pv_address_matches = address_matches, pv_balance_sufficient = (required_balance \<le> balance)\<rparr>))"

section \<open>The signer\<close>

record signer340 =
  sg_key :: bytes
  sg_pubkey :: bytes
  sg_prefix :: kaspa_prefix

definition signer_derive :: "kaspa_crypto \<Rightarrow> string \<Rightarrow> kaspa_prefix \<Rightarrow> (signer340, kaspa_error) result" where
  "signer_derive K private_key prefix =
     r_bind (kaspa_signing_key K private_key) (\<lambda>key.
     r_bind (pubkey_bytes K key) (\<lambda>pubkey.
     Inr \<lparr>sg_key = key, sg_pubkey = pubkey, sg_prefix = prefix\<rparr>))"

definition signer_address :: "signer340 \<Rightarrow> kaspa_address" where
  "signer_address self = pubkey_address (sg_prefix self) (sg_pubkey self)"

definition signer_spk :: "kaspa_lib \<Rightarrow> signer340 \<Rightarrow> script_public_key" where
  "signer_spk L self = kl_pay_to_address_script L (signer_address self)"

definition sign_input ::
  "kaspa_lib \<Rightarrow> kaspa_crypto \<Rightarrow> signer340 \<Rightarrow> kaspa_tx \<Rightarrow> utxo_entry list \<Rightarrow> nat \<Rightarrow> (bytes, kaspa_error) result" where
  "sign_input L K self tx entries index =
     r_bind (map_err (\<lambda>e. KaspaOther (''schnorr sign: '' @ e))
       (kc_sign_prehash K (sg_key self) (kc_signature_hash K tx entries index))) (\<lambda>sig.
     let signature = sig @ [kc_sighash_all K] in
     map_err script_err (build_script L [AddData signature] []))"

section \<open>Unspent outputs\<close>

definition prefix_for :: "kaspa_net \<Rightarrow> (kaspa_prefix, kaspa_error) result" where
  "prefix_for net = ok_or (retry_timed (kn_server_prefix net)) (KaspaOther ''get_server_info: timed out'')"

definition rpc_utxo_to_entry :: "kaspa_utxo \<Rightarrow> utxo_entry" where
  "rpc_utxo_to_entry u =
     \<lparr>ue_amount = ku_amount u, ue_script_public_key = ku_script_public_key u,
      ue_block_daa_score = ku_block_daa_score u, ue_is_coinbase = ku_is_coinbase u\<rparr>"

definition utxo_is_mature :: "kaspa_utxo \<Rightarrow> u64 \<Rightarrow> u64 \<Rightarrow> bool" where
  "utxo_is_mature utxo coinbase_maturity current_daa =
     (\<not> ku_is_coinbase utxo \<or> ku_block_daa_score utxo + coinbase_maturity \<le> current_daa)"

fun select_loop ::
  "u64 \<Rightarrow> u64 \<Rightarrow> u64 \<Rightarrow> kaspa_utxo list \<Rightarrow> kaspa_utxo list \<Rightarrow> u64 \<Rightarrow> kaspa_utxo list \<times> u64" where
  "select_loop amount coinbase_maturity current_daa [] selected acc = (selected, acc)"
| "select_loop amount coinbase_maturity current_daa (utxo # utxos) selected acc =
     (if \<not> utxo_is_mature utxo coinbase_maturity current_daa
      then select_loop amount coinbase_maturity current_daa utxos selected acc
      else if amount \<le> acc + ku_amount utxo then (selected @ [utxo], acc + ku_amount utxo)
      else select_loop amount coinbase_maturity current_daa utxos (selected @ [utxo]) (acc + ku_amount utxo))"

definition select_funding_utxos ::
  "kaspa_utxo list \<Rightarrow> u64 \<Rightarrow> u64 \<Rightarrow> u64 \<Rightarrow> (kaspa_utxo list \<times> u64, kaspa_error) result" where
  "select_funding_utxos utxos amount coinbase_maturity current_daa =
     (case select_loop amount coinbase_maturity current_daa utxos [] 0 of
        (selected, acc) \<Rightarrow>
          if acc < amount then Inl (InsufficientFunds amount acc) else Inr (selected, acc))"

definition to_input :: "u64 \<Rightarrow> u8 \<Rightarrow> kaspa_utxo \<Rightarrow> tx_input" where
  "to_input seq sig_ops utxo =
     \<lparr>ti_previous_outpoint = (ku_transaction_id utxo, ku_index utxo), ti_signature_script = [],
      ti_sequence = seq, ti_sig_op_count = sig_ops\<rparr>"

definition to_inputs :: "kaspa_utxo list \<Rightarrow> tx_input list" where
  "to_inputs utxos = map (\<lambda>(seq, utxo). to_input (of_nat seq) 1 utxo) (enumerate 0 utxos)"

section \<open>Fees\<close>

definition MASS_PER_TX_BYTE :: u64 where "MASS_PER_TX_BYTE = 1"
definition SCHNORR_SIG_SCRIPT_SIZE :: u64 where "SCHNORR_SIG_SCRIPT_SIZE = 66"
definition MAX_FEERATE :: f64 where "MAX_FEERATE = Fin 100000"

definition fee_from_mass :: "u64 \<Rightarrow> f64 \<Rightarrow> u64" where
  "fee_from_mass mass feerate = max (f_as_uint (f_ceil (f_mul (f_of_nat (unat mass)) feerate))) 1"

definition calculate_priority_fee ::
  "kaspa_crypto \<Rightarrow> kaspa_net \<Rightarrow> kaspa_tx \<Rightarrow> u64 \<Rightarrow> (u64, kaspa_error) result" where
  "calculate_priority_fee K net tx extra_sig_script_bytes =
     r_bind (ok_or (retry_timed (kn_feerate net)) (KaspaOther ''get_fee_estimate: timed out'')) (\<lambda>feerate.
     if \<not> is_finite feerate \<or> f_lt feerate (Fin 0) then 
     Inl (KaspaOther (''invalid rpc feerate '' @ kc_show_f64 K feerate))
     else
       (let feerate = f_min feerate MAX_FEERATE;
            (calc_compute, calc_transient) = kc_masses K tx;
            schnorr_sig_bytes = of_nat (length (filter (\<lambda>input. 0 < ti_sig_op_count input) (kt_inputs tx)))
              * SCHNORR_SIG_SCRIPT_SIZE;
            total_sig_bytes = schnorr_sig_bytes + extra_sig_script_bytes;
            compute_mass = calc_compute + total_sig_bytes * MASS_PER_TX_BYTE;
            transient_mass = calc_transient + total_sig_bytes * kc_transient_factor K;
            mass = max compute_mass transient_mass
        in Inr (fee_from_mass mass feerate)))"

definition submit_transaction :: "kaspa_net \<Rightarrow> kaspa_tx \<Rightarrow> (string, kaspa_error) result" where
  "submit_transaction net tx =
     (case kn_submit net tx of
        None \<Rightarrow> Inl (KaspaOther ''submit_transaction: timed out'')
      | Some (Inl e) \<Rightarrow> Inl (RpcTx e)
      | Some (Inr tx_id) \<Rightarrow> Inr tx_id)"

section \<open>Committing\<close>

record announce =
  an_address :: string
  an_redeem_script :: bytes

fun sign_inputs ::
  "kaspa_lib \<Rightarrow> kaspa_crypto \<Rightarrow> signer340 \<Rightarrow> kaspa_tx \<Rightarrow> utxo_entry list \<Rightarrow> nat list \<Rightarrow> (bytes list, kaspa_error) result" where
  "sign_inputs L K signer tx entries [] = Inr []"
| "sign_inputs L K signer tx entries (i # is) =
     r_bind (sign_input L K signer tx entries i) (\<lambda>s.
     r_bind (sign_inputs L K signer tx entries is) (\<lambda>ss. Inr (s # ss)))"

text \<open>Pairing the inputs with the signatures changes the inputs that have one.\<close>

fun zip_signatures :: "tx_input list \<Rightarrow> bytes list \<Rightarrow> tx_input list" where
  "zip_signatures (input # inputs) (s # ss) = input\<lparr>ti_signature_script := s\<rparr> # zip_signatures inputs ss"
| "zip_signatures inputs ss = inputs"

definition with_change :: "u64 \<Rightarrow> script_public_key \<Rightarrow> u64 \<Rightarrow> script_public_key \<Rightarrow> tx_output list" where
  "with_change amount spk change our_spk =
     [\<lparr>to_value = amount, to_script_public_key = spk\<rparr>] @
     (if 0 < change then [\<lparr>to_value = change, to_script_public_key = our_spk\<rparr>] else [])"

definition build_commitment_tx ::
  "kaspa_lib \<Rightarrow> kaspa_crypto \<Rightarrow> kaspa_net \<Rightarrow> signer340 \<Rightarrow> bytes \<Rightarrow> u64 \<Rightarrow> commitment_v1
     \<Rightarrow> (kaspa_tx, kaspa_error) result" where
  "build_commitment_tx L K net signer htlc_script coinbase_maturity commitment =
     (let htlc_spk = kl_pay_to_script_hash_script L htlc_script; our_spk = signer_spk L signer in
      r_bind (map_err RpcTx (kn_utxos_once net (signer_address signer))) (\<lambda>utxos.
      if utxos = [] then Inl NoUtxos
      else
        r_bind (ok_or (retry_timed (kn_dag_info net)) (KaspaOther ''get_block_dag_info: timed out'')) (\<lambda>dag_info.
        r_bind (ok_or (map_option of_nat (parse_uint 64 (am_value (cm_amount commitment))))
          (ParseInt (parse_uint_error 64 (am_value (cm_amount commitment))))) (\<lambda>amount.
        r_bind (select_funding_utxos utxos amount coinbase_maturity (di_virtual_daa_score dag_info))
          (\<lambda>(selected_utxos, total_input).
        let inputs = to_inputs selected_utxos;
            preliminary_change = saturating_sub total_input amount;
            preliminary_tx = \<lparr>kt_inputs = inputs,
              kt_outputs = with_change amount htlc_spk preliminary_change our_spk, kt_lock_time = 0\<rparr> in
        r_bind (calculate_priority_fee K net preliminary_tx 0) (\<lambda>fee.
        if total_input < amount + fee then Inl (InsufficientFunds (amount + fee) total_input)
        else
          (let change = saturating_sub (saturating_sub total_input amount) fee;
               tx = \<lparr>kt_inputs = inputs, kt_outputs = with_change amount htlc_spk change our_spk,
                     kt_lock_time = 0\<rparr>;
               utxo_entries = map rpc_utxo_to_entry selected_utxos in
           r_bind (sign_inputs L K signer tx utxo_entries [0..<length selected_utxos]) (\<lambda>signed_scripts.
           Inr (tx\<lparr>kt_inputs := zip_signatures (kt_inputs tx) signed_scripts\<rparr>)))))))))"

definition submit_commitment ::
  "kaspa_lib \<Rightarrow> kaspa_crypto \<Rightarrow> kaspa_net \<Rightarrow> string \<Rightarrow> u64 \<Rightarrow> commitment_v1
     \<Rightarrow> (announce, kaspa_error) result \<times> kaspa_tx list" where
  "submit_commitment L K net private_key coinbase_maturity commitment =
     (case r_bind (prefix_for net) (\<lambda>prefix.
           r_bind (signer_derive K private_key prefix) (\<lambda>signer.
           r_bind (htlc_script_from_commitment L commitment) (\<lambda>(htlc_script, _, _, _).
           r_bind (build_commitment_tx L K net signer htlc_script coinbase_maturity commitment) (\<lambda>tx.
           Inr (prefix, htlc_script, tx))))) of
        Inl e \<Rightarrow> (Inl e, [])
      | Inr (prefix, htlc_script, tx) \<Rightarrow>
          (r_bind (submit_transaction net tx) (\<lambda>tx_id.
           r_bind (map_err TxScript (kl_extract_address L (kl_pay_to_script_hash_script L htlc_script) prefix))
             (\<lambda>address.
           Inr \<lparr>an_address = kl_address_to_string L address, an_redeem_script = htlc_script\<rparr>)),
           [tx]))"

section \<open>Spending a deposit\<close>

record htlc_spend =
  hs_signer :: signer340
  hs_htlc_script :: bytes
  hs_sender_spk :: script_public_key
  hs_receiver_spk :: script_public_key
  hs_unlock_ts_ms :: u64
  hs_htlc_utxos :: "kaspa_utxo list"
  hs_fee_utxo :: kaspa_utxo

definition prepare_htlc_spend ::
  "kaspa_lib \<Rightarrow> kaspa_crypto \<Rightarrow> kaspa_net \<Rightarrow> string \<Rightarrow> u64 \<Rightarrow> commitment_v1 \<Rightarrow> (htlc_spend, kaspa_error) result" where
  "prepare_htlc_spend L K net private_key coinbase_maturity commitment =
     r_bind (prefix_for net) (\<lambda>prefix.
     r_bind (signer_derive K private_key prefix) (\<lambda>signer.
     r_bind (htlc_script_from_commitment L commitment) (\<lambda>(htlc_script, sender_spk, receiver_spk, unlock_ts_ms).
     let htlc_spk = kl_pay_to_script_hash_script L htlc_script in
     r_bind (map_err TxScript (kl_extract_address L htlc_spk prefix)) (\<lambda>htlc_address.
     r_bind (ok_or (retry_timed (kn_utxos net htlc_address)) (KaspaOther ''get_utxos htlc: timed out''))
       (\<lambda>htlc_utxos.
     if htlc_utxos = [] then Inl (HtlcUtxoNotFound (cm_swap_id commitment))
     else
       r_bind (ok_or (retry_timed (kn_utxos net (signer_address signer))) (KaspaOther ''get_utxos self: timed out''))
         (\<lambda>our_utxos.
       r_bind (ok_or (retry_timed (kn_dag_info net)) (KaspaOther ''get_block_dag_info: timed out'')) (\<lambda>dag_info.
       r_bind (ok_or (find (\<lambda>u. utxo_is_mature u coinbase_maturity (di_virtual_daa_score dag_info)) our_utxos)
         NoUtxos) (\<lambda>fee_utxo.
       Inr \<lparr>hs_signer = signer, hs_htlc_script = htlc_script, hs_sender_spk = sender_spk,
            hs_receiver_spk = receiver_spk, hs_unlock_ts_ms = unlock_ts_ms, hs_htlc_utxos = htlc_utxos,
            hs_fee_utxo = fee_utxo\<rparr>))))))))"

definition spend_inputs :: "kaspa_utxo \<Rightarrow> kaspa_utxo \<Rightarrow> tx_input list" where
  "spend_inputs htlc_utxo fee_utxo = [to_input 0 0 htlc_utxo, to_input 0 1 fee_utxo]"

definition spend_outputs :: "u64 \<Rightarrow> u64 \<Rightarrow> script_public_key \<Rightarrow> script_public_key \<Rightarrow> tx_output list" where
  "spend_outputs dest_amount reward dest_spk our_spk =
     [\<lparr>to_value = dest_amount, to_script_public_key = dest_spk\<rparr>,
      \<lparr>to_value = reward, to_script_public_key = our_spk\<rparr>]"

definition MIN_REWARD_OUTPUT_SOMPI :: u64 where "MIN_REWARD_OUTPUT_SOMPI = 10000"

record spend_params =
  sp_dest_spk :: script_public_key
  sp_lock_time :: u64
  sp_extra_sig_bytes :: u64
  sp_branch_sig_script :: bytes

definition build_spend_tx ::
  "kaspa_lib \<Rightarrow> kaspa_crypto \<Rightarrow> kaspa_net \<Rightarrow> htlc_spend \<Rightarrow> spend_params \<Rightarrow> kaspa_utxo \<Rightarrow> (kaspa_tx, kaspa_error) result" where
  "build_spend_tx L K net ctx params utxo =
     (let our_spk = signer_spk L (hs_signer ctx); solver_reward = of_int SOLVER_REWARD :: u64 in
      r_bind (ok_or (checked_sub (ku_amount utxo) solver_reward)
        (InsufficientFunds solver_reward (ku_amount utxo))) (\<lambda>dest_amount.
      r_bind (ok_or (checked_add solver_reward (ku_amount (hs_fee_utxo ctx)))
        (KaspaOther ''Solver reward + fee UTXO overflow'')) (\<lambda>reward_pre.
      let inputs = spend_inputs utxo (hs_fee_utxo ctx);
          prelim = \<lparr>kt_inputs = inputs,
            kt_outputs = spend_outputs dest_amount reward_pre (sp_dest_spk params) our_spk,
            kt_lock_time = sp_lock_time params\<rparr> in
      r_bind (calculate_priority_fee K net prelim (sp_extra_sig_bytes params)) (\<lambda>fee.
      r_bind (ok_or (checked_sub reward_pre fee) (InsufficientFunds fee reward_pre)) (\<lambda>reward.
      if reward < MIN_REWARD_OUTPUT_SOMPI then Inl (InsufficientFunds MIN_REWARD_OUTPUT_SOMPI reward)
      else
        (let tx = \<lparr>kt_inputs = inputs,
               kt_outputs = spend_outputs dest_amount reward (sp_dest_spk params) our_spk,
               kt_lock_time = sp_lock_time params\<rparr>;
             entries = [rpc_utxo_to_entry utxo, rpc_utxo_to_entry (hs_fee_utxo ctx)] in
         r_bind (sign_input L K (hs_signer ctx) tx entries 1) (\<lambda>fee_sig.
         case kt_inputs tx of
           [htlc_in, fee_in] \<Rightarrow>
             Inr (tx\<lparr>kt_inputs := [htlc_in\<lparr>ti_signature_script := sp_branch_sig_script params\<rparr>,
                                  fee_in\<lparr>ti_signature_script := fee_sig\<rparr>]\<rparr>)
         | _ \<Rightarrow> Inl (KaspaOther ''htlc spend tx must have exactly 2 inputs''))))))))"

fun spend_utxos ::
  "kaspa_lib \<Rightarrow> kaspa_crypto \<Rightarrow> kaspa_net \<Rightarrow> htlc_spend \<Rightarrow> spend_params \<Rightarrow> kaspa_utxo list
     \<Rightarrow> (unit, kaspa_error) result \<times> kaspa_tx list" where
  "spend_utxos L K net ctx params [] = (Inr (), [])"
| "spend_utxos L K net ctx params (utxo # utxos) =
     (case build_spend_tx L K net ctx params utxo of
        Inl e \<Rightarrow> (Inl e, [])
      | Inr tx \<Rightarrow>
          (case submit_transaction net tx of
             Inl e \<Rightarrow> (Inl e, [tx])
           | Inr _ \<Rightarrow>
               (case spend_utxos L K net ctx params utxos of (r, txs) \<Rightarrow> (r, tx # txs))))"

definition submit_htlc_spend ::
  "kaspa_lib \<Rightarrow> kaspa_crypto \<Rightarrow> kaspa_net \<Rightarrow> htlc_spend \<Rightarrow> spend_params
     \<Rightarrow> (unit, kaspa_error) result \<times> kaspa_tx list" where
  "submit_htlc_spend L K net ctx params = spend_utxos L K net ctx params (hs_htlc_utxos ctx)"

definition kaspa_submit_refund ::
  "kaspa_lib \<Rightarrow> kaspa_crypto \<Rightarrow> kaspa_net \<Rightarrow> string \<Rightarrow> u64 \<Rightarrow> commitment_v1
     \<Rightarrow> (unit, kaspa_error) result \<times> kaspa_tx list" where
  "kaspa_submit_refund L K net private_key coinbase_maturity commitment =
     (case r_bind (prepare_htlc_spend L K net private_key coinbase_maturity commitment) (\<lambda>ctx.
           r_bind (refund_sig_script L (hs_htlc_script ctx)) (\<lambda>branch_sig_script.
           Inr (ctx, branch_sig_script))) of
        Inl e \<Rightarrow> (Inl e, [])
      | Inr (ctx, branch_sig_script) \<Rightarrow>
          submit_htlc_spend L K net ctx
            \<lparr>sp_dest_spk = hs_sender_spk ctx, sp_lock_time = hs_unlock_ts_ms ctx, sp_extra_sig_bytes = 260,
             sp_branch_sig_script = branch_sig_script\<rparr>)"

definition kaspa_submit_reveal ::
  "kaspa_lib \<Rightarrow> kaspa_crypto \<Rightarrow> kaspa_net \<Rightarrow> string \<Rightarrow> u64 \<Rightarrow> commitment_v1 \<Rightarrow> reveal_v1
     \<Rightarrow> (unit, kaspa_error) result \<times> kaspa_tx list" where
  "kaspa_submit_reveal L K net private_key coinbase_maturity commitment reveal =
     (case r_bind (prepare_htlc_spend L K net private_key coinbase_maturity commitment) (\<lambda>ctx.
           r_bind (reveal_sig_script L (rv_secret reveal) (hs_htlc_script ctx)) (\<lambda>branch_sig_script.
           Inr (ctx, branch_sig_script))) of
        Inl e \<Rightarrow> (Inl e, [])
      | Inr (ctx, branch_sig_script) \<Rightarrow>
          submit_htlc_spend L K net ctx
            \<lparr>sp_dest_spk = hs_receiver_spk ctx, sp_lock_time = 0, sp_extra_sig_bytes = 300,
             sp_branch_sig_script = branch_sig_script\<rparr>)"

end
