(* ===== verification/Kaspa_Chain.thy ===== *)
theory Kaspa_Chain
  imports Kaspa_Broadcast Storage
begin

text \<open>
  The Kaspa channel of the data crate (\<open>chains/kaspa/\<close>): the buffer with its registered scripts and
  persisted swaps (\<open>mod.rs\<close>, \<open>accessors.rs\<close>, \<open>persist.rs\<close>, \<open>connect.rs\<close>), polling
  (\<open>poll.rs\<close>), emission (\<open>emit.rs\<close>), the registration of announced scripts (\<open>detector.rs\<close>), the
  buffer interface (\<open>buffer.rs\<close>) and settlement (\<open>settle.rs\<close>, \<open>settler.rs\<close>, \<open>reconcile.rs\<close>).

  The receiving end of the intake is the list of confirmed blocks that wait in the channel.
\<close>

section \<open>The buffer\<close>

record script_announcement =
  sa_address :: string
  sa_swap_id :: bytes
  sa_script :: utxo_script

record 's kaspa =
  kb_channel_id :: channel_id
  kb_network_id :: string
  kb_prefix :: kaspa_prefix
  kb_coinbase_maturity :: u64
  kb_script_ttl_secs :: u64
  kb_participate_ccr :: bool
  kb_private_key :: "string option"
  kb_utxo_scripts :: utxo_scripts
  kb_safe_blocks :: "rpc_block list"
  kb_commitments :: "(bytes, commitment_v1) hashmap"
  kb_pending_refunds :: "(refund_v1 \<times> u64) list"
  kb_pending_claims :: "reveal_v1 list"
  kb_announcements :: "script_announcement list"
  kb_scripts :: "(bytes, utxo_script) hashmap"
  kb_swap_store :: "'s option"
  kb_queue :: retry_queue

definition kaspa_key :: "'s kaspa \<Rightarrow> (string, data_error) result" where
  "kaspa_key self = ok_or (kb_private_key self) (MissingKey (kb_channel_id self))"

definition cache_commitment :: "commitment_v1 \<Rightarrow> 's kaspa \<Rightarrow> 's kaspa" where
  "cache_commitment c self = self\<lparr>kb_commitments := hm_insert (cm_swap_id c) c (kb_commitments self)\<rparr>"

definition kaspa_commitment :: "bytes \<Rightarrow> 's kaspa \<Rightarrow> commitment_v1 option" where
  "kaspa_commitment swap_id self = hm_get (kb_commitments self) swap_id"

definition prune_scripts :: "u64 \<Rightarrow> 's kaspa \<Rightarrow> 's kaspa" where
  "prune_scripts now self =
     self\<lparr>kb_utxo_scripts :=
       hm_retain (\<lambda>_ s. now \<le> saturating_add (us_unlock_ts s) (kb_script_ttl_secs self)) (kb_utxo_scripts self)\<rparr>"

definition register_internal :: "string \<Rightarrow> utxo_script \<Rightarrow> 's kaspa \<Rightarrow> 's kaspa" where
  "register_internal address script self =
     self\<lparr>kb_utxo_scripts := hm_insert address script (kb_utxo_scripts self)\<rparr>"

section \<open>Persistence\<close>

definition kaspa_record :: "'s kaspa \<Rightarrow> bytes \<Rightarrow> persisted_swap" where
  "kaspa_record self swap_id =
     \<lparr>pw_script = hm_get (kb_scripts self) swap_id,
      pw_pending_refund = find (\<lambda>(r, _). rf_swap_id r = swap_id) (kb_pending_refunds self),
      pw_pending_claim = find (\<lambda>c. rv_swap_id c = swap_id) (kb_pending_claims self),
      pw_claim_attempt = rq_get (claim_key swap_id) (kb_queue self),
      pw_refund_attempt = rq_get (refund_key swap_id) (kb_queue self)\<rparr>"

definition kaspa_persist_swap ::
  "persisted_swap borsh_codec \<Rightarrow> 's swap_store_ops \<Rightarrow> bytes \<Rightarrow> 's kaspa \<Rightarrow> 's kaspa" where
  "kaspa_persist_swap B D swap_id self =
     (case kb_swap_store self of
        None \<Rightarrow> self
      | Some store \<Rightarrow>
          self\<lparr>kb_swap_store :=
            Some (store_record B D (kb_channel_id self) swap_id (kaspa_record self swap_id) store)\<rparr>)"

fun is_resolving :: "chain_event \<Rightarrow> bool" where
  "is_resolving (Reveal r) = True"
| "is_resolving (Refund r) = True"
| "is_resolving (Commitment c) = False"

definition resolve_swap :: "bytes \<Rightarrow> 's kaspa \<Rightarrow> 's kaspa" where
  "resolve_swap swap_id self =
     self\<lparr>kb_queue := rq_record_success (refund_key swap_id)
            (rq_record_success (claim_key swap_id) (kb_queue self)),
          kb_pending_claims := filter (\<lambda>c. rv_swap_id c \<noteq> swap_id) (kb_pending_claims self),
          kb_commitments := hm_remove swap_id (kb_commitments self),
          kb_scripts := hm_remove swap_id (kb_scripts self)\<rparr>"

definition kaspa_track_actionable_event ::
  "persisted_swap borsh_codec \<Rightarrow> 's swap_store_ops \<Rightarrow> chain_event \<Rightarrow> 's kaspa \<Rightarrow> 's kaspa" where
  "kaspa_track_actionable_event B D event self =
     (let swap_id = event_swap_id event;
          self1 = (case event of Commitment c \<Rightarrow> cache_commitment c self | _ \<Rightarrow> self);
          self2 = self1\<lparr>kb_pending_refunds :=
            queue_dequeue_refund_event (kb_pending_refunds self1) event (kb_participate_ccr self1)\<rparr>;
          self3 = (if is_resolving event then resolve_swap swap_id self2 else self2)
      in kaspa_persist_swap B D swap_id self3)"

section \<open>Polling\<close>

text \<open>
  The refunds of a block: first the pending list is extended, then each new entry gets its attempt and
  is persisted. \<open>clk i j\<close> is the \<open>j\<close>-th reading of the clock while the \<open>i\<close>-th block is handled.
\<close>

fun push_refunds ::
  "(bytes \<times> u64) list \<Rightarrow> (refund_v1 \<times> u64) list \<Rightarrow> (refund_v1 \<times> u64) list \<times> bytes list" where
  "push_refunds [] pending = (pending, [])"
| "push_refunds ((swap_id, unlock_ts) # refunds) pending =
     (case push_pending_refund pending swap_id unlock_ts of
        (pending1, fresh) \<Rightarrow>
          (case push_refunds refunds pending1 of
             (pending2, pushed) \<Rightarrow> (pending2, if fresh then swap_id # pushed else pushed)))"

definition ensure_refund ::
  "persisted_swap borsh_codec \<Rightarrow> 's swap_store_ops \<Rightarrow> u64 \<Rightarrow> bytes \<Rightarrow> 's kaspa \<Rightarrow> 's kaspa" where
  "ensure_refund B D now swap_id self =
     kaspa_persist_swap B D swap_id (self\<lparr>kb_queue := rq_ensure (refund_key swap_id) now (kb_queue self)\<rparr>)"

definition track_refunds ::
  "persisted_swap borsh_codec \<Rightarrow> 's swap_store_ops \<Rightarrow> (nat \<Rightarrow> u64) \<Rightarrow> (bytes \<times> u64) list \<Rightarrow> 's kaspa \<Rightarrow> 's kaspa" where
  "track_refunds B D now refunds self =
     (if kb_participate_ccr self then
        (case push_refunds refunds (kb_pending_refunds self) of
           (pending, pushed) \<Rightarrow>
             fold (\<lambda>(j, swap_id). ensure_refund B D (now j) swap_id) (enumerate 0 pushed)
               (self\<lparr>kb_pending_refunds := pending\<rparr>))
      else self)"

definition track_events ::
  "persisted_swap borsh_codec \<Rightarrow> 's swap_store_ops \<Rightarrow> chain_event list \<Rightarrow> 's kaspa \<Rightarrow> 's kaspa" where
  "track_events B D events self = fold (kaspa_track_actionable_event B D) events self"

fun kaspa_handle_blocks ::
  "persisted_swap borsh_codec \<Rightarrow> 's swap_store_ops \<Rightarrow> kaspa_lib \<Rightarrow> (nat \<Rightarrow> nat \<Rightarrow> u64) \<Rightarrow> nat \<Rightarrow> rpc_block list \<Rightarrow> 's kaspa
     \<Rightarrow> ((channel_id \<times> chain_event) list, kaspa_error) result \<times> 's kaspa" where
  "kaspa_handle_blocks B D L clk i [] self = (Inr [], self)"
| "kaspa_handle_blocks B D L clk i (block # blocks) self =
     (case handle_block_added L block (kb_utxo_scripts self) (kb_prefix self) (kb_channel_id self) of
        (Inl e, scripts) \<Rightarrow> (Inl e, self\<lparr>kb_utxo_scripts := scripts\<rparr>)
      | (Inr outcomes, scripts) \<Rightarrow>
          (let self1 = self\<lparr>kb_utxo_scripts := scripts\<rparr>;
               self2 = track_refunds B D (clk i) (bo_refunds outcomes) self1;
               self3 = track_events B D (bo_events outcomes) self2
           in case kaspa_handle_blocks B D L clk (Suc i) blocks self3 of
                (r, self4) \<Rightarrow>
                  (r_bind r (\<lambda>events. Inr (map (Pair (kb_channel_id self)) (bo_events outcomes) @ events)),
                   self4)))"

definition kaspa_poll_finalized ::
  "persisted_swap borsh_codec \<Rightarrow> 's swap_store_ops \<Rightarrow> kaspa_lib \<Rightarrow> (nat \<Rightarrow> nat \<Rightarrow> u64) \<Rightarrow> 's kaspa
     \<Rightarrow> ((channel_id \<times> chain_event) list, data_error) result \<times> 's kaspa" where
  "kaspa_poll_finalized B D L clk self =
     (case kaspa_handle_blocks B D L clk 0 (kb_safe_blocks self) (self\<lparr>kb_safe_blocks := []\<rparr>) of
        (Inl e, self') \<Rightarrow> (Inl (data_error_from_kaspa e), self')
      | (Inr events, self') \<Rightarrow> (Inr events, prune_scripts (clk (length (kb_safe_blocks self)) 0) self'))"

section \<open>Emission\<close>

definition kaspa_emit_event ::
  "persisted_swap borsh_codec \<Rightarrow> 's swap_store_ops \<Rightarrow> kaspa_lib \<Rightarrow> kaspa_crypto \<Rightarrow> kaspa_net \<Rightarrow> u64 \<Rightarrow> chain_event
     \<Rightarrow> 's kaspa \<Rightarrow> ((unit, data_error) result \<times> kaspa_tx list) \<times> 's kaspa" where
  "kaspa_emit_event B D L K net now event self =
     (case event of
        Commitment c \<Rightarrow>
          (let self1 = cache_commitment c self in
           case kaspa_key self1 of
             Inl e \<Rightarrow> ((Inl e, []), self1)
           | Inr pk \<Rightarrow>
               (case submit_commitment L K net pk (kb_coinbase_maturity self1) c of
                  (Inl e, txs) \<Rightarrow> ((Inl (data_error_from_kaspa e), txs), self1)
                | (Inr announce, txs) \<Rightarrow>
                    (let script = \<lparr>us_redeem_script = an_redeem_script announce, us_unlock_ts = cm_unlock_ts c,
                           us_deposit_target = am_value (cm_amount c)\<rparr>;
                         self2 = self1\<lparr>kb_scripts := hm_insert (cm_swap_id c) script (kb_scripts self1)\<rparr>;
                         self3 = register_internal (an_address announce) script self2;
                         self4 = self3\<lparr>kb_announcements := kb_announcements self3 @
                           [\<lparr>sa_address = an_address announce, sa_swap_id = cm_swap_id c, sa_script = script\<rparr>]\<rparr>
                     in ((Inr (), txs), kaspa_persist_swap B D (cm_swap_id c) self4))))
      | Reveal r \<Rightarrow>
          (if kb_participate_ccr self \<and> kaspa_commitment (rv_swap_id r) self \<noteq> None then
             (let self1 = self\<lparr>kb_pending_claims := push_pending_claim (kb_pending_claims self) r\<rparr>;
                  self2 = self1\<lparr>kb_queue := rq_ensure (claim_key (rv_swap_id r)) now (kb_queue self1)\<rparr>
              in ((Inr (), []), kaspa_persist_swap B D (rv_swap_id r) self2))
           else ((Inr (), []), self))
      | Refund _ \<Rightarrow> ((Inr (), []), self))"

section \<open>Announced scripts\<close>

definition register_script ::
  "persisted_swap borsh_codec \<Rightarrow> 's swap_store_ops \<Rightarrow> kaspa_lib \<Rightarrow> u64 \<Rightarrow> string \<Rightarrow> bytes \<Rightarrow> bytes \<Rightarrow> u64 \<Rightarrow> string
     \<Rightarrow> 's kaspa \<Rightarrow> (unit, data_error) result \<times> 's kaspa" where
  "register_script B D L now address redeem_script swap_id unlock_ts deposit_target self =
     (case validate_script_announce L (kb_network_id self) (kb_channel_id self) address redeem_script swap_id unlock_ts of
        Inl e \<Rightarrow> (Inl (data_error_from_kaspa e), self)
      | Inr _ \<Rightarrow>
          (let script = \<lparr>us_redeem_script = redeem_script, us_unlock_ts = unlock_ts,
                 us_deposit_target = deposit_target\<rparr>;
               self1 = self\<lparr>kb_scripts := hm_insert swap_id script (kb_scripts self)\<rparr>;
               self2 = register_internal address script self1;
               self3 = prune_scripts now self2
           in (Inr (), kaspa_persist_swap B D swap_id self3)))"

section \<open>The buffer interface\<close>

definition kaspa_lp_address :: "kaspa_lib \<Rightarrow> kaspa_crypto \<Rightarrow> 's kaspa \<Rightarrow> (string, data_error) result" where
  "kaspa_lp_address L K self =
     r_bind (kaspa_key self) (\<lambda>pk.
       map_err data_error_from_kaspa (lp_address_from_private_key L K (kb_network_id self) pk))"

definition derive_deposit :: "kaspa_lib \<Rightarrow> commitment_v1 \<Rightarrow> 's kaspa \<Rightarrow> (string \<times> bytes, data_error) result" where
  "derive_deposit L commitment self =
     map_err data_error_from_kaspa (p2sh_components L (kb_network_id self) commitment)"

definition required_sompi :: "string \<Rightarrow> (u64, data_error) result" where
  "required_sompi s =
     ok_or (map_option of_nat (parse_uint 64 s)) (SignError (''required_balance: '' @ parse_uint_error 64 s))"

definition kaspa_sign_message ::
  "kaspa_lib \<Rightarrow> kaspa_crypto \<Rightarrow> kaspa_net \<Rightarrow> bytes \<Rightarrow> string \<Rightarrow> 's kaspa \<Rightarrow> (string \<times> bytes, data_error) result" where
  "kaspa_sign_message L K net digest required self =
     r_bind (required_sompi required) (\<lambda>amount.
     r_bind (kaspa_key self) (\<lambda>pk.
       map_err data_error_from_kaspa (kaspa_sign_with_balance L K net (kb_network_id self) pk digest amount)))"

definition kaspa_verify_message ::
  "kaspa_lib \<Rightarrow> kaspa_crypto \<Rightarrow> kaspa_net \<Rightarrow> bytes \<Rightarrow> string \<Rightarrow> bytes \<Rightarrow> string
     \<Rightarrow> (proposal_verification, data_error) result" where
  "kaspa_verify_message L K net digest claimed_address signature required =
     r_bind (required_sompi required) (\<lambda>amount.
       map_err data_error_from_kaspa (kaspa_verify_with_balance L K net digest claimed_address signature amount))"

definition take_utxo_script_announcements :: "'s kaspa \<Rightarrow> script_announcement list \<times> 's kaspa" where
  "take_utxo_script_announcements self = (kb_announcements self, self\<lparr>kb_announcements := []\<rparr>)"

section \<open>Settlement\<close>

definition kaspa_settle_refund ::
  "kaspa_lib \<Rightarrow> kaspa_crypto \<Rightarrow> kaspa_net \<Rightarrow> bytes \<Rightarrow> 's kaspa \<Rightarrow> settle_outcome \<times> kaspa_tx list" where
  "kaspa_settle_refund L K net swap_id self =
     (case (kaspa_commitment swap_id self, kaspa_key self) of
        (Some commitment, Inr pk) \<Rightarrow>
          (case retry_timed (kn_dag_info net) of
             None \<Rightarrow> (Retry ''dag_info_timeout'', [])
           | Some info \<Rightarrow>
               if di_past_median_time info \<le> saturating_mul (cm_unlock_ts commitment) 1000
               then (Retry ''not_yet_unlocked'', [])
               else
                 (case kaspa_submit_refund L K net pk (kb_coinbase_maturity self) commitment of
                    (Inr _, txs) \<Rightarrow> (Retry ''submitted_awaiting_inclusion'', txs)
                  | (Inl e, txs) \<Rightarrow> (Retry ''broadcast_error'', txs)))
      | _ \<Rightarrow> (Fatal ''missing commitment or key'', []))"

definition kaspa_settle_claim ::
  "kaspa_lib \<Rightarrow> kaspa_crypto \<Rightarrow> kaspa_net \<Rightarrow> bytes \<Rightarrow> 's kaspa \<Rightarrow> settle_outcome \<times> kaspa_tx list" where
  "kaspa_settle_claim L K net swap_id self =
     (case (kaspa_commitment swap_id self, kaspa_key self) of
        (Some commitment, Inr pk) \<Rightarrow>
          (case find (\<lambda>c. rv_swap_id c = swap_id) (kb_pending_claims self) of
             None \<Rightarrow> (Retry ''no_reveal'', [])
           | Some reveal \<Rightarrow>
               (case kaspa_submit_reveal L K net pk (kb_coinbase_maturity self) commitment reveal of
                  (Inr _, txs) \<Rightarrow> (Retry ''submitted_awaiting_inclusion'', txs)
                | (Inl e, txs) \<Rightarrow> (Retry ''broadcast_error'', txs)))
      | _ \<Rightarrow> (Fatal ''missing commitment or key'', []))"

definition kaspa_settle ::
  "kaspa_lib \<Rightarrow> kaspa_crypto \<Rightarrow> kaspa_net \<Rightarrow> action_key \<Rightarrow> 's kaspa \<Rightarrow> settle_outcome \<times> kaspa_tx list" where
  "kaspa_settle L K net key self =
     (case ak_action key of
        RefundAction \<Rightarrow> kaspa_settle_refund L K net (ak_swap_id key) self
      | Claim \<Rightarrow> kaspa_settle_claim L K net (ak_swap_id key) self)"

definition kaspa_observe_onchain ::
  "kaspa_lib \<Rightarrow> kaspa_net \<Rightarrow> action_key \<Rightarrow> 's kaspa \<Rightarrow> observation" where
  "kaspa_observe_onchain L net key self =
     (case kaspa_commitment (ak_swap_id key) self of
        None \<Rightarrow> Unknown
      | Some commitment \<Rightarrow>
          (case p2sh_components L (kb_network_id self) commitment of
             Inl _ \<Rightarrow> Unknown
           | Inr (address, _) \<Rightarrow>
               (case kl_address_try_from L address of
                  Inl _ \<Rightarrow> Unknown
                | Inr addr \<Rightarrow>
                    (case retry_timed (kn_utxos net addr) of
                       None \<Rightarrow> Unknown
                     | Some utxos \<Rightarrow> if utxos = [] then Unknown else NotSettled))))"

definition kaspa_jitter :: "action_key \<Rightarrow> u64" where
  "kaspa_jitter key = sum_list (map ucast (ak_swap_id key))"

definition kaspa_record_success ::
  "persisted_swap borsh_codec \<Rightarrow> 's swap_store_ops \<Rightarrow> action_key \<Rightarrow> 's kaspa \<Rightarrow> 's kaspa" where
  "kaspa_record_success B D key self =
     (let self1 = self\<lparr>kb_queue := rq_record_success key (kb_queue self)\<rparr>;
          self2 = (case ak_action key of
            Claim \<Rightarrow> self1\<lparr>kb_pending_claims :=
              filter (\<lambda>c. rv_swap_id c \<noteq> ak_swap_id key) (kb_pending_claims self1)\<rparr>
          | RefundAction \<Rightarrow> self1\<lparr>kb_pending_refunds :=
              filter (\<lambda>(r, _). rf_swap_id r \<noteq> ak_swap_id key) (kb_pending_refunds self1)\<rparr>)
      in kaspa_persist_swap B D (ak_swap_id key) self2)"

definition kaspa_record_failure ::
  "persisted_swap borsh_codec \<Rightarrow> 's swap_store_ops \<Rightarrow> action_key \<Rightarrow> u64 \<Rightarrow> 's kaspa \<Rightarrow> 's kaspa" where
  "kaspa_record_failure B D key now self =
     kaspa_persist_swap B D (ak_swap_id key)
       (self\<lparr>kb_queue := rq_record_failure key now (kaspa_jitter key) (kb_queue self)\<rparr>)"

text \<open>
  The environment of the settler also says whether the timeout of the driver struck; a settlement does not
  change the buffer, so the state is the same either way.
\<close>

definition kaspa_settler ::
  "persisted_swap borsh_codec \<Rightarrow> 's swap_store_ops \<Rightarrow> kaspa_lib \<Rightarrow> kaspa_crypto
     \<Rightarrow> ('s kaspa, kaspa_net \<times> bool) settler_ops" where
  "kaspa_settler B D L K =
     \<lparr>so_due_now = (\<lambda>now self. rq_due_now now (kb_queue self)),
      so_settle = (\<lambda>(net, timed_out) key self.
        (if timed_out then None else Some (fst (kaspa_settle L K net key self)), self)),
      so_observe = (\<lambda>(net, _) key self. kaspa_observe_onchain L net key self),
      so_record_success = kaspa_record_success B D,
      so_record_failure = kaspa_record_failure B D,
      so_is_stuck = (\<lambda>key now self. rq_is_stuck key now (kb_queue self))\<rparr>"

section \<open>Connecting\<close>

record kaspa_config =
  kg_wrpc_url :: "string option"
  kg_network_id :: string
  kg_minimum_block_confirmations :: u64
  kg_coinbase_maturity :: u64
  kg_script_ttl_secs :: u64
  kg_participate_ccr :: bool

definition DEFAULT_COINBASE_MATURITY :: u64 where "DEFAULT_COINBASE_MATURITY = 1000"
definition DEFAULT_MINIMUM_BLOCK_CONFIRMATIONS :: u64 where
  "DEFAULT_MINIMUM_BLOCK_CONFIRMATIONS = 10 * (60 * 10)"
definition DEFAULT_SCRIPT_TTL_SECS :: u64 where "DEFAULT_SCRIPT_TTL_SECS = 4 * 60 * 60"

text \<open>What \<open>Deserialize\<close> makes of the optional fields.\<close>

definition kaspa_config_with_defaults ::
  "string option \<Rightarrow> string \<Rightarrow> u64 option \<Rightarrow> u64 option \<Rightarrow> u64 option \<Rightarrow> bool option \<Rightarrow> kaspa_config" where
  "kaspa_config_with_defaults url net confirmations maturity ttl ccr =
     \<lparr>kg_wrpc_url = url, kg_network_id = net,
      kg_minimum_block_confirmations =
        (case confirmations of Some c \<Rightarrow> c | None \<Rightarrow> DEFAULT_MINIMUM_BLOCK_CONFIRMATIONS),
      kg_coinbase_maturity = (case maturity of Some m \<Rightarrow> m | None \<Rightarrow> DEFAULT_COINBASE_MATURITY),
      kg_script_ttl_secs = (case ttl of Some t \<Rightarrow> t | None \<Rightarrow> DEFAULT_SCRIPT_TTL_SECS),
      kg_participate_ccr = (case ccr of Some c \<Rightarrow> c | None \<Rightarrow> False)\<rparr>"

text \<open>
  \<open>build_client\<close> and the parsing of the network identifier belong to rusty-kaspa: \<open>parse_network\<close> gives the
  address prefix of a network, \<open>connect\<close> the outcome of building and connecting the client.
\<close>

record kaspa_dial =
  kd_parse_network :: "string \<Rightarrow> (kaspa_prefix, string) result"
  kd_new_client :: "string option \<Rightarrow> bool \<Rightarrow> (unit, string) result"
  kd_connect :: "(unit, string) result"

definition build_client :: "kaspa_dial \<Rightarrow> string option \<Rightarrow> (unit, data_error) result" where
  "build_client N wrpc_url =
     (let resolver = (case wrpc_url of Some _ \<Rightarrow> False | None \<Rightarrow> True) in
      r_bind (map_err (\<lambda>e. ConnectError (''wrpc client: '' @ e)) (kd_new_client N wrpc_url resolver)) (\<lambda>_.
      map_err (\<lambda>e. ConnectError (''kaspa connect: '' @ e)) (kd_connect N)))"

definition initial_cursor :: "'c cursor_store_ops \<Rightarrow> channel_id \<Rightarrow> 'c option \<Rightarrow> block_hash option" where
  "initial_cursor C ch cursor_store =
     (case Option.bind cursor_store (cs_load C ch) of
        Some b \<Rightarrow> if length b = 32 then Some b else None
      | None \<Rightarrow> None)"

definition kaspa_connect ::
  "persisted_swap borsh_codec \<Rightarrow> 's swap_store_ops \<Rightarrow> 'c cursor_store_ops \<Rightarrow> kaspa_lib \<Rightarrow> kaspa_crypto \<Rightarrow> kaspa_dial
     \<Rightarrow> (action_key \<Rightarrow> kaspa_net \<times> bool) \<Rightarrow> (nat \<Rightarrow> u64) \<Rightarrow> channel_id \<Rightarrow> (kaspa_config, string) result
     \<Rightarrow> string option \<Rightarrow> 'c option \<Rightarrow> 's option \<Rightarrow> ('s kaspa \<times> 'c intake, data_error) result" where
  "kaspa_connect B D C L K N boot clk ch parsed_cfg private_key cursor_store swap_db =
     r_bind (map_err (\<lambda>e. ConfigError (''kaspa config: '' @ e)) parsed_cfg) (\<lambda>cfg.
     r_bind (map_err (\<lambda>e. ConfigError (''network_id: '' @ e)) (kd_parse_network N (kg_network_id cfg))) (\<lambda>prefix.
     r_bind (build_client N (kg_wrpc_url cfg)) (\<lambda>_.
     let cursor = initial_cursor C ch cursor_store;
         intake = intake_new (kg_minimum_block_confirmations cfg) ch cursor cursor_store;
         (restored, swap_db') = restore B D ch swap_db;
         commitments = commitments_from_scripts L (rs_scripts restored) prefix ch;
         buffer = \<lparr>kb_channel_id = ch, kb_network_id = kg_network_id cfg, kb_prefix = prefix,
           kb_coinbase_maturity = kg_coinbase_maturity cfg, kb_script_ttl_secs = kg_script_ttl_secs cfg,
           kb_participate_ccr = kg_participate_ccr cfg, kb_private_key = private_key,
           kb_utxo_scripts = hm_empty, kb_safe_blocks = [], kb_commitments = commitments,
           kb_pending_refunds = rs_pending_refunds restored, kb_pending_claims = rs_pending_claims restored,
           kb_announcements = [], kb_scripts = rs_scripts restored, kb_swap_store = swap_db',
           kb_queue = seed_queue restored (clk 0)\<rparr>
     in Inr (fst (reconcile_on_boot (kaspa_settler B D L K) boot (clk 1) buffer), intake))))"

end
