(* ===== verification/Kaspa_Spending.thy ===== *)
theory Kaspa_Spending
  imports Kaspa_Chain
begin

text \<open>
  Properties of the transactions the Kaspa channel submits: funding outputs are selected mature and
  sufficient, a commitment transaction pays exactly the committed amount to the deposit script and
  loses nothing but the fee, and a claim or refund satisfies the conditions that the deposit
  contract imposes on its spends.
\<close>

section \<open>Selection of funding outputs\<close>

definition total_amount :: "kaspa_utxo list \<Rightarrow> nat" where
  "total_amount us = sum_list (map (unat \<circ> ku_amount) us)"

lemma total_amount_simps [simp]:
  "total_amount [] = 0" "total_amount (u # us) = unat (ku_amount u) + total_amount us"
  "total_amount (us @ vs) = total_amount us + total_amount vs"
  by (simp_all add: total_amount_def)

lemma select_loop_spec:
  assumes "select_loop amount maturity daa utxos selected acc = (selected', acc')"
    and "unat acc = total_amount selected" and "total_amount selected + total_amount utxos < 2 ^ 64"
  shows "\<exists>more. selected' = selected @ more \<and> set more \<subseteq> set utxos \<and> length more \<le> length utxos \<and>
    (\<forall>u \<in> set more. utxo_is_mature u maturity daa) \<and> unat acc' = total_amount selected' \<and>
    total_amount selected' \<le> total_amount selected + total_amount utxos \<and>
    (acc' < amount \<longrightarrow> total_amount more = total_amount (filter (\<lambda>u. utxo_is_mature u maturity daa) utxos))"
  using assms
proof (induction utxos arbitrary: selected acc)
  case Nil
  then show ?case by auto
next
  case (Cons u utxos)
  have acc: "unat (acc + ku_amount u) = total_amount (selected @ [u])"
    using Cons.prems(2,3) by (simp add: unat_add_no_wrap)
  consider (immature) "\<not> utxo_is_mature u maturity daa"
    | (enough) "utxo_is_mature u maturity daa" "amount \<le> acc + ku_amount u"
    | (more) "utxo_is_mature u maturity daa" "\<not> amount \<le> acc + ku_amount u"
    by blast
  then show ?case
  proof cases
    case immature
    with Cons.prems have "select_loop amount maturity daa utxos selected acc = (selected', acc')"
        "total_amount selected + total_amount utxos < 2 ^ 64"
      by simp_all
    with Cons.IH [OF this(1) Cons.prems(2)] immature show ?thesis
      by fastforce
  next
    case enough
    with Cons.prems acc show ?thesis
      by (intro exI [of _ "[u]"]) (auto simp: not_less)
  next
    case more
    with Cons.prems have "select_loop amount maturity daa utxos (selected @ [u]) (acc + ku_amount u) = (selected', acc')"
        "total_amount (selected @ [u]) + total_amount utxos < 2 ^ 64"
      by simp_all
    from Cons.IH [OF this(1) acc this(2)] obtain rest where "selected' = (selected @ [u]) @ rest"
        "set rest \<subseteq> set utxos" "length rest \<le> length utxos" "\<forall>u \<in> set rest. utxo_is_mature u maturity daa"
        "unat acc' = total_amount selected'"
        "total_amount selected' \<le> total_amount (selected @ [u]) + total_amount utxos"
        "acc' < amount \<longrightarrow> total_amount rest = total_amount (filter (\<lambda>u. utxo_is_mature u maturity daa) utxos)"
      by auto
    with more show ?thesis
      by (intro exI [of _ "u # rest"]) auto
  qed
qed

lemma select_funding_ok:
  assumes "select_funding_utxos utxos amount maturity daa = Inr (selected, acc)"
    and "total_amount utxos < 2 ^ 64"
  shows "set selected \<subseteq> set utxos \<and> (\<forall>u \<in> set selected. utxo_is_mature u maturity daa) \<and>
    unat acc = total_amount selected \<and> unat amount \<le> total_amount selected \<and>
    total_amount selected \<le> total_amount utxos \<and> length selected \<le> length utxos"
  using assms select_loop_spec [of amount maturity daa utxos "[]" 0 selected acc]
  by (auto simp: select_funding_utxos_def word_less_nat_alt split: prod.splits if_splits)

section \<open>Commitment transactions\<close>

definition outputs_total :: "tx_output list \<Rightarrow> nat" where
  "outputs_total os = sum_list (map (unat \<circ> to_value) os)"

lemma zip_signatures_outpoints:
  "map ti_previous_outpoint (zip_signatures inputs sigs) = map ti_previous_outpoint inputs"
  by (induction inputs sigs rule: zip_signatures.induct) auto

lemma to_inputs_outpoints:
  "map ti_previous_outpoint (to_inputs us) = map (\<lambda>u. (ku_transaction_id u, ku_index u)) us"
proof -
  have "map (\<lambda>(i, u). f u) (enumerate n us) = map f us" for n and f :: "kaspa_utxo \<Rightarrow> bytes \<times> u32"
    by (induction us arbitrary: n) auto
  then show ?thesis
    by (simp add: to_inputs_def to_input_def o_def case_prod_beta' cong: map_cong)
qed

definition preliminary_tx :: "kaspa_lib \<Rightarrow> signer340 \<Rightarrow> bytes \<Rightarrow> u64 \<Rightarrow> kaspa_utxo list \<Rightarrow> u64 \<Rightarrow> kaspa_tx" where
  "preliminary_tx L signer script amount selected acc =
     \<lparr>kt_inputs = to_inputs selected,
      kt_outputs = with_change amount (kl_pay_to_script_hash_script L script) (saturating_sub acc amount)
        (signer_spk L signer),
      kt_lock_time = 0\<rparr>"

lemma build_commitment_cases:
  assumes "build_commitment_tx L K net signer script maturity c = Inr tx"
    and "kn_utxos_once net (signer_address signer) = Inr utxos"
  shows "\<exists>n dag selected acc fee sigs. parse_uint 64 (am_value (cm_amount c)) = Some n \<and>
    retry_timed (kn_dag_info net) = Some dag \<and>
    select_funding_utxos utxos (of_nat n) maturity (di_virtual_daa_score dag) = Inr (selected, acc) \<and>
    calculate_priority_fee K net (preliminary_tx L signer script (of_nat n) selected acc) 0 = Inr fee \<and>
    \<not> acc < of_nat n + fee \<and> kt_inputs tx = zip_signatures (to_inputs selected) sigs \<and>
    kt_outputs tx = with_change (of_nat n) (kl_pay_to_script_hash_script L script)
      (saturating_sub (saturating_sub acc (of_nat n)) fee) (signer_spk L signer) \<and>
    kt_lock_time tx = 0"
proof -
  have utxos: "utxos \<noteq> []"
    using assms by (auto simp: build_commitment_tx_def)
  obtain dag where dag: "retry_timed (kn_dag_info net) = Some dag"
    using assms utxos by (cases "retry_timed (kn_dag_info net)") (simp_all add: build_commitment_tx_def Let_def)
  obtain n where n: "parse_uint 64 (am_value (cm_amount c)) = Some n"
    using assms utxos dag
    by (cases "parse_uint 64 (am_value (cm_amount c))") (simp_all add: build_commitment_tx_def Let_def)
  obtain selected acc where
      sel: "select_funding_utxos utxos (of_nat n) maturity (di_virtual_daa_score dag) = Inr (selected, acc)"
    using assms utxos dag n
    by (cases "select_funding_utxos utxos (of_nat n) maturity (di_virtual_daa_score dag)")
      (auto simp: build_commitment_tx_def Let_def)
  let ?t = "preliminary_tx L signer script (of_nat n) selected acc"
  obtain fee where fee: "calculate_priority_fee K net ?t 0 = Inr fee"
    using assms utxos dag n sel
    by (cases "calculate_priority_fee K net ?t 0")
      (simp_all add: build_commitment_tx_def preliminary_tx_def Let_def)
  obtain sigs where tx: "\<not> acc < of_nat n + fee" "kt_inputs tx = zip_signatures (to_inputs selected) sigs"
      "kt_outputs tx = with_change (of_nat n) (kl_pay_to_script_hash_script L script)
        (saturating_sub (saturating_sub acc (of_nat n)) fee) (signer_spk L signer)" "kt_lock_time tx = 0"
    using assms utxos dag n sel fee
    by (auto simp: build_commitment_tx_def preliminary_tx_def Let_def result_simps split: if_splits)
  show ?thesis
    by (rule exI [of _ n], rule exI [of _ dag], rule exI [of _ selected], rule exI [of _ acc],
        rule exI [of _ fee], rule exI [of _ sigs]) (simp add: n dag sel fee tx)
qed

subsection \<open>The fee\<close>

text \<open>
  The mass of a transaction in numbers: the larger of the two masses the consensus library computes,
  each with 66 bytes of signature script for every input that will be signed.
\<close>

definition signed_mass :: "kaspa_crypto \<Rightarrow> kaspa_tx \<Rightarrow> nat" where
  "signed_mass K t =
     (let sigs = 66 * length (filter (\<lambda>i. 0 < ti_sig_op_count i) (kt_inputs t)) in
      max (unat (fst (kc_masses K t)) + sigs)
        (unat (snd (kc_masses K t)) + sigs * unat (kc_transient_factor K)))"

definition mass_small :: "kaspa_crypto \<Rightarrow> kaspa_tx \<Rightarrow> bool" where
  "mass_small K t =
     (unat (fst (kc_masses K t)) < 2 ^ 40 \<and> unat (snd (kc_masses K t)) < 2 ^ 40 \<and>
      length (kt_inputs t) \<le> 2 ^ 20 \<and> unat (kc_transient_factor K) \<le> 2 ^ 10)"

lemma signed_mass_bound:
  assumes "mass_small K t"
  shows "signed_mass K t < 2 ^ 41"
    and "unat (max (fst (kc_masses K t) + (of_nat (length (filter (\<lambda>i. 0 < ti_sig_op_count i) (kt_inputs t))) * 66))
       (snd (kc_masses K t) + (of_nat (length (filter (\<lambda>i. 0 < ti_sig_op_count i) (kt_inputs t))) * 66)
          * kc_transient_factor K)) = signed_mass K t"
proof -
  define k where "k = length (filter (\<lambda>i. 0 < ti_sig_op_count i) (kt_inputs t))"
  have k: "k \<le> 2 ^ 20"
    using assms le_trans [OF length_filter_le] by (auto simp: mass_small_def k_def)
  have kf: "66 * k * unat (kc_transient_factor K) \<le> 66 * 2 ^ 20 * 2 ^ 10"
    using k assms by (intro mult_mono) (simp_all add: mass_small_def)
  have sigs: "unat (of_nat k * 66 :: u64) = 66 * k"
    using k by (simp add: unat_word_ariths unsigned_of_nat take_bit_nat_eq_self)
  have sums: "unat (fst (kc_masses K t) + of_nat k * 66) = unat (fst (kc_masses K t)) + 66 * k"
      "unat (of_nat k * 66 * kc_transient_factor K) = 66 * k * unat (kc_transient_factor K)"
    using assms k kf sigs by (simp_all add: mass_small_def unat_word_ariths)
  moreover have "unat (snd (kc_masses K t) + of_nat k * 66 * kc_transient_factor K) =
      unat (snd (kc_masses K t)) + 66 * k * unat (kc_transient_factor K)"
    using assms kf sums(2) by (simp add: mass_small_def unat_word_ariths)
  ultimately show "unat (max (fst (kc_masses K t) + (of_nat k * 66))
       (snd (kc_masses K t) + (of_nat k * 66) * kc_transient_factor K)) = signed_mass K t"
    unfolding k_def [symmetric]
    by (simp add: signed_mass_def k_def [symmetric] max_def word_le_nat_alt Let_def)
  show "signed_mass K t < 2 ^ 41"
    using assms k kf by (auto simp: signed_mass_def mass_small_def k_def [symmetric] Let_def)
qed

lemma f_as_uint_ceil:
  assumes "0 \<le> y" and "y \<le> 2 ^ 62"
  shows "of_nat (unat (f_as_uint (f_ceil (Fin y)) :: u64)) = (of_int \<lceil>y\<rceil> :: rat)"
proof -
  have "\<lceil>y\<rceil> \<le> 2 ^ 62"
    using assms(2) by (simp add: ceiling_le_iff)
  then show ?thesis
    using f_as_uint_floor [of "of_int \<lceil>y\<rceil>", where ?'a = 64] assms(1)
    by (simp add: of_int_less_iff [of "\<lceil>y\<rceil>" "2 ^ 64", simplified])
qed

lemma fee_from_mass_close:
  assumes "0 \<le> r" and "r \<le> 100000" and "unat mass < 2 ^ 41"
  shows "\<bar>of_nat (unat (fee_from_mass mass (Fin r))) - of_nat (unat mass) * r\<bar> \<le>
      of_nat (unat mass) * r / 2 ^ 53 + 2"
    and "1 \<le> unat (fee_from_mass mass (Fin r))" and "unat (fee_from_mass mass (Fin r)) < 2 ^ 63"
proof -
  define x where "x = of_nat (unat mass) * r"
  have "unat mass < 2 ^ 53"
    using assms(3) by simp
  then have "int (unat mass) < int (2 ^ 53)"
    by (simp only: of_nat_less_iff)
  then have m: "f_of_nat (unat mass) = Fin (of_nat (unat mass))"
    using fl_of_int_exact [of "int (unat mass)"]
    by (simp only: f_of_nat_def of_int_of_nat_eq abs_of_nat of_nat_power of_nat_numeral)
  have "(of_nat (unat mass) :: rat) \<le> of_nat (2 ^ 41)"
    using assms(3) by (simp only: of_nat_le_iff less_imp_le)
  then have "x \<le> 2 ^ 41 * 100000"
    using mult_mono [of "of_nat (unat mass)" "of_nat (2 ^ 41) :: rat" r 100000] assms by (simp add: x_def)
  moreover have "0 \<le> x"
    unfolding x_def by (rule mult_nonneg_nonneg [OF of_nat_0_le_iff assms(1)])
  ultimately have x: "0 \<le> x" "x \<le> 2 ^ 41 * 100000"
    by blast+
  then obtain y where y: "fl x = Fin y"
    using fl_finite [of x] by fastforce
  have "\<bar>y - x\<bar> \<le> x / 2 ^ 53 + 1 / 2 ^ 1075" "(1 :: rat) / 2 ^ 1075 \<le> 1 / 2"
    using fl_abs_error [OF y] x(1) by simp_all
  then have close: "\<bar>y - x\<bar> \<le> x / 2 ^ 53 + 1 / 2" "0 \<le> y"
    using order_trans [OF _ add_left_mono] fl_sign [OF y x(1)] by blast+
  define z where "z = (f_as_uint (f_ceil (Fin y)) :: u64)"
  have "x / 2 ^ 53 \<le> 2 ^ 61"
    using x(2) by simp
  then have up: "y \<le> 2 ^ 62"
    using close(1) x(2) by simp
  then have z: "of_nat (unat z) = (of_int \<lceil>y\<rceil> :: rat)"
    unfolding z_def by (rule f_as_uint_ceil [OF close(2)])
  have fee: "fee_from_mass mass (Fin r) = max z 1"
    unfolding fee_from_mass_def m f_mul.simps x_def [symmetric] y z_def ..
  have n: "unat (max z 1) = max (unat z) 1"
    by (simp add: max_def word_le_nat_alt)
  have "y \<le> of_int \<lceil>y\<rceil>" "of_int \<lceil>y\<rceil> < y + 1" "of_nat (max (unat z) 1) = max (of_int \<lceil>y\<rceil>) (1 :: rat)"
    by (linarith, linarith, simp only: of_nat_max of_nat_1 z)
  then have between: "y \<le> of_nat (max (unat z) 1)" "of_nat (max (unat z) 1) \<le> y + 1"
    using close(2) by linarith+
  then show "\<bar>of_nat (unat (fee_from_mass mass (Fin r))) - of_nat (unat mass) * r\<bar> \<le>
      of_nat (unat mass) * r / 2 ^ 53 + 2"
    unfolding fee n x_def [symmetric] using close(1) by linarith
  show "1 \<le> unat (fee_from_mass mass (Fin r))"
    by (simp add: fee n)
  have "of_nat (max (unat z) 1) < (of_nat (2 ^ 63) :: rat)"
    using between(2) up by simp
  then show "unat (fee_from_mass mass (Fin r)) < 2 ^ 63"
    unfolding fee n by (simp only: of_nat_less_iff)
qed

text \<open>The fee is the mass times the fee rate of the node, capped at 100000 sompi per unit of mass.\<close>

definition fee_fits :: "kaspa_crypto \<Rightarrow> kaspa_net \<Rightarrow> kaspa_tx \<Rightarrow> u64 \<Rightarrow> bool" where
  "fee_fits K net t fee =
     (case retry_timed (kn_feerate net) of
        Some (Fin r) \<Rightarrow> 0 \<le> r \<and> 1 \<le> unat fee \<and>
          \<bar>of_nat (unat fee) - of_nat (signed_mass K t) * min r 100000\<bar> \<le>
            of_nat (signed_mass K t) * min r 100000 / 2 ^ 53 + 2
      | _ \<Rightarrow> False)"

lemma priority_fee_fits:
  assumes "calculate_priority_fee K net t 0 = Inr fee" and "mass_small K t"
  shows "fee_fits K net t fee \<and> unat fee < 2 ^ 63"
proof -
  let ?k = "length (filter (\<lambda>i. 0 < ti_sig_op_count i) (kt_inputs t))"
  let ?m = "max (fst (kc_masses K t) + (of_nat ?k * 66)) (snd (kc_masses K t) + (of_nat ?k * 66) * kc_transient_factor K)"
  obtain r where r: "retry_timed (kn_feerate net) = Some (Fin r)" "0 \<le> r"
    using assms(1)
    by (auto simp: calculate_priority_fee_def result_simps not_less split: if_splits elim!: is_finite.elims)
  have min: "f_min (Fin r) MAX_FEERATE = Fin (min r 100000)"
    by (simp add: f_min_def MAX_FEERATE_def min_def)
  have fee: "fee = fee_from_mass ?m (Fin (min r 100000))"
    using assms(1) r min
    by (auto simp: calculate_priority_fee_def MASS_PER_TX_BYTE_def SCHNORR_SIG_SCRIPT_SIZE_def Let_def
        case_prod_beta)
  have m: "unat ?m = signed_mass K t" "signed_mass K t < 2 ^ 41"
    using signed_mass_bound [OF assms(2)] by simp_all
  have "0 \<le> min r 100000" "min r 100000 \<le> 100000" "unat ?m < 2 ^ 41"
    using r(2) m by simp_all
  from fee_from_mass_close [OF this] show ?thesis
    unfolding fee_fits_def r(1) fee m(1) by (simp add: r(2))
qed

text \<open>
  (C28) Commitment transactions: when the node builds the transaction of a commitment, it spends
  unspent outputs of its own, each of which is no coinbase output or has reached the coinbase maturity at
  the current virtual DAA score. The transaction pays exactly the committed amount to the deposit script and,
  where anything is left, all that the spent outputs hold beyond the amount and the fee to the
  node itself. The fee is, up to the rounding of the floating-point product, the mass of the transaction
  before the fee was taken off, times the fee rate of the Kaspa node, which counts for at most 100000. Assumed are:
  the node's outputs hold less than 2^63 sompi together, which the supply of Kaspa guarantees, DAA
  scores do not overflow, and the masses of such transactions are below 2^40.
\<close>

theorem commitment_tx_conserves:
  assumes "build_commitment_tx L K net signer script maturity c = Inr tx"
    and "kn_utxos_once net (signer_address signer) = Inr utxos" and "total_amount utxos < 2 ^ 63"
    and "\<forall>u \<in> set utxos. unat (ku_block_daa_score u) + unat maturity < 2 ^ 64"
    and "\<forall>amount selected acc. set selected \<subseteq> set utxos \<and> length selected \<le> length utxos \<longrightarrow>
      mass_small K (preliminary_tx L signer script amount selected acc)"
  shows "\<exists>selected amount fee info. retry_timed (kn_dag_info net) = Some info \<and> set selected \<subseteq> set utxos \<and>
    (\<forall>u \<in> set selected. ku_is_coinbase u \<longrightarrow>
      unat (ku_block_daa_score u) + unat maturity \<le> unat (di_virtual_daa_score info)) \<and>
    map ti_previous_outpoint (kt_inputs tx) = map (\<lambda>u. (ku_transaction_id u, ku_index u)) selected \<and>
    parse_uint 64 (am_value (cm_amount c)) = Some amount \<and>
    fee_fits K net (preliminary_tx L signer script (of_nat amount) selected (of_nat (total_amount selected))) fee \<and>
    amount + unat fee \<le> total_amount selected \<and>
    map (\<lambda>out. (unat (to_value out), to_script_public_key out)) (kt_outputs tx) =
      (amount, kl_pay_to_script_hash_script L script) #
      (if total_amount selected = amount + unat fee then []
       else [(total_amount selected - amount - unat fee, signer_spk L signer)]) \<and>
    kt_lock_time tx = 0"
proof -
  obtain n dag selected acc fee sigs where
      n: "parse_uint 64 (am_value (cm_amount c)) = Some n" and dag: "retry_timed (kn_dag_info net) = Some dag"
      and sel: "select_funding_utxos utxos (of_nat n) maturity (di_virtual_daa_score dag) = Inr (selected, acc)"
      and fee: "calculate_priority_fee K net (preliminary_tx L signer script (of_nat n) selected acc) 0 = Inr fee"
        "\<not> acc < of_nat n + fee"
      and tx: "kt_inputs tx = zip_signatures (to_inputs selected) sigs"
        "kt_outputs tx = with_change (of_nat n) (kl_pay_to_script_hash_script L script)
          (saturating_sub (saturating_sub acc (of_nat n)) fee) (signer_spk L signer)"
        "kt_lock_time tx = 0"
    using build_commitment_cases [OF assms(1,2)] by blast
  have amount: "unat (of_nat n :: u64) = n"
    using parse_uint_bound [OF n] by (simp add: unsigned_of_nat take_bit_nat_eq_self)
  have selected: "set selected \<subseteq> set utxos" "unat acc = total_amount selected" "n \<le> total_amount selected"
      "total_amount selected < 2 ^ 63" "length selected \<le> length utxos"
      "\<forall>u \<in> set selected. utxo_is_mature u maturity (di_virtual_daa_score dag)"
    using select_funding_ok [OF sel] assms(3) amount by auto
  have mature: "\<forall>u \<in> set selected. ku_is_coinbase u \<longrightarrow>
      unat (ku_block_daa_score u) + unat maturity \<le> unat (di_virtual_daa_score dag)"
    using selected(1,6) assms(4)
    by (fastforce simp: utxo_is_mature_def word_le_nat_alt unat_add_no_wrap)
  have fits: "fee_fits K net (preliminary_tx L signer script (of_nat n) selected acc) fee" "unat fee < 2 ^ 63"
    using priority_fee_fits [OF fee(1)] assms(5) selected(1,5) by blast+
  then have "unat (of_nat n + fee) = n + unat fee"
    using selected(3,4) amount by (subst unat_add_no_wrap) simp_all
  then have covers: "n + unat fee \<le> total_amount selected"
    using fee(2) selected(2) by (simp add: word_less_nat_alt)
  have acc: "of_nat (total_amount selected) = acc"
    by (simp flip: selected(2))
  define change where "change = saturating_sub (saturating_sub acc (of_nat n)) fee"
  have change: "unat change = total_amount selected - n - unat fee"
    by (simp add: change_def unat_saturating_sub amount selected(2))
  have outputs: "map (\<lambda>out. (unat (to_value out), to_script_public_key out)) (kt_outputs tx) =
      (n, kl_pay_to_script_hash_script L script) #
      (if total_amount selected = n + unat fee then []
       else [(total_amount selected - n - unat fee, signer_spk L signer)])"
    using covers change by (auto simp: tx change_def [symmetric] with_change_def amount word_less_nat_alt)
  have outpoints: "map ti_previous_outpoint (kt_inputs tx) = map (\<lambda>u. (ku_transaction_id u, ku_index u)) selected"
    by (simp add: tx zip_signatures_outpoints to_inputs_outpoints)
  show ?thesis
    using dag selected(1) mature outpoints n fits(1) covers outputs tx(3) unfolding acc [symmetric]
    by (intro exI [of _ selected] exI [of _ n] exI [of _ fee] exI [of _ dag] conjI)
qed

section \<open>Spends of a deposit\<close>

text \<open>
  What the deposit contract demands of the transaction that spends an output locked by it, read off
  the transaction itself: the signature script of the first input ends with the redeem script and selects
  its branch, and every constant comes from the opcodes of the redeem script. Both branches share the
  seventeen opcodes that constrain the outputs; in the script they start at position \<open>k\<close>: the numbers of inputs
  and outputs are those pushed there, and the first output pays the pushed script public key at least
  the value of the spent output less the pushed reward.
\<close>

definition payout_ok :: "kaspa_lib \<Rightarrow> opcode list \<Rightarrow> nat \<Rightarrow> u64 \<Rightarrow> kaspa_tx \<Rightarrow> bool" where
  "payout_ok L ops k val tx =
     (map (\<lambda>i. op_value (ops ! (k + i))) [0, 2, 3, 5, 8, 9, 11, 12, 13, 15, 16] =
        [kl_TxInputCount L, kl_NumEqualVerify L, kl_TxOutputCount L, kl_NumEqualVerify L, kl_TxOutputSpk L,
         kl_EqualVerify L, kl_TxOutputAmount L, kl_TxInputIndex L, kl_TxInputAmount L, kl_Sub L,
         kl_GreaterThanOrEqual L] \<and>
      pushes (script_num (int (length (kt_inputs tx)))) (ops ! (k + 1)) \<and>
      pushes (script_num (int (length (kt_outputs tx)))) (ops ! (k + 4)) \<and>
      pushes (spk_to_vec (to_script_public_key (kt_outputs tx ! 0))) (ops ! (k + 6)) \<and>
      pushes (script_num 0) (ops ! (k + 7)) \<and> pushes (script_num 0) (ops ! (k + 10)) \<and>
      (\<exists>reward. pushes (script_num reward) (ops ! (k + 14)) \<and>
         int (unat val) - reward \<le> int (unat (to_value (kt_outputs tx ! 0)))))"

text \<open>
  The claim branch demands the preimage of the pushed hash, the refund branch a lock time of the transaction
  that is not before the pushed one, and an input whose sequence number leaves the lock time in
  force.
\<close>

definition claim_allowed :: "kaspa_lib \<Rightarrow> (bytes \<Rightarrow> bytes) \<Rightarrow> opcode \<Rightarrow> opcode list \<Rightarrow> u64 \<Rightarrow> kaspa_tx \<Rightarrow> bool" where
  "claim_allowed L sha secret_op ops val tx =
     (map (\<lambda>i. op_value (ops ! i)) [0, 1, 3, 21] = [kl_If L, kl_SHA256 L, kl_EqualVerify L, kl_Else L] \<and>
      (\<exists>secret. length secret = 32 \<and> pushes secret secret_op \<and> pushes (sha secret) (ops ! 2)) \<and>
      payout_ok L ops 4 val tx)"

definition refund_allowed :: "kaspa_lib \<Rightarrow> opcode list \<Rightarrow> u64 \<Rightarrow> kaspa_tx \<Rightarrow> bool" where
  "refund_allowed L ops val tx =
     (map (\<lambda>i. op_value (ops ! i)) [0, 21, 23, 41] =
        [kl_If L, kl_Else L, kl_CheckLockTimeVerify L, kl_EndIf L] \<and>
      (\<exists>t. pushes (script_num (int t)) (ops ! 22) \<and> t \<le> unat (kt_lock_time tx)) \<and>
      ti_sequence (kt_inputs tx ! 0) \<noteq> - 1 \<and> payout_ok L ops 24 val tx)"

definition contract_allows :: "kaspa_lib \<Rightarrow> (bytes \<Rightarrow> bytes) \<Rightarrow> action \<Rightarrow> bytes \<Rightarrow> u64 \<Rightarrow> kaspa_tx \<Rightarrow> bool" where
  "contract_allows L sha act redeem val tx =
     (case (parse_script L (ti_signature_script (kt_inputs tx ! 0)), parse_script L redeem) of
        (Inr sig, Inr ops) \<Rightarrow> sig \<noteq> [] \<and> op_data (last sig) = redeem \<and>
          (case (act, butlast sig) of
             (Claim, [secret_op, selector]) \<Rightarrow> op_value selector = kl_True L \<and> claim_allowed L sha secret_op ops val tx
           | (RefundAction, [selector]) \<Rightarrow> op_value selector = kl_False L \<and> refund_allowed L ops val tx
           | _ \<Rightarrow> False)
      | _ \<Rightarrow> False)"

text \<open>What the transactions are built to be, whatever the branch.\<close>

definition spend_conforms :: "kaspa_lib \<Rightarrow> htlc_spend \<Rightarrow> spend_params \<Rightarrow> kaspa_utxo \<Rightarrow> kaspa_tx \<Rightarrow> bool" where
  "spend_conforms L ctx params utxo tx =
     (length (kt_inputs tx) = 2 \<and> ti_sequence (kt_inputs tx ! 0) = 0 \<and>
      map to_script_public_key (kt_outputs tx) = [sp_dest_spk params, signer_spk L (hs_signer ctx)] \<and>
      int (unat (ku_amount utxo)) - SOLVER_REWARD \<le> int (unat (to_value (kt_outputs tx ! 0))) \<and>
      ti_previous_outpoint (kt_inputs tx ! 0) = (ku_transaction_id utxo, ku_index utxo) \<and>
      ti_signature_script (kt_inputs tx ! 0) = sp_branch_sig_script params \<and>
      ti_previous_outpoint (kt_inputs tx ! 1) =
        (ku_transaction_id (hs_fee_utxo ctx), ku_index (hs_fee_utxo ctx)) \<and>
      unat MIN_REWARD_OUTPUT_SOMPI \<le> unat (to_value (kt_outputs tx ! 1)) \<and>
      outputs_total (kt_outputs tx) \<le> unat (ku_amount utxo) + unat (ku_amount (hs_fee_utxo ctx)) \<and>
      kt_lock_time tx = sp_lock_time params)"

lemma build_spend_conforms:
  assumes "build_spend_tx L K net ctx params utxo = Inr tx"
  shows "spend_conforms L ctx params utxo tx"
proof -
  let ?r = "of_int SOLVER_REWARD :: u64"
  have r: "unat ?r = 10000000"
    by (simp add: SOLVER_REWARD_def)
  obtain dest pre where dest: "checked_sub (ku_amount utxo) ?r = Some dest"
      and pre: "checked_add ?r (ku_amount (hs_fee_utxo ctx)) = Some pre"
    using assms by (auto simp: build_spend_tx_def Let_def result_simps)
  let ?t = "\<lparr>kt_inputs = spend_inputs utxo (hs_fee_utxo ctx),
      kt_outputs = spend_outputs dest pre (sp_dest_spk params) (signer_spk L (hs_signer ctx)),
      kt_lock_time = sp_lock_time params\<rparr>"
  obtain fee where fee: "calculate_priority_fee K net ?t (sp_extra_sig_bytes params) = Inr fee"
    using assms dest pre by (auto simp: build_spend_tx_def Let_def result_simps)
  obtain reward where reward: "checked_sub pre fee = Some reward" "\<not> reward < MIN_REWARD_OUTPUT_SOMPI"
    using assms dest pre fee by (auto simp: build_spend_tx_def Let_def result_simps split: if_splits)
  obtain fee_sig where tx: "kt_inputs tx = [(to_input 0 0 utxo)\<lparr>ti_signature_script := sp_branch_sig_script params\<rparr>,
        (to_input 0 1 (hs_fee_utxo ctx))\<lparr>ti_signature_script := fee_sig\<rparr>]"
      "kt_outputs tx = spend_outputs dest reward (sp_dest_spk params) (signer_spk L (hs_signer ctx))"
      "kt_lock_time tx = sp_lock_time params"
    using assms dest pre fee reward
    by (auto simp: build_spend_tx_def Let_def result_simps spend_inputs_def split: if_splits)
  have amounts: "10000000 \<le> unat (ku_amount utxo)" "unat dest = unat (ku_amount utxo) - 10000000"
      "unat pre = 10000000 + unat (ku_amount (hs_fee_utxo ctx))" "unat reward \<le> unat pre"
    using dest pre reward by (simp_all add: rust_arith r)
  moreover have "unat MIN_REWARD_OUTPUT_SOMPI \<le> unat reward"
    using reward(2) by (simp add: word_less_nat_alt)
  ultimately show ?thesis
    by (simp add: spend_conforms_def tx spend_outputs_def to_input_def outputs_total_def
        SOLVER_REWARD_def)
qed

lemma submit_spends_conform:
  assumes "submit_htlc_spend L K net ctx params = (r, txs)"
  shows "length txs \<le> length (hs_htlc_utxos ctx) \<and>
   list_all2 (spend_conforms L ctx params) (take (length txs) (hs_htlc_utxos ctx)) txs \<and>
   (r = Inr () \<longrightarrow> length txs = length (hs_htlc_utxos ctx))"
proof -
  have "length txs \<le> length utxos \<and> list_all2 (spend_conforms L ctx params) (take (length txs) utxos) txs \<and>
      (r = Inr () \<longrightarrow> length txs = length utxos)" if "spend_utxos L K net ctx params utxos = (r, txs)" for utxos r txs
    using that
  proof (induction utxos arbitrary: r txs)
    case Nil
    then show ?case by simp
  next
    case (Cons utxo utxos)
    show ?case
    proof (cases "build_spend_tx L K net ctx params utxo")
      case (Inl e)
      with Cons.prems show ?thesis by auto
    next
      case (Inr tx)
      note ok = build_spend_conforms [OF Inr]
      obtain r' txs' where rest: "spend_utxos L K net ctx params utxos = (r', txs')"
        by fastforce
      with Cons.IH [OF rest] Cons.prems Inr ok show ?thesis
        by (auto split: sum.splits)
    qed
  qed
  then show ?thesis
    using assms by (simp add: submit_htlc_spend_def)
qed

lemma prepare_htlc_cases:
  assumes "prepare_htlc_spend L K net pk maturity c = Inr ctx"
  shows "htlc_script_from_commitment L c =
      Inr (hs_htlc_script ctx, hs_sender_spk ctx, hs_receiver_spk ctx, hs_unlock_ts_ms ctx) \<and>
    (\<exists>prefix address. prefix_for net = Inr prefix \<and> signer_derive K pk prefix = Inr (hs_signer ctx) \<and>
      kl_extract_address L (kl_pay_to_script_hash_script L (hs_htlc_script ctx)) prefix = Inr address \<and>
      retry_timed (kn_utxos net address) = Some (hs_htlc_utxos ctx))"
  using assms
  by (auto simp: prepare_htlc_spend_def result_simps Let_def split: if_splits)

subsection \<open>The demands of a derived script\<close>

lemma htlc_view:
  assumes "list_all2 step_view (htlc_steps L ss sra rs sh t dst sid) ops" and "i < 48"
  shows "step_view (htlc_steps L ss sra rs sh t dst sid ! i) (ops ! i)"
proof -
  have "length (htlc_steps L ss sra rs sh t dst sid) = 48"
    by (simp add: htlc_steps_def)
  with assms show ?thesis
    using list_all2_nthD [OF assms(1), of i] by simp
qed

lemma htlc_payouts:
  assumes "list_all2 step_view (htlc_steps L ss sra rs sh t dst sid) ops"
    and "length (kt_inputs tx) = 2" and "map to_script_public_key (kt_outputs tx) = [spk, own]"
    and "int (unat val) - SOLVER_REWARD \<le> int (unat (to_value (kt_outputs tx ! 0)))"
  shows "rs = spk_to_vec spk \<Longrightarrow> payout_ok L ops 4 val tx"
    and "ss = spk_to_vec spk \<Longrightarrow> payout_ok L ops 24 val tx"
proof -
  note view = htlc_view [OF assms(1)]
  have out: "length (kt_outputs tx) = 2" "to_script_public_key (kt_outputs tx ! 0) = spk"
    using assms(3) by (auto simp: map_eq_Cons_conv)
  show "payout_ok L ops 4 val tx" if "rs = spk_to_vec spk"
    using view [of 4] view [of 5] view [of 6] view [of 7] view [of 8] view [of 9] view [of 10] view [of 11]
      view [of 12] view [of 13] view [of 14] view [of 15] view [of 16] view [of 17] view [of 18] view [of 19]
      view [of 20] assms(2,4) out that
    by (auto simp: payout_ok_def htlc_steps_def step_view_def)
  show "payout_ok L ops 24 val tx" if "ss = spk_to_vec spk"
    using view [of 24] view [of 25] view [of 26] view [of 27] view [of 28] view [of 29] view [of 30] view [of 31]
      view [of 32] view [of 33] view [of 34] view [of 35] view [of 36] view [of 37] view [of 38] view [of 39]
      view [of 40] assms(2,4) out that
    by (auto simp: payout_ok_def htlc_steps_def step_view_def)
qed

lemma htlc_claim_allowed:
  assumes "list_all2 step_view (htlc_steps L ss sra (spk_to_vec spk) (sha secret) t dst sid) ops"
    and "length secret = 32" and "pushes secret secret_op" and "spend_conforms L ctx params utxo tx"
    and "sp_dest_spk params = spk"
  shows "claim_allowed L sha secret_op ops (ku_amount utxo) tx"
  using htlc_view [OF assms(1), of 0] htlc_view [OF assms(1), of 1] htlc_view [OF assms(1), of 2]
    htlc_view [OF assms(1), of 3] htlc_view [OF assms(1), of 21] assms(2-5) htlc_payouts(1) [OF assms(1)]
  by (auto simp: claim_allowed_def spend_conforms_def htlc_steps_def step_view_def)

lemma htlc_refund_allowed:
  assumes "list_all2 step_view (htlc_steps L (spk_to_vec spk) sra rs sh t dst sid) ops"
    and "unat t < 2 ^ 63" and "spend_conforms L ctx params utxo tx"
    and "sp_dest_spk params = spk" and "sp_lock_time params = t"
  shows "refund_allowed L ops (ku_amount utxo) tx"
proof -
  have "pushes (script_num (int (unat t))) (ops ! 22)"
    using htlc_view [OF assms(1), of 22] sint_nonneg [OF assms(2)]
    by (simp add: htlc_steps_def step_view_def)
  moreover have "kt_lock_time tx = t"
    using assms(3,5) by (simp add: spend_conforms_def)
  ultimately have "\<exists>t. pushes (script_num (int t)) (ops ! 22) \<and> t \<le> unat (kt_lock_time tx)"
    by blast
  then show ?thesis
    using htlc_view [OF assms(1), of 0] htlc_view [OF assms(1), of 21] htlc_view [OF assms(1), of 23]
      htlc_view [OF assms(1), of 41] assms(3,4) htlc_payouts(2) [OF assms(1)]
    by (auto simp: refund_allowed_def spend_conforms_def htlc_steps_def step_view_def)
qed

text \<open>A spend of the output \<open>utxo\<close> of the deposit script: allowed by the branch, and what the node gains.\<close>

definition spend_ok ::
  "kaspa_lib \<Rightarrow> (bytes \<Rightarrow> bytes) \<Rightarrow> action \<Rightarrow> bytes \<Rightarrow> signer340 \<Rightarrow> kaspa_utxo \<Rightarrow> kaspa_utxo \<Rightarrow> kaspa_tx \<Rightarrow> bool" where
  "spend_ok L sha act script signer fee_utxo utxo tx =
     (contract_allows L sha act script (ku_amount utxo) tx \<and>
      map ti_previous_outpoint (kt_inputs tx) =
        [(ku_transaction_id utxo, ku_index utxo), (ku_transaction_id fee_utxo, ku_index fee_utxo)] \<and>
      to_script_public_key (kt_outputs tx ! 1) = signer_spk L signer \<and>
      10000 \<le> unat (to_value (kt_outputs tx ! 1)) \<and>
      outputs_total (kt_outputs tx) \<le> unat (ku_amount utxo) + unat (ku_amount fee_utxo))"

lemma spend_conforms_ok:
  assumes "spend_conforms L ctx params utxo tx"
    and "contract_allows L sha act script (ku_amount utxo) tx"
  shows "spend_ok L sha act script (hs_signer ctx) (hs_fee_utxo ctx) utxo tx"
proof -
  obtain a b where "kt_inputs tx = [a, b]"
    using assms(1) by (auto simp: spend_conforms_def length_Suc_conv numeral_2_eq_2)
  moreover obtain d e where "kt_outputs tx = [d, e]"
    using assms(1) by (auto simp: spend_conforms_def map_eq_Cons_conv)
  ultimately show ?thesis
    using assms by (simp add: spend_ok_def spend_conforms_def MIN_REWARD_OUTPUT_SOMPI_def)
qed

context txscript
begin

lemma derived_script:
  assumes "htlc_script_from_commitment L c = Inr (script, sspk, rspk, t)"
  shows "\<exists>sra ops. parse_script L script = Inr ops \<and> 2 \<le> length script \<and>
    t = saturating_mul (cm_unlock_ts c) 1000 \<and>
    list_all2 step_view (htlc_steps L (spk_to_vec sspk) sra (spk_to_vec rspk) (cm_secret_hash c) t
      (cm_destination c) (cm_swap_id c)) ops"
proof -
  obtain sra where "create_htlc_script L (spk_to_vec sspk) sra (spk_to_vec rspk) (cm_secret_hash c) t
      (cm_destination c) (cm_swap_id c) = Inr script" and t: "t = saturating_mul (cm_unlock_ts c) 1000"
    using assms by (auto simp: htlc_script_from_commitment_def result_simps Let_def)
  then obtain ops where ops: "parse_script L script = Inr ops"
      "list_all2 step_view (htlc_steps L (spk_to_vec sspk) sra (spk_to_vec rspk) (cm_secret_hash c) t
        (cm_destination c) (cm_swap_id c)) ops"
    using build_parse [OF _ htlc_steps_single_codes] unfolding create_htlc_script_def by blast
  then have "2 \<le> length script"
    using parse_script_length [OF ops(1)] list_all2_lengthD [OF ops(2)] by (simp add: htlc_steps_def)
  with ops t show ?thesis
    by blast
qed

lemma claim_tx_allowed:
  assumes "htlc_script_from_commitment L c = Inr (script, sspk, rspk, t)"
    and "reveal_sig_script L secret script = Inr sig" and "length secret = 32" and "sha secret = cm_secret_hash c"
    and "spend_conforms L ctx \<lparr>sp_dest_spk = rspk, sp_lock_time = l, sp_extra_sig_bytes = e,
      sp_branch_sig_script = sig\<rparr> utxo tx"
  shows "contract_allows L sha Claim script (ku_amount utxo) tx"
proof -
  obtain sra ops where script: "parse_script L script = Inr ops" "2 \<le> length script"
      "list_all2 step_view (htlc_steps L (spk_to_vec sspk) sra (spk_to_vec rspk) (sha secret) t
        (cm_destination c) (cm_swap_id c)) ops"
    using derived_script [OF assms(1)] assms(4) by auto
  have "build_script L [AddData secret, AddOp (kl_True L), AddData script] [] = Inr sig"
    using assms(2) by (simp only: reveal_sig_script_def map_err_eq_Inr)
  from build_parse [OF this] obtain a b d where sig: "parse_script L sig = Inr [a, b, d]"
      "pushes secret a" "op_value b = kl_True L" "pushes script d"
    by (auto simp: single_codes_def list_all2_Cons1 step_view_def)
  have "claim_allowed L sha a ops (ku_amount utxo) tx"
    using htlc_claim_allowed [where sha = sha, OF script(3) assms(3) sig(2) assms(5)] by simp
  then show ?thesis
    using sig script pushes_extract_long [OF sig(4) script(2)] assms(5)
    by (simp add: contract_allows_def spend_conforms_def)
qed

lemma refund_tx_allowed:
  assumes "htlc_script_from_commitment L c = Inr (script, sspk, rspk, t)"
    and "refund_sig_script L script = Inr sig" and "unat (cm_unlock_ts c) * 1000 < 2 ^ 63"
    and "spend_conforms L ctx \<lparr>sp_dest_spk = sspk, sp_lock_time = t, sp_extra_sig_bytes = e,
      sp_branch_sig_script = sig\<rparr> utxo tx"
  shows "contract_allows L sha RefundAction script (ku_amount utxo) tx"
proof -
  obtain sra ops where script: "parse_script L script = Inr ops" "2 \<le> length script"
      "list_all2 step_view (htlc_steps L (spk_to_vec sspk) sra (spk_to_vec rspk) (cm_secret_hash c) t
        (cm_destination c) (cm_swap_id c)) ops" "unat t < 2 ^ 63"
    using derived_script [OF assms(1)] saturating_mul_div(1) [OF assms(3)] by auto
  have "build_script L [AddOp (kl_False L), AddData script] [] = Inr sig"
    using assms(2) by (simp only: refund_sig_script_def map_err_eq_Inr)
  from build_parse [OF this] obtain b d where sig: "parse_script L sig = Inr [b, d]"
      "op_value b = kl_False L" "pushes script d"
    by (auto simp: single_codes_def list_all2_Cons1 step_view_def)
  have "refund_allowed L ops (ku_amount utxo) tx"
    using htlc_refund_allowed [OF script(3,4) assms(4)] by simp
  then show ?thesis
    using sig script pushes_extract_long [OF sig(3) script(2)] assms(4)
    by (simp add: contract_allows_def spend_conforms_def)
qed

end

lemma submit_reveal_ok:
  assumes "txscript L" and "kaspa_submit_reveal L K net pk maturity c reveal = (r, txs)" and "txs \<noteq> [] \<or> r = Inr ()"
    and "length (rv_secret reveal) = 32" and "sha (rv_secret reveal) = cm_secret_hash c"
  shows "\<exists>ctx. prepare_htlc_spend L K net pk maturity c = Inr ctx \<and> length txs \<le> length (hs_htlc_utxos ctx) \<and>
    list_all2 (spend_ok L sha Claim (hs_htlc_script ctx) (hs_signer ctx) (hs_fee_utxo ctx))
      (take (length txs) (hs_htlc_utxos ctx)) txs \<and>
    (r = Inr () \<longrightarrow> length txs = length (hs_htlc_utxos ctx))"
proof -
  obtain ctx sig where ctx: "prepare_htlc_spend L K net pk maturity c = Inr ctx"
      "reveal_sig_script L (rv_secret reveal) (hs_htlc_script ctx) = Inr sig"
      "submit_htlc_spend L K net ctx \<lparr>sp_dest_spk = hs_receiver_spk ctx, sp_lock_time = 0,
        sp_extra_sig_bytes = 300, sp_branch_sig_script = sig\<rparr> = (r, txs)"
    using assms(2,3) by (auto simp: kaspa_submit_reveal_def result_simps split: sum.splits)
  note script = prepare_htlc_cases [OF ctx(1), THEN conjunct1]
  have "spend_ok L sha Claim (hs_htlc_script ctx) (hs_signer ctx) (hs_fee_utxo ctx) utxo tx"
    if "spend_conforms L ctx \<lparr>sp_dest_spk = hs_receiver_spk ctx, sp_lock_time = 0,
        sp_extra_sig_bytes = 300, sp_branch_sig_script = sig\<rparr> utxo tx" for utxo tx
    using txscript.claim_tx_allowed [where sha = sha, OF assms(1) script ctx(2) assms(4,5) that] by (rule spend_conforms_ok [OF that])
  then show ?thesis
    using ctx(1) submit_spends_conform [OF ctx(3)] by (blast intro: list_all2_mono)
qed

lemma submit_refund_ok:
  assumes "txscript L" and "kaspa_submit_refund L K net pk maturity c = (r, txs)" and "txs \<noteq> [] \<or> r = Inr ()"
    and "unat (cm_unlock_ts c) * 1000 < 2 ^ 63"
  shows "\<exists>ctx. prepare_htlc_spend L K net pk maturity c = Inr ctx \<and> length txs \<le> length (hs_htlc_utxos ctx) \<and>
    list_all2 (spend_ok L sha RefundAction (hs_htlc_script ctx) (hs_signer ctx) (hs_fee_utxo ctx))
      (take (length txs) (hs_htlc_utxos ctx)) txs \<and>
    (\<forall>tx \<in> set txs. unat (kt_lock_time tx) = unat (cm_unlock_ts c) * 1000) \<and>
    (r = Inr () \<longrightarrow> length txs = length (hs_htlc_utxos ctx))"
proof -
  obtain ctx sig where ctx: "prepare_htlc_spend L K net pk maturity c = Inr ctx"
      "refund_sig_script L (hs_htlc_script ctx) = Inr sig"
      "submit_htlc_spend L K net ctx \<lparr>sp_dest_spk = hs_sender_spk ctx, sp_lock_time = hs_unlock_ts_ms ctx,
        sp_extra_sig_bytes = 260, sp_branch_sig_script = sig\<rparr> = (r, txs)"
    using assms(2,3) by (auto simp: kaspa_submit_refund_def result_simps split: sum.splits)
  note script = prepare_htlc_cases [OF ctx(1), THEN conjunct1]
  have t: "unat (hs_unlock_ts_ms ctx) = unat (cm_unlock_ts c) * 1000"
    using txscript.derived_script [OF assms(1) script] assms(4) by (auto simp: unat_saturating_mul)
  have ok: "spend_ok L sha RefundAction (hs_htlc_script ctx) (hs_signer ctx) (hs_fee_utxo ctx) utxo tx \<and>
      unat (kt_lock_time tx) = unat (cm_unlock_ts c) * 1000"
    if "spend_conforms L ctx \<lparr>sp_dest_spk = hs_sender_spk ctx, sp_lock_time = hs_unlock_ts_ms ctx,
        sp_extra_sig_bytes = 260, sp_branch_sig_script = sig\<rparr> utxo tx" for utxo tx
    using spend_conforms_ok [OF that txscript.refund_tx_allowed [OF assms(1) script ctx(2) assms(4) that]] that t
    by (simp add: spend_conforms_def)
  have all: "list_all2 (\<lambda>utxo tx. spend_ok L sha RefundAction (hs_htlc_script ctx) (hs_signer ctx) (hs_fee_utxo ctx) utxo tx \<and>
      unat (kt_lock_time tx) = unat (cm_unlock_ts c) * 1000) (take (length txs) (hs_htlc_utxos ctx)) txs"
    using submit_spends_conform [OF ctx(3)] ok by (blast intro: list_all2_mono)
  then have "\<forall>tx \<in> set txs. unat (kt_lock_time tx) = unat (cm_unlock_ts c) * 1000"
    by (auto simp: list_all2_conv_all_nth in_set_conv_nth)
  then show ?thesis
    using ctx(1) submit_spends_conform [OF ctx(3)] list_all2_mono [OF all] by blast
qed

text \<open>
  (C24) Claims and refunds conform: when the settlement of a swap on the Kaspa channel submits transactions or reports them
  submitted, they spend outputs locked by the script of the swap's commitment: a prefix of
  those the node lists for its address, one transaction each, and all of them when the settlement reports so. Every
  transaction passes the branch of that script which it selects: a claim reveals the preimage of the
  hash in the script and pays the receiver written there, a refund carries a lock time that is
  not before the one in the script and pays the sender, each at least the locked value less the reward in
  the script; the node itself receives at least 10000 sompi and no more than the two spent outputs hold
  is paid out. Refunds are submitted only when their lock time is past the median time
  of the DAG. Assumed are the laws of the script library, an unlock time that fits the signed numbers of
  the contract and, for a claim, that the pending claim of the swap carries the secret of 32 bytes (a claim
  is not checked at this point).
\<close>

theorem htlc_spends_conform:
  assumes "txscript L" and "kaspa_settle L K net key self = (outcome, txs)"
    and "kaspa_commitment (ak_swap_id key) self = Some c" and "unat (cm_unlock_ts c) * 1000 < 2 ^ 63"
    and "\<forall>reveal \<in> set (kb_pending_claims self). rv_swap_id reveal = ak_swap_id key \<longrightarrow>
      length (rv_secret reveal) = 32 \<and> sha (rv_secret reveal) = cm_secret_hash c"
    and "txs \<noteq> [] \<or> outcome = Retry ''submitted_awaiting_inclusion''"
  shows "\<exists>pk prefix signer script sspk rspk t address utxos fee_utxo.
    kb_private_key self = Some pk \<and> prefix_for net = Inr prefix \<and> signer_derive K pk prefix = Inr signer \<and>
    htlc_script_from_commitment L c = Inr (script, sspk, rspk, t) \<and>
    kl_extract_address L (kl_pay_to_script_hash_script L script) prefix = Inr address \<and>
    retry_timed (kn_utxos net address) = Some utxos \<and> length txs \<le> length utxos \<and>
    list_all2 (spend_ok L sha (ak_action key) script signer fee_utxo) (take (length txs) utxos) txs \<and>
    (outcome = Retry ''submitted_awaiting_inclusion'' \<longrightarrow> length txs = length utxos) \<and>
    (ak_action key = RefundAction \<longrightarrow> (\<exists>info. retry_timed (kn_dag_info net) = Some info \<and>
       (\<forall>tx \<in> set txs. unat (kt_lock_time tx) < unat (di_past_median_time info))))"
proof -
  obtain pk where pk: "kb_private_key self = Some pk" "kaspa_key self = Inr pk"
    using assms(2,3,6)
    by (cases "kb_private_key self"; cases "ak_action key")
      (auto simp: kaspa_settle_def kaspa_settle_refund_def kaspa_settle_claim_def kaspa_key_def)
  obtain ctx where ctx: "prepare_htlc_spend L K net pk (kb_coinbase_maturity self) c = Inr ctx"
      "length txs \<le> length (hs_htlc_utxos ctx)"
      "list_all2 (spend_ok L sha (ak_action key) (hs_htlc_script ctx) (hs_signer ctx) (hs_fee_utxo ctx))
        (take (length txs) (hs_htlc_utxos ctx)) txs"
      "outcome = Retry ''submitted_awaiting_inclusion'' \<longrightarrow> length txs = length (hs_htlc_utxos ctx)"
      "ak_action key = RefundAction \<longrightarrow> (\<exists>info. retry_timed (kn_dag_info net) = Some info \<and>
         (\<forall>tx \<in> set txs. unat (kt_lock_time tx) < unat (di_past_median_time info)))"
  proof (cases "ak_action key")
    case Claim
    then obtain reveal r where reveal: "find (\<lambda>c. rv_swap_id c = ak_swap_id key) (kb_pending_claims self) = Some reveal"
        and r: "kaspa_submit_reveal L K net pk (kb_coinbase_maturity self) c reveal = (r, txs)"
          "outcome = Retry ''submitted_awaiting_inclusion'' \<longleftrightarrow> r = Inr ()"
      using assms(2,3,6) pk(2)
      by (auto simp: kaspa_settle_def kaspa_settle_claim_def split: option.splits prod.splits sum.splits)
    have "length (rv_secret reveal) = 32" "sha (rv_secret reveal) = cm_secret_hash c"
      using reveal assms(5) by (auto simp: find_Some_iff)
    from submit_reveal_ok [where sha = sha, OF assms(1) r(1) _ this] that r(2) assms(6) Claim show ?thesis
      by auto
  next
    case RefundAction
    then obtain info r where info: "retry_timed (kn_dag_info net) = Some info"
          "saturating_mul (cm_unlock_ts c) 1000 < di_past_median_time info"
        and r: "kaspa_submit_refund L K net pk (kb_coinbase_maturity self) c = (r, txs)"
          "outcome = Retry ''submitted_awaiting_inclusion'' \<longleftrightarrow> r = Inr ()"
      using assms(2,3,6) pk(2)
      by (auto simp: kaspa_settle_def kaspa_settle_refund_def not_le split: option.splits prod.splits sum.splits if_splits)
    have "unat (cm_unlock_ts c) * 1000 < unat (di_past_median_time info)"
      using info(2) assms(4) by (simp add: word_less_nat_alt unat_saturating_mul)
    with submit_refund_ok [where sha = sha, OF assms(1) r(1) _ assms(4)] that r(2) assms(6) RefundAction info(1) show ?thesis
      by auto
  qed
  then show ?thesis
    using pk(1) prepare_htlc_cases [OF ctx(1)] by blast
qed

section \<open>An instance\<close>

definition sample_crypto :: kaspa_crypto where
  "sample_crypto =
     \<lparr>kc_hex_decode = (\<lambda>_. Inr [1]), kc_signing_key = Inr, kc_verifying_bytes = (\<lambda>_. replicate 32 5),
      kc_sign_prehash = (\<lambda>k h. Inr [2, 2, 2]), kc_sign = (\<lambda>k d. [2, 2, 2]), kc_verifying_key = Inr,
      kc_parse_signature = Inr, kc_verify = (\<lambda>k d s. s = [2, 2, 2]), kc_signature_hash = (\<lambda>_ _ _. [0]),
      kc_masses = (\<lambda>_. (2000, 3000)), kc_transient_factor = 4, kc_sighash_all = 1,
      kc_show_f64 = (\<lambda>_. ''NaN'')\<rparr>"

definition sample_utxo :: "u64 \<Rightarrow> kaspa_utxo" where
  "sample_utxo amount = \<lparr>ku_transaction_id = [9], ku_index = 0, ku_amount = amount,
     ku_script_public_key = \<lparr>spk_version = 0, spk_script = []\<rparr>, ku_block_daa_score = 0, ku_is_coinbase = False\<rparr>"

definition sample_kaspa_net :: kaspa_net where
  "sample_kaspa_net =
     \<lparr>kn_server_prefix = (\<lambda>_. Some (Inr Testnet)), kn_utxos = (\<lambda>_ _. Some (Inr [sample_utxo 50000000])),
      kn_utxos_once = (\<lambda>_. Inr [sample_utxo 50000000, sample_utxo 900000000]),
      kn_dag_info = (\<lambda>_. Some (Inr \<lparr>di_virtual_daa_score = 100, di_sink = [0], di_past_median_time = 0\<rparr>)),
      kn_feerate = (\<lambda>_. Some (Inr (Fin 1))), kn_submit = (\<lambda>_. Some (Inr ''tx''))\<rparr>"

definition sample_signer :: signer340 where
  "sample_signer = \<lparr>sg_key = [1], sg_pubkey = replicate 32 5, sg_prefix = Testnet\<rparr>"

lemma sample_sign: "sign_input plain_lib sample_crypto sg tx es i = Inr [4, 2, 2, 2, 1]"
  by (simp add: sign_input_def sample_crypto_def plain_lib_def plain_add_data_def push_code_def)

lemma sample_fee:
  "calculate_priority_fee sample_crypto sample_kaspa_net tx extra =
     Inr (fee_from_mass (max (2000 + (of_nat (length (filter (\<lambda>i. 0 < ti_sig_op_count i) (kt_inputs tx))) * 66 + extra))
       (3000 + (of_nat (length (filter (\<lambda>i. 0 < ti_sig_op_count i) (kt_inputs tx))) * 66 + extra) * 4)) (Fin 1))"
  by (simp add: calculate_priority_fee_def sample_kaspa_net_def retry_timed_first sample_crypto_def f_min_def
      MAX_FEERATE_def MASS_PER_TX_BYTE_def SCHNORR_SIG_SCRIPT_SIZE_def Let_def)

lemma sample_submit: "submit_transaction (sample_kaspa_net\<lparr>kn_dag_info := d\<rparr>) tx = Inr ''tx''"
  by (simp add: submit_transaction_def sample_kaspa_net_def)

lemma sample_fee_dag:
  "calculate_priority_fee K (sample_kaspa_net\<lparr>kn_dag_info := d\<rparr>) tx extra =
     calculate_priority_fee K sample_kaspa_net tx extra"
  by (simp add: calculate_priority_fee_def sample_kaspa_net_def)

text \<open>The Kaspa channel after the lock of the sample deposit has ended, with the secret of the swap at hand.\<close>

definition settled_net :: kaspa_net where
  "settled_net = sample_kaspa_net\<lparr>kn_dag_info :=
     (\<lambda>_. Some (Inr \<lparr>di_virtual_daa_score = 100, di_sink = [0], di_past_median_time = 1760000000001\<rparr>))\<rparr>"

definition settling_kaspa :: "unit kaspa" where
  "settling_kaspa =
     \<lparr>kb_channel_id = KaspaTn10, kb_network_id = ''testnet-10'', kb_prefix = Testnet, kb_coinbase_maturity = 1000,
      kb_script_ttl_secs = 3600, kb_participate_ccr = False, kb_private_key = Some ''key'', kb_utxo_scripts = hm_empty,
      kb_safe_blocks = [], kb_commitments = hm_insert (replicate 32 3) sample_deposit hm_empty,
      kb_pending_refunds = [], kb_pending_claims = [\<lparr>rv_swap_id = replicate 32 3, rv_secret = replicate 32 9\<rparr>],
      kb_announcements = [], kb_scripts = hm_empty, kb_swap_store = None, kb_queue = hm_empty\<rparr>"

definition sample_spend :: htlc_spend where
  "sample_spend = \<lparr>hs_signer = sample_signer, hs_htlc_script = plain_script sample_steps,
     hs_sender_spk = \<lparr>spk_version = 0, spk_script = [0, 1, 7, 7]\<rparr>,
     hs_receiver_spk = \<lparr>spk_version = 0, spk_script = [0, 2, 7, 7]\<rparr>, hs_unlock_ts_ms = 1760000000000,
     hs_htlc_utxos = [sample_utxo 50000000], hs_fee_utxo = sample_utxo 50000000\<rparr>"

lemma sample_prepare:
  "prepare_htlc_spend plain_lib sample_crypto settled_net ''key'' 1000 sample_deposit = Inr sample_spend"
proof -
  have "htlc_script_from_commitment plain_lib sample_deposit =
      Inr (plain_script sample_steps, \<lparr>spk_version = 0, spk_script = [0, 1, 7, 7]\<rparr>,
        \<lparr>spk_version = 0, spk_script = [0, 2, 7, 7]\<rparr>, 1760000000000)"
    using sample_create
    by (simp add: htlc_script_from_commitment_def sample_deposit_def commitment_new_def addresses_new_def
        sample_addresses sample_spk Let_def saturating_mul_def)
  moreover have "prefix_for settled_net = Inr Testnet"
    by (simp add: prefix_for_def settled_net_def sample_kaspa_net_def retry_timed_first)
  moreover have "signer_derive sample_crypto ''key'' Testnet = Inr sample_signer"
    by (simp add: signer_derive_def kaspa_signing_key_def pubkey_bytes_def sample_crypto_def sample_signer_def)
  ultimately show ?thesis
    by (simp add: prepare_htlc_spend_def plain_p2sh_address settled_net_def sample_kaspa_net_def
        retry_timed_first utxo_is_mature_def sample_spend_def sample_utxo_def)
qed

lemma sample_spend_ok:
  assumes "extra = sp_extra_sig_bytes params" and "extra = 260 \<or> extra = 300"
  shows "fst (submit_htlc_spend plain_lib sample_crypto settled_net sample_spend params) = Inr ()"
proof -
  have "\<exists>tx. build_spend_tx plain_lib sample_crypto settled_net sample_spend params (sample_utxo 50000000) = Inr tx"
    using assms
    by (auto simp: sample_spend_def build_spend_tx_def sample_sign sample_fee settled_net_def sample_fee_dag
        sample_utxo_def SOLVER_REWARD_def checked_sub_def checked_add_def fee_from_mass_def f_of_nat_def
        spend_inputs_def to_input_def MIN_REWARD_OUTPUT_SOMPI_def Let_def)
  moreover have "hs_htlc_utxos sample_spend = [sample_utxo 50000000]"
    by (simp add: sample_spend_def)
  ultimately show ?thesis
    by (auto simp: submit_htlc_spend_def settled_net_def sample_submit)
qed

lemma sample_sig_scripts:
  "\<exists>sig. reveal_sig_script plain_lib (replicate 32 9) (plain_script sample_steps) = Inr sig"
  "\<exists>sig. refund_sig_script plain_lib (plain_script sample_steps) = Inr sig"
proof -
  have "length (plain_script sample_steps) \<le> 300"
    using plain_script_length [OF sample_steps_ok(1)] sample_steps_ok(2) by linarith
  then show "\<exists>sig. reveal_sig_script plain_lib (replicate 32 9) (plain_script sample_steps) = Inr sig"
    "\<exists>sig. refund_sig_script plain_lib (plain_script sample_steps) = Inr sig"
    using plain_script [of "[AddData (replicate 32 9), AddOp (kl_True plain_lib), AddData (plain_script sample_steps)]" "[]"]
      plain_script [of "[AddOp (kl_False plain_lib), AddData (plain_script sample_steps)]" "[]"]
    by (simp_all add: reveal_sig_script_def refund_sig_script_def single_codes_def del: replicate.simps)
qed

lemma sample_settle:
  "\<exists>txs. kaspa_settle plain_lib sample_crypto settled_net \<lparr>ak_swap_id = replicate 32 3, ak_action = act\<rparr>
     settling_kaspa = (Retry ''submitted_awaiting_inclusion'', txs)"
proof -
  have base: "kaspa_commitment (replicate 32 3) settling_kaspa = Some sample_deposit"
      "kaspa_key settling_kaspa = Inr ''key''" "kb_coinbase_maturity settling_kaspa = 1000"
      "kb_pending_claims settling_kaspa = [\<lparr>rv_swap_id = replicate 32 3, rv_secret = replicate 32 9\<rparr>]"
      "cm_unlock_ts sample_deposit = 1760000000"
      "retry_timed (kn_dag_info settled_net) =
        Some \<lparr>di_virtual_daa_score = 100, di_sink = [0], di_past_median_time = 1760000000001\<rparr>"
    by (simp_all add: settling_kaspa_def kaspa_commitment_def kaspa_key_def sample_deposit_def commitment_new_def
        settled_net_def retry_timed_first del: replicate.simps)
  have script: "hs_htlc_script sample_spend = plain_script sample_steps"
    by (simp add: sample_spend_def)
  have spend: "fst (submit_htlc_spend plain_lib sample_crypto settled_net sample_spend
      \<lparr>sp_dest_spk = d, sp_lock_time = l, sp_extra_sig_bytes = e, sp_branch_sig_script = sig\<rparr>) = Inr ()"
    if "e = 260 \<or> e = 300" for d l e sig
    using that by (intro sample_spend_ok [OF refl]) simp
  show ?thesis
    using sample_sig_scripts base
    by (cases act) (auto simp: kaspa_settle_def kaspa_settle_claim_def kaspa_settle_refund_def
        kaspa_submit_reveal_def kaspa_submit_refund_def sample_prepare script saturating_mul_def spend
        case_prod_beta simp del: replicate.simps)
qed

text \<open>A claim and a refund of the sample deposit, with the identity as the hash function.\<close>

theorem htlc_spends_conform_witness:
  "\<forall>act. \<exists>tx. kaspa_settle plain_lib sample_crypto settled_net \<lparr>ak_swap_id = replicate 32 3, ak_action = act\<rparr>
      settling_kaspa = (Retry ''submitted_awaiting_inclusion'', [tx]) \<and>
    contract_allows plain_lib id act (plain_script sample_steps) 50000000 tx"
proof
  fix act
  let ?key = "\<lparr>ak_swap_id = replicate 32 3, ak_action = act\<rparr>"
  obtain txs where txs: "kaspa_settle plain_lib sample_crypto settled_net ?key settling_kaspa =
      (Retry ''submitted_awaiting_inclusion'', txs)"
    using sample_settle by blast
  have "kaspa_commitment (ak_swap_id ?key) settling_kaspa = Some sample_deposit"
      "unat (cm_unlock_ts sample_deposit) * 1000 < 2 ^ 63"
      "\<forall>reveal \<in> set (kb_pending_claims settling_kaspa). rv_swap_id reveal = ak_swap_id ?key \<longrightarrow>
        length (rv_secret reveal) = 32 \<and> id (rv_secret reveal) = cm_secret_hash sample_deposit"
    by (simp_all add: settling_kaspa_def kaspa_commitment_def sample_deposit_def commitment_new_def
        del: replicate.simps)
  note ok = htlc_spends_conform [OF plain.txscript_axioms txs this disjI2 [OF refl]]
  from ok show "\<exists>tx. kaspa_settle plain_lib sample_crypto settled_net ?key
      settling_kaspa = (Retry ''submitted_awaiting_inclusion'', [tx]) \<and>
    contract_allows plain_lib id act (plain_script sample_steps) 50000000 tx"
  proof (elim exE conjE, goal_cases)
    case (1 pk prefix signer script sspk rspk t address utxos fee_utxo)
    have "utxos = [sample_utxo 50000000]"
      using 1(6) by (simp add: settled_net_def sample_kaspa_net_def retry_timed_first)
    moreover have "script = plain_script sample_steps"
      using 1(4) sample_htlc_script by auto
    ultimately show ?case
      using 1(8,9) txs by (auto simp: length_Suc_conv spend_ok_def sample_utxo_def id_def)
  qed
qed

lemma sample_commitment_fee:
  assumes "length (kt_inputs t) \<le> 2" and "calculate_priority_fee sample_crypto sample_kaspa_net t 0 = Inr f"
  shows "unat f < 4000"
proof -
  let ?n = "length (filter (\<lambda>i. 0 < ti_sig_op_count i) (kt_inputs t))"
  have "?n \<le> 2"
    using assms(1) length_filter_le [of "\<lambda>i. 0 < ti_sig_op_count i" "kt_inputs t"] by linarith
  then consider "?n = 0" | "?n = 1" | "?n = 2"
    by linarith
  then show ?thesis
    using assms(2)
    by cases (auto simp: sample_fee fee_from_mass_def f_of_nat_def max_def word_le_nat_alt simp del: length_0_conv)
qed

theorem commitment_tx_conserves_witness:
  "\<exists>tx. build_commitment_tx plain_lib sample_crypto sample_kaspa_net sample_signer (plain_script sample_steps)
      1000 sample_deposit = Inr tx \<and>
     (\<exists>change. map (\<lambda>out. (unat (to_value out), to_script_public_key out)) (kt_outputs tx) =
        (250000000, kl_pay_to_script_hash_script plain_lib (plain_script sample_steps)) # change \<and>
        (\<forall>(v, spk) \<in> set change. spk = signer_spk plain_lib sample_signer))"
proof -
  let ?utxos = "[sample_utxo 50000000, sample_utxo 900000000]"
  have utxos: "kn_utxos_once sample_kaspa_net (signer_address sample_signer) = Inr ?utxos"
    by (simp add: sample_kaspa_net_def)
  have amount: "parse_uint 64 (am_value (cm_amount sample_deposit)) = Some 250000000"
    by (simp add: sample_deposit_def commitment_new_def amount_new_def parse_uint_def strip_plus_def is_digit_def
        digits_val_def digit_val_def)
  have dag: "retry_timed (kn_dag_info sample_kaspa_net) =
      Some \<lparr>di_virtual_daa_score = 100, di_sink = [0], di_past_median_time = 0\<rparr>"
    by (simp add: sample_kaspa_net_def retry_timed_first)
  have sel: "select_funding_utxos ?utxos 250000000 1000 100 = Inr (?utxos, 950000000)"
    by (simp add: select_funding_utxos_def utxo_is_mature_def sample_utxo_def)
  have covered: "\<not> 950000000 < 250000000 + f"
    if "length (kt_inputs t) \<le> 2" "calculate_priority_fee sample_crypto sample_kaspa_net t 0 = Inr f" for t f
    using sample_commitment_fee [OF that] unat_add_no_wrap [of 250000000 f] by (simp add: word_less_nat_alt)
  let ?t = "\<lparr>kt_inputs = to_inputs ?utxos, kt_outputs = with_change 250000000
      (kl_pay_to_script_hash_script plain_lib (plain_script sample_steps)) (saturating_sub 950000000 250000000)
      (signer_spk plain_lib sample_signer), kt_lock_time = 0\<rparr>"
  obtain fee where fee: "calculate_priority_fee sample_crypto sample_kaspa_net ?t 0 = Inr fee"
    by (simp add: sample_fee)
  have "\<not> 950000000 < 250000000 + fee"
    by (rule covered [OF _ fee]) (simp add: to_inputs_def)
  then obtain tx where tx: "build_commitment_tx plain_lib sample_crypto sample_kaspa_net sample_signer
      (plain_script sample_steps) 1000 sample_deposit = Inr tx"
    using utxos amount dag sel fee
    by (simp add: build_commitment_tx_def Let_def sample_sign)
  have small: "\<forall>amount selected acc. set selected \<subseteq> set ?utxos \<and> length selected \<le> length ?utxos \<longrightarrow>
      mass_small sample_crypto (preliminary_tx plain_lib sample_signer (plain_script sample_steps) amount selected acc)"
    by (simp add: mass_small_def sample_crypto_def preliminary_tx_def to_inputs_def)
  have "total_amount ?utxos < 2 ^ 63" "\<forall>u \<in> set ?utxos. unat (ku_block_daa_score u) + unat (1000 :: u64) < 2 ^ 64"
    by (simp_all add: sample_utxo_def)
  from commitment_tx_conserves [OF tx utxos this small] amount obtain change where
      "map (\<lambda>out. (unat (to_value out), to_script_public_key out)) (kt_outputs tx) =
        (250000000, kl_pay_to_script_hash_script plain_lib (plain_script sample_steps)) # change"
      "\<forall>(v, spk) \<in> set change. spk = signer_spk plain_lib sample_signer"
    by (fastforce split: if_splits)
  with tx show ?thesis
    by (intro exI [of _ tx] exI [of _ change] conjI)
qed

end
