(* ===== verification/Kaspa_Recovery.thy ===== *)
theory Kaspa_Recovery
  imports Kaspa_Spending Swap_Sync
begin

text \<open>
  Crash recovery of the Kaspa channel. \<open>kaspa_step\<close> is one operation of the buffer: the intake delivers
  blocks, a poll, an emission, an announced script, a recorded success or failure, in any order. In every
  state that such steps reach the swap store holds what the memory holds, so \<open>Kaspa::connect\<close> resumes
  with the same scripts, claims, refunds and attempts. What a restart does not bring back is the set of
  watched deposit addresses: until a script is registered again, no block yields an event.
\<close>

section \<open>The contract of the driver\<close>

lemma kaspa_persist_frame [simp]:
  "kb_channel_id (kaspa_persist_swap B D sid self) = kb_channel_id self"
  "kb_prefix (kaspa_persist_swap B D sid self) = kb_prefix self"
  "kb_utxo_scripts (kaspa_persist_swap B D sid self) = kb_utxo_scripts self"
  "kb_commitments (kaspa_persist_swap B D sid self) = kb_commitments self"
  "kb_pending_refunds (kaspa_persist_swap B D sid self) = kb_pending_refunds self"
  "kb_pending_claims (kaspa_persist_swap B D sid self) = kb_pending_claims self"
  "kb_scripts (kaspa_persist_swap B D sid self) = kb_scripts self"
  "kb_participate_ccr (kaspa_persist_swap B D sid self) = kb_participate_ccr self"
  "kb_queue (kaspa_persist_swap B D sid self) = kb_queue self"
  by (simp_all add: kaspa_persist_swap_def split: option.split)

lemma kaspa_never_settled: "kaspa_observe_onchain L net key self \<noteq> Settled"
  by (simp add: kaspa_observe_onchain_def split: option.split sum.split)

interpretation kaspa: settler_contract "kaspa_settler B D L K" kb_queue kaspa_jitter "\<lambda>_ _ _. False"
  for B :: "persisted_swap borsh_codec" and D :: "'s swap_store_ops" and L :: kaspa_lib and K :: kaspa_crypto
  by unfold_locales
    (auto simp: kaspa_settler_def kaspa_never_settled kaspa_record_success_def kaspa_record_failure_def
      Let_def rq_get_hm split: action.split)

section \<open>The invariant\<close>

definition kaspa_record_ok :: "bytes \<Rightarrow> persisted_swap \<Rightarrow> bool" where
  "kaspa_record_ok sid r = (sized_record r \<and> (r \<noteq> empty_record \<longrightarrow> length sid = 32))"

definition kaspa_sync ::
  "persisted_swap borsh_codec \<Rightarrow> ('s \<Rightarrow> channel_id \<Rightarrow> bytes \<Rightarrow> bytes option) \<Rightarrow> bytes set \<Rightarrow> 's kaspa \<Rightarrow> bool" where
  "kaspa_sync B contents = record_sync B contents kaspa_record_ok kb_channel_id kb_swap_store kaspa_record"

lemma kaspa_record_live:
  "kaspa_record self sid =
     live_record (kb_scripts self) (kb_pending_refunds self) (kb_pending_claims self) (kb_queue self) sid"
  by (simp add: kaspa_record_def live_record_def find_refund_def find_claim_def)

lemma kaspa_record_cong:
  assumes "hm_get (kb_scripts a) j = hm_get (kb_scripts b) j"
    and "find_refund j (kb_pending_refunds a) = find_refund j (kb_pending_refunds b)"
    and "find_claim j (kb_pending_claims a) = find_claim j (kb_pending_claims b)"
    and "rq_get (claim_key j) (kb_queue a) = rq_get (claim_key j) (kb_queue b)"
    and "rq_get (refund_key j) (kb_queue a) = rq_get (refund_key j) (kb_queue b)"
  shows "kaspa_record a j = kaspa_record b j"
  using assms by (simp add: kaspa_record_live live_record_def)

text \<open>The shape of a record in terms of its scripts and claims: the identifiers are those of the swap.\<close>

lemma kaspa_record_okI:
  assumes "length sid = 32"
    and "\<And>s. hm_get (kb_scripts self) sid = Some s \<Longrightarrow> sized_script s"
    and "\<And>c. find_claim sid (kb_pending_claims self) = Some c \<Longrightarrow> length (rv_secret c) = 32"
  shows "kaspa_record_ok sid (kaspa_record self sid)"
  using assms find_claim_id [of sid "kb_pending_claims self"] find_refund_id [of sid "kb_pending_refunds self"]
  by (auto simp: kaspa_record_ok_def sized_record_def fixed_record_def kaspa_record_live live_record_def
      split: option.split)

lemma kaspa_record_okD:
  assumes "kaspa_record_ok sid (kaspa_record self sid)"
  shows "hm_get (kb_scripts self) sid = Some s \<Longrightarrow> sized_script s"
    and "find_claim sid (kb_pending_claims self) = Some c \<Longrightarrow> length (rv_secret c) = 32"
  using assms
  by (auto simp: kaspa_record_ok_def sized_record_def fixed_record_def kaspa_record_live live_record_def)

text \<open>The environment: a store, Borsh, and the size limit of the script builder (10,000 bytes).\<close>

locale kaspa_environment = swap_store D contents
  for D :: "'s swap_store_ops" and contents :: "'s \<Rightarrow> channel_id \<Rightarrow> bytes \<Rightarrow> bytes option" +
  fixes B :: "persisted_swap borsh_codec" and L :: kaspa_lib
  assumes roundtrip: "borsh_roundtrip B"
    and encodes: "borsh_sized B"
    and builder_limit: "run_step L st s = Inr s' \<Longrightarrow> length s' \<le> 10000"
begin

lemma persisted:
  "persisted_buffer D contents B kaspa_record_ok kb_channel_id kb_swap_store kaspa_record (kaspa_persist_swap B D)"
proof unfold_locales
  show "borsh_roundtrip B" by (rule roundtrip)
  show "is_ok (bo_to_vec B r)" if "kaspa_record_ok sid r" for sid r
    using encodes that by (simp add: borsh_sized_def kaspa_record_ok_def)
  show "own_ids sid (kaspa_record b sid)" for sid and b :: "'s kaspa"
    by (simp add: kaspa_record_live live_record_own_ids)
qed (simp_all add: kaspa_record_def fun_eq_iff, simp add: kaspa_persist_swap_def kaspa_record_def split: option.split)

end

sublocale kaspa_environment \<subseteq> synced: persisted_buffer D contents B kaspa_record_ok kb_channel_id kb_swap_store
  kaspa_record "kaspa_persist_swap B D"
  by (rule persisted)

section \<open>Steps\<close>

definition sized_amount :: "chain_event \<Rightarrow> bool" where
  "sized_amount e = (case e of Commitment c \<Rightarrow> length (am_value (cm_amount c)) < 2 ^ 32 | _ \<Rightarrow> True)"

inductive kaspa_step ::
  "persisted_swap borsh_codec \<Rightarrow> 's swap_store_ops \<Rightarrow> kaspa_lib \<Rightarrow> kaspa_crypto \<Rightarrow> 's kaspa \<Rightarrow> 's kaspa \<Rightarrow> bool"
  for B D L K where
  deliver: "kaspa_step B D L K self (self\<lparr>kb_safe_blocks := kb_safe_blocks self @ blocks\<rparr>)"
| poll: "kaspa_step B D L K self (snd (kaspa_poll_finalized B D L clk self))"
| emit: "sized_event e \<Longrightarrow> sized_amount e \<Longrightarrow>
    kaspa_step B D L K self (snd (kaspa_emit_event B D L K net now e self))"
| announce: "length script < 2 ^ 32 \<Longrightarrow> length target < 2 ^ 32 \<Longrightarrow>
    kaspa_step B D L K self (snd (register_script B D L now address script swap_id unlock target self))"
| take: "kaspa_step B D L K self (snd (take_utxo_script_announcements self))"
| success: "length (ak_swap_id key) = 32 \<Longrightarrow> kaspa_step B D L K self (kaspa_record_success B D key self)"
| failure: "length (ak_swap_id key) = 32 \<Longrightarrow> kaspa_step B D L K self (kaspa_record_failure B D key now self)"

context kaspa_environment
begin

lemma sync_ok: "kaspa_sync B contents S self \<Longrightarrow> kaspa_record_ok sid (kaspa_record self sid)"
  by (simp add: kaspa_sync_def record_sync_def)

lemma sync_update:
  assumes "kaspa_sync B contents S self"
    and "kb_swap_store self' = kb_swap_store self" "kb_channel_id self' = kb_channel_id self"
    and "\<And>j. j \<noteq> sid \<Longrightarrow> kaspa_record self' j = kaspa_record self j" and "length sid = 32"
    and "\<And>s. hm_get (kb_scripts self') sid = Some s \<Longrightarrow> sized_script s"
    and "\<And>c. find_claim sid (kb_pending_claims self') = Some c \<Longrightarrow> length (rv_secret c) = 32"
  shows "kaspa_sync B contents (S - {sid}) (kaspa_persist_swap B D sid self')"
  using synced.sync_update [OF assms(1) [unfolded kaspa_sync_def] assms(2-5) kaspa_record_okI [OF assms(5-7)]]
  by (simp add: kaspa_sync_def)

lemma sync_frame:
  assumes "kaspa_sync B contents S self"
    and "kb_swap_store self' = kb_swap_store self" "kb_channel_id self' = kb_channel_id self"
      "kb_scripts self' = kb_scripts self" "kb_pending_refunds self' = kb_pending_refunds self"
      "kb_pending_claims self' = kb_pending_claims self" "kb_queue self' = kb_queue self"
  shows "kaspa_sync B contents S self'"
  using assms by (simp add: kaspa_sync_def record_sync_def kaspa_record_def)

lemmas sync_okD = kaspa_record_okD [OF sync_ok]

lemma track_sync:
  assumes inv: "kaspa_sync B contents {} self" and e: "sized_event e"
  shows "kaspa_sync B contents {} (kaspa_track_actionable_event B D e self)"
proof -
  let ?sid = "event_swap_id e"
  obtain self' where track: "kaspa_track_actionable_event B D e self = kaspa_persist_swap B D ?sid self'"
      and store: "kb_swap_store self' = kb_swap_store self" "kb_channel_id self' = kb_channel_id self"
      and refunds: "kb_pending_refunds self' =
        queue_dequeue_refund_event (kb_pending_refunds self) e (kb_participate_ccr self)"
      and claims: "kb_pending_claims self' = (if is_resolving e
        then filter (\<lambda>c. rv_swap_id c \<noteq> ?sid) (kb_pending_claims self) else kb_pending_claims self)"
      and scripts: "kb_scripts self' = (if is_resolving e then hm_remove ?sid (kb_scripts self) else kb_scripts self)"
      and queue: "kb_queue self' = (if is_resolving e
        then rq_record_success (refund_key ?sid) (rq_record_success (claim_key ?sid) (kb_queue self))
        else kb_queue self)"
    by (cases e) (simp_all add: kaspa_track_actionable_event_def Let_def resolve_swap_def cache_commitment_def)
  have "kaspa_record self' j = kaspa_record self j" if "j \<noteq> ?sid" for j
    using that by (intro kaspa_record_cong) (simp_all add: refunds claims scripts queue find_refund_queue_dequeue)
  then have "kaspa_sync B contents ({} - {?sid}) (kaspa_persist_swap B D ?sid self')"
    using e sync_okD [OF inv, of ?sid]
    by (intro sync_update [OF inv store]) (auto simp: sized_event_def scripts claims split: if_splits)
  then show ?thesis
    by (simp add: track)
qed

lemma events_sync:
  "kaspa_sync B contents {} self \<Longrightarrow> list_all sized_event events \<Longrightarrow>
   kaspa_sync B contents {} (track_events B D events self)"
  unfolding track_events_def by (induction events arbitrary: self) (auto intro: track_sync)

lemma push_refunds_spec:
  assumes "push_refunds refunds pending = (pending', pushed)"
  shows "set pushed \<subseteq> fst ` set refunds"
    and "j \<notin> set pushed \<Longrightarrow> find_refund j pending' = find_refund j pending"
proof -
  have "set pushed \<subseteq> fst ` set refunds \<and>
      (j \<notin> set pushed \<longrightarrow> find_refund j pending' = find_refund j pending)"
    using assms
  proof (induction refunds pending arbitrary: pending' pushed rule: push_refunds.induct)
    case (1 pending)
    then show ?case by simp
  next
    case (2 sid ts refunds pending)
    obtain p1 fresh where p1: "push_pending_refund pending sid ts = (p1, fresh)"
      by fastforce
    obtain p2 ps where p2: "push_refunds refunds p1 = (p2, ps)"
      by fastforce
    have "find_refund j p1 = find_refund j pending" if "fresh \<longrightarrow> j \<noteq> sid"
      using p1 that by (auto simp: push_pending_refund_def refund_new_def split: if_splits option.splits)
    with "2.IH" [OF p1 [symmetric] p2] "2.prems" p1 p2 show ?case
      by (auto split: if_splits)
  qed
  then show "set pushed \<subseteq> fst ` set refunds"
    and "j \<notin> set pushed \<Longrightarrow> find_refund j pending' = find_refund j pending"
    by blast+
qed

lemma ensure_sync:
  assumes inv: "kaspa_sync B contents S self" and len: "length sid = 32"
  shows "kaspa_sync B contents (S - {sid}) (ensure_refund B D now sid self)"
  unfolding ensure_refund_def
proof (rule sync_update [OF inv])
  show "kaspa_record (self\<lparr>kb_queue := rq_ensure (refund_key sid) now (kb_queue self)\<rparr>) j = kaspa_record self j"
    if "j \<noteq> sid" for j
    using that by (intro kaspa_record_cong) simp_all
qed (use len sync_okD [OF inv, of sid] in auto)

lemma refunds_sync:
  assumes inv: "kaspa_sync B contents {} self" and len: "\<forall>r \<in> set refunds. length (fst r) = 32"
  shows "kaspa_sync B contents {} (track_refunds B D now refunds self)"
proof (cases "kb_participate_ccr self")
  case False
  with inv show ?thesis by (simp add: track_refunds_def)
next
  case True
  obtain pending pushed where push: "push_refunds refunds (kb_pending_refunds self) = (pending, pushed)"
    by fastforce
  note spec = push_refunds_spec [OF push]
  have len': "length sid = 32" if "sid \<in> set pushed" for sid
    using that len spec(1) by auto
  let ?self = "self\<lparr>kb_pending_refunds := pending\<rparr>"
  have same: "kaspa_record ?self j = kaspa_record self j" if "j \<notin> set pushed" for j
    using that spec(2) by (intro kaspa_record_cong) simp_all
  have "kaspa_record_ok j (kaspa_record ?self j)" for j
  proof (cases "j \<in> set pushed")
    case True
    then show ?thesis
      using sync_okD [OF inv, of j] len' by (intro kaspa_record_okI) auto
  next
    case False
    then show ?thesis using sync_ok [OF inv] same by simp
  qed
  then have pushed: "kaspa_sync B contents (set pushed) ?self"
    using inv same by (auto simp: kaspa_sync_def record_sync_def)
  have "kaspa_sync B contents (S - set sids) (fold (\<lambda>(j, sid). ensure_refund B D (now j) sid) (enumerate n sids) s)"
    if "kaspa_sync B contents S s" "\<forall>sid \<in> set sids. length sid = 32" for S sids n s
    using that
  proof (induction sids arbitrary: S n s)
    case Nil
    then show ?case by simp
  next
    case (Cons sid sids)
    from Cons.IH [OF ensure_sync [OF Cons.prems(1)], of sid "Suc n"] Cons.prems(2) show ?case
      by (simp add: set_diff_eq)
  qed
  from this [OF pushed, of pushed 0] len' show ?thesis
    by (simp add: track_refunds_def True push)
qed

end

section \<open>Blocks\<close>

lemma extract_commitment_sized: "extract_commitment L ops target prefix ch = Inr c \<Longrightarrow> length (cm_swap_id c) = 32"
  by (auto simp: extract_commitment_def result_simps commitment_new_def Let_def split: if_splits)

lemma reveal_secret_sized: "extract_reveal_secret L ops = Inr secret \<Longrightarrow> length secret = 32"
  by (auto simp: extract_reveal_secret_def Let_def split: list.splits if_splits)

lemma classify_sized:
  assumes "classify_spend L sig us prefix ch = Inr (Some e, fin)"
  shows "sized_event e"
proof -
  obtain sig_ops ops where ops: "parse_script L sig = Inr sig_ops" "parse_script L (us_redeem_script us) = Inr ops"
    using assms by (auto simp: classify_spend_def result_simps)
  then obtain c where c: "extract_commitment L ops (us_deposit_target us) prefix ch = Inr c"
    using assms by (cases "extract_commitment L ops (us_deposit_target us) prefix ch";
        cases "extract_reveal_secret L sig_ops") (auto simp: classify_spend_def Let_def split: if_splits)
  show ?thesis
  proof (cases "extract_reveal_secret L sig_ops")
    case (Inl e')
    with assms ops c extract_commitment_sized [OF c] show ?thesis
      by (auto simp: classify_spend_def sized_event_def refund_new_def split: if_splits)
  next
    case (Inr secret)
    with assms ops c extract_commitment_sized [OF c] reveal_secret_sized [OF Inr] show ?thesis
      by (auto simp: classify_spend_def sized_event_def reveal_new_def)
  qed
qed

lemma scan_input_sized:
  "list_all sized_event (snd (snd st)) \<Longrightarrow> list_all sized_event (snd (snd (scan_input L scripts prefix ch i st)))"
  by (auto simp: scan_input_def Let_def dest: classify_sized split: prod.splits option.splits sum.splits)

lemma scan_inputs_sized:
  assumes "list_all sized_event events"
  shows "list_all sized_event (snd (scan_inputs L tx scripts prefix ch events))"
proof -
  have "list_all sized_event (snd (snd (fold (scan_input L scripts prefix ch) is st)))"
    if "list_all sized_event (snd (snd st))" for "is" st
    using that
  proof (induction "is" arbitrary: st)
    case Nil
    then show ?case by simp
  next
    case (Cons i "is")
    from Cons.IH [OF scan_input_sized [OF Cons.prems]] show ?case by simp
  qed
  from this [of "([], hm_empty, events)" "rt_inputs tx"] assms show ?thesis
    by (auto simp: scan_inputs_def split: prod.splits)
qed

abbreviation sized_refunds :: "(bytes \<times> u64) list \<Rightarrow> bool" where
  "sized_refunds refunds \<equiv> \<forall>r \<in> set refunds. length (fst r) = 32"

lemma scan_matched_sized:
  assumes "scan_matched L prefix ch ms events refunds = Inr (events', refunds')"
    and "list_all sized_event events" and "sized_refunds refunds"
  shows "list_all sized_event events' \<and> sized_refunds refunds'"
  using assms
proof (induction ms arbitrary: events refunds)
  case Nil
  then show ?case by simp
next
  case (Cons m ms)
  obtain val us where m: "m = (val, us)"
    by fastforce
  obtain ops where ops: "parse_script L (us_redeem_script us) = Inr ops"
    using Cons.prems(1) by (auto simp: m result_simps)
  show ?case
  proof (cases "\<exists>c t. extract_commitment L ops (us_deposit_target us) prefix ch = Inr c \<and>
      deposit_target_valid (us_deposit_target us) = Some t")
    case True
    then obtain c t where c: "extract_commitment L ops (us_deposit_target us) prefix ch = Inr c"
        "deposit_target_valid (us_deposit_target us) = Some t"
      by blast
    have "sized_event (Commitment c)"
      using extract_commitment_sized [OF c(1)] by (simp add: sized_event_def)
    with Cons.prems ops c show ?thesis
      by (intro Cons.IH [of "if t \<le> val then events @ [Commitment c] else events"
            "refunds @ [(cm_swap_id c, cm_unlock_ts c)]"])
        (auto simp: m sized_event_def)
  next
    case False
    with Cons.prems ops show ?thesis
      by (intro Cons.IH [of events refunds])
        (auto simp: m split: sum.splits option.splits)
  qed
qed

lemma scan_transactions_sized:
  assumes "scan_transactions L prefix ch txs scripts events refunds = (Inr out, scripts')"
    and "list_all sized_event events" and "sized_refunds refunds"
  shows "list_all sized_event (bo_events out) \<and> sized_refunds (bo_refunds out)"
  using assms
proof (induction txs arbitrary: scripts events refunds)
  case Nil
  then show ?case by auto
next
  case (Cons tx txs)
  obtain e1 r1 where outs: "scan_outputs L tx scripts prefix ch events refunds = Inr (e1, r1)"
    using Cons.prems(1) by (cases "scan_outputs L tx scripts prefix ch events refunds") auto
  obtain s2 e2 where ins: "scan_inputs L tx scripts prefix ch e1 = (s2, e2)"
    by fastforce
  have "list_all sized_event e1 \<and> sized_refunds r1"
    using scan_matched_sized outs Cons.prems(2,3) by (simp add: scan_outputs_def)
  with scan_inputs_sized [of e1 L tx scripts prefix ch] ins Cons.prems(1) outs show ?case
    by (intro Cons.IH [of s2 e2 r1]) auto
qed

context kaspa_environment
begin

lemma blocks_sync:
  "kaspa_sync B contents {} self \<Longrightarrow> kaspa_sync B contents {} (snd (kaspa_handle_blocks B D L clk i blocks self))"
proof (induction blocks arbitrary: i self)
  case Nil
  then show ?case by simp
next
  case (Cons block blocks)
  obtain r scripts where scan:
      "handle_block_added L block (kb_utxo_scripts self) (kb_prefix self) (kb_channel_id self) = (r, scripts)"
    by fastforce
  have inv: "kaspa_sync B contents {} (self\<lparr>kb_utxo_scripts := scripts\<rparr>)"
    by (rule sync_frame [OF Cons.prems]) simp_all
  show ?case
  proof (cases r)
    case (Inl e)
    with inv scan show ?thesis by simp
  next
    case (Inr out)
    then have "list_all sized_event (bo_events out) \<and> sized_refunds (bo_refunds out)"
      using scan scan_transactions_sized [of L "kb_prefix self" "kb_channel_id self" "rb_transactions block"
          "kb_utxo_scripts self" "[]" "[]" out scripts]
      by (simp add: handle_block_added_def)
    then have "kaspa_sync B contents {} (track_events B D (bo_events out)
        (track_refunds B D (clk i) (bo_refunds out) (self\<lparr>kb_utxo_scripts := scripts\<rparr>)))"
      by (intro events_sync refunds_sync inv) auto
    with Cons.IH Inr scan show ?thesis
      by (simp add: Let_def case_prod_beta)
  qed
qed

lemma poll_sync:
  assumes "kaspa_sync B contents {} self"
  shows "kaspa_sync B contents {} (snd (kaspa_poll_finalized B D L clk self))"
proof -
  have "kaspa_sync B contents {} (self\<lparr>kb_safe_blocks := []\<rparr>)"
    by (rule sync_frame [OF assms]) simp_all
  from blocks_sync [OF this, of clk 0 "kb_safe_blocks self"] show ?thesis
    by (auto simp: kaspa_poll_finalized_def prune_scripts_def split: prod.splits sum.splits intro: sync_frame)
qed

lemma built_script_size: "create_htlc_script L a b c d t e f = Inr s \<Longrightarrow> length s < 2 ^ 32"
proof -
  have "length s \<le> 10000" if "build_script L steps s0 = Inr s" "length s0 \<le> 10000" for steps s0
    using that
    by (induction steps arbitrary: s0) (auto simp: result_simps dest: builder_limit)
  from this [of _ "[]"] show "create_htlc_script L a b c d t e f = Inr s \<Longrightarrow> length s < 2 ^ 32"
    by (force simp: create_htlc_script_def)
qed

lemma announce_size:
  "submit_commitment L K net pk maturity c = (Inr a, txs) \<Longrightarrow> length (an_redeem_script a) < 2 ^ 32"
  by (auto simp: submit_commitment_def result_simps htlc_script_from_commitment_def Let_def
      dest!: built_script_size split: sum.splits prod.splits)

lemma emit_sync:
  assumes inv: "kaspa_sync B contents {} self" and e: "sized_event e" "sized_amount e"
  shows "kaspa_sync B contents {} (snd (kaspa_emit_event B D L K net now e self))"
proof (cases e)
  case (Commitment c)
  let ?self1 = "cache_commitment c self"
  have inv1: "kaspa_sync B contents {} ?self1"
    by (rule sync_frame [OF inv]) (simp_all add: cache_commitment_def)
  show ?thesis
  proof (cases "\<exists>pk a txs. kaspa_key ?self1 = Inr pk \<and>
      submit_commitment L K net pk (kb_coinbase_maturity ?self1) c = (Inr a, txs)")
    case False
    then have "snd (kaspa_emit_event B D L K net now e self) = ?self1"
      by (auto simp: kaspa_emit_event_def Commitment Let_def split: sum.splits prod.splits)
    with inv1 show ?thesis by simp
  next
    case True
    then obtain pk a txs where sub: "kaspa_key ?self1 = Inr pk"
        "submit_commitment L K net pk (kb_coinbase_maturity ?self1) c = (Inr a, txs)"
      by blast
    let ?script = "\<lparr>us_redeem_script = an_redeem_script a, us_unlock_ts = cm_unlock_ts c,
      us_deposit_target = am_value (cm_amount c)\<rparr>"
    obtain self' where emit: "snd (kaspa_emit_event B D L K net now e self) =
          kaspa_persist_swap B D (cm_swap_id c) self'"
        and self': "kb_swap_store self' = kb_swap_store self" "kb_channel_id self' = kb_channel_id self"
          "kb_scripts self' = hm_insert (cm_swap_id c) ?script (kb_scripts self)"
          "kb_pending_refunds self' = kb_pending_refunds self" "kb_pending_claims self' = kb_pending_claims self"
          "kb_queue self' = kb_queue self"
      using sub by (simp add: kaspa_emit_event_def Commitment Let_def register_internal_def cache_commitment_def)
    have "sized_script ?script"
      using announce_size [OF sub(2)] e(2) by (simp add: sized_script_def sized_amount_def Commitment)
    then have "kaspa_sync B contents ({} - {cm_swap_id c}) (kaspa_persist_swap B D (cm_swap_id c) self')"
      using e(1) sync_okD [OF inv, of "cm_swap_id c"]
      by (intro sync_update [OF inv self'(1,2)]) (auto simp: self' sized_event_def Commitment intro: kaspa_record_cong)
    then show ?thesis
      by (simp add: emit)
  qed
next
  case (Reveal r)
  show ?thesis
  proof (cases "kb_participate_ccr self \<and> kaspa_commitment (rv_swap_id r) self \<noteq> None")
    case False
    with inv show ?thesis by (auto simp: kaspa_emit_event_def Reveal)
  next
    case True
    let ?self = "self\<lparr>kb_pending_claims := push_pending_claim (kb_pending_claims self) r,
      kb_queue := rq_ensure (claim_key (rv_swap_id r)) now (kb_queue self)\<rparr>"
    have "kaspa_record ?self j = kaspa_record self j" if "j \<noteq> rv_swap_id r" for j
      using that by (intro kaspa_record_cong) (simp_all add: find_claim_push)
    then have "kaspa_sync B contents ({} - {rv_swap_id r}) (kaspa_persist_swap B D (rv_swap_id r) ?self)"
      using e(1) sync_okD [OF inv, of "rv_swap_id r"]
      by (intro sync_update [OF inv]) (auto simp: sized_event_def Reveal find_claim_push split: if_splits)
    with True show ?thesis
      by (auto simp: kaspa_emit_event_def Reveal Let_def)
  qed
next
  case (Refund r)
  with inv show ?thesis by (simp add: kaspa_emit_event_def)
qed

lemma announce_sync:
  assumes inv: "kaspa_sync B contents {} self" and len: "length script < 2 ^ 32" "length target < 2 ^ 32"
  shows "kaspa_sync B contents {} (snd (register_script B D L now address script sid unlock target self))"
proof (cases "validate_script_announce L (kb_network_id self) (kb_channel_id self) address script sid unlock")
  case (Inl e)
  with inv show ?thesis by (simp add: register_script_def)
next
  case (Inr u)
  let ?script = "\<lparr>us_redeem_script = script, us_unlock_ts = unlock, us_deposit_target = target\<rparr>"
  obtain self' where reg: "snd (register_script B D L now address script sid unlock target self) =
        kaspa_persist_swap B D sid self'"
      and self': "kb_swap_store self' = kb_swap_store self" "kb_channel_id self' = kb_channel_id self"
        "kb_scripts self' = hm_insert sid ?script (kb_scripts self)"
        "kb_pending_refunds self' = kb_pending_refunds self" "kb_pending_claims self' = kb_pending_claims self"
        "kb_queue self' = kb_queue self"
    using Inr by (simp add: register_script_def Let_def register_internal_def prune_scripts_def)
  have "length sid = 32"
    using Inr extract_commitment_sized
    by (auto simp: validate_script_announce_def result_simps Let_def split: if_splits)
  then have "kaspa_sync B contents ({} - {sid}) (kaspa_persist_swap B D sid self')"
    using len sync_okD [OF inv, of sid]
    by (intro sync_update [OF inv self'(1,2)]) (auto simp: self' sized_script_def intro: kaspa_record_cong)
  then show ?thesis
    by (simp add: reg)
qed

lemma success_sync:
  assumes inv: "kaspa_sync B contents {} self" and len: "length (ak_swap_id key) = 32"
  shows "kaspa_sync B contents {} (kaspa_record_success B D key self)"
proof -
  let ?sid = "ak_swap_id key"
  obtain self' where success: "kaspa_record_success B D key self = kaspa_persist_swap B D ?sid self'"
      and self': "kb_swap_store self' = kb_swap_store self" "kb_channel_id self' = kb_channel_id self"
        "kb_scripts self' = kb_scripts self" "kb_queue self' = rq_record_success key (kb_queue self)"
        "kb_pending_claims self' = (if ak_action key = Claim
          then filter (\<lambda>c. rv_swap_id c \<noteq> ?sid) (kb_pending_claims self) else kb_pending_claims self)"
        "kb_pending_refunds self' = (if ak_action key = Claim then kb_pending_refunds self
          else filter (\<lambda>(r, _). rf_swap_id r \<noteq> ?sid) (kb_pending_refunds self))"
    by (cases "ak_action key") (simp_all add: kaspa_record_success_def Let_def)
  have "kaspa_record self' j = kaspa_record self j" if "j \<noteq> ?sid" for j
  proof -
    have "claim_key j \<noteq> key" "refund_key j \<noteq> key"
      using that by auto
    with that show ?thesis
      by (intro kaspa_record_cong) (simp_all add: self')
  qed
  then have "kaspa_sync B contents ({} - {?sid}) (kaspa_persist_swap B D ?sid self')"
    using len sync_okD [OF inv, of ?sid]
    by (intro sync_update [OF inv self'(1,2)]) (auto simp: self' split: if_splits)
  then show ?thesis
    by (simp add: success)
qed

lemma failure_sync:
  assumes inv: "kaspa_sync B contents {} self" and len: "length (ak_swap_id key) = 32"
  shows "kaspa_sync B contents {} (kaspa_record_failure B D key now self)"
proof -
  let ?self = "self\<lparr>kb_queue := rq_record_failure key now (kaspa_jitter key) (kb_queue self)\<rparr>"
  have "kaspa_record ?self j = kaspa_record self j" if "j \<noteq> ak_swap_id key" for j
  proof -
    have "claim_key j \<noteq> key" "refund_key j \<noteq> key"
      using that by auto
    then show ?thesis
      by (intro kaspa_record_cong) simp_all
  qed
  then have "kaspa_sync B contents ({} - {ak_swap_id key}) (kaspa_persist_swap B D (ak_swap_id key) ?self)"
    using len sync_okD [OF inv, of "ak_swap_id key"] by (intro sync_update [OF inv]) auto
  then show ?thesis
    by (simp add: kaspa_record_failure_def)
qed

lemma step_sync: "kaspa_step B D L K self self' \<Longrightarrow> kaspa_sync B contents {} self \<Longrightarrow> kaspa_sync B contents {} self'"
  by (induction rule: kaspa_step.induct)
    (auto intro: poll_sync emit_sync announce_sync success_sync failure_sync sync_frame
      simp: take_utxo_script_announcements_def)

lemma steps_sync:
  "(kaspa_step B D L K)\<^sup>*\<^sup>* self self' \<Longrightarrow> kaspa_sync B contents {} self \<Longrightarrow> kaspa_sync B contents {} self'"
  by (induction rule: rtranclp_induct) (auto intro: step_sync)

end

section \<open>Reconnecting\<close>

lemma commitments_from_scripts_get:
  "hm_get (commitments_from_scripts L m prefix ch) sid =
     Option.bind (hm_get m sid) (\<lambda>s. to_option (reconstruct L s prefix ch))"
proof -
  have "hm_get (fold (\<lambda>(i, s) out. case reconstruct L s prefix ch of Inr c \<Rightarrow> hm_insert i c out | Inl _ \<Rightarrow> out) xs out) sid =
      (case map_of xs sid of None \<Rightarrow> hm_get out sid
       | Some s \<Rightarrow> (case reconstruct L s prefix ch of Inr c \<Rightarrow> Some c | Inl _ \<Rightarrow> hm_get out sid))"
    if "distinct (map fst xs)" for xs out
    using that
  proof (induction xs arbitrary: out)
    case Nil
    then show ?case by simp
  next
    case (Cons x xs)
    obtain i s where x: "x = (i, s)"
      by fastforce
    have "map_of xs i = None"
      using Cons.prems by (simp add: x map_of_eq_None_iff)
    with Cons.IH Cons.prems show ?case
      by (cases "reconstruct L s prefix ch"; cases "sid = i") (simp_all add: x split: option.split sum.split)
  qed
  from this [OF hm.iter_distinct [of m]] show ?thesis
    by (simp add: commitments_from_scripts_def map_of_hm_iter split: option.split sum.split)
qed

lemma kaspa_reconcile: "fst (reconcile (kaspa_settler B D L K) boot keys self) = self"
  by (induction keys) (simp_all add: kaspa.observe case_prod_beta)

lemma kaspa_connect_cases:
  assumes "kaspa_connect B D C L K N boot clk ch cfg pk cursor_db (Some store) = Inr (self', intake)"
  obtains r store' where "restore B D ch (Some store) = (r, Some store')"
    "kb_swap_store self' = Some store'" "kb_channel_id self' = ch" "kb_scripts self' = rs_scripts r"
    "kb_pending_refunds self' = rs_pending_refunds r" "kb_pending_claims self' = rs_pending_claims r"
    "kb_queue self' = seed_queue r (clk 0)" "kb_utxo_scripts self' = hm_empty" "kb_safe_blocks self' = []"
    "kb_commitments self' = commitments_from_scripts L (rs_scripts r) (kb_prefix self') ch"
  using assms
  by (auto simp: kaspa_connect_def result_simps reconcile_on_boot_def kaspa_reconcile restore_def Let_def
      split: prod.splits)

context kaspa_environment
begin

lemma connect_recovers:
  assumes sync: "kaspa_sync B contents {} self"
    and connect: "kaspa_connect B D C L K N boot clk (kb_channel_id self) cfg pk cursor_db (kb_swap_store self) =
      Inr (self', intake)"
  shows "kaspa_record self' sid = seeded (clk 0) (kaspa_record self sid)"
    and "kaspa_commitment sid self' = Option.bind (pw_script (kaspa_record self sid))
      (\<lambda>s. to_option (reconstruct L s (kb_prefix self') (kb_channel_id self)))"
    and "(\<And>i. seeded (clk 0) (kaspa_record self i) = kaspa_record self i) \<Longrightarrow> kaspa_sync B contents {} self'"
proof -
  obtain store where store: "kb_swap_store self = Some store"
    using sync by (auto simp: kaspa_sync_def record_sync_def)
  obtain r store' where r: "restore B D (kb_channel_id self) (Some store) = (r, Some store')"
      and self': "kb_swap_store self' = Some store'" "kb_channel_id self' = kb_channel_id self"
        "kb_scripts self' = rs_scripts r" "kb_pending_refunds self' = rs_pending_refunds r"
        "kb_pending_claims self' = rs_pending_claims r" "kb_queue self' = seed_queue r (clk 0)"
        "kb_commitments self' = commitments_from_scripts L (rs_scripts r) (kb_prefix self') (kb_channel_id self)"
    by (rule kaspa_connect_cases [OF connect [unfolded store]])
  note restored = synced.restored_records [OF sync [unfolded kaspa_sync_def] store r]
  show rec: "kaspa_record self' sid = seeded (clk 0) (kaspa_record self sid)" for sid
    using seed_queue_record [of r "clk 0" sid] restored(1) [of sid] by (simp add: kaspa_record_live self')
  have "hm_get (rs_scripts r) sid = pw_script (kaspa_record self sid)"
    using restored(1) [of sid, symmetric] by (simp add: restored_view_def)
  then show "kaspa_commitment sid self' = Option.bind (pw_script (kaspa_record self sid))
      (\<lambda>s. to_option (reconstruct L s (kb_prefix self') (kb_channel_id self)))"
    by (simp add: kaspa_commitment_def self' commitments_from_scripts_get)
  show "kaspa_sync B contents {} self'" if "\<And>i. seeded (clk 0) (kaspa_record self i) = kaspa_record self i"
    unfolding kaspa_sync_def
    using that rec
    by (intro synced.sync_restored [OF sync [unfolded kaspa_sync_def] store self'(1) restored(2) self'(2)]) auto
qed

end

text \<open>
  (C25) Crash recovery of the Kaspa channel: whatever blocks, polls, emissions, announcements and settlement
  results the channel has processed, reconnecting over its store brings back, for every swap, the script,
  the pending refund, the pending claim and the two attempt states it had in memory (a pending action
  that had no attempt yet gets a fresh one), and the commitment that the script encodes; if no
  attempt was missing, the restarted channel is again in a state from which this holds.
\<close>

theorem kaspa_crash_recovery:
  assumes "kaspa_environment D contents B L" and "kaspa_sync B contents {} start"
    and "(kaspa_step B D L K)\<^sup>*\<^sup>* start self"
    and "kaspa_connect B D C L K N boot clk (kb_channel_id self) cfg pk cursor_db (kb_swap_store self) =
      Inr (self', intake)"
  shows "kaspa_record self' sid = seeded (clk 0) (kaspa_record self sid) \<and>
    kaspa_commitment sid self' = Option.bind (pw_script (kaspa_record self sid))
      (\<lambda>s. to_option (reconstruct L s (kb_prefix self') (kb_channel_id self))) \<and>
    ((\<forall>i. seeded (clk 0) (kaspa_record self i) = kaspa_record self i) \<longrightarrow> kaspa_sync B contents {} self')"
  using kaspa_environment.connect_recovers [OF assms(1) kaspa_environment.steps_sync [OF assms(1,3,2)] assms(4)]
  by blast

section \<open>Watching after a restart\<close>

definition unwatched :: "'s kaspa \<Rightarrow> bool" where
  "unwatched self = (\<forall>a. hm_get (kb_utxo_scripts self) a = None)"

lemma scan_unwatched:
  assumes "\<And>a. hm_get scripts a = None"
  shows "scan_transactions L prefix ch txs scripts events refunds =
    (Inr \<lparr>bo_events = events, bo_refunds = refunds\<rparr>, scripts)"
proof (induction txs)
  case Nil
  then show ?case by simp
next
  case (Cons tx txs)
  have "scan_input L scripts prefix ch i st = st" for i st
    by (simp add: scan_input_def assms split: prod.split option.split)
  then have "fold (scan_input L scripts prefix ch) is st = st" for "is" st
    by (induction "is") simp_all
  moreover have "match_outputs L scripts prefix outs = []" for outs
    by (induction outs) (simp_all add: match_outputs_def assms List.map_filter_simps bind_eq_None_conv split: option.split)
  ultimately show ?case
    using Cons by (simp add: scan_outputs_def scan_inputs_def)
qed

lemma blocks_unwatched:
  "unwatched self \<Longrightarrow> kaspa_handle_blocks B D L clk i blocks self = (Inr [], self)"
  by (induction blocks arbitrary: i)
    (simp_all add: unwatched_def handle_block_added_def scan_unwatched track_refunds_def track_events_def Let_def)

text \<open>The polls of a running channel, with the blocks the intake delivers before each.\<close>

fun kaspa_polls ::
  "persisted_swap borsh_codec \<Rightarrow> 's swap_store_ops \<Rightarrow> kaspa_lib \<Rightarrow> ((nat \<Rightarrow> nat \<Rightarrow> u64) \<times> rpc_block list) list \<Rightarrow> 's kaspa
     \<Rightarrow> ((channel_id \<times> chain_event) list, data_error) result list \<times> 's kaspa" where
  "kaspa_polls B D L [] self = ([], self)"
| "kaspa_polls B D L ((clk, blocks) # polls) self =
     (case kaspa_poll_finalized B D L clk (self\<lparr>kb_safe_blocks := kb_safe_blocks self @ blocks\<rparr>) of
        (r, self1) \<Rightarrow> (case kaspa_polls B D L polls self1 of (rs, self2) \<Rightarrow> (r # rs, self2)))"

lemma polls_unwatched:
  assumes "unwatched self"
  shows "set (fst (kaspa_polls B D L polls self)) \<subseteq> {Inr []} \<and>
    kb_queue (snd (kaspa_polls B D L polls self)) = kb_queue self \<and>
    kaspa_record (snd (kaspa_polls B D L polls self)) sid = kaspa_record self sid"
  using assms
proof (induction polls arbitrary: self)
  case Nil
  then show ?case by simp
next
  case (Cons p polls)
  obtain clk blocks where p: "p = (clk, blocks)"
    by fastforce
  have "unwatched (self\<lparr>kb_safe_blocks := []\<rparr>)"
    using Cons.prems by (simp add: unwatched_def)
  then obtain self1 where poll: "kaspa_poll_finalized B D L clk
        (self\<lparr>kb_safe_blocks := kb_safe_blocks self @ blocks\<rparr>) = (Inr [], self1)"
      and self1: "kb_queue self1 = kb_queue self" "kaspa_record self1 sid = kaspa_record self sid" "unwatched self1"
    using Cons.prems
    by (simp add: kaspa_poll_finalized_def blocks_unwatched prune_scripts_def kaspa_record_def unwatched_def)
  with Cons.IH [OF self1(3)] show ?case
    by (auto simp: p split: prod.split)
qed

text \<open>
  (C29) A restarted Kaspa channel watches no deposit address: although it has restored the scripts, claims and
  refunds of its open swaps, polls report no event, whatever blocks arrive, and no claim or refund leaves
  the retry queue, even when the deposit is claimed or refunded on the chain.
\<close>

theorem restart_watches_nothing:
  assumes "kaspa_connect B D C L K N boot clk ch cfg pk cursor_db (Some store) = Inr (self, intake)"
  shows "set (fst (kaspa_polls B D L polls self)) \<subseteq> {Inr []} \<and>
    kb_queue (snd (kaspa_polls B D L polls self)) = kb_queue self \<and>
    kaspa_record (snd (kaspa_polls B D L polls self)) sid = kaspa_record self sid"
proof -
  have "unwatched self"
    using assms by (auto simp: unwatched_def elim: kaspa_connect_cases)
  then show ?thesis
    by (rule polls_unwatched)
qed

section \<open>An instance\<close>

lemma plain_builder_limit: "run_step plain_lib st s = Inr s' \<Longrightarrow> length s' \<le> 10000"
  by (cases st) (auto simp: plain_lib_def plain_add_data_def split: if_splits option.splits)

interpretation mem_kaspa: kaspa_environment "db_swap_store mem_redb" "swap_contents mem_tab" record_codec plain_lib
proof -
  have "swap_store (db_swap_store mem_redb) (swap_contents mem_tab)"
    by (rule mem.db.swap_store_axioms)
  then show "kaspa_environment (db_swap_store mem_redb) (swap_contents mem_tab) record_codec plain_lib"
    unfolding kaspa_environment_def kaspa_environment_axioms_def
    by (auto simp: record_codec_roundtrip record_codec_sized plain_builder_limit)
qed

definition sample_kaspa :: "mem_db kaspa" where
  "sample_kaspa =
     \<lparr>kb_channel_id = KaspaTn10, kb_network_id = ''testnet-10'', kb_prefix = Testnet, kb_coinbase_maturity = 1000,
      kb_script_ttl_secs = 3600, kb_participate_ccr = True, kb_private_key = None, kb_utxo_scripts = hm_empty,
      kb_safe_blocks = [], kb_commitments = hm_insert (replicate 32 1) sample_deposit hm_empty,
      kb_pending_refunds = [], kb_pending_claims = [], kb_announcements = [], kb_scripts = hm_empty,
      kb_swap_store = Some hm_empty, kb_queue = hm_empty\<rparr>"

definition sample_dial :: kaspa_dial where
  "sample_dial = \<lparr>kd_parse_network = (\<lambda>_. Inr Testnet), kd_new_client = (\<lambda>_ _. Inr ()), kd_connect = Inr ()\<rparr>"

definition sample_reveal :: chain_event where
  "sample_reveal = Reveal (reveal_new (replicate 32 1) (replicate 32 2))"

definition sample_kaspa_config :: kaspa_config where
  "sample_kaspa_config = kaspa_config_with_defaults None ''testnet-10'' None None None (Some True)"

lemma sample_kaspa_sync: "kaspa_sync record_codec (swap_contents mem_tab) {} sample_kaspa"
proof -
  have "kaspa_record sample_kaspa sid = empty_record" for sid
    by (simp add: kaspa_record_def sample_kaspa_def empty_record_def)
  then show ?thesis
    by (simp add: kaspa_sync_def record_sync_def kaspa_record_ok_def sized_record_def fixed_record_def)
      (simp add: sample_kaspa_def empty_record_def swap_contents_def mem_tab_def record_at_def)
qed

abbreviation sample_revealed :: "mem_db kaspa" where
  "sample_revealed \<equiv> snd (kaspa_emit_event record_codec (db_swap_store mem_redb) plain_lib sample_crypto sample_kaspa_net
     1000 sample_reveal sample_kaspa)"

lemma sample_revealed_claim:
  "pw_pending_claim (kaspa_record sample_revealed (replicate 32 1)) =
     Some (reveal_new (replicate 32 1) (replicate 32 2))"
  "kb_channel_id sample_revealed = KaspaTn10"
  by (simp_all add: kaspa_emit_event_def sample_reveal_def kaspa_record_live live_record_def reveal_new_def
      push_pending_claim_def sample_kaspa_def kaspa_commitment_def)

abbreviation sample_restart :: "(mem_db kaspa \<times> mem_db intake, data_error) result" where
  "sample_restart \<equiv> kaspa_connect record_codec (db_swap_store mem_redb) mem_cursors plain_lib sample_crypto sample_dial
     (\<lambda>_. (sample_kaspa_net, False)) (\<lambda>_. 1000) KaspaTn10 (Inr sample_kaspa_config) None None
     (kb_swap_store sample_revealed)"

lemma sample_restart_ok: "\<exists>self' intake. sample_restart = Inr (self', intake)"
  by (simp add: kaspa_connect_def sample_dial_def build_client_def Let_def case_prod_beta)

lemma sample_step:
  "kaspa_step record_codec (db_swap_store mem_redb) plain_lib sample_crypto sample_kaspa sample_revealed"
  by (intro kaspa_step.emit)
    (simp_all add: sized_event_def sized_amount_def sample_reveal_def reveal_new_def)

lemma sample_restart_claim:
  assumes "sample_restart = Inr (self', intake)"
  shows "rq_get (claim_key (replicate 32 1)) (kb_queue self') \<noteq> None"
proof -
  have "kaspa_record self' (replicate 32 1) = seeded 1000 (kaspa_record sample_revealed (replicate 32 1))"
    using mem_kaspa.connect_recovers(1) [OF mem_kaspa.step_sync [OF sample_step sample_kaspa_sync]
        assms [folded sample_revealed_claim(2)]] .
  then have "pw_claim_attempt (kaspa_record self' (replicate 32 1)) \<noteq> None"
    by (simp add: seeded_def seeded_attempt_def sample_revealed_claim split: option.split)
  then show ?thesis
    by (simp add: kaspa_record_def)
qed

theorem kaspa_crash_recovery_witness:
  "\<exists>self' intake. sample_restart = Inr (self', intake) \<and>
    pw_pending_claim (kaspa_record self' (replicate 32 1)) = Some (reveal_new (replicate 32 1) (replicate 32 2))"
proof -
  obtain self' intake where restart: "sample_restart = Inr (self', intake)"
    using sample_restart_ok by blast
  have "kaspa_record self' (replicate 32 1) = seeded 1000 (kaspa_record sample_revealed (replicate 32 1))"
    using kaspa_crash_recovery [OF mem_kaspa.kaspa_environment_axioms sample_kaspa_sync
        r_into_rtranclp [of "kaspa_step record_codec (db_swap_store mem_redb) plain_lib sample_crypto", OF sample_step]
        restart [folded sample_revealed_claim(2)], of "replicate 32 1"]
    by simp
  with restart show ?thesis
    by (auto simp: sample_revealed_claim)
qed

theorem restart_watches_nothing_witness:
  "\<exists>self intake. sample_restart = Inr (self, intake) \<and>
    rq_get (claim_key (replicate 32 1)) (kb_queue (snd (kaspa_polls record_codec (db_swap_store mem_redb) plain_lib
      [(\<lambda>_ _. 2000, [\<lparr>rb_daa_score = 5, rb_transactions = []\<rparr>])] self))) \<noteq> None"
proof -
  obtain self' intake where restart: "sample_restart = Inr (self', intake)"
    using sample_restart_ok by blast
  obtain store where store: "kb_swap_store sample_revealed = Some store"
    using mem_kaspa.step_sync [OF sample_step sample_kaspa_sync] by (auto simp: kaspa_sync_def record_sync_def)
  have "kb_queue (snd (kaspa_polls record_codec (db_swap_store mem_redb) plain_lib polls self')) = kb_queue self'" for polls
    using restart_watches_nothing [OF restart [unfolded store], of polls] by blast
  with restart sample_restart_claim [OF restart] show ?thesis
    by metis
qed

end
