(* ===== verification/Kaspa_Settlement.thy ===== *)
theory Kaspa_Settlement
  imports Kaspa_Chain
begin

text \<open>
  Properties of the Kaspa channel, operation by operation: what a block contributes, when blocks are
  released, that the node recognises the claims and refunds it submits, what the submitted
  transactions look like, and the settler contract.
\<close>

section \<open>Confirmed blocks\<close>

lemma send_all_spec:
  "send_all alive bs sent = (sent', ok) \<Longrightarrow>
   \<exists>k \<le> length bs. sent' = sent @ take k bs \<and> (ok \<longleftrightarrow> k = length bs) \<and>
     (\<forall>i < k. alive (length sent + i)) \<and> (k < length bs \<longrightarrow> \<not> alive (length sent + k))"
proof (induction alive bs sent rule: send_all.induct)
  case (1 alive sent)
  then show ?case by simp
next
  case (2 alive b bs sent)
  show ?case
  proof (cases "alive (length sent)")
    case True
    with 2 obtain k where k: "k \<le> length bs" "sent' = (sent @ [b]) @ take k bs" "ok \<longleftrightarrow> k = length bs"
        "\<forall>i < k. alive (length (sent @ [b]) + i)" "k < length bs \<longrightarrow> \<not> alive (length (sent @ [b]) + k)"
      by auto
    have "alive (length sent + i)" if "i < Suc k" for i
      using True k(4) that by (cases i) auto
    with k show ?thesis
      by (intro exI [of _ "Suc k"]) auto
  next
    case False
    with 2 show ?thesis
      by (intro exI [of _ 0]) auto
  qed
qed

definition confirmed_block :: "block_hash set \<Rightarrow> u64 \<Rightarrow> u64 \<Rightarrow> block_hash \<times> rpc_block \<Rightarrow> bool" where
  "confirmed_block removed virtual_daa threshold hb =
     (fst hb \<notin> removed \<and> unat threshold \<le> unat virtual_daa - unat (rb_daa_score (snd hb)))"

lemma unconfirmed_iff:
  "unconfirmed removed hash (rb_daa_score block) v t \<longleftrightarrow> \<not> confirmed_block removed v t (hash, block)"
  by (auto simp: unconfirmed_def confirmed_block_def word_less_nat_alt unat_saturating_sub)

text \<open>
  The reference: the confirmed blocks before the first unconfirmed one, cut after the last chain block.
\<close>

definition chain_cut :: "block_hash set \<Rightarrow> (block_hash \<times> rpc_block) list \<Rightarrow> (block_hash \<times> rpc_block) list" where
  "chain_cut chain_blocks bs = rev (dropWhile (\<lambda>hb. fst hb \<notin> chain_blocks) (rev bs))"

definition released ::
  "block_hash set \<Rightarrow> block_hash set \<Rightarrow> u64 \<Rightarrow> u64 \<Rightarrow> (block_hash \<times> rpc_block) list \<Rightarrow> (block_hash \<times> rpc_block) list" where
  "released removed chain_blocks virtual_daa threshold pending =
     chain_cut chain_blocks (takeWhile (confirmed_block removed virtual_daa threshold) pending)"

lemma chain_cut_Nil [simp]: "chain_cut C [] = []"
  by (simp add: chain_cut_def)

lemma chain_cut_Cons:
  "chain_cut C (hb # bs) =
     (if fst hb \<in> C then hb # chain_cut C bs
      else if chain_cut C bs = [] then [] else hb # chain_cut C bs)"
  by (auto simp: chain_cut_def dropWhile_append dropWhile_eq_Nil_conv)

lemma chain_cut_prefix: "\<exists>n. chain_cut C bs = take n bs"
proof (induction bs)
  case Nil
  then show ?case by simp
next
  case (Cons b bs)
  then obtain n where "chain_cut C bs = take n bs"
    by auto
  then show ?case
    by (auto simp: chain_cut_Cons intro: exI [of _ "Suc n"] exI [of _ 0])
qed

lemma chain_cut_last: "chain_cut C bs \<noteq> [] \<Longrightarrow> fst (last (chain_cut C bs)) \<in> C"
  by (induction bs) (auto simp: chain_cut_Cons split: if_splits)

lemma flush_loop_alive:
  assumes "\<And>i. alive i"
  shows "flush_loop alive removed C v t pending buffer cur sent =
    (let rel = released removed C v t pending in
     if rel = [] then (cur, sent) else (Some (fst (last rel)), sent @ buffer @ map snd rel))"
proof (induction pending arbitrary: buffer cur sent)
  case Nil
  then show ?case by (simp add: released_def)
next
  case (Cons hb pending)
  obtain hash block where hb: "hb = (hash, block)"
    by (cases hb)
  have all: "send_all alive bs s = (s @ bs, True)" for bs s
    by (induction bs arbitrary: s) (simp_all add: assms)
  show ?case
  proof (cases "confirmed_block removed v t (hash, block)")
    case False
    then show ?thesis
      by (simp add: hb unconfirmed_iff released_def)
  next
    case True
    then have rel: "released removed C v t (hb # pending) =
        (if hash \<in> C then hb # released removed C v t pending
         else if released removed C v t pending = [] then [] else hb # released removed C v t pending)"
      by (simp add: released_def chain_cut_Cons hb)
    show ?thesis
    proof (cases "hash \<in> C")
      case True
      then show ?thesis
        using \<open>confirmed_block removed v t (hash, block)\<close>
        by (simp add: hb [symmetric] rel, simp add: hb unconfirmed_iff all Cons Let_def)
    next
      case False
      then show ?thesis
        using \<open>confirmed_block removed v t (hash, block)\<close>
        by (simp add: hb [symmetric] rel, simp add: hb unconfirmed_iff Cons Let_def)
    qed
  qed
qed

text \<open>With a receiver that may close, the sent blocks are still a prefix of the reference.\<close>

lemma released_Cons:
  "released removed C v t ((hash, block) # pending) =
     (if \<not> confirmed_block removed v t (hash, block) then []
      else if hash \<in> C \<or> released removed C v t pending \<noteq> []
      then (hash, block) # released removed C v t pending else [])"
  by (auto simp: released_def chain_cut_Cons)

lemma flush_loop_prefix:
  assumes "flush_loop alive removed C v t pending buffer cur sent = (cur', sent')"
  shows "\<exists>k. sent' = sent @ take k (if released removed C v t pending = [] then []
      else buffer @ map snd (released removed C v t pending))"
    and "cur' \<noteq> cur \<Longrightarrow> \<exists>n < length pending. cur' = Some (fst (pending ! n)) \<and>
      (\<exists>k. sent @ buffer @ map snd (take (Suc n) pending) = take k sent')"
proof -
  have "(\<exists>k. sent' = sent @ take k (if released removed C v t pending = [] then []
      else buffer @ map snd (released removed C v t pending))) \<and>
    (cur' \<noteq> cur \<longrightarrow> (\<exists>n < length pending. cur' = Some (fst (pending ! n)) \<and>
      (\<exists>k. sent @ buffer @ map snd (take (Suc n) pending) = take k sent')))"
    using assms
  proof (induction pending arbitrary: buffer cur sent)
    case Nil
    then show ?case by simp
  next
    case (Cons hb pending)
    obtain hash block where hb: "hb = (hash, block)"
      by (cases hb)
    let ?rel = "released removed C v t pending"
    consider (stop) "\<not> confirmed_block removed v t (hash, block)"
      | (chain) "confirmed_block removed v t (hash, block)" "hash \<in> C"
      | (other) "confirmed_block removed v t (hash, block)" "hash \<notin> C"
      by blast
    then show ?case
    proof cases
      case stop
      with Cons.prems show ?thesis
        by (simp add: hb unconfirmed_iff)
    next
      case other
      then have "flush_loop alive removed C v t pending (buffer @ [block]) cur sent = (cur', sent')"
        using Cons.prems by (simp add: hb unconfirmed_iff)
      from Cons.IH [OF this] other show ?thesis
        by (auto simp: hb released_Cons)
    next
      case chain
      obtain s1 ok where send: "send_all alive (buffer @ [block]) sent = (s1, ok)"
        by fastforce
      obtain k where k: "s1 = sent @ take k (buffer @ [block])" "ok \<longleftrightarrow> k = length (buffer @ [block])"
        using send_all_spec [OF send] by auto
      show ?thesis
      proof (cases ok)
        case False
        then have "cur' = cur" "sent' = s1"
          using Cons.prems chain send by (simp_all add: hb unconfirmed_iff)
        moreover have "s1 = sent @ take (min k (Suc (length buffer))) (buffer @ map snd ((hash, block) # ?rel))"
          using k(1) by (simp add: min_def take_Cons')
        ultimately show ?thesis
          using chain by (auto simp: hb released_Cons)
      next
        case True
        then have s1: "s1 = sent @ buffer @ [block]"
          using k by simp
        have "flush_loop alive removed C v t pending [] (Some hash) s1 = (cur', sent')"
          using Cons.prems chain send True by (simp add: hb unconfirmed_iff)
        note IH = Cons.IH [OF this]
        then obtain k2 where k2: "sent' = s1 @ take k2 (map snd ?rel)"
          by (cases "?rel = []") auto
        have cur: "\<exists>n < length pending. cur' = Some (fst (pending ! n)) \<and>
            (\<exists>k. s1 @ map snd (take (Suc n) pending) = take k sent')" if "cur' \<noteq> Some hash"
          using IH that by (simp only: append_Nil simp_thms)
        have "sent' = sent @ take (Suc (length buffer) + k2) (buffer @ map snd ((hash, block) # ?rel))"
          by (simp add: k2 s1)
        moreover have "\<exists>n < length (hb # pending). cur' = Some (fst ((hb # pending) ! n)) \<and>
            (\<exists>k. sent @ buffer @ map snd (take (Suc n) (hb # pending)) = take k sent')"
        proof (cases "cur' = Some hash")
          case True
          then show ?thesis
            by (intro exI [of _ 0]) (auto simp: hb k2 s1 intro: exI [of _ "length s1"])
        next
          case False
          then obtain n k3 where "n < length pending" "cur' = Some (fst (pending ! n))"
              "s1 @ map snd (take (Suc n) pending) = take k3 sent'"
            using cur by auto
          then show ?thesis
            by (intro exI [of _ "Suc n"]) (auto simp: hb s1)
        qed
        moreover have "released removed C v t (hb # pending) = (hash, block) # ?rel"
          using chain by (simp add: hb released_Cons)
        ultimately show ?thesis
          by (simp only: list.distinct if_False) blast
      qed
    qed
  qed
  then show "\<exists>k. sent' = sent @ take k (if released removed C v t pending = [] then []
      else buffer @ map snd (released removed C v t pending))"
    and "cur' \<noteq> cur \<Longrightarrow> \<exists>n < length pending. cur' = Some (fst (pending ! n)) \<and>
      (\<exists>k. sent @ buffer @ map snd (take (Suc n) pending) = take k sent')"
    by auto
qed

text \<open>
  (C26) Release of confirmed blocks: a flush sends, in order, pending blocks from the front, none after the
  first block that was reorganised away or is not deep enough, and none after the last chain block
  before it; if the receiver stays open it sends exactly those and moves the cursor to the last of them.
  Whenever the cursor moves, everything up to the block it names has been sent.
\<close>

theorem flush_releases_confirmed:
  "let rel = released removed chain_blocks (in_max_seen_daa self) (in_minimum_block_confirmations self)
         (in_pending_blocks self);
       (self', sent) = flush_confirmed_blocks C alive removed chain_blocks self
   in (\<exists>k. sent = take k (map snd rel)) \<and>
      ((\<forall>i. alive i) \<longrightarrow> sent = map snd rel \<and>
         in_cursor self' = (if rel = [] then in_cursor self else Some (fst (last rel)))) \<and>
      (in_cursor self' \<noteq> in_cursor self \<longrightarrow>
         (\<exists>n < length (in_pending_blocks self). in_cursor self' = Some (fst (in_pending_blocks self ! n)) \<and>
            (\<exists>k. map snd (take (Suc n) (in_pending_blocks self)) = take k sent))) \<and>
      in_pending_blocks self' = []"
proof -
  let ?rel = "released removed chain_blocks (in_max_seen_daa self) (in_minimum_block_confirmations self)
         (in_pending_blocks self)"
  let ?loop = "flush_loop alive removed chain_blocks (in_max_seen_daa self) (in_minimum_block_confirmations self)
         (in_pending_blocks self) [] None []"
  obtain cur sent where loop: "?loop = (cur, sent)"
    by fastforce
  have flush: "flush_confirmed_blocks C alive removed chain_blocks self =
      (case cur of None \<Rightarrow> self\<lparr>in_pending_blocks := []\<rparr>
       | Some hash \<Rightarrow> in_set_cursor C hash (self\<lparr>in_pending_blocks := []\<rparr>), sent)"
    by (simp add: flush_confirmed_blocks_def loop split: option.split)
  have "\<exists>k. sent = take k (map snd ?rel)"
    using flush_loop_prefix(1) [OF loop] by (auto split: if_splits)
  moreover have "(cur, sent) = (if ?rel = [] then (None, []) else (Some (fst (last ?rel)), map snd ?rel))"
    if "\<forall>i. alive i"
    using flush_loop_alive [of alive removed chain_blocks "in_max_seen_daa self"
        "in_minimum_block_confirmations self" "in_pending_blocks self" "[]" None "[]"] that loop
    by (simp add: Let_def)
  moreover have "\<exists>n < length (in_pending_blocks self). cur = Some (fst (in_pending_blocks self ! n)) \<and>
      (\<exists>k. map snd (take (Suc n) (in_pending_blocks self)) = take k sent)" if "cur \<noteq> None"
    using flush_loop_prefix(2) [OF loop that] by simp
  ultimately show ?thesis
    unfolding flush Let_def
    by (cases cur) (auto simp: in_set_cursor_def split: if_splits)
qed

section \<open>An instance of the intake\<close>

definition sample_block :: "u64 \<Rightarrow> rpc_block" where
  "sample_block daa = \<lparr>rb_daa_score = daa, rb_transactions = []\<rparr>"

definition sample_intake :: "nat intake" where
  "sample_intake = (intake_new 10 KaspaTn10 (Some [0]) (Some 0))\<lparr>in_max_seen_daa := 100,
     in_pending_blocks := [([1], sample_block 80), ([2], sample_block 85), ([3], sample_block 86),
       ([4], sample_block 95)]\<rparr>"

definition sample_cursor_ops :: "nat cursor_store_ops" where
  "sample_cursor_ops = \<lparr>cs_load = (\<lambda>_ _. None), cs_save = (\<lambda>_ _ n. Suc n)\<rparr>"

theorem flush_releases_confirmed_witness:
  "let (self', sent) = flush_confirmed_blocks sample_cursor_ops (\<lambda>_. True) {} {[2], [4]} sample_intake
   in sent = [sample_block 80, sample_block 85] \<and> in_cursor self' = Some [2]"
proof -
  have "released {} {[2], [4]} (in_max_seen_daa sample_intake) (in_minimum_block_confirmations sample_intake)
      (in_pending_blocks sample_intake) = [([1], sample_block 80), ([2], sample_block 85)]"
    by (simp add: sample_intake_def intake_new_def released_def chain_cut_def confirmed_block_def sample_block_def)
  then show ?thesis
    using flush_releases_confirmed [of "{}" "{[2], [4]}" sample_intake sample_cursor_ops "\<lambda>_. True"]
    by (simp add: Let_def case_prod_beta)
qed

section \<open>Recognising spends\<close>

lemma extract_commitment_length:
  "extract_commitment L ops amount prefix ch = Inr c \<Longrightarrow> length ops = 48"
  by (simp add: extract_commitment_def result_simps collect_data_def EXPECTED_OPCODES_def split: if_splits)

text \<open>A deposit script of a commitment, registered under its address.\<close>

definition registered_deposit ::
  "kaspa_lib \<Rightarrow> kaspa_prefix \<Rightarrow> utxo_scripts \<Rightarrow> commitment_v1 \<Rightarrow> bytes \<Rightarrow> string \<Rightarrow> bool" where
  "registered_deposit L prefix scripts c script addr =
     (deposit_ok L prefix c \<and> (\<exists>rest. htlc_script_from_commitment L c = Inr (script, rest)) \<and>
      derive_p2sh_addr L script prefix = Some addr \<and>
      (case hm_get scripts addr of Some us \<Rightarrow> us_redeem_script us = script | None \<Rightarrow> False))"

definition unregistered_input :: "kaspa_lib \<Rightarrow> kaspa_prefix \<Rightarrow> utxo_scripts \<Rightarrow> rpc_input \<Rightarrow> bool" where
  "unregistered_input L prefix scripts input =
     (case Option.bind (last_redeem L (ri_signature_script input)) (\<lambda>r. derive_p2sh_addr L r prefix) of
        None \<Rightarrow> True | Some a \<Rightarrow> hm_get scripts a = None)"

context txscript
begin

lemma registered_reads_back:
  assumes "registered_deposit L prefix scripts c script addr"
  shows "\<exists>ops us. parse_script L script = Inr ops \<and> 2 \<le> length script \<and>
    hm_get scripts addr = Some us \<and> us_redeem_script us = script \<and>
    (\<forall>amount ch. extract_commitment L ops amount prefix ch = Inr (read_back c amount ch))"
proof -
  have "deposit_ok L prefix c"
    using assms by (simp add: registered_deposit_def)
  note created = created_script_reads_back [OF this]
  obtain rest where "htlc_script_from_commitment L c = Inr (script, rest)"
    using assms by (auto simp: registered_deposit_def)
  then obtain sa ra where "kl_address_try_from L (ad_sender (cm_addresses c)) = Inr sa"
      "kl_address_try_from L (ad_receiver (cm_addresses c)) = Inr ra"
      "create_htlc_script L (spk_to_vec (kl_pay_to_address_script L sa))
        (bytes_of_chars (ad_sender_destination (cm_addresses c))) (spk_to_vec (kl_pay_to_address_script L ra))
        (cm_secret_hash c) (saturating_mul (cm_unlock_ts c) 1000) (cm_destination c) (cm_swap_id c) = Inr script"
    by (auto simp: htlc_script_from_commitment_def result_simps Let_def)
  from created [OF this] obtain ops where ops: "parse_script L script = Inr ops"
      "\<forall>amount ch. extract_commitment L ops amount prefix ch = Inr (read_back c amount ch)"
    by auto
  have "length ops = 48"
    using extract_commitment_length ops(2) by blast
  with parse_script_length [OF ops(1)] have "2 \<le> length script"
    by simp
  with ops assms show ?thesis
    by (auto simp: registered_deposit_def split: option.splits)
qed

lemma scan_registered:
  assumes "registered_deposit L prefix scripts c script addr"
    and "parse_script L sig = Inr ops" "ops \<noteq> []" "op_data (last ops) = script"
    and "extract_reveal_secret L ops = Inr secret \<and> event = Reveal (reveal_new (cm_swap_id c) secret) \<or>
      \<not> is_ok (extract_reveal_secret L ops) \<and> validate_refund_sig L ops = Inr () \<and>
      event = Refund (refund_new (cm_swap_id c))"
  shows "scan_input L scripts prefix ch \<lparr>ri_signature_script = sig\<rparr> ([], hm_empty, events) =
    ([addr], hm_insert (cm_swap_id c) True hm_empty, events @ [event])"
proof -
  obtain rops us where us: "parse_script L script = Inr rops" "2 \<le> length script"
      "hm_get scripts addr = Some us" "us_redeem_script us = script"
      "\<And>amount ch. extract_commitment L rops amount prefix ch = Inr (read_back c amount ch)"
    using registered_reads_back [OF assms(1)] by auto
  have script: "script \<noteq> []" "derive_p2sh_addr L script prefix = Some addr"
    using us(2) assms(1) by (auto simp: registered_deposit_def)
  have "classify_spend L sig us prefix ch = Inr (Some event, True)"
    using assms(2,5) us by (auto simp: classify_spend_def Let_def read_back_def is_ok_def split: sum.splits)
  moreover have "resolved_swap_id event = Some (cm_swap_id c)"
    using assms(5) by (auto simp: reveal_new_def refund_new_def)
  ultimately show ?thesis
    using assms(2-4) us(3) script by (simp add: scan_input_def last_redeem_def Let_def)
qed

end

lemma scan_unregistered:
  "unregistered_input L prefix scripts input \<Longrightarrow> scan_input L scripts prefix ch input st = st"
  by (cases st) (auto simp: scan_input_def unregistered_input_def split: option.splits)

text \<open>
  (C23) Spends are recognised: a transaction whose first input carries the signature script with which the node
  claims (or refunds) a deposit is read, by every node that has the deposit script registered, as
  the reveal of exactly that secret (or the refund) of that swap, and the address stops being
  watched.
\<close>

theorem own_spends_detected:
  assumes "txscript L" and "registered_deposit L prefix scripts c script addr"
    and "reveal_sig_script L secret script = Inr claim_sig" and "length secret = 32"
    and "refund_sig_script L script = Inr refund_sig"
    and "unregistered_input L prefix scripts fee_input"
  shows "scan_inputs L \<lparr>rt_inputs = [\<lparr>ri_signature_script = claim_sig\<rparr>, fee_input], rt_outputs = outs\<rparr>
      scripts prefix ch events =
      (hm_remove addr scripts, events @ [Reveal (reveal_new (cm_swap_id c) secret)]) \<and>
    scan_inputs L \<lparr>rt_inputs = [\<lparr>ri_signature_script = refund_sig\<rparr>, fee_input], rt_outputs = outs\<rparr>
      scripts prefix ch events =
      (hm_remove addr scripts, events @ [Refund (refund_new (cm_swap_id c))])"
proof -
  have len: "2 \<le> length script"
    using txscript.registered_reads_back [OF assms(1,2)] by auto
  obtain ops where ops: "parse_script L claim_sig = Inr ops" "extract_reveal_secret L ops = Inr secret"
      "ops \<noteq> []" "op_data (last ops) = script"
    using txscript.reveal_sig_reads_back [OF assms(1,3,4) len] by auto
  obtain rops where rops: "parse_script L refund_sig = Inr rops" "validate_refund_sig L rops = Inr ()"
      "\<not> is_ok (extract_reveal_secret L rops)" "rops \<noteq> []" "op_data (last rops) = script"
    using txscript.refund_sig_reads_back [OF assms(1,5) len] by auto
  have "scan_inputs L \<lparr>rt_inputs = [\<lparr>ri_signature_script = claim_sig\<rparr>, fee_input], rt_outputs = outs\<rparr>
      scripts prefix ch events =
      (hm_remove addr scripts, events @ [Reveal (reveal_new (cm_swap_id c) secret)])"
    using txscript.scan_registered [OF assms(1,2) ops(1,3,4), of secret
        "Reveal (reveal_new (cm_swap_id c) secret)"] ops(2) scan_unregistered [OF assms(6)]
    by (simp add: scan_inputs_def)
  moreover have "scan_inputs L \<lparr>rt_inputs = [\<lparr>ri_signature_script = refund_sig\<rparr>, fee_input], rt_outputs = outs\<rparr>
      scripts prefix ch events =
      (hm_remove addr scripts, events @ [Refund (refund_new (cm_swap_id c))])"
    using txscript.scan_registered [OF assms(1,2) rops(1,4,5), of secret
        "Refund (refund_new (cm_swap_id c))"] rops(2,3) scan_unregistered [OF assms(6)]
    by (simp add: scan_inputs_def)
  ultimately show ?thesis ..
qed

definition sample_scripts :: utxo_scripts where
  "sample_scripts = hm_insert (plain_p2sh (plain_script sample_steps))
     \<lparr>us_redeem_script = plain_script sample_steps, us_unlock_ts = 1760000000, us_deposit_target = ''250000000''\<rparr>
     hm_empty"

lemma sample_registered:
  "registered_deposit plain_lib Testnet sample_scripts sample_deposit (plain_script sample_steps)
     (plain_p2sh (plain_script sample_steps))"
  using sample_htlc_script sample_deposit_ok
  by (simp add: registered_deposit_def sample_scripts_def derive_p2sh_addr_def plain_p2sh_address plain_p2sh_def)

definition claim_steps :: "build_step list" where
  "claim_steps = [AddData (replicate 32 4), AddOp 0x51, AddData (plain_script sample_steps)]"

definition refund_steps :: "build_step list" where
  "refund_steps = [AddOp 0, AddData (plain_script sample_steps)]"

lemma sample_sigs:
  "reveal_sig_script plain_lib (replicate 32 4) (plain_script sample_steps) = Inr (plain_script claim_steps)"
  "refund_sig_script plain_lib (plain_script sample_steps) = Inr (plain_script refund_steps)"
proof -
  have codes: "kl_True plain_lib = 0x51" "kl_False plain_lib = 0" "{0x51, 0} \<subseteq> single_codes plain_lib"
    by (auto simp: plain_lib_def single_codes_def)
  have "length (plain_script sample_steps) \<le> 300"
    using plain_script_length [OF sample_steps_ok(1)] sample_steps_ok(2) by simp
  then have "list_all plain_step_ok claim_steps" "sum_list (map step_size claim_steps) \<le> 400"
      "list_all plain_step_ok refund_steps" "sum_list (map step_size refund_steps) \<le> 400"
    using codes by (simp_all add: claim_steps_def refund_steps_def)
  then have "build_script plain_lib claim_steps [] = Inr (plain_script claim_steps)"
      "build_script plain_lib refund_steps [] = Inr (plain_script refund_steps)"
    using plain_script [of claim_steps "[]"] plain_script [of refund_steps "[]"] by simp_all
  then show "reveal_sig_script plain_lib (replicate 32 4) (plain_script sample_steps) = Inr (plain_script claim_steps)"
    and "refund_sig_script plain_lib (plain_script sample_steps) = Inr (plain_script refund_steps)"
    by (simp_all only: reveal_sig_script_def refund_sig_script_def codes claim_steps_def refund_steps_def map_err.simps)
qed

theorem own_spends_detected_witness:
  "snd (scan_inputs plain_lib \<lparr>rt_inputs = [\<lparr>ri_signature_script = plain_script claim_steps\<rparr>,
      \<lparr>ri_signature_script = []\<rparr>], rt_outputs = []\<rparr> sample_scripts Testnet KaspaTn10 []) =
    [Reveal (reveal_new (replicate 32 3) (replicate 32 4))]"
proof -
  have "unregistered_input plain_lib Testnet sample_scripts \<lparr>ri_signature_script = []\<rparr>"
    by (simp add: unregistered_input_def last_redeem_def)
  moreover have "cm_swap_id sample_deposit = replicate 32 3"
    by (simp add: sample_deposit_def commitment_new_def)
  ultimately show ?thesis
    using own_spends_detected [OF plain.txscript_axioms sample_registered sample_sigs(1) _ sample_sigs(2),
        of "\<lparr>ri_signature_script = []\<rparr>" "[]" KaspaTn10 "[]"]
    by simp
qed

section \<open>Deposits in a block\<close>

definition funded_by ::
  "kaspa_lib \<Rightarrow> kaspa_prefix \<Rightarrow> channel_id \<Rightarrow> u64 \<Rightarrow> utxo_script \<Rightarrow> commitment_v1 \<Rightarrow> bool" where
  "funded_by L prefix ch val us c =
     (case (to_option (parse_script L (us_redeem_script us)), deposit_target_valid (us_deposit_target us)) of
        (Some ops, Some target) \<Rightarrow>
          extract_commitment L ops (us_deposit_target us) prefix ch = Inr c \<and> target \<le> val
      | _ \<Rightarrow> False)"

definition funded_deposit ::
  "kaspa_lib \<Rightarrow> utxo_scripts \<Rightarrow> kaspa_prefix \<Rightarrow> channel_id \<Rightarrow> rpc_transaction \<Rightarrow> commitment_v1 \<Rightarrow> bool" where
  "funded_deposit L scripts prefix ch tx c =
     (\<exists>output \<in> set (rt_outputs tx). \<exists>addr us.
        kl_extract_address L (ro_script_public_key output) prefix = Inr addr \<and>
        hm_get scripts (kl_address_to_string L addr) = Some us \<and> funded_by L prefix ch (ro_value output) us c)"

definition scripts_parse :: "kaspa_lib \<Rightarrow> utxo_scripts \<Rightarrow> bool" where
  "scripts_parse L scripts =
     (\<forall>addr us. hm_get scripts addr = Some us \<longrightarrow> is_ok (parse_script L (us_redeem_script us)))"

definition sub_scripts :: "utxo_scripts \<Rightarrow> utxo_scripts \<Rightarrow> bool" where
  "sub_scripts small big = (\<forall>a us. hm_get small a = Some us \<longrightarrow> hm_get big a = Some us)"

lemma sub_scripts_removes: "sub_scripts (fold hm_remove addrs scripts) scripts"
  by (induction addrs rule: rev_induct) (auto simp: sub_scripts_def)

lemma sub_scripts_trans: "sub_scripts a b \<Longrightarrow> sub_scripts b c \<Longrightarrow> sub_scripts a c"
  by (auto simp: sub_scripts_def)

lemma match_outputs_set:
  "(val, us) \<in> set (match_outputs L scripts prefix outputs) \<longleftrightarrow>
     (\<exists>output \<in> set outputs. val = ro_value output \<and>
        (\<exists>addr. kl_extract_address L (ro_script_public_key output) prefix = Inr addr \<and>
           hm_get scripts (kl_address_to_string L addr) = Some us))"
  by (auto simp: match_outputs_def List.map_filter_def bind_eq_Some_conv result_simps image_iff)

lemma scan_matched_spec:
  assumes "scan_matched L prefix ch matched events refunds = Inr (events', refunds')"
  shows "\<exists>new old. events' = events @ map Commitment new \<and> refunds' = refunds @ old \<and>
    (\<forall>c \<in> set new. (cm_swap_id c, cm_unlock_ts c) \<in> set old \<and>
       (\<exists>(val, us) \<in> set matched. funded_by L prefix ch val us c))"
  using assms
proof (induction matched arbitrary: events refunds)
  case Nil
  then show ?case by (auto intro: exI [of _ "[]"])
next
  case (Cons m matched)
  obtain val us where m: "m = (val, us)"
    by (cases m)
  obtain ops where ops: "parse_script L (us_redeem_script us) = Inr ops"
    using Cons.prems m by (auto simp: result_simps)
  show ?case
  proof (cases "\<exists>c target. extract_commitment L ops (us_deposit_target us) prefix ch = Inr c \<and>
      deposit_target_valid (us_deposit_target us) = Some target")
    case False
    then have "scan_matched L prefix ch matched events refunds = Inr (events', refunds')"
      using Cons.prems m ops by (auto split: sum.splits option.splits)
    with Cons.IH obtain new old where "events' = events @ map Commitment new" "refunds' = refunds @ old"
        "\<forall>c \<in> set new. (cm_swap_id c, cm_unlock_ts c) \<in> set old \<and>
           (\<exists>(val, us) \<in> set matched. funded_by L prefix ch val us c)"
      by blast
    then show ?thesis
      by (intro exI [of _ new] exI [of _ old]) auto
  next
    case True
    then obtain c target where c: "extract_commitment L ops (us_deposit_target us) prefix ch = Inr c"
        "deposit_target_valid (us_deposit_target us) = Some target"
      by auto
    let ?new = "if target \<le> val then [c] else []"
    have "scan_matched L prefix ch matched (events @ map Commitment ?new)
        (refunds @ [(cm_swap_id c, cm_unlock_ts c)]) = Inr (events', refunds')"
      using Cons.prems m ops c by auto
    with Cons.IH obtain new old where IH: "events' = (events @ map Commitment ?new) @ map Commitment new"
        "refunds' = (refunds @ [(cm_swap_id c, cm_unlock_ts c)]) @ old"
        "\<forall>c \<in> set new. (cm_swap_id c, cm_unlock_ts c) \<in> set old \<and>
           (\<exists>(val, us) \<in> set matched. funded_by L prefix ch val us c)"
      by blast
    have "funded_by L prefix ch val us c" if "target \<le> val"
      using that c ops by (simp add: funded_by_def)
    with IH show ?thesis
      by (intro exI [of _ "?new @ new"] exI [of _ "(cm_swap_id c, cm_unlock_ts c) # old"])
        (auto simp: m split: if_splits)
  qed
qed

lemma scan_matched_ok:
  "\<forall>(val, us) \<in> set matched. is_ok (parse_script L (us_redeem_script us)) \<Longrightarrow>
   is_ok (scan_matched L prefix ch matched events refunds)"
  by (induction matched arbitrary: events refunds)
    (auto simp: is_ok_iff map_err_eq_Inr split: sum.splits option.splits)

lemma scan_inputs_events:
  assumes "scan_inputs L tx scripts prefix ch events = (scripts', events')"
  shows "sub_scripts scripts' scripts \<and> (\<exists>spent. events' = events @ spent \<and> (\<forall>e \<in> set spent. is_resolving e))"
proof -
  have resolving: "is_resolving e" if spend: "classify_spend L sig us prefix ch = Inr (Some e, b)" for sig us e b
  proof -
    obtain ops where ops: "parse_script L sig = Inr ops"
      using spend by (auto simp: classify_spend_def result_simps)
    with spend show ?thesis
      by (cases "extract_reveal_secret L ops")
        (auto simp: classify_spend_def result_simps Let_def split: option.splits if_splits)
  qed
  have step: "\<exists>spent. snd (snd (scan_input L scripts prefix ch input st)) = snd (snd st) @ spent \<and>
      (\<forall>e \<in> set spent. is_resolving e)" for input st
    by (cases st)
      (auto simp: scan_input_def Let_def dest: resolving split: option.splits sum.splits)
  have "\<exists>spent. snd (snd (fold (scan_input L scripts prefix ch) inputs st)) = snd (snd st) @ spent \<and>
      (\<forall>e \<in> set spent. is_resolving e)" for inputs st
  proof (induction inputs rule: rev_induct)
    case Nil
    then show ?case by simp
  next
    case (snoc input inputs)
    then show ?case
      using step [of input "fold (scan_input L scripts prefix ch) inputs st"] by fastforce
  qed
  from this [of "rt_inputs tx" "([], hm_empty, events)"] show ?thesis
    using assms sub_scripts_removes by (auto simp: scan_inputs_def split: prod.splits)
qed

lemma scan_transactions_spec:
  assumes "scan_transactions L prefix ch txs scripts events refunds = (Inr out, scripts')"
    and "sub_scripts scripts all"
  shows "\<exists>new old. bo_events out = events @ new \<and> bo_refunds out = refunds @ old \<and>
    (\<forall>c. Commitment c \<in> set new \<longrightarrow> (cm_swap_id c, cm_unlock_ts c) \<in> set old \<and>
       (\<exists>tx \<in> set txs. funded_deposit L all prefix ch tx c))"
  using assms
proof (induction txs arbitrary: scripts events refunds)
  case Nil
  then show ?case by auto
next
  case (Cons tx txs)
  obtain ev1 rf1 where outs: "scan_outputs L tx scripts prefix ch events refunds = Inr (ev1, rf1)"
    using Cons.prems(1) by (auto split: sum.splits)
  obtain scripts1 ev2 where ins: "scan_inputs L tx scripts prefix ch ev1 = (scripts1, ev2)"
    by fastforce
  have rest: "scan_transactions L prefix ch txs scripts1 ev2 rf1 = (Inr out, scripts')"
    using Cons.prems(1) outs ins by simp
  obtain new1 old1 where one: "ev1 = events @ map Commitment new1" "rf1 = refunds @ old1"
      "\<forall>c \<in> set new1. (cm_swap_id c, cm_unlock_ts c) \<in> set old1 \<and>
         (\<exists>(val, us) \<in> set (match_outputs L scripts prefix (rt_outputs tx)). funded_by L prefix ch val us c)"
    using scan_matched_spec [OF outs [unfolded scan_outputs_def]] by auto
  obtain spent where spent: "ev2 = ev1 @ spent" "\<forall>e \<in> set spent. is_resolving e" "sub_scripts scripts1 scripts"
    using scan_inputs_events [OF ins] by auto
  obtain new2 old2 where two: "bo_events out = ev2 @ new2" "bo_refunds out = rf1 @ old2"
      "\<forall>c. Commitment c \<in> set new2 \<longrightarrow> (cm_swap_id c, cm_unlock_ts c) \<in> set old2 \<and>
         (\<exists>tx \<in> set txs. funded_deposit L all prefix ch tx c)"
    using Cons.IH [OF rest sub_scripts_trans [OF spent(3) Cons.prems(2)]] by auto
  have "funded_deposit L all prefix ch tx c \<and> (cm_swap_id c, cm_unlock_ts c) \<in> set old1"
    if "c \<in> set new1" for c
  proof -
    obtain val us where "(val, us) \<in> set (match_outputs L scripts prefix (rt_outputs tx))"
        "funded_by L prefix ch val us c" "(cm_swap_id c, cm_unlock_ts c) \<in> set old1"
      using one(3) \<open>c \<in> set new1\<close> by auto
    then show ?thesis
      using Cons.prems(2) unfolding match_outputs_set funded_deposit_def sub_scripts_def by blast
  qed
  with one spent two show ?case
    by (intro exI [of _ "map Commitment new1 @ spent @ new2"] exI [of _ "old1 @ old2"]) auto
qed

lemma scan_transactions_ok:
  "scripts_parse L scripts \<Longrightarrow> is_ok (fst (scan_transactions L prefix ch txs scripts events refunds)) \<and>
     sub_scripts (snd (scan_transactions L prefix ch txs scripts events refunds)) scripts"
proof (induction txs arbitrary: scripts events refunds)
  case Nil
  then show ?case by (simp add: sub_scripts_def)
next
  case (Cons tx txs)
  have "\<forall>(val, us) \<in> set (match_outputs L scripts prefix (rt_outputs tx)). is_ok (parse_script L (us_redeem_script us))"
    using Cons.prems unfolding match_outputs_set scripts_parse_def by (auto simp: match_outputs_set)
  from scan_matched_ok [OF this, of prefix ch events refunds]
  obtain ev1 rf1 where outs: "scan_outputs L tx scripts prefix ch events refunds = Inr (ev1, rf1)"
    by (auto simp: scan_outputs_def is_ok_iff)
  obtain scripts1 ev2 where ins: "scan_inputs L tx scripts prefix ch ev1 = (scripts1, ev2)"
    by fastforce
  then have sub: "sub_scripts scripts1 scripts"
    using scan_inputs_events by blast
  then have "scripts_parse L scripts1"
    using Cons.prems by (auto simp: scripts_parse_def sub_scripts_def)
  with Cons.IH [of scripts1 ev2 rf1] sub outs ins show ?case
    by (auto intro: sub_scripts_trans)
qed

text \<open>
  (C27) Only funded deposits count: handling a block never fails while the registered scripts parse, and
  every commitment it reports belongs to an output of the block that pays at least the registered,
  positive deposit target to the address of a registered script; the refund of each such swap is
  scheduled with it.
\<close>

theorem block_commitments_funded:
  assumes "scripts_parse L scripts"
  shows "\<exists>out. fst (handle_block_added L block scripts prefix ch) = Inr out \<and>
    (\<forall>c. Commitment c \<in> set (bo_events out) \<longrightarrow>
       (cm_swap_id c, cm_unlock_ts c) \<in> set (bo_refunds out) \<and>
       (\<exists>tx \<in> set (rb_transactions block). funded_deposit L scripts prefix ch tx c))"
proof -
  obtain out scripts' where out: "scan_transactions L prefix ch (rb_transactions block) scripts [] [] = (Inr out, scripts')"
    using scan_transactions_ok [OF assms, of prefix ch "rb_transactions block" "[]" "[]"]
    by (cases "scan_transactions L prefix ch (rb_transactions block) scripts [] []") (auto simp: is_ok_iff)
  with scan_transactions_spec [OF out, of scripts] show ?thesis
    by (auto simp: handle_block_added_def sub_scripts_def)
qed

definition sample_deposit_block :: "u64 \<Rightarrow> rpc_block" where
  "sample_deposit_block val = \<lparr>rb_daa_score = 1, rb_transactions = [\<lparr>rt_inputs = [],
     rt_outputs = [\<lparr>ro_value = val,
       ro_script_public_key = kl_pay_to_script_hash_script plain_lib (plain_script sample_steps)\<rparr>]\<rparr>]\<rparr>"

lemma sample_block_events:
  "\<exists>out. fst (handle_block_added plain_lib (sample_deposit_block 250000000) sample_scripts Testnet KaspaTn10) =
     Inr out \<and> bo_events out = [Commitment sample_deposit]"
proof -
  obtain ops where ops: "parse_script plain_lib (plain_script sample_steps) = Inr ops"
      "\<forall>amount ch. extract_commitment plain_lib ops amount Testnet ch = Inr (read_back sample_deposit amount ch)"
    using plain.registered_reads_back [OF sample_registered] by auto
  have "read_back sample_deposit ''250000000'' KaspaTn10 = sample_deposit"
    by (simp add: read_back_def sample_deposit_def commitment_new_def)
  moreover have "deposit_target_valid ''250000000'' = Some 250000000"
    by (simp add: deposit_target_valid_def parse_uint_def strip_plus_def is_digit_def digits_val_def digit_val_def)
  ultimately show ?thesis
    using ops
    by (simp add: handle_block_added_def sample_deposit_block_def scan_outputs_def match_outputs_def
        sample_scripts_def plain_p2sh_address plain_p2sh_def scan_inputs_def List.map_filter_def)
qed

theorem block_commitments_funded_witness:
  "\<exists>out. fst (handle_block_added plain_lib (sample_deposit_block 250000000) sample_scripts Testnet KaspaTn10) = Inr out \<and>
     Commitment sample_deposit \<in> set (bo_events out) \<and>
     (cm_swap_id sample_deposit, cm_unlock_ts sample_deposit) \<in> set (bo_refunds out)"
proof -
  have "scripts_parse plain_lib sample_scripts"
    using plain_script [OF sample_steps_ok(1), of "[]"] sample_steps_ok(2)
    by (auto simp: scripts_parse_def sample_scripts_def split: if_splits)
  from block_commitments_funded [OF this, of "sample_deposit_block 250000000" Testnet KaspaTn10]
    sample_block_events
  show ?thesis
    by auto
qed

end
