(* ===== verification/Data_Sink.thy ===== *)
theory Data_Sink
  imports Evm_Recovery Kaspa_Recovery Kaspa_Settlement
begin

text \<open>
  The sink of the data crate (\<open>data/src/sink\<close>, the trait \<open>ChainDataBuffer\<close> of \<open>buffer.rs\<close> and
  \<open>build_buffer\<close> of \<open>chains/mod.rs\<close>): the channel buffers by channel, and the calls that the node makes on
  them. A buffer is an EVM or a Kaspa buffer; a call on the trait object is a case distinction.
\<close>

section \<open>Buffers behind the trait\<close>

datatype ('s, 'c) chain_buffer = EvmBuf "('s, 'c) evm" | KaspaBuf "'s kaspa"

datatype chain_tx = EvmTx evm_tx | KaspaTx kaspa_tx

text \<open>
  What the calls need beside the buffers: the codec and the stores, the libraries, the networks of the
  chains at the time of the call, and the clock readings of a poll.
\<close>

record ('s, 'c) data_env =
  de_codec :: "persisted_swap borsh_codec"
  de_swaps :: "'s swap_store_ops"
  de_cursors :: "'c cursor_store_ops"
  de_alloy :: alloy
  de_lib :: kaspa_lib
  de_crypto :: kaspa_crypto
  de_evm_net :: "channel_id \<Rightarrow> evm_net"
  de_kaspa_net :: "channel_id \<Rightarrow> kaspa_net"
  de_clk :: "channel_id \<Rightarrow> nat \<Rightarrow> nat \<Rightarrow> u64"

definition de_now :: "('s, 'c) data_env \<Rightarrow> channel_id \<Rightarrow> u64" where
  "de_now E ch = de_clk E ch 0 0"

definition buf_lp_address :: "('s, 'c) data_env \<Rightarrow> ('s, 'c) chain_buffer \<Rightarrow> (string, data_error) result" where
  "buf_lp_address E b = (case b of EvmBuf e \<Rightarrow> evm_lp_address (de_alloy E) e
     | KaspaBuf k \<Rightarrow> kaspa_lp_address (de_lib E) (de_crypto E) k)"

definition buf_derive_deposit ::
  "('s, 'c) data_env \<Rightarrow> commitment_v1 \<Rightarrow> ('s, 'c) chain_buffer \<Rightarrow> (string \<times> bytes, data_error) result" where
  "buf_derive_deposit E c b =
     (case b of EvmBuf _ \<Rightarrow> Inl (OtherError ''channel does not support P2SH deposits'')
      | KaspaBuf k \<Rightarrow> derive_deposit (de_lib E) c k)"

text \<open>A poll of an EVM channel never returns an error, but it may panic.\<close>

definition buf_finalized_chunk ::
  "('s, 'c) data_env \<Rightarrow> channel_id \<Rightarrow> ('s, 'c) chain_buffer
     \<Rightarrow> (((channel_id \<times> chain_event) list, data_error) result, panic) result \<times> ('s, 'c) chain_buffer" where
  "buf_finalized_chunk E ch b =
     (case b of
        EvmBuf e \<Rightarrow>
          (case evm_poll_finalized (de_codec E) (de_swaps E) (de_cursors E) (de_alloy E) (de_evm_net E ch)
                  (\<lambda>i. de_clk E ch i 0) e of
             (Inl p, e') \<Rightarrow> (Inl p, EvmBuf e') | (Inr events, e') \<Rightarrow> (Inr (Inr events), EvmBuf e'))
      | KaspaBuf k \<Rightarrow>
          (case kaspa_poll_finalized (de_codec E) (de_swaps E) (de_lib E) (de_clk E ch) k of
             (r, k') \<Rightarrow> (Inr r, KaspaBuf k')))"

definition buf_chain_now :: "('s, 'c) data_env \<Rightarrow> channel_id \<Rightarrow> ('s, 'c) chain_buffer \<Rightarrow> u64 option" where
  "buf_chain_now E ch b = (case b of EvmBuf e \<Rightarrow> evm_chain_now (de_now E ch) e | KaspaBuf _ \<Rightarrow> None)"

definition buf_broadcast_event ::
  "('s, 'c) data_env \<Rightarrow> channel_id \<Rightarrow> chain_event \<Rightarrow> ('s, 'c) chain_buffer
     \<Rightarrow> (unit, data_error) result \<times> chain_tx list \<times> ('s, 'c) chain_buffer" where
  "buf_broadcast_event E ch event b =
     (case b of
        EvmBuf e \<Rightarrow>
          (case evm_emit_event (de_codec E) (de_swaps E) (de_alloy E) (de_evm_net E ch) (de_now E ch) event e of
             ((r, txs), e') \<Rightarrow> (r, map EvmTx txs, EvmBuf e'))
      | KaspaBuf k \<Rightarrow>
          (case kaspa_emit_event (de_codec E) (de_swaps E) (de_lib E) (de_crypto E) (de_kaspa_net E ch)
                  (de_now E ch) event k of
             ((r, txs), k') \<Rightarrow> (r, map KaspaTx txs, KaspaBuf k')))"

definition buf_sign_message ::
  "('s, 'c) data_env \<Rightarrow> channel_id \<Rightarrow> bytes \<Rightarrow> string \<Rightarrow> ('s, 'c) chain_buffer \<Rightarrow> (string \<times> bytes, data_error) result" where
  "buf_sign_message E ch digest required b =
     (case b of EvmBuf e \<Rightarrow> evm_sign_message (de_alloy E) (de_evm_net E ch) digest required e
      | KaspaBuf k \<Rightarrow> kaspa_sign_message (de_lib E) (de_crypto E) (de_kaspa_net E ch) digest required k)"

definition buf_verify_message ::
  "('s, 'c) data_env \<Rightarrow> channel_id \<Rightarrow> bytes \<Rightarrow> string \<Rightarrow> bytes \<Rightarrow> string \<Rightarrow> ('s, 'c) chain_buffer
     \<Rightarrow> (proposal_verification, data_error) result" where
  "buf_verify_message E ch digest claimed signature required b =
     (case b of EvmBuf _ \<Rightarrow> evm_verify_message (de_alloy E) (de_evm_net E ch) digest claimed signature required
      | KaspaBuf _ \<Rightarrow>
          kaspa_verify_message (de_lib E) (de_crypto E) (de_kaspa_net E ch) digest claimed signature required)"

definition buf_has_detector :: "('s, 'c) chain_buffer \<Rightarrow> bool" where
  "buf_has_detector b = (case b of EvmBuf _ \<Rightarrow> False | KaspaBuf _ \<Rightarrow> True)"

definition buf_register_script ::
  "('s, 'c) data_env \<Rightarrow> channel_id \<Rightarrow> string \<Rightarrow> bytes \<Rightarrow> bytes \<Rightarrow> u64 \<Rightarrow> string \<Rightarrow> ('s, 'c) chain_buffer
     \<Rightarrow> ((unit, data_error) result \<times> ('s, 'c) chain_buffer) option" where
  "buf_register_script E ch address redeem_script swap_id unlock_ts deposit_target b =
     (case b of EvmBuf _ \<Rightarrow> None
      | KaspaBuf k \<Rightarrow>
          (case register_script (de_codec E) (de_swaps E) (de_lib E) (de_now E ch) address redeem_script swap_id
                  unlock_ts deposit_target k of (r, k') \<Rightarrow> Some (r, KaspaBuf k')))"

definition buf_take_announcements :: "('s, 'c) chain_buffer \<Rightarrow> script_announcement list \<times> ('s, 'c) chain_buffer" where
  "buf_take_announcements b =
     (case b of EvmBuf _ \<Rightarrow> ([], b)
      | KaspaBuf k \<Rightarrow> (case take_utxo_script_announcements k of (xs, k') \<Rightarrow> (xs, KaspaBuf k')))"

section \<open>The sink\<close>

record ('s, 'c) chain_data_sink =
  sk_buffers :: "(channel_id, ('s, 'c) chain_buffer) hashmap"

definition sink_buffer ::
  "('s, 'c) chain_data_sink \<Rightarrow> channel_id \<Rightarrow> (('s, 'c) chain_buffer, data_error) result" where
  "sink_buffer sk ch = ok_or (hm_get (sk_buffers sk) ch) (data_error.UnknownChannel ch)"

definition put_buffer :: "channel_id \<Rightarrow> ('s, 'c) chain_buffer \<Rightarrow> ('s, 'c) chain_data_sink \<Rightarrow> ('s, 'c) chain_data_sink" where
  "put_buffer ch b sk = sk\<lparr>sk_buffers := hm_insert ch b (sk_buffers sk)\<rparr>"

definition sink_lp_address ::
  "('s, 'c) data_env \<Rightarrow> ('s, 'c) chain_data_sink \<Rightarrow> channel_id \<Rightarrow> (string, data_error) result" where
  "sink_lp_address E sk ch = r_bind (sink_buffer sk ch) (buf_lp_address E)"

definition sink_derive_deposit ::
  "('s, 'c) data_env \<Rightarrow> ('s, 'c) chain_data_sink \<Rightarrow> channel_id \<Rightarrow> commitment_v1 \<Rightarrow> (string \<times> bytes, data_error) result" where
  "sink_derive_deposit E sk ch c = r_bind (sink_buffer sk ch) (buf_derive_deposit E c)"

text \<open>
  \<open>finalized_chunk\<close> polls every channel and collects the events of those that succeed, in the order of the
  map; the buffers are separate objects, so the concurrent polls do not disturb each other.
\<close>

fun poll_channels ::
  "('s, 'c) data_env \<Rightarrow> (channel_id \<times> ('s, 'c) chain_buffer) list \<Rightarrow> ('s, 'c) chain_data_sink
     \<Rightarrow> ((channel_id \<times> chain_event) list, panic) result \<times> ('s, 'c) chain_data_sink" where
  "poll_channels E [] sk = (Inr [], sk)"
| "poll_channels E ((ch, b) # rest) sk =
     (case buf_finalized_chunk E ch b of
        (Inl p, b') \<Rightarrow> (Inl p, put_buffer ch b' sk)
      | (Inr r, b') \<Rightarrow>
          (case poll_channels E rest (put_buffer ch b' sk) of
             (rs, sk') \<Rightarrow>
               (r_bind rs (\<lambda>events. Inr ((case r of Inl e \<Rightarrow> [] | Inr evs \<Rightarrow> evs) @ events)), sk')))"

definition sink_finalized_chunk ::
  "('s, 'c) data_env \<Rightarrow> ('s, 'c) chain_data_sink
     \<Rightarrow> ((channel_id \<times> chain_event) list, panic) result \<times> ('s, 'c) chain_data_sink" where
  "sink_finalized_chunk E sk = poll_channels E (hm_iter (sk_buffers sk)) sk"

definition sink_broadcast_event ::
  "('s, 'c) data_env \<Rightarrow> channel_id \<Rightarrow> chain_event \<Rightarrow> ('s, 'c) chain_data_sink
     \<Rightarrow> (unit, data_error) result \<times> chain_tx list \<times> ('s, 'c) chain_data_sink" where
  "sink_broadcast_event E ch event sk =
     (case sink_buffer sk ch of Inl e \<Rightarrow> (Inl e, [], sk)
      | Inr b \<Rightarrow> (case buf_broadcast_event E ch event b of (r, txs, b') \<Rightarrow> (r, txs, put_buffer ch b' sk)))"

definition sink_sign_message ::
  "('s, 'c) data_env \<Rightarrow> ('s, 'c) chain_data_sink \<Rightarrow> channel_id \<Rightarrow> bytes \<Rightarrow> string
     \<Rightarrow> (string \<times> bytes, data_error) result" where
  "sink_sign_message E sk ch digest required = r_bind (sink_buffer sk ch) (buf_sign_message E ch digest required)"

definition sink_verify_message ::
  "('s, 'c) data_env \<Rightarrow> ('s, 'c) chain_data_sink \<Rightarrow> channel_id \<Rightarrow> bytes \<Rightarrow> string \<Rightarrow> bytes \<Rightarrow> string
     \<Rightarrow> (proposal_verification, data_error) result" where
  "sink_verify_message E sk ch digest claimed signature required =
     r_bind (sink_buffer sk ch) (buf_verify_message E ch digest claimed signature required)"

fun take_from_buffers ::
  "(channel_id \<times> ('s, 'c) chain_buffer) list \<Rightarrow> ('s, 'c) chain_data_sink
     \<Rightarrow> script_announcement list \<times> ('s, 'c) chain_data_sink" where
  "take_from_buffers [] sk = ([], sk)"
| "take_from_buffers ((ch, b) # rest) sk =
     (case buf_take_announcements b of (xs, b') \<Rightarrow>
       (case take_from_buffers rest (put_buffer ch b' sk) of (ys, sk') \<Rightarrow> (xs @ ys, sk')))"

definition sink_take_announcements ::
  "('s, 'c) chain_data_sink \<Rightarrow> script_announcement list \<times> ('s, 'c) chain_data_sink" where
  "sink_take_announcements sk = take_from_buffers (hm_iter (sk_buffers sk)) sk"

definition sink_channels :: "('s, 'c) chain_data_sink \<Rightarrow> channel_id list" where
  "sink_channels sk = map fst (hm_iter (sk_buffers sk))"

definition sink_chain_clock :: "('s, 'c) data_env \<Rightarrow> ('s, 'c) chain_data_sink \<Rightarrow> chain_clock" where
  "sink_chain_clock E sk =
     clock_new (fold (\<lambda>(ch, b) times. case buf_chain_now E ch b of
         Some ts \<Rightarrow> hm_insert ch ts times | None \<Rightarrow> times) (hm_iter (sk_buffers sk)) hm_empty)"

definition sink_knows_channel :: "('s, 'c) chain_data_sink \<Rightarrow> channel_id \<Rightarrow> bool" where
  "sink_knows_channel sk ch = hm_contains (sk_buffers sk) ch"

definition sink_script_channel :: "('s, 'c) chain_data_sink \<Rightarrow> channel_id option" where
  "sink_script_channel sk = map_option fst (find (\<lambda>(_, b). buf_has_detector b) (hm_iter (sk_buffers sk)))"

definition sink_register_script ::
  "('s, 'c) data_env \<Rightarrow> channel_id \<Rightarrow> string \<Rightarrow> bytes \<Rightarrow> bytes \<Rightarrow> u64 \<Rightarrow> string \<Rightarrow> ('s, 'c) chain_data_sink
     \<Rightarrow> (unit, data_error) result \<times> ('s, 'c) chain_data_sink" where
  "sink_register_script E ch address redeem_script swap_id unlock_ts deposit_target sk =
     (case Option.bind (hm_get (sk_buffers sk) ch)
             (buf_register_script E ch address redeem_script swap_id unlock_ts deposit_target) of
        Some (r, b') \<Rightarrow> (r, put_buffer ch b' sk)
      | None \<Rightarrow> (Inl (data_error.UnknownChannel ch), sk))"

section \<open>Building the buffers\<close>

text \<open>
  What connecting needs: the parser of a channel's JSON configuration (type \<open>'v\<close>), the networks while the
  buffers connect and while they reconcile, and the clock.
\<close>

record 'v sink_dial =
  sd_evm_config :: "'v \<Rightarrow> (evm_config, string) result"
  sd_kaspa_config :: "'v \<Rightarrow> (kaspa_config, string) result"
  sd_kaspa_dial :: "channel_id \<Rightarrow> kaspa_dial"
  sd_evm_boot :: "channel_id \<Rightarrow> action_key \<Rightarrow> evm_net"
  sd_kaspa_boot :: "channel_id \<Rightarrow> action_key \<Rightarrow> kaspa_net \<times> bool"

definition build_buffer ::
  "('s, 'c) data_env \<Rightarrow> 'v sink_dial \<Rightarrow> channel_id \<Rightarrow> 'v \<Rightarrow> string option \<Rightarrow> 'c option \<Rightarrow> 's option
     \<Rightarrow> (('s, 'c) chain_buffer \<times> 'c intake option, data_error) result" where
  "build_buffer E M ch cfg lp_key cursor_store swap_db =
     (case ch of
        KaspaTn10 \<Rightarrow>
          r_bind (kaspa_connect (de_codec E) (de_swaps E) (de_cursors E) (de_lib E) (de_crypto E) (sd_kaspa_dial M ch)
                    (sd_kaspa_boot M ch) (\<lambda>i. de_clk E ch i 0) ch (sd_kaspa_config M cfg) lp_key cursor_store swap_db)
            (\<lambda>(k, intake). Inr (KaspaBuf k, Some intake))
      | _ \<Rightarrow>
          r_bind (evm_connect (de_codec E) (de_swaps E) (de_cursors E) (de_alloy E) (de_evm_net E ch)
                    (sd_evm_boot M ch) (\<lambda>i. de_clk E ch i 0) ch (sd_evm_config M cfg) lp_key cursor_store swap_db)
            (\<lambda>e. Inr (EvmBuf e, None)))"

text \<open>\<open>ChainDataSink::new\<close> stops at the first channel that cannot be built.\<close>

fun build_buffers ::
  "('s, 'c) data_env \<Rightarrow> 'v sink_dial \<Rightarrow> 'c option \<Rightarrow> 's option \<Rightarrow> (channel_id \<times> 'v \<times> string option) list
     \<Rightarrow> (channel_id, ('s, 'c) chain_buffer) hashmap
     \<Rightarrow> ((channel_id, ('s, 'c) chain_buffer) hashmap \<times> 'c intake list, data_error) result" where
  "build_buffers E M cursor_store swap_db [] buffers = Inr (buffers, [])"
| "build_buffers E M cursor_store swap_db ((ch, cfg, lp_key) # rest) buffers =
     r_bind (build_buffer E M ch cfg lp_key cursor_store swap_db) (\<lambda>(b, intake).
     r_bind (build_buffers E M cursor_store swap_db rest (hm_insert ch b buffers)) (\<lambda>(bs, intakes).
     Inr (bs, (case intake of None \<Rightarrow> intakes | Some i \<Rightarrow> i # intakes))))"

definition sink_new ::
  "('s, 'c) data_env \<Rightarrow> 'v sink_dial \<Rightarrow> (channel_id, 'v \<times> string option) hashmap \<Rightarrow> 'c option \<Rightarrow> 's option
     \<Rightarrow> (('s, 'c) chain_data_sink \<times> 'c intake list, data_error) result" where
  "sink_new E M channels cursor_store swap_db =
     r_bind (build_buffers E M cursor_store swap_db (hm_iter channels) hm_empty) (\<lambda>(bs, intakes).
     Inr (\<lparr>sk_buffers = bs\<rparr>, intakes))"


section \<open>Every channel has a buffer of its own kind\<close>

definition buf_channel :: "('s, 'c) chain_buffer \<Rightarrow> channel_id" where
  "buf_channel b = (case b of EvmBuf e \<Rightarrow> ev_channel_id e | KaspaBuf k \<Rightarrow> kb_channel_id k)"

definition buf_typed :: "channel_id \<Rightarrow> ('s, 'c) chain_buffer \<Rightarrow> bool" where
  "buf_typed ch b = (buf_channel b = ch \<and> (buf_has_detector b \<longleftrightarrow> is_utxo ch))"

definition sink_typed :: "('s, 'c) chain_data_sink \<Rightarrow> bool" where
  "sink_typed sk = (\<forall>ch b. hm_get (sk_buffers sk) ch = Some b \<longrightarrow> buf_typed ch b)"

lemma buf_typed_simps [simp]:
  "buf_typed ch (EvmBuf e) \<longleftrightarrow> ev_channel_id e = ch \<and> \<not> is_utxo ch"
  "buf_typed ch (KaspaBuf k) \<longleftrightarrow> kb_channel_id k = ch \<and> is_utxo ch"
  by (auto simp: buf_typed_def buf_channel_def buf_has_detector_def)

lemma sink_typed_put: "sink_typed sk \<Longrightarrow> buf_typed ch b \<Longrightarrow> sink_typed (put_buffer ch b sk)"
  by (auto simp: sink_typed_def put_buffer_def)

lemma knows_put: "sink_knows_channel (put_buffer ch b sk) c \<longleftrightarrow> c = ch \<or> sink_knows_channel sk c"
  by (auto simp: sink_knows_channel_def put_buffer_def)

lemma evm_track_channel [simp]:
  "ev_channel_id (evm_track_actionable_event B D now e self) = ev_channel_id self"
  by (simp add: evm_track_actionable_event_def Let_def)

text \<open>The events a channel reports carry its identifier, and its commitments name it as their source.\<close>

definition event_of :: "channel_id \<Rightarrow> channel_id \<times> chain_event \<Rightarrow> bool" where
  "event_of ch x = (fst x = ch \<and> (\<forall>c. snd x = Commitment c \<longrightarrow> cm_source c = channel_as_u8 ch))"

lemma decode_log_source: "decode_log X lg ch = Inr (Some e) \<Longrightarrow> event_of ch (ch, e)"
  by (auto simp: decode_log_def event_of_def commitment_new_def split: sum.splits simp: result_simps)

lemma evm_handle_logs_channel:
  "evm_handle_logs B D X clk i logs self = (r, self') \<Longrightarrow>
     ev_channel_id self' = ev_channel_id self \<and>
     (\<forall>events. r = Inr events \<longrightarrow> list_all (event_of (ev_channel_id self)) events)"
proof (induction logs arbitrary: i self r)
  case (Cons lg logs)
  show ?case
  proof (cases "decode_log X lg (ev_channel_id self)")
    case (Inr opt)
    show ?thesis
    proof (cases opt)
      case None
      with Inr Cons show ?thesis by simp
    next
      case (Some e)
      obtain r1 where rest: "evm_handle_logs B D X clk (Suc i) logs (evm_track_actionable_event B D (clk i) e self) =
          (r1, self')"
        using Cons.prems Inr Some by (auto split: prod.splits)
      then show ?thesis
        using Cons.prems Cons.IH [OF rest] decode_log_source [of X lg "ev_channel_id self" e] Inr Some
        by (auto simp: result_simps)
    qed
  qed (use Cons.prems in auto)
qed simp

lemma evm_poll_channel:
  "evm_poll_finalized B D C X net clk self = (r, self') \<Longrightarrow>
     ev_channel_id self' = ev_channel_id self \<and>
     (\<forall>events. r = Inr events \<longrightarrow> list_all (event_of (ev_channel_id self)) events)"
  by (auto simp: evm_poll_finalized_def Let_def split: if_splits prod.splits sum.splits option.splits
      dest!: evm_handle_logs_channel)

lemma evm_emit_channel [simp]: "ev_channel_id (snd (evm_emit_event B D X net now e self)) = ev_channel_id self"
  by (simp add: evm_emit_event_def Let_def split: chain_event.split sum.split)


lemma extract_commitment_source: "extract_commitment L ops amount prefix ch = Inr c \<Longrightarrow> cm_source c = channel_as_u8 ch"
  by (auto simp: extract_commitment_def result_simps Let_def commitment_new_def)

lemma block_commitment_source:
  assumes "handle_block_added L block scripts prefix ch = (Inr out, scripts')" and "Commitment c \<in> set (bo_events out)"
  shows "cm_source c = channel_as_u8 ch"
proof -
  obtain tx where "funded_deposit L scripts prefix ch tx c"
    using scan_transactions_spec [OF assms(1) [unfolded handle_block_added_def], of scripts] assms(2)
    by (auto simp: sub_scripts_def)
  then show ?thesis
    by (auto simp: funded_deposit_def funded_by_def split: option.splits dest: extract_commitment_source)
qed

lemma kaspa_track_channel [simp]:
  "kb_channel_id (kaspa_track_actionable_event B D e self) = kb_channel_id self"
  by (simp add: kaspa_track_actionable_event_def Let_def cache_commitment_def resolve_swap_def split: chain_event.split)

lemma track_events_channel [simp]: "kb_channel_id (track_events B D es self) = kb_channel_id self"
  unfolding track_events_def by (induction es arbitrary: self) simp_all

lemma track_refunds_channel [simp]: "kb_channel_id (track_refunds B D now rs self) = kb_channel_id self"
proof -
  have "kb_channel_id (fold (\<lambda>(j, sid). ensure_refund B D (now j) sid) xs k) = kb_channel_id k" for xs k
    by (induction xs arbitrary: k) (auto simp: ensure_refund_def)
  then show ?thesis
    by (simp add: track_refunds_def split: prod.split)
qed

lemma kaspa_blocks_channel:
  "kaspa_handle_blocks B D L clk i blocks self = (r, self') \<Longrightarrow>
     kb_channel_id self' = kb_channel_id self \<and>
     (\<forall>events. r = Inr events \<longrightarrow> list_all (event_of (kb_channel_id self)) events)"
proof (induction blocks arbitrary: i self r)
  case (Cons block blocks)
  obtain res scripts where block: "handle_block_added L block (kb_utxo_scripts self) (kb_prefix self) (kb_channel_id self) =
      (res, scripts)"
    by fastforce
  show ?case
  proof (cases res)
    case (Inr out)
    let ?self = "track_events B D (bo_events out)
      (track_refunds B D (clk i) (bo_refunds out) (self\<lparr>kb_utxo_scripts := scripts\<rparr>))"
    obtain r1 where rest: "kaspa_handle_blocks B D L clk (Suc i) blocks ?self = (r1, self')"
      using Cons.prems block Inr by (auto simp: Let_def split: prod.splits)
    have "list_all (event_of (kb_channel_id self)) (map (Pair (kb_channel_id self)) (bo_events out))"
      using block_commitment_source [OF block [unfolded Inr]] by (auto simp: list_all_iff event_of_def)
    then show ?thesis
      using Cons.prems Cons.IH [OF rest] block Inr rest by (auto simp: Let_def result_simps)
  qed (use Cons.prems block in auto)
qed simp

lemma kaspa_poll_channel:
  "kaspa_poll_finalized B D L clk self = (r, self') \<Longrightarrow>
     kb_channel_id self' = kb_channel_id self \<and>
     (\<forall>events. r = Inr events \<longrightarrow> list_all (event_of (kb_channel_id self)) events)"
  by (auto simp: kaspa_poll_finalized_def prune_scripts_def split: prod.splits sum.splits dest!: kaspa_blocks_channel)

lemma kaspa_emit_channel [simp]: "kb_channel_id (snd (kaspa_emit_event B D L K net now e self)) = kb_channel_id self"
  by (simp add: kaspa_emit_event_def Let_def cache_commitment_def register_internal_def
      split: chain_event.split sum.split prod.split)

lemma register_script_channel [simp]:
  "kb_channel_id (snd (register_script B D L now a rs sid ts t self)) = kb_channel_id self"
  by (simp add: register_script_def Let_def register_internal_def prune_scripts_def split: sum.split)


lemma buf_finalized_typed:
  assumes "buf_finalized_chunk E ch b = (r, b')" and "buf_typed ch b"
  shows "buf_typed ch b' \<and> (\<forall>events. r = Inr (Inr events) \<longrightarrow> list_all (event_of ch) events)"
  using assms
  by (cases b) (auto simp: buf_finalized_chunk_def split: prod.splits sum.splits
      dest!: evm_poll_channel kaspa_poll_channel)

lemma poll_channels_typed:
  assumes "poll_channels E bs sk = (r, sk')" and "sink_typed sk" and "\<forall>(ch, b) \<in> set bs. buf_typed ch b \<and> sink_knows_channel sk ch"
  shows "sink_typed sk' \<and> (\<forall>ch. sink_knows_channel sk' ch = sink_knows_channel sk ch) \<and>
    (\<forall>events. r = Inr events \<longrightarrow> (\<forall>x \<in> set events. fst x \<in> fst ` set bs \<and> event_of (fst x) x))"
  using assms
proof (induction bs arbitrary: sk r)
  case (Cons cb bs)
  obtain ch b where cb: "cb = (ch, b)"
    by fastforce
  obtain r1 b1 where one: "buf_finalized_chunk E ch b = (r1, b1)"
    by fastforce
  have b1: "buf_typed ch b1" "\<forall>events. r1 = Inr (Inr events) \<longrightarrow> list_all (event_of ch) events"
    using buf_finalized_typed [OF one] Cons.prems(3) by (auto simp: cb)
  have put: "sink_typed (put_buffer ch b1 sk)" "sink_knows_channel (put_buffer ch b1 sk) c = sink_knows_channel sk c" for c
    using sink_typed_put [OF Cons.prems(2) b1(1)] knows_put [of ch b1 sk c] Cons.prems(3) by (auto simp: cb)
  show ?case
  proof (cases r1)
    case (Inl p)
    then show ?thesis
      using Cons.prems(1) one put by (auto simp: cb)
  next
    case (Inr res)
    obtain r2 where rest: "poll_channels E bs (put_buffer ch b1 sk) = (r2, sk')"
      using Cons.prems(1) one Inr by (auto simp: cb split: prod.splits)
    have ih: "sink_typed sk'" "\<forall>c. sink_knows_channel sk' c = sink_knows_channel sk c"
        "\<forall>events. r2 = Inr events \<longrightarrow> (\<forall>x \<in> set events. fst x \<in> fst ` set bs \<and> event_of (fst x) x)"
      using Cons.IH [OF rest put(1)] Cons.prems(3) put(2) by auto
    have "fst x \<in> fst ` set (cb # bs) \<and> event_of (fst x) x" if "r = Inr events" "x \<in> set events" for events x
      using that Cons.prems(1) one Inr rest b1(2) ih(3)
      by (cases res) (auto simp: cb result_simps list_all_iff event_of_def)
    with ih show ?thesis
      by blast
  qed
qed simp

lemma iter_typed:
  "sink_typed sk \<Longrightarrow> (ch, b) \<in> set (hm_iter (sk_buffers sk)) \<Longrightarrow> buf_typed ch b \<and> sink_knows_channel sk ch"
  by (simp add: hm.iter_get sink_typed_def sink_knows_channel_def hm_contains_def)

lemma finalized_chunk_typed:
  assumes "sink_typed sk" and "sink_finalized_chunk E sk = (r, sk')"
  shows "sink_typed sk'" "sink_knows_channel sk' ch = sink_knows_channel sk ch"
    "r = Inr events \<Longrightarrow> x \<in> set events \<Longrightarrow> sink_knows_channel sk (fst x) \<and> event_of (fst x) x"
proof -
  have "\<forall>(ch, b) \<in> set (hm_iter (sk_buffers sk)). buf_typed ch b \<and> sink_knows_channel sk ch"
    using iter_typed [OF assms(1)] by auto
  note all = poll_channels_typed [OF assms(2) [unfolded sink_finalized_chunk_def] assms(1) this]
  then show "sink_typed sk'" "sink_knows_channel sk' ch = sink_knows_channel sk ch"
    by simp_all
  show "sink_knows_channel sk (fst x) \<and> event_of (fst x) x" if "r = Inr events" "x \<in> set events"
    using all that iter_typed [OF assms(1)] by fastforce
qed

lemma evm_step_channel: "evm_step B D C X e e' \<Longrightarrow> ev_channel_id e' = ev_channel_id e"
proof (induction rule: evm_step.induct)
  case (poll self net clk)
  then show ?case
    by (metis evm_poll_channel prod.collapse)
next
  case (settle self net key)
  then show ?case
    using evm_settle_timed_state [of B D X net key self] replacement_frame(2) by metis
qed (simp_all add: evm_record_success_def evm_record_failure_def Let_def split: action.split)

lemma kaspa_step_channel: "kaspa_step B D L K k k' \<Longrightarrow> kb_channel_id k' = kb_channel_id k"
proof (induction rule: kaspa_step.induct)
  case (poll self clk)
  then show ?case
    by (metis kaspa_poll_channel prod.collapse)
qed (simp_all add: kaspa_record_success_def kaspa_record_failure_def take_utxo_script_announcements_def Let_def
    split: action.split)

text \<open>
  The steps of a running sink: the calls of the node, and the tasks that work on one buffer in the
  background (its settler, and the intake of a Kaspa channel).
\<close>

inductive sink_step :: "('s, 'c) chain_data_sink \<Rightarrow> ('s, 'c) chain_data_sink \<Rightarrow> bool" where
  poll: "sink_step sk (snd (sink_finalized_chunk E sk))"
| broadcast: "sink_step sk (snd (snd (sink_broadcast_event E ch event sk)))"
| register: "sink_step sk (snd (sink_register_script E ch address script swap_id unlock target sk))"
| announcements: "sink_step sk (snd (sink_take_announcements sk))"
| evm: "hm_get (sk_buffers sk) ch = Some (EvmBuf e) \<Longrightarrow> evm_step B D C X e e' \<Longrightarrow>
    sink_step sk (put_buffer ch (EvmBuf e') sk)"
| kaspa: "hm_get (sk_buffers sk) ch = Some (KaspaBuf k) \<Longrightarrow> kaspa_step B D L K k k' \<Longrightarrow>
    sink_step sk (put_buffer ch (KaspaBuf k') sk)"

lemma known_put_typed:
  assumes "sink_typed sk" "hm_get (sk_buffers sk) ch = Some b" "buf_typed ch b \<Longrightarrow> buf_typed ch b'"
  shows "sink_typed (put_buffer ch b' sk) \<and> (\<forall>c. sink_knows_channel (put_buffer ch b' sk) c = sink_knows_channel sk c)"
proof -
  have "buf_typed ch b'"
    using assms by (simp add: sink_typed_def)
  moreover have "sink_knows_channel sk ch"
    using assms(2) by (simp add: sink_knows_channel_def hm_contains_def)
  ultimately show ?thesis
    using sink_typed_put [OF assms(1)] by (auto simp: knows_put)
qed

lemma broadcast_typed:
  assumes "sink_typed sk"
  shows "sink_typed (snd (snd (sink_broadcast_event E ch event sk))) \<and>
    (\<forall>c. sink_knows_channel (snd (snd (sink_broadcast_event E ch event sk))) c = sink_knows_channel sk c)"
proof (cases "hm_get (sk_buffers sk) ch")
  case (Some b)
  have "buf_typed ch b \<Longrightarrow> buf_typed ch (snd (snd (buf_broadcast_event E ch event b)))"
    by (cases b) (simp_all add: buf_broadcast_event_def split_beta)
  from known_put_typed [OF assms Some this] Some show ?thesis
    by (simp add: sink_broadcast_event_def sink_buffer_def split_beta)
qed (use assms in \<open>simp add: sink_broadcast_event_def sink_buffer_def\<close>)

lemma register_typed:
  assumes "sink_typed sk"
  shows "sink_typed (snd (sink_register_script E ch address script swap_id unlock target sk)) \<and>
    (\<forall>c. sink_knows_channel (snd (sink_register_script E ch address script swap_id unlock target sk)) c =
      sink_knows_channel sk c)"
proof (cases "Option.bind (hm_get (sk_buffers sk) ch) (buf_register_script E ch address script swap_id unlock target)")
  case (Some rb)
  then obtain b where b: "hm_get (sk_buffers sk) ch = Some b"
      "buf_register_script E ch address script swap_id unlock target b = Some rb"
    by (auto simp: bind_eq_Some_conv)
  then obtain k r k' where k: "hm_get (sk_buffers sk) ch = Some (KaspaBuf k)" "rb = (r, KaspaBuf k')"
      and "register_script (de_codec E) (de_swaps E) (de_lib E) (de_now E ch) address script swap_id unlock target k =
        (r, k')"
    by (cases b) (auto simp: buf_register_script_def split: prod.splits)
  then have "kb_channel_id k' = kb_channel_id k"
    by (metis register_script_channel snd_conv)
  then show ?thesis
    using known_put_typed [OF assms k(1), of "KaspaBuf k'"] Some k by (simp add: sink_register_script_def)
qed (use assms in \<open>simp add: sink_register_script_def\<close>)

lemma take_typed:
  "sink_typed sk \<Longrightarrow> \<forall>(ch, b) \<in> set bs. buf_typed ch b \<and> sink_knows_channel sk ch \<Longrightarrow>
   sink_typed (snd (take_from_buffers bs sk)) \<and>
   (\<forall>c. sink_knows_channel (snd (take_from_buffers bs sk)) c = sink_knows_channel sk c)"
proof (induction bs arbitrary: sk)
  case (Cons cb bs)
  obtain ch b where cb: "cb = (ch, b)"
    by fastforce
  obtain xs b' where tk: "buf_take_announcements b = (xs, b')"
    by fastforce
  then have "buf_typed ch b'"
    using Cons.prems(2)
    by (cases b) (auto simp: cb buf_take_announcements_def take_utxo_script_announcements_def)
  then have put: "sink_typed (put_buffer ch b' sk)" "sink_knows_channel (put_buffer ch b' sk) c = sink_knows_channel sk c" for c
    using sink_typed_put [OF Cons.prems(1)] knows_put [of ch b' sk c] Cons.prems(2) by (auto simp: cb)
  with Cons.IH [OF put(1)] Cons.prems(2) tk show ?case
    by (auto simp: cb split: prod.splits)
qed simp

lemma sink_step_typed:
  "sink_step sk sk' \<Longrightarrow> sink_typed sk \<Longrightarrow>
     sink_typed sk' \<and> (\<forall>ch. sink_knows_channel sk' ch = sink_knows_channel sk ch)"
proof (induction rule: sink_step.induct)
  case (poll sk E)
  then show ?case
    using finalized_chunk_typed(1,2) [OF poll] by (metis prod.collapse)
next
  case (announcements sk)
  then show ?case
    using take_typed iter_typed by (fastforce simp: sink_take_announcements_def)
next
  case (evm sk ch e B D C X e')
  then show ?case
    using known_put_typed [OF evm(3,1), of "EvmBuf e'"] evm_step_channel by fastforce
next
  case (kaspa sk ch k B D L K k')
  then show ?case
    using known_put_typed [OF kaspa(3,1), of "KaspaBuf k'"] kaspa_step_channel by fastforce
qed (simp_all add: broadcast_typed register_typed)


lemma reconcile_keeps:
  assumes "\<And>key x. f (so_record_success S key x) = f x"
  shows "f (fst (reconcile S env keys x)) = f x"
  using assms by (induction keys arbitrary: x) (simp_all add: case_prod_beta)

lemma evm_success_channel: "ev_channel_id (so_record_success (evm_settler B D X) key e) = ev_channel_id e"
  by (simp add: evm_settler_def evm_record_success_def Let_def split: action.split)

lemma kaspa_success_channel: "kb_channel_id (so_record_success (kaspa_settler B D L K) key k) = kb_channel_id k"
  by (simp add: kaspa_settler_def kaspa_record_success_def Let_def split: action.split)

lemma evm_connect_channel:
  "evm_connect B D C X net boot clk ch cfg pk cs db = Inr e \<Longrightarrow> ev_channel_id e = ch"
  by (auto simp: evm_connect_def result_simps reconcile_on_boot_def case_prod_beta Let_def
      reconcile_keeps [of ev_channel_id, OF evm_success_channel])

lemma kaspa_connect_channel:
  "kaspa_connect B D C L K N boot clk ch cfg pk cs db = Inr (k, i) \<Longrightarrow> kb_channel_id k = ch"
  by (auto simp: kaspa_connect_def result_simps reconcile_on_boot_def case_prod_beta Let_def
      reconcile_keeps [of kb_channel_id, OF kaspa_success_channel])

lemma build_buffer_typed: "build_buffer E M ch cfg key cs db = Inr (b, i) \<Longrightarrow> buf_typed ch b"
  by (cases ch) (auto simp: build_buffer_def result_simps dest: evm_connect_channel kaspa_connect_channel)

lemma build_buffers_typed:
  assumes "build_buffers E M cs db chans bs = Inr (bs', is)" and "\<forall>ch b. hm_get bs ch = Some b \<longrightarrow> buf_typed ch b"
  shows "(\<forall>ch b. hm_get bs' ch = Some b \<longrightarrow> buf_typed ch b) \<and>
    (\<forall>ch. hm_contains bs' ch \<longleftrightarrow> hm_contains bs ch \<or> ch \<in> fst ` set chans)"
  using assms
proof (induction chans arbitrary: bs "is")
  case (Cons c chans)
  obtain ch cfg key where c: "c = (ch, cfg, key)"
    by (cases c)
  obtain b i is' where b: "build_buffer E M ch cfg key cs db = Inr (b, i)"
      and rest: "build_buffers E M cs db chans (hm_insert ch b bs) = Inr (bs', is')"
    using Cons.prems(1) by (auto simp: c result_simps)
  have "\<forall>c d. hm_get (hm_insert ch b bs) c = Some d \<longrightarrow> buf_typed c d"
    using Cons.prems(2) build_buffer_typed [OF b] by auto
  from Cons.IH [OF rest this] show ?case
    by (auto simp: c)
qed simp

lemma sink_new_typed:
  assumes "sink_new E M channels cursors db = Inr (sk, intakes)"
  shows "sink_typed sk \<and> (\<forall>ch. sink_knows_channel sk ch \<longleftrightarrow> hm_contains channels ch)"
proof -
  obtain bs where bs: "build_buffers E M cursors db (hm_iter channels) hm_empty = Inr (bs, intakes)" "sk = \<lparr>sk_buffers = bs\<rparr>"
    using assms by (auto simp: sink_new_def result_simps)
  then show ?thesis
    using build_buffers_typed [OF bs(1)] hm.iter_keys [of _ channels]
    by (auto simp: sink_typed_def sink_knows_channel_def hm_contains_def)
qed

text \<open>
  (C34) The sink knows exactly the channels of the configuration, whatever it has done since it was
  built; the buffer of a channel is of the channel's kind and carries its identifier; and every event that
  a poll returns is labelled with a known channel, a commitment with the channel it was found on as its
  source.
\<close>

theorem sink_stays_typed:
  assumes "sink_new E M channels cursors db = Inr (sk, intakes)" and "sink_step\<^sup>*\<^sup>* sk sk'"
  shows "sink_typed sk' \<and> (\<forall>ch. sink_knows_channel sk' ch \<longleftrightarrow> hm_contains channels ch) \<and>
    (\<forall>E' events. fst (sink_finalized_chunk E' sk') = Inr events \<longrightarrow>
       (\<forall>x \<in> set events. hm_contains channels (fst x) \<and> event_of (fst x) x))"
proof -
  have "sink_typed sk" "\<forall>ch. sink_knows_channel sk ch \<longleftrightarrow> hm_contains channels ch"
    using sink_new_typed [OF assms(1)] by auto
  with assms(2) have sk': "sink_typed sk'" "\<forall>ch. sink_knows_channel sk' ch \<longleftrightarrow> hm_contains channels ch"
    by (induction rule: rtranclp_induct) (auto dest: sink_step_typed)
  with finalized_chunk_typed(3) [OF sk'(1)] show ?thesis
    by (metis prod.collapse)
qed

definition sample_data_env :: "(mem_db, mem_db) data_env" where
  "sample_data_env = \<lparr>de_codec = record_codec, de_swaps = db_swap_store mem_redb, de_cursors = mem_cursors,
     de_alloy = sample_alloy, de_lib = plain_lib, de_crypto = sample_crypto, de_evm_net = (\<lambda>_. sample_net),
     de_kaspa_net = (\<lambda>_. sample_kaspa_net), de_clk = (\<lambda>_ _ _. 1000)\<rparr>"

definition sample_sink_dial :: "unit sink_dial" where
  "sample_sink_dial = \<lparr>sd_evm_config = (\<lambda>_. Inr sample_evm_config), sd_kaspa_config = (\<lambda>_. Inr sample_kaspa_config),
     sd_kaspa_dial = (\<lambda>_. sample_dial), sd_evm_boot = (\<lambda>_ _. sample_net),
     sd_kaspa_boot = (\<lambda>_ _. (sample_kaspa_net, False))\<rparr>"

definition sample_channels :: "(channel_id, unit \<times> string option) hashmap" where
  "sample_channels = hm_insert EthereumSepolia ((), None) (hm_insert KaspaTn10 ((), None) hm_empty)"

lemma sample_sink_builds: "\<exists>sk intakes. sink_new sample_data_env sample_sink_dial sample_channels None None = Inr (sk, intakes)"
  by (simp add: sink_new_def sample_channels_def hm_iter_eval build_buffer_def sample_data_env_def
      sample_sink_dial_def evm_connect_def kaspa_connect_def parse_address_def build_providers_def build_client_def
      sample_alloy_def sample_net_def sample_dial_def retry_timed_first Let_def case_prod_beta)

theorem sink_stays_typed_witness:
  "\<exists>sk intakes. sink_new sample_data_env sample_sink_dial sample_channels None None = Inr (sk, intakes) \<and>
     sink_typed sk \<and> sink_knows_channel sk KaspaTn10 \<and> \<not> sink_knows_channel sk IgraGalleon"
proof -
  obtain sk intakes where new: "sink_new sample_data_env sample_sink_dial sample_channels None None = Inr (sk, intakes)"
    using sample_sink_builds by blast
  with sink_stays_typed [OF new rtranclp.rtrancl_refl] show ?thesis
    by (auto simp: sample_channels_def)
qed

end
