(* ===== verification/P2p_Wire.thy ===== *)
theory P2p_Wire
  imports Swap_Records
begin

text \<open>
  The messages of the peer-to-peer network and their encoding (\<open>p2p/src/wire/\<close>), the digest that a
  liquidity provider signs (\<open>identity.rs\<close>), listen addresses (\<open>addr.rs\<close>) and the errors of the crate
  (\<open>error.rs\<close>). Borsh is a parameter; its format is given at the end as the instance of that parameter.
\<close>

section \<open>Messages\<close>

record peer_addr =
  pa_url :: string
  pa_last_seen :: u64

record node_state =
  ns_node_id :: bytes
  ns_listen_addr :: "string option"
  ns_peers :: "peer_addr list"

record proposal_request =
  pq_swap_id :: bytes
  pq_origin :: u8
  pq_destination :: u8
  pq_amount :: string
  pq_extra_data :: bytes

record proposal_response =
  pp_swap_id :: bytes
  pp_origin :: u8
  pp_destination :: u8
  pp_amount_in :: string
  pp_amount_out :: string
  pp_sender_destination_address :: string
  pp_commit_unlock_offset_secs :: u64
  pp_lp_sender_address :: string
  pp_lp_signature :: bytes
  pp_lp_block_confirmations :: u64
  pp_extra_data :: bytes

record proposal_error =
  pe_swap_id :: bytes
  pe_origin :: u8
  pe_destination :: u8
  pe_reason :: string

record script_announce =
  sc_address :: string
  sc_swap_id :: bytes
  sc_redeem_script :: bytes
  sc_unlock_ts :: u64
  sc_deposit_target :: string

datatype p2p_msg =
    StateMsg node_state
  | ProposalRequestMsg proposal_request
  | ProposalResponseMsg proposal_response
  | RevealMsg reveal_v1
  | ScriptAnnounceMsg script_announce
  | ProposalErrorMsg proposal_error

datatype p2p_error =
    Codec string
  | MessageTooLarge nat nat
  | IoError string
  | TransportClosed
  | HandshakeFailed string

definition p2p_error_to_string :: "p2p_error \<Rightarrow> string" where
  "p2p_error_to_string e =
     (case e of
        Codec io \<Rightarrow> ''Borsh codec error: '' @ io
      | MessageTooLarge sz max_sz \<Rightarrow>
          ''Inbound P2P message too large: '' @ show_nat sz @ '' bytes (max '' @ show_nat max_sz @ '')''
      | IoError m \<Rightarrow> ''IO error: '' @ m
      | TransportClosed \<Rightarrow> ''Transport closed''
      | HandshakeFailed m \<Rightarrow> ''Handshake failed: '' @ m)"

section \<open>The codec\<close>

definition MAX_MESSAGE_BYTES :: nat where "MAX_MESSAGE_BYTES = 256 * 1024"

definition p2p_encode :: "p2p_msg borsh_codec \<Rightarrow> p2p_msg \<Rightarrow> (bytes, p2p_error) result" where
  "p2p_encode B msg = map_err Codec (bo_to_vec B msg)"

definition p2p_decode :: "p2p_msg borsh_codec \<Rightarrow> bytes \<Rightarrow> (p2p_msg, p2p_error) result" where
  "p2p_decode B bs =
     (if MAX_MESSAGE_BYTES < length bs then Inl (MessageTooLarge (length bs) MAX_MESSAGE_BYTES)
      else map_err Codec (bo_try_from_slice B bs))"

lemma p2p_decode_encode:
  assumes "borsh_roundtrip B" and "p2p_encode B m = Inr bs"
  shows "p2p_decode B bs =
    (if length bs \<le> MAX_MESSAGE_BYTES then Inr m else Inl (MessageTooLarge (length bs) MAX_MESSAGE_BYTES))"
  using assms by (auto simp: p2p_encode_def p2p_decode_def borsh_roundtrip_def result_simps)

section \<open>Listen addresses\<close>

definition trim_end_slash :: "string \<Rightarrow> string" where
  "trim_end_slash s = rev (dropWhile (\<lambda>c. c = CHR ''/'') (rev s))"

definition normalize_listen_addr :: "string \<Rightarrow> string" where
  "normalize_listen_addr s = map lower_char (trim_end_slash s)"

definition listen_addrs_equal :: "string \<Rightarrow> string \<Rightarrow> bool" where
  "listen_addrs_equal a b = (map lower_char (trim_end_slash a) = map lower_char (trim_end_slash b))"

lemma listen_addrs_equal_iff: "listen_addrs_equal a b \<longleftrightarrow> normalize_listen_addr a = normalize_listen_addr b"
  by (simp add: listen_addrs_equal_def normalize_listen_addr_def)

section \<open>The digest of a proposal\<close>

text \<open>What is hashed; \<open>as u64\<close> of a length is exact, as lengths fit a machine word.\<close>

definition str_field :: "string \<Rightarrow> bytes" where
  "str_field s = to_le_bytes (of_nat (length s)) @ bytes_of_chars s"

definition proposal_preimage ::
  "bytes \<Rightarrow> u8 \<Rightarrow> u8 \<Rightarrow> string \<Rightarrow> string \<Rightarrow> string \<Rightarrow> string \<Rightarrow> u64 \<Rightarrow> u64 \<Rightarrow> bytes" where
  "proposal_preimage swap_id origin destination amount_in amount_out sender_destination_address
     lp_sender_address commit_unlock_offset_secs lp_block_confirmations =
     bytes_of_chars ''stroemnet:proposal:v3'' @ swap_id @ [origin, destination] @
     str_field amount_in @ str_field amount_out @ str_field sender_destination_address @
     str_field lp_sender_address @ to_le_bytes commit_unlock_offset_secs @ to_le_bytes lp_block_confirmations"

definition proposal_digest ::
  "(bytes \<Rightarrow> bytes) \<Rightarrow> bytes \<Rightarrow> u8 \<Rightarrow> u8 \<Rightarrow> string \<Rightarrow> string \<Rightarrow> string \<Rightarrow> string \<Rightarrow> u64 \<Rightarrow> u64 \<Rightarrow> bytes" where
  "proposal_digest sha256 swap_id origin destination amount_in amount_out sender_destination_address
     lp_sender_address commit_unlock_offset_secs lp_block_confirmations =
     sha256 (proposal_preimage swap_id origin destination amount_in amount_out sender_destination_address
       lp_sender_address commit_unlock_offset_secs lp_block_confirmations)"

lemma to_le_bytes_inject [simp]: "to_le_bytes a = to_le_bytes b \<longleftrightarrow> a = b"
  by (metis from_to_le_bytes)

lemma bytes_of_chars_inject [simp]: "bytes_of_chars a = bytes_of_chars b \<longleftrightarrow> a = b"
  by (metis chars_of_bytes_of_chars)

lemma length_bytes_of_chars [simp]: "length (bytes_of_chars s) = length s"
  by (simp add: bytes_of_chars_def)

lemma str_field_inject:
  assumes "length s < 2 ^ 64" and "length t < 2 ^ 64" and "str_field s @ x = str_field t @ y"
  shows "s = t \<and> x = y"
proof -
  have "to_le_bytes (of_nat (length s)) = to_le_bytes (of_nat (length t))"
      and rest: "bytes_of_chars s @ x = bytes_of_chars t @ y"
    using assms(3) by (simp_all add: str_field_def)
  then have "(of_nat (length s) :: u64) = of_nat (length t)"
    by simp
  then have "length s = length t"
    using assms(1,2) by (simp add: word_of_nat_eq_iff take_bit_nat_eq_self)
  with rest show ?thesis
    by simp
qed

lemma proposal_preimage_inject:
  assumes "length sid = 32" "length sid' = 32"
    and "\<forall>s \<in> {a, b, c, d, a', b', c', d'}. length s < 2 ^ 64"
    and "proposal_preimage sid ori dst a b c d u k = proposal_preimage sid' ori' dst' a' b' c' d' u' k'"
  shows "sid = sid' \<and> ori = ori' \<and> dst = dst' \<and> a = a' \<and> b = b' \<and> c = c' \<and> d = d' \<and> u = u' \<and> k = k'"
proof -
  have ids: "sid = sid'" "ori = ori'" "dst = dst'"
      and rest: "str_field a @ str_field b @ str_field c @ str_field d @ to_le_bytes u @ to_le_bytes k =
        str_field a' @ str_field b' @ str_field c' @ str_field d' @ to_le_bytes u' @ to_le_bytes k'"
    using assms(1,2,4) by (simp_all add: proposal_preimage_def)
  have a: "a = a'" and b1: "str_field b @ str_field c @ str_field d @ to_le_bytes u @ to_le_bytes k =
        str_field b' @ str_field c' @ str_field d' @ to_le_bytes u' @ to_le_bytes k'"
    using str_field_inject [OF _ _ rest] assms(3) by auto
  have b: "b = b'" and c1: "str_field c @ str_field d @ to_le_bytes u @ to_le_bytes k =
        str_field c' @ str_field d' @ to_le_bytes u' @ to_le_bytes k'"
    using str_field_inject [OF _ _ b1] assms(3) by auto
  have c: "c = c'" and d1: "str_field d @ to_le_bytes u @ to_le_bytes k =
        str_field d' @ to_le_bytes u' @ to_le_bytes k'"
    using str_field_inject [OF _ _ c1] assms(3) by auto
  have "d = d'" and "to_le_bytes u @ to_le_bytes k = to_le_bytes u' @ to_le_bytes k'"
    using str_field_inject [OF _ _ d1] assms(3) by auto
  with ids a b c show ?thesis
    by simp
qed

section \<open>The Borsh format of the messages\<close>

fun enc_list :: "('a \<Rightarrow> bytes option) \<Rightarrow> 'a list \<Rightarrow> bytes option" where
  "enc_list e [] = Some []"
| "enc_list e (x # xs) =
     (case (e x, enc_list e xs) of (Some b, Some bs) \<Rightarrow> Some (b @ bs) | _ \<Rightarrow> None)"

fun dec_list :: "(bytes \<Rightarrow> ('a \<times> bytes) option) \<Rightarrow> nat \<Rightarrow> bytes \<Rightarrow> ('a list \<times> bytes) option" where
  "dec_list d 0 bs = Some ([], bs)"
| "dec_list d (Suc n) bs =
     (case d bs of None \<Rightarrow> None
      | Some (x, rest) \<Rightarrow> (case dec_list d n rest of None \<Rightarrow> None | Some (xs, r) \<Rightarrow> Some (x # xs, r)))"

definition f_list :: "'a fmt \<Rightarrow> 'a list fmt" where
  "f_list c =
     (\<lambda>xs. if length xs < 2 ^ 32 then map_option ((@) (le_bytes 4 (length xs))) (enc_list (fst c) xs) else None,
      \<lambda>bs. if 4 \<le> length bs then dec_list (snd c) (le_nat (take 4 bs)) (drop 4 bs) else None)"

lemma fmt_ok_list [simp]:
  assumes "fmt_ok c"
  shows "fmt_ok (f_list c)"
proof -
  have "dec_list (snd c) (length xs) (b @ rest) = Some (xs, rest)" if "enc_list (fst c) xs = Some b" for xs b rest
    using that
    by (induction xs arbitrary: b) (auto simp: fmt_okD [OF assms] split: option.splits)
  moreover have "le_nat (le_bytes 4 n) = n" if "n < 2 ^ 32" for n
    using that by (intro le_nat_le_bytes) simp
  ultimately show ?thesis
    by (auto simp: fmt_ok_def f_list_def split: if_splits)
qed

definition f_state :: "node_state fmt" where
  "f_state = f_iso (\<lambda>s. (ns_node_id s, ns_listen_addr s, ns_peers s))
     (\<lambda>(a, b, c). \<lparr>ns_node_id = a, ns_listen_addr = b, ns_peers = c\<rparr>)
     (f_pair f_id (f_pair (f_option f_string)
       (f_list (f_iso (\<lambda>p. (pa_url p, pa_last_seen p)) (\<lambda>(a, b). \<lparr>pa_url = a, pa_last_seen = b\<rparr>)
         (f_pair f_string (f_word 8))))))"

definition f_request :: "proposal_request fmt" where
  "f_request = f_iso (\<lambda>r. (pq_swap_id r, pq_origin r, pq_destination r, pq_amount r, pq_extra_data r))
     (\<lambda>(a, b, c, d, e). \<lparr>pq_swap_id = a, pq_origin = b, pq_destination = c, pq_amount = d, pq_extra_data = e\<rparr>)
     (f_pair f_id (f_pair (f_word 1) (f_pair (f_word 1) (f_pair f_string f_vec))))"

definition f_response :: "proposal_response fmt" where
  "f_response = f_iso
     (\<lambda>r. (pp_swap_id r, pp_origin r, pp_destination r, pp_amount_in r, pp_amount_out r,
       pp_sender_destination_address r, pp_commit_unlock_offset_secs r, pp_lp_sender_address r,
       pp_lp_signature r, pp_lp_block_confirmations r, pp_extra_data r))
     (\<lambda>(a, b, c, d, e, f, g, h, i, j, k). \<lparr>pp_swap_id = a, pp_origin = b, pp_destination = c, pp_amount_in = d,
       pp_amount_out = e, pp_sender_destination_address = f, pp_commit_unlock_offset_secs = g,
       pp_lp_sender_address = h, pp_lp_signature = i, pp_lp_block_confirmations = j, pp_extra_data = k\<rparr>)
     (f_pair f_id (f_pair (f_word 1) (f_pair (f_word 1) (f_pair f_string (f_pair f_string (f_pair f_string
       (f_pair (f_word 8) (f_pair f_string (f_pair f_vec (f_pair (f_word 8) f_vec))))))))))"

definition f_reveal :: "reveal_v1 fmt" where
  "f_reveal = f_iso (\<lambda>r. (rv_swap_id r, rv_secret r)) (\<lambda>(a, b). reveal_new a b) (f_pair f_id f_id)"

definition f_announce :: "script_announce fmt" where
  "f_announce = f_iso (\<lambda>s. (sc_address s, sc_swap_id s, sc_redeem_script s, sc_unlock_ts s, sc_deposit_target s))
     (\<lambda>(a, b, c, d, e). \<lparr>sc_address = a, sc_swap_id = b, sc_redeem_script = c, sc_unlock_ts = d,
       sc_deposit_target = e\<rparr>)
     (f_pair f_string (f_pair f_id (f_pair f_vec (f_pair (f_word 8) f_string))))"

definition f_rejection :: "proposal_error fmt" where
  "f_rejection = f_iso (\<lambda>r. (pe_swap_id r, pe_origin r, pe_destination r, pe_reason r))
     (\<lambda>(a, b, c, d). \<lparr>pe_swap_id = a, pe_origin = b, pe_destination = c, pe_reason = d\<rparr>)
     (f_pair f_id (f_pair (f_word 1) (f_pair (f_word 1) f_string)))"

definition tagged :: "u8 \<Rightarrow> 'a fmt \<Rightarrow> 'a \<Rightarrow> bytes option" where
  "tagged t c x = map_option ((#) t) (fst c x)"

definition untag :: "'a fmt \<Rightarrow> ('a \<Rightarrow> 'b) \<Rightarrow> bytes \<Rightarrow> ('b \<times> bytes) option" where
  "untag c con bs = map_option (\<lambda>(x, rest). (con x, rest)) (snd c bs)"

definition f_msg :: "p2p_msg fmt" where
  "f_msg =
     (\<lambda>m. case m of StateMsg s \<Rightarrow> tagged 0 f_state s | ProposalRequestMsg r \<Rightarrow> tagged 1 f_request r
        | ProposalResponseMsg r \<Rightarrow> tagged 2 f_response r | RevealMsg r \<Rightarrow> tagged 3 f_reveal r
        | ScriptAnnounceMsg s \<Rightarrow> tagged 4 f_announce s | ProposalErrorMsg e \<Rightarrow> tagged 5 f_rejection e,
      \<lambda>bs. case bs of [] \<Rightarrow> None
        | t # r \<Rightarrow> if t = 0 then untag f_state StateMsg r else if t = 1 then untag f_request ProposalRequestMsg r
            else if t = 2 then untag f_response ProposalResponseMsg r else if t = 3 then untag f_reveal RevealMsg r
            else if t = 4 then untag f_announce ScriptAnnounceMsg r
            else if t = 5 then untag f_rejection ProposalErrorMsg r else None)"

lemma fmt_ok_parts:
  "fmt_ok f_state" "fmt_ok f_request" "fmt_ok f_response" "fmt_ok f_reveal" "fmt_ok f_announce" "fmt_ok f_rejection"
  unfolding f_state_def f_request_def f_response_def f_reveal_def f_announce_def f_rejection_def f_string_def f_id_def
  by (intro fmt_ok_iso fmt_ok_pair fmt_ok_option fmt_ok_word fmt_ok_vec fmt_ok_fixed fmt_ok_list;
      simp add: reveal_new_def)+

lemma fmt_ok_msg: "fmt_ok f_msg"
  unfolding fmt_ok_def
proof (intro allI impI)
  fix m b rest
  assume "fst f_msg m = Some b"
  then show "snd f_msg (b @ rest) = Some (m, rest)"
    by (cases m) (auto simp: f_msg_def tagged_def untag_def dest!: fmt_ok_parts [THEN fmt_okD])
qed

definition msg_codec :: "p2p_msg borsh_codec" where
  "msg_codec = borsh_of f_msg"

lemma msg_codec_roundtrip: "borsh_roundtrip msg_codec"
  unfolding msg_codec_def by (rule borsh_roundtrip_of [OF fmt_ok_msg])

end
