(* ===== verification/P2p_Network.thy ===== *)
theory P2p_Network
  imports P2p_Wire Storage
begin

text \<open>
  The network of peers (\<open>p2p/src/{gossip,network,peer,transport}\<close>): the set of messages that were seen,
  the websocket transport, the handshake, the connected peers, relaying and discovery. A websocket is a
  value of type \<open>'t\<close>; what it delivers is a list of frames, what a send on it returns is a parameter, and
  the messages a call sends are returned as a list of (url, bytes).
\<close>

section \<open>The set of messages that were seen\<close>

record seen_set =
  ss_cap :: nat
  ss_set :: "bytes set"
  ss_order :: "bytes list"

definition seen_new :: "nat \<Rightarrow> seen_set" where
  "seen_new cap = \<lparr>ss_cap = cap, ss_set = {}, ss_order = []\<rparr>"

definition seen_insert :: "bytes \<Rightarrow> seen_set \<Rightarrow> bool \<times> seen_set" where
  "seen_insert hash s =
     (if hash \<in> ss_set s then (False, s)
      else
        let s = s\<lparr>ss_set := insert hash (ss_set s), ss_order := ss_order s @ [hash]\<rparr> in
        if ss_cap s < card (ss_set s) then
          (case ss_order s of [] \<Rightarrow> (True, s)
           | oldest # order \<Rightarrow> (True, s\<lparr>ss_set := ss_set s - {oldest}, ss_order := order\<rparr>))
        else (True, s))"

definition seen_hash :: "(bytes \<Rightarrow> bytes) \<Rightarrow> bytes \<Rightarrow> bytes" where
  "seen_hash sha256 payload = sha256 payload"

section \<open>The transport\<close>

datatype ws_message = WsBinary bytes | WsClose | WsPing bytes | WsPong bytes | WsText string | WsFrame

type_synonym frames = "(ws_message, string) result list"

definition ws_msg_to_bytes :: "ws_message \<Rightarrow> (bytes option, p2p_error) result" where
  "ws_msg_to_bytes msg =
     (case msg of WsBinary b \<Rightarrow> Inr (Some b) | WsClose \<Rightarrow> Inl TransportClosed | _ \<Rightarrow> Inr None)"

text \<open>\<open>recv\<close> skips the frames that carry no bytes; it returns what is left of the stream.\<close>

fun ws_recv :: "frames \<Rightarrow> (bytes, p2p_error) result \<times> frames" where
  "ws_recv [] = (Inl TransportClosed, [])"
| "ws_recv (Inl e # rest) = (Inl (IoError (''ws recv: '' @ e)), rest)"
| "ws_recv (Inr msg # rest) =
     (case ws_msg_to_bytes msg of Inl e \<Rightarrow> (Inl e, rest)
      | Inr (Some b) \<Rightarrow> (Inr b, rest) | Inr None \<Rightarrow> ws_recv rest)"

text \<open>
  The transport of the browser build: its messages are bytes or text, and a text is skipped. It reads the
  stream as the native transport reads the same frames.
\<close>

datatype web_message = WebBytes bytes | WebText string

fun web_recv :: "(web_message, string) result list \<Rightarrow> (bytes, p2p_error) result \<times> (web_message, string) result list" where
  "web_recv [] = (Inl TransportClosed, [])"
| "web_recv (Inl e # rest) = (Inl (IoError (''ws recv: '' @ e)), rest)"
| "web_recv (Inr (WebBytes b) # rest) = (Inr b, rest)"
| "web_recv (Inr (WebText _) # rest) = web_recv rest"

fun native_message :: "web_message \<Rightarrow> ws_message" where
  "native_message (WebBytes b) = WsBinary b"
| "native_message (WebText s) = WsText s"

lemma web_recv_native:
  "ws_recv (map (map_sum id native_message) fs) = map_prod id (map (map_sum id native_message)) (web_recv fs)"
  by (induction fs rule: web_recv.induct) (simp_all add: ws_msg_to_bytes_def)

definition web_dial :: "(string \<Rightarrow> ('t, string) result) \<Rightarrow> string \<Rightarrow> ('t, p2p_error) result" where
  "web_dial open url = map_err (\<lambda>e. IoError (''dial '' @ url @ '': '' @ e)) (open url)"

definition web_send_err :: "(unit, string) result \<Rightarrow> (unit, p2p_error) result" where
  "web_send_err r = map_err (\<lambda>e. IoError (''ws send: '' @ e)) r"

text \<open>
  What the operating system and the websocket library do: opening a connection, sending on it
  (\<open>None\<close>: the timer of five seconds fires first), and the text of a message in an error.
\<close>

record 't p2p_net =
  pn_connect :: "string \<Rightarrow> ('t \<times> frames, string) result"
  pn_send :: "'t \<Rightarrow> bytes \<Rightarrow> (unit, string) result option"
  pn_debug :: "p2p_msg \<Rightarrow> string"
  pn_codec :: "p2p_msg borsh_codec"
  pn_sha256 :: "bytes \<Rightarrow> bytes"

definition ws_dial :: "'t p2p_net \<Rightarrow> string \<Rightarrow> ('t \<times> frames, p2p_error) result" where
  "ws_dial N url = map_err (\<lambda>e. IoError (''dial '' @ url @ '': '' @ e)) (pn_connect N url)"

definition ws_send_err :: "(unit, string) result \<Rightarrow> (unit, p2p_error) result" where
  "ws_send_err r = map_err (\<lambda>e. IoError (''ws send: '' @ e)) r"

section \<open>Peers\<close>

record 't connected_peer =
  cp_url :: string
  cp_transport :: 't
  cp_node_id :: bytes
  cp_advertised_listen :: "string option"
  cp_connected_at :: u64
  cp_is_inbound :: bool
  cp_known_peers :: "peer_addr list"

definition connected_peer_new :: "string \<Rightarrow> 't \<Rightarrow> 't connected_peer" where
  "connected_peer_new url transport =
     \<lparr>cp_url = url, cp_transport = transport, cp_node_id = replicate 32 0, cp_advertised_listen = None,
      cp_connected_at = 0, cp_is_inbound = False, cp_known_peers = []\<rparr>"

definition recv_msg :: "p2p_msg borsh_codec \<Rightarrow> frames \<Rightarrow> (p2p_msg, p2p_error) result \<times> frames" where
  "recv_msg B fs = (case ws_recv fs of (r, rest) \<Rightarrow> (r_bind r (p2p_decode B), rest))"

definition check_self_loop :: "node_state \<Rightarrow> bytes \<Rightarrow> string option \<Rightarrow> (unit, p2p_error) result" where
  "check_self_loop peer our_node_id our_listen =
     (if ns_node_id peer = our_node_id
      then Inl (HandshakeFailed ''rejecting self-loop: peer node_id matches ours'')
      else case (our_listen, ns_listen_addr peer) of
        (Some ours, Some theirs) \<Rightarrow>
          if listen_addrs_equal ours theirs
          then Inl (HandshakeFailed (''peer advertises our listen_addr ('' @ theirs @ '')''))
          else Inr ()
      | _ \<Rightarrow> Inr ())"

text \<open>\<open>handshake\<close>: sending and receiving run side by side, so that an error of the send comes first.\<close>

definition handshake ::
  "'t p2p_net \<Rightarrow> u64 \<Rightarrow> string \<Rightarrow> 't \<Rightarrow> frames \<Rightarrow> (unit, string) result \<Rightarrow> node_state \<Rightarrow> bool
     \<Rightarrow> ('t connected_peer, p2p_error) result \<times> frames" where
  "handshake N now_secs url transport fs sent our_state is_inbound =
     (case recv_msg (pn_codec N) fs of (recv_res, rest) \<Rightarrow>
       (r_bind (r_bind (p2p_encode (pn_codec N) (StateMsg our_state)) (\<lambda>_. ws_send_err sent)) (\<lambda>_.
        r_bind recv_res (\<lambda>msg.
        case msg of
          StateMsg peer_state \<Rightarrow>
            r_bind (check_self_loop peer_state (ns_node_id our_state) (ns_listen_addr our_state)) (\<lambda>_.
            Inr ((connected_peer_new url transport)
              \<lparr>cp_node_id := ns_node_id peer_state,
               cp_advertised_listen :=
                 (if is_inbound then ns_listen_addr peer_state
                  else Some (case ns_listen_addr peer_state of None \<Rightarrow> url | Some a \<Rightarrow> a)),
               cp_connected_at := now_secs, cp_is_inbound := is_inbound,
               cp_known_peers := ns_peers peer_state\<rparr>))
        | _ \<Rightarrow> Inl (HandshakeFailed (''expected state, got '' @ pn_debug N msg)))), rest))"

section \<open>The state of the network\<close>

record p2p_config =
  pc_node_id :: bytes
  pc_bootstrap_peers :: "string list"
  pc_target_outbound :: nat
  pc_max_inbound :: nat
  pc_advertised_listen_addr :: "string option"
  pc_discovery :: bool

definition p2p_config_default :: "bytes \<Rightarrow> p2p_config" where
  "p2p_config_default random_id =
     \<lparr>pc_node_id = random_id, pc_bootstrap_peers = [], pc_target_outbound = 8, pc_max_inbound = 125,
      pc_advertised_listen_addr = None, pc_discovery = False\<rparr>"

record 't p2p =
  nw_config :: p2p_config
  nw_connected_peers :: "'t connected_peer list"
  nw_seen :: seen_set
  nw_blacklist :: "bytes set"

record net_event =
  ne_from :: string
  ne_msg :: p2p_msg

definition p2p_new :: "p2p_config \<Rightarrow> 't p2p" where
  "p2p_new config =
     \<lparr>nw_config = config, nw_connected_peers = [], nw_seen = seen_new 50000, nw_blacklist = {}\<rparr>"

definition blacklist_peer :: "bytes \<Rightarrow> 't p2p \<Rightarrow> 't p2p" where
  "blacklist_peer node_id p = p\<lparr>nw_blacklist := insert node_id (nw_blacklist p)\<rparr>"

definition is_blacklisted :: "'t p2p \<Rightarrow> bytes \<Rightarrow> bool" where
  "is_blacklisted p node_id = (node_id \<in> nw_blacklist p)"

definition add_connected_peer :: "'t connected_peer \<Rightarrow> 't p2p \<Rightarrow> nat \<times> 't p2p" where
  "add_connected_peer peer p =
     (let peers = nw_connected_peers p @ [peer] in (length peers - 1, p\<lparr>nw_connected_peers := peers\<rparr>))"

definition remove_connected_peer :: "string \<Rightarrow> 't p2p \<Rightarrow> 't p2p" where
  "remove_connected_peer url p =
     p\<lparr>nw_connected_peers := filter (\<lambda>c. cp_url c \<noteq> url) (nw_connected_peers p)\<rparr>"

definition connected_peer_addr :: "string option \<Rightarrow> 't connected_peer \<Rightarrow> peer_addr option" where
  "connected_peer_addr our_listen c =
     (case cp_advertised_listen c of None \<Rightarrow> None
      | Some url \<Rightarrow>
          if (case our_listen of None \<Rightarrow> False | Some ours \<Rightarrow> listen_addrs_equal url ours) then None
          else Some \<lparr>pa_url = url, pa_last_seen = cp_connected_at c\<rparr>)"

definition connected_peer_addrs :: "'t p2p \<Rightarrow> peer_addr list" where
  "connected_peer_addrs p =
     List.map_filter (connected_peer_addr (pc_advertised_listen_addr (nw_config p))) (nw_connected_peers p)"

definition is_connected_peer :: "'t p2p \<Rightarrow> string \<Rightarrow> bool" where
  "is_connected_peer p listen_url_norm =
     list_ex (\<lambda>c. case cp_advertised_listen c of None \<Rightarrow> False
                  | Some u \<Rightarrow> listen_addrs_equal u listen_url_norm) (nw_connected_peers p)"

definition current_state :: "'t p2p \<Rightarrow> node_state" where
  "current_state p =
     \<lparr>ns_node_id = pc_node_id (nw_config p), ns_listen_addr = pc_advertised_listen_addr (nw_config p),
      ns_peers = connected_peer_addrs p\<rparr>"

section \<open>Relaying\<close>

definition send_timed :: "'t p2p_net \<Rightarrow> 't connected_peer \<Rightarrow> bytes \<Rightarrow> (unit, p2p_error) result" where
  "send_timed N peer bs =
     (case pn_send N (cp_transport peer) bs of None \<Rightarrow> Inl (IoError ''ws send timed out'')
      | Some r \<Rightarrow> ws_send_err r)"

type_synonym sent = "(string \<times> bytes) list"

definition observe :: "'t p2p_net \<Rightarrow> bytes \<Rightarrow> 't p2p \<Rightarrow> bool \<times> 't p2p" where
  "observe N payload p =
     (case seen_insert (seen_hash (pn_sha256 N) payload) (nw_seen p) of (b, s) \<Rightarrow> (b, p\<lparr>nw_seen := s\<rparr>))"

text \<open>A failed send is logged and the next peer is tried: all targets are sent to.\<close>

definition send_bytes_to_all :: "bytes \<Rightarrow> string option \<Rightarrow> 't p2p \<Rightarrow> sent" where
  "send_bytes_to_all bs exclude p =
     map (\<lambda>c. (cp_url c, bs)) (filter (\<lambda>c. Some (cp_url c) \<noteq> exclude) (nw_connected_peers p))"

definition broadcast :: "'t p2p_net \<Rightarrow> p2p_msg \<Rightarrow> 't p2p \<Rightarrow> (unit, p2p_error) result \<times> 't p2p \<times> sent" where
  "broadcast N msg p =
     (case p2p_encode (pn_codec N) msg of Inl e \<Rightarrow> (Inl e, p, [])
      | Inr bs \<Rightarrow> (case observe N bs p of (_, p) \<Rightarrow> (Inr (), p, send_bytes_to_all bs None p)))"

definition send_to :: "'t p2p_net \<Rightarrow> string \<Rightarrow> p2p_msg \<Rightarrow> 't p2p \<Rightarrow> (unit, p2p_error) result \<times> sent" where
  "send_to N url msg p =
     (case p2p_encode (pn_codec N) msg of Inl e \<Rightarrow> (Inl e, [])
      | Inr bs \<Rightarrow> (case find (\<lambda>c. cp_url c = url) (nw_connected_peers p) of
            None \<Rightarrow> (Inr (), [])
          | Some peer \<Rightarrow> (send_timed N peer bs, [(cp_url peer, bs)])))"

definition forward :: "'t p2p_net \<Rightarrow> string \<Rightarrow> p2p_msg \<Rightarrow> 't p2p \<Rightarrow> (bool, p2p_error) result \<times> 't p2p \<times> sent" where
  "forward N from_url msg p =
     (case p2p_encode (pn_codec N) msg of Inl e \<Rightarrow> (Inl e, p, [])
      | Inr bs \<Rightarrow> (case observe N bs p of (fresh, p) \<Rightarrow>
          if \<not> fresh then (Inr False, p, []) else (Inr True, p, send_bytes_to_all bs (Some from_url) p)))"

text \<open>One round of \<open>spawn_periodic_state_broadcast\<close>.\<close>

definition periodic_state_broadcast :: "'t p2p_net \<Rightarrow> 't p2p \<Rightarrow> 't p2p \<times> sent" where
  "periodic_state_broadcast N p =
     (let state = current_state p in
      if ns_peers state = [] then (p, [])
      else case broadcast N (StateMsg state) p of (_, p, out) \<Rightarrow> (p, out))"

section \<open>Dialling and accepting\<close>

text \<open>
  \<open>dial\<close> and \<open>accept_inbound\<close>. What sending our state returns is known once the websocket is open.
  \<open>accept_inbound\<close> delivers the peer only when the handshake ends within ten seconds.
\<close>

definition p2p_dial ::
  "'t p2p_net \<Rightarrow> u64 \<Rightarrow> ('t \<Rightarrow> (unit, string) result) \<Rightarrow> 't p2p \<Rightarrow> string
     \<Rightarrow> ('t connected_peer \<times> frames, p2p_error) result" where
  "p2p_dial N now_secs send_state p url =
     r_bind (ws_dial N url) (\<lambda>(transport, fs).
     case handshake N now_secs url transport fs (send_state transport) (current_state p) False of
       (r, rest) \<Rightarrow> r_bind r (\<lambda>peer. Inr (peer, rest)))"

text \<open>The attempts of \<open>dial_with_backoff\<close>: what each \<open>dial\<close> returns, and the pauses slept between them.\<close>

fun dial_attempts :: "nat \<Rightarrow> u64 \<Rightarrow> (nat \<Rightarrow> ('a, p2p_error) result) \<Rightarrow> nat \<Rightarrow> 'a option \<times> u64 list" where
  "dial_attempts 0 delay_ms dial i = (None, [])"
| "dial_attempts (Suc n) delay_ms dial i =
     (case dial i of Inr peer \<Rightarrow> (Some peer, [])
      | Inl e \<Rightarrow>
          (case dial_attempts n (min (delay_ms * 2) 60000) dial (Suc i) of
             (r, sleeps) \<Rightarrow> (r, delay_ms # sleeps)))"

definition dial_with_backoff :: "(nat \<Rightarrow> ('a, p2p_error) result) \<Rightarrow> 'a option \<times> u64 list" where
  "dial_with_backoff dial = dial_attempts 5 1000 dial 0"

definition accept_inbound ::
  "'t p2p_net \<Rightarrow> u64 \<Rightarrow> ('t \<times> frames, string) result \<Rightarrow> (unit, string) result \<Rightarrow> bool \<Rightarrow> string \<Rightarrow> 't p2p
     \<Rightarrow> ('t connected_peer \<times> frames) option" where
  "accept_inbound N now_secs ws sent in_time addr p =
     (if \<not> in_time then None
      else case map_err (\<lambda>e. IoError (''ws accept '' @ addr @ '': '' @ e)) ws of
        Inl e \<Rightarrow> None
      | Inr (transport, fs) \<Rightarrow>
          (case handshake N now_secs (''ws://'' @ addr) transport fs sent (current_state p) True of
             (Inr peer, rest) \<Rightarrow> Some (peer, rest)
           | (Inl e, rest) \<Rightarrow> None))"

section \<open>Discovery\<close>

text \<open>
  The loop of \<open>process_peer_addrs_native\<close>: the urls it asks the dialler for. \<open>dial_open n\<close> tells whether
  the channel to the dialler still accepts request number \<open>n\<close>.
\<close>

fun request_dials ::
  "(nat \<Rightarrow> bool) \<Rightarrow> string option \<Rightarrow> string set \<Rightarrow> nat \<Rightarrow> peer_addr list \<Rightarrow> nat \<Rightarrow> string list" where
  "request_dials dial_open our_listen connected target [] requested = []"
| "request_dials dial_open our_listen connected target (entry # addrs) requested =
     (if target \<le> card connected + requested then []
      else
        let url_norm = normalize_listen_addr (pa_url entry) in
        if our_listen = Some url_norm \<or> url_norm \<in> connected
        then request_dials dial_open our_listen connected target addrs requested
        else if \<not> starts_with ''ws://'' url_norm \<and> \<not> starts_with ''wss://'' url_norm
        then request_dials dial_open our_listen connected target addrs requested
        else if \<not> dial_open requested then []
        else pa_url entry # request_dials dial_open our_listen connected target addrs (Suc requested))"

definition connected_listens :: "'t p2p \<Rightarrow> string set" where
  "connected_listens p =
     set (map normalize_listen_addr (List.map_filter cp_advertised_listen (nw_connected_peers p)))"

definition process_peer_addrs :: "(nat \<Rightarrow> bool) \<Rightarrow> 't p2p \<Rightarrow> peer_addr list \<Rightarrow> string list" where
  "process_peer_addrs dial_open p addrs =
     (if \<not> pc_discovery (nw_config p) then []
      else request_dials dial_open (map_option normalize_listen_addr (pc_advertised_listen_addr (nw_config p)))
        (connected_listens p) (pc_target_outbound (nw_config p)) addrs 0)"


section \<open>The seen set is a window on the accepted messages\<close>

definition seen_ok :: "seen_set \<Rightarrow> bool" where
  "seen_ok s = (ss_set s = set (ss_order s) \<and> distinct (ss_order s) \<and> length (ss_order s) \<le> ss_cap s)"

definition window_push :: "nat \<Rightarrow> bytes \<Rightarrow> bytes list \<Rightarrow> bytes list" where
  "window_push cap h w = (if h \<in> set w then w else drop (Suc (length w) - cap) (w @ [h]))"

lemma seen_ok_new [simp]: "seen_ok (seen_new cap)"
  by (simp add: seen_ok_def seen_new_def)

lemma seen_insert_window:
  assumes "seen_ok s"
  shows "seen_insert h s =
    (h \<notin> set (ss_order s),
     s\<lparr>ss_set := set (window_push (ss_cap s) h (ss_order s)), ss_order := window_push (ss_cap s) h (ss_order s)\<rparr>)"
proof (cases "h \<in> set (ss_order s)")
  case True
  with assms show ?thesis
    by (simp add: seen_insert_def window_push_def seen_ok_def)
next
  case False
  have card: "card (insert h (set (ss_order s))) = Suc (length (ss_order s))"
    using assms False by (simp add: seen_ok_def distinct_card)
  show ?thesis
  proof (cases "length (ss_order s) < ss_cap s")
    case True
    with assms False card show ?thesis
      by (simp add: seen_insert_def window_push_def seen_ok_def)
  next
    case full: False
    with assms have len: "length (ss_order s) = ss_cap s"
      by (simp add: seen_ok_def)
    obtain o' os where order: "ss_order s @ [h] = o' # os"
      by (cases "ss_order s") auto
    have "distinct (ss_order s @ [h])"
      using assms False by (simp add: seen_ok_def)
    then have "distinct (o' # os)" and "set (ss_order s @ [h]) = set (o' # os)"
      by (simp_all only: order)
    then have "insert h (set (ss_order s)) - {o'} = set os"
      by auto
    with assms False card len order show ?thesis
      by (simp add: seen_insert_def window_push_def seen_ok_def)
  qed
qed

lemma seen_insert_ok: "seen_ok s \<Longrightarrow> seen_ok (snd (seen_insert h s))"
  by (auto simp: seen_insert_window window_push_def simp del: drop_append)
    (auto simp: seen_ok_def distinct_drop simp del: drop_append)

section \<open>What discovery asks for\<close>

lemma request_dials_sound:
  "u \<in> set (request_dials ok ours conn target addrs n) \<Longrightarrow>
     u \<in> pa_url ` set addrs \<and> ours \<noteq> Some (normalize_listen_addr u) \<and> normalize_listen_addr u \<notin> conn \<and>
     (starts_with ''ws://'' (normalize_listen_addr u) \<or> starts_with ''wss://'' (normalize_listen_addr u))"
  by (induction addrs arbitrary: n) (auto simp: Let_def split: if_splits)

lemma request_dials_bound:
  "length (request_dials ok ours conn target addrs n) \<le> target - (card conn + n)"
proof (induction addrs arbitrary: n)
  case (Cons a addrs)
  have "length (request_dials ok ours conn target addrs (Suc n)) \<le> target - (card conn + Suc n)"
    by (rule Cons)
  with Cons [of n] show ?case
    by (auto simp: Let_def)
qed simp

section \<open>Dialling with back-off ends\<close>

lemma dial_attempts_first_success:
  "fst (dial_attempts n d dial i) =
     (case find (\<lambda>j. is_ok (dial j)) [i..<i + n] of None \<Rightarrow> None | Some j \<Rightarrow> to_option (dial j))"
proof (induction n arbitrary: d i)
  case (Suc n)
  have upt: "[i..<i + Suc n] = i # [Suc i..<Suc i + n]"
    by (simp add: upt_rec)
  show ?case
    unfolding upt using Suc [of "min (d * 2) 60000" "Suc i"]
    by (cases "dial i") (simp_all add: split_beta del: upt_Suc)
qed simp

lemma dial_with_backoff_cases:
  "fst (dial_with_backoff dial) =
     (case find (\<lambda>j. is_ok (dial j)) [0, 1, 2, 3, 4] of None \<Rightarrow> None | Some j \<Rightarrow> to_option (dial j))"
  "(\<forall>j < 5. \<not> is_ok (dial j)) \<Longrightarrow> dial_with_backoff dial = (None, [1000, 2000, 4000, 8000, 16000])"
proof -
  have five: "[0..<0 + 5] = [0, 1, 2, 3, 4::nat]"
    by (simp add: upt_rec)
  show "fst (dial_with_backoff dial) =
     (case find (\<lambda>j. is_ok (dial j)) [0, 1, 2, 3, 4] of None \<Rightarrow> None | Some j \<Rightarrow> to_option (dial j))"
    unfolding dial_with_backoff_def dial_attempts_first_success five ..
  assume fail: "\<forall>j < 5. \<not> is_ok (dial j)"
  have inl: "\<exists>e. dial j = Inl e" if "j < 5" for j
    using fail that by (cases "dial j") auto
  obtain e0 e1 e2 e3 e4 where "dial 0 = Inl e0" "dial (Suc 0) = Inl e1" "dial (Suc (Suc 0)) = Inl e2"
      "dial (Suc (Suc (Suc 0))) = Inl e3" "dial (Suc (Suc (Suc (Suc 0)))) = Inl e4"
    using inl [of 0] inl [of "Suc 0"] inl [of "Suc (Suc 0)"] inl [of "Suc (Suc (Suc 0))"]
      inl [of "Suc (Suc (Suc (Suc 0)))"] by auto
  moreover have "(5::nat) = Suc (Suc (Suc (Suc (Suc 0))))"
    by simp
  ultimately show "dial_with_backoff dial = (None, [1000, 2000, 4000, 8000, 16000])"
    by (simp only: dial_with_backoff_def dial_attempts.simps sum.case prod.case) simp
qed


section \<open>The size of the state a node sends\<close>

lemma f_pair_Some:
  "fst (f_pair c d) (x, y) = Some b \<longleftrightarrow> (\<exists>b1 b2. fst c x = Some b1 \<and> fst d y = Some b2 \<and> b = b1 @ b2)"
  by (auto simp: f_pair_def split: option.splits)

lemma f_iso_Some: "fst (f_iso f g c) x = fst c (f x)"
  by (simp add: f_iso_def)

lemma f_string_length: "fst f_string u = Some b \<Longrightarrow> length u \<le> length b"
  by (auto simp: f_string_def f_iso_def f_vec_def split: if_splits)

lemma enc_list_length:
  assumes "\<And>x b. e x = Some b \<Longrightarrow> g x \<le> length b" and "enc_list e xs = Some bs"
  shows "sum_list (map g xs) \<le> length bs"
  using assms(2)
proof (induction xs arbitrary: bs)
  case (Cons x xs)
  then obtain b bs' where b: "e x = Some b" "enc_list e xs = Some bs'" "bs = b @ bs'"
    by (auto split: option.splits)
  then have "g x \<le> length b" and "sum_list (map g xs) \<le> length bs'"
    using assms(1) [OF b(1)] Cons.IH by auto
  with b(3) show ?case
    by simp
qed simp

lemma f_state_length:
  assumes "fst f_state s = Some bs"
  shows "sum_list (map (length \<circ> pa_url) (ns_peers s)) \<le> length bs"
proof -
  let ?f = "f_iso (\<lambda>p. (pa_url p, pa_last_seen p)) (\<lambda>(a, b). \<lparr>pa_url = a, pa_last_seen = b\<rparr>)
    (f_pair f_string (f_word 8)) :: peer_addr fmt"
  have "(length \<circ> pa_url) x \<le> length b" if "fst ?f x = Some b" for x b
    using that f_string_length by (fastforce simp: f_iso_Some f_pair_Some)
  moreover obtain b3 where "length b3 \<le> length bs" and "enc_list (fst ?f) (ns_peers s) = Some b3"
    using assms by (auto simp: f_state_def f_iso_Some f_pair_Some f_list_def split: if_splits)
  ultimately show ?thesis
    using enc_list_length [of "fst ?f" "length \<circ> pa_url" "ns_peers s" b3] by simp
qed

lemma encoded_state_length:
  assumes "p2p_encode msg_codec (StateMsg s) = Inr bs"
  shows "sum_list (map (length \<circ> pa_url) (ns_peers s)) < length bs"
proof -
  obtain b where "fst f_state s = Some b" and "bs = 0 # b"
    using assms by (auto simp: p2p_encode_def msg_codec_def borsh_of_def f_msg_def tagged_def result_simps)
  then show ?thesis
    using f_state_length [of s b] by simp
qed

lemma decode_too_large:
  "MAX_MESSAGE_BYTES < length bs \<Longrightarrow> p2p_decode B bs = Inl (MessageTooLarge (length bs) MAX_MESSAGE_BYTES)"
  by (simp add: p2p_decode_def)

text \<open>
  Nothing bounds the addresses that peers advertise, and nothing checks the size of the state a node
  sends. Once the addresses of the connected peers add up to the limit of a message, every node that
  shakes hands with this one, dialling or dialled, rejects its state as too large.
\<close>

theorem oversized_state_rejected:
  fixes p :: "'t p2p" and N :: "'s p2p_net"
  assumes "MAX_MESSAGE_BYTES \<le> sum_list (map (length \<circ> pa_url) (connected_peer_addrs p))"
    and "p2p_encode msg_codec (StateMsg (current_state p)) = Inr bs"
    and "is_ok (p2p_encode (pn_codec N) (StateMsg other))"
  shows "fst (handshake N now url transport (Inr (WsBinary bs) # fs) (Inr ()) other is_inbound) =
    Inl (MessageTooLarge (length bs) MAX_MESSAGE_BYTES)"
proof -
  have "MAX_MESSAGE_BYTES < length bs"
    using encoded_state_length [OF assms(2)] assms(1) by (simp add: current_state_def)
  moreover obtain out where "p2p_encode (pn_codec N) (StateMsg other) = Inr out"
    using assms(3) by (auto simp: result_simps)
  ultimately show ?thesis
    by (simp add: handshake_def recv_msg_def ws_msg_to_bytes_def decode_too_large ws_send_err_def)
qed

definition long_addr :: string where
  "long_addr = replicate 140000 (CHR ''a'')"

definition crowded_p2p :: "unit p2p" where
  "crowded_p2p = (p2p_new (p2p_config_default (replicate 32 1)))
     \<lparr>nw_connected_peers := replicate 2
        ((connected_peer_new ''ws://10.0.0.1'' ())\<lparr>cp_node_id := replicate 32 2,
          cp_advertised_listen := Some long_addr\<rparr>)\<rparr>"

definition sample_p2p_net :: "unit p2p_net" where
  "sample_p2p_net = \<lparr>pn_connect = (\<lambda>_. Inr ((), [])), pn_send = (\<lambda>_ _. Some (Inr ())), pn_debug = (\<lambda>_. ''msg''),
     pn_codec = msg_codec, pn_sha256 = (\<lambda>bs. bs)\<rparr>"

definition sample_node_state :: node_state where
  "sample_node_state = \<lparr>ns_node_id = replicate 32 3, ns_listen_addr = None, ns_peers = []\<rparr>"

lemma length_long_addr: "length long_addr = 140000"
  by (simp only: long_addr_def length_replicate)

lemma crowded_addrs:
  "connected_peer_addrs crowded_p2p =
     [\<lparr>pa_url = long_addr, pa_last_seen = 0\<rparr>, \<lparr>pa_url = long_addr, pa_last_seen = 0\<rparr>]"
  by (simp add: connected_peer_addrs_def crowded_p2p_def p2p_new_def p2p_config_default_def map_filter_simps
      connected_peer_addr_def connected_peer_new_def numeral_2_eq_2)

lemma crowded_state:
  "current_state crowded_p2p = \<lparr>ns_node_id = replicate 32 1, ns_listen_addr = None,
     ns_peers = [\<lparr>pa_url = long_addr, pa_last_seen = 0\<rparr>, \<lparr>pa_url = long_addr, pa_last_seen = 0\<rparr>]\<rparr>"
  by (simp add: current_state_def crowded_addrs) (simp add: crowded_p2p_def p2p_new_def p2p_config_default_def)

lemmas encode_eval = p2p_encode_def msg_codec_def borsh_of_def f_msg_def tagged_def f_state_def f_iso_def
  f_list_def f_id_def f_fixed_def f_option_def f_pair_def f_word_def f_string_def f_vec_def

lemma crowded_encodes: "\<exists>bs. p2p_encode msg_codec (StateMsg (current_state crowded_p2p)) = Inr bs"
  by (simp add: encode_eval crowded_state length_long_addr)

theorem oversized_state_rejected_witness:
  "\<exists>bs. p2p_encode msg_codec (StateMsg (current_state crowded_p2p)) = Inr bs \<and>
     fst (handshake sample_p2p_net 0 ''ws://x'' () [Inr (WsBinary bs)] (Inr ()) sample_node_state False) =
       Inl (MessageTooLarge (length bs) MAX_MESSAGE_BYTES)"
proof -
  obtain bs where bs: "p2p_encode msg_codec (StateMsg (current_state crowded_p2p)) = Inr bs"
    using crowded_encodes by blast
  have "is_ok (p2p_encode (pn_codec sample_p2p_net) (StateMsg sample_node_state))"
    by (simp add: encode_eval sample_p2p_net_def sample_node_state_def)
  then show ?thesis
    using bs oversized_state_rejected [OF _ bs, where N = sample_p2p_net and other = sample_node_state and fs = "[]"]
    by (auto simp: crowded_addrs length_long_addr MAX_MESSAGE_BYTES_def)
qed

end
