(* ===== verification/P2p_Gossip.thy ===== *)
theory P2p_Gossip
  imports P2p_Network
begin

text \<open>
  The network layer of a flood: nodes that relay a message (\<open>P2p::broadcast\<close> at its origin,
  \<open>P2p::forward\<close> at every node that receives it), with the deliveries in any order: a step relation on
  the states of the network layer of the nodes and the messages in flight. A flood ends and reaches every
  connected node. Which messages a node does relay is decided by its coordinator; the theory
  \<open>Node_Gossip\<close> shows that for those a delivery to a node is a step of this relation.
\<close>

section \<open>The network as a transition system\<close>

text \<open>
  \<open>route n u\<close> is where a message goes that node \<open>n\<close> sends on its connection \<open>u\<close>: the node at the other end,
  and the url under which that node knows the connection.
\<close>

type_synonym 'n route = "'n \<Rightarrow> string \<Rightarrow> 'n \<times> string"
type_synonym 'n in_flight = "('n \<times> string \<times> bytes) list"

text \<open>What the network layer does with a message that the coordinator relays.\<close>

definition gossip_receive :: "'t p2p_net \<Rightarrow> string \<Rightarrow> bytes \<Rightarrow> 't p2p \<Rightarrow> 't p2p \<times> sent" where
  "gossip_receive N u payload p =
     (case p2p_decode (pn_codec N) payload of Inl e \<Rightarrow> (p, [])
      | Inr msg \<Rightarrow> (case forward N u msg p of (_, p', out) \<Rightarrow> (p', out)))"

definition post :: "'n route \<Rightarrow> 'n \<Rightarrow> sent \<Rightarrow> 'n in_flight" where
  "post route n out = map (\<lambda>(u, b). case route n u of (k, v) \<Rightarrow> (k, v, b)) out"

inductive flood_step ::
  "'t p2p_net \<Rightarrow> 'n route \<Rightarrow> ('n \<Rightarrow> 't p2p) \<times> 'n in_flight \<Rightarrow> ('n \<Rightarrow> 't p2p) \<times> 'n in_flight \<Rightarrow> bool"
  for N route where
  deliver: "gossip_receive N u payload (nodes k) = (p', out) \<Longrightarrow>
    flood_step N route (nodes, xs @ (k, u, payload) # ys) (nodes(k := p'), xs @ ys @ post route k out)"

inductive_cases flood_stepE: "flood_step N route (nodes, fl) s'"

definition urls :: "'t p2p \<Rightarrow> string list" where
  "urls p = map cp_url (nw_connected_peers p)"

definition mutual :: "'n set \<Rightarrow> 'n route \<Rightarrow> ('n \<Rightarrow> 't p2p) \<Rightarrow> bool" where
  "mutual V route nodes =
     (\<forall>n \<in> V. \<forall>u \<in> set (urls (nodes n)).
        case route n u of (k, v) \<Rightarrow> k \<in> V \<and> v \<in> set (urls (nodes k)) \<and> route k v = (n, u))"

inductive reaches :: "'n route \<Rightarrow> ('n \<Rightarrow> 't p2p) \<Rightarrow> 'n \<Rightarrow> 'n \<Rightarrow> bool" for route nodes n where
  self: "reaches route nodes n n"
| hop: "reaches route nodes n k \<Longrightarrow> u \<in> set (urls (nodes k)) \<Longrightarrow> reaches route nodes n (fst (route k u))"

definition sees :: "'t p2p_net \<Rightarrow> bytes \<Rightarrow> 't p2p \<Rightarrow> bool" where
  "sees N payload p = (pn_sha256 N payload \<in> ss_set (nw_seen p))"

definition ready :: "'t p2p \<Rightarrow> bool" where
  "ready p = (seen_ok (nw_seen p) \<and> 0 < ss_cap (nw_seen p))"

section \<open>One delivery\<close>

lemma window_push_mem: "0 < cap \<Longrightarrow> length w \<le> cap \<Longrightarrow> h \<in> set (window_push cap h w)"
  using drop_append [of "Suc (length w) - cap" w "[h]"] by (auto simp: window_push_def simp del: drop_append)

lemma observe_facts:
  assumes "ready p" and "observe N payload p = (fresh, p')"
  shows "fresh = (\<not> sees N payload p)" "ready p'" "sees N payload p'"
    "nw_connected_peers p' = nw_connected_peers p"
proof -
  let ?h = "pn_sha256 N payload"
  have ok: "seen_ok (nw_seen p)" and cap: "0 < ss_cap (nw_seen p)"
    using assms(1) by (simp_all add: ready_def)
  then have order: "ss_set (nw_seen p) = set (ss_order (nw_seen p))"
      and len: "length (ss_order (nw_seen p)) \<le> ss_cap (nw_seen p)"
    by (simp_all add: seen_ok_def)
  have eq: "fresh = (?h \<notin> set (ss_order (nw_seen p)))" "p' = p\<lparr>nw_seen := snd (seen_insert ?h (nw_seen p))\<rparr>"
    using assms(2) by (auto simp: observe_def seen_hash_def seen_insert_window [OF ok])
  show "fresh = (\<not> sees N payload p)" "nw_connected_peers p' = nw_connected_peers p"
    by (simp_all add: eq sees_def order)
  show "ready p'"
    using seen_insert_ok [OF ok] cap by (simp add: ready_def eq seen_insert_window [OF ok])
  show "sees N payload p'"
    using window_push_mem [OF cap len] by (simp add: sees_def eq seen_insert_window [OF ok])
qed

lemma gossip_receive_facts:
  assumes "borsh_roundtrip (pn_codec N)" "p2p_encode (pn_codec N) m = Inr payload"
    and "length payload \<le> MAX_MESSAGE_BYTES" and "ready p"
    and "gossip_receive N u payload p = (p', out)"
  shows "ready p'" "sees N payload p'" "nw_connected_peers p' = nw_connected_peers p"
    "out = (if sees N payload p then [] else send_bytes_to_all payload (Some u) p)"
proof -
  obtain fresh q where obs: "observe N payload p = (fresh, q)"
    by fastforce
  then have "p' = q" and "out = (if fresh then send_bytes_to_all payload (Some u) q else [])"
    using assms(5) p2p_decode_encode [OF assms(1,2)] assms(2,3)
    by (auto simp: gossip_receive_def forward_def split: if_splits)
  with observe_facts [OF assms(4) obs] show "ready p'" "sees N payload p'"
      "nw_connected_peers p' = nw_connected_peers p"
      "out = (if sees N payload p then [] else send_bytes_to_all payload (Some u) p)"
    by (simp_all add: send_bytes_to_all_def)
qed

lemma length_send_bytes_to_all: "length (send_bytes_to_all b ex p) \<le> length (urls p)"
  by (simp add: send_bytes_to_all_def urls_def)

lemma set_post_all:
  "set (post route n (send_bytes_to_all b ex p)) =
     {(fst (route n u), snd (route n u), b) | u. u \<in> set (urls p) \<and> Some u \<noteq> ex}"
  by (auto simp: post_def send_bytes_to_all_def urls_def split_beta)

section \<open>The flood\<close>

text \<open>
  The invariant: what a node has seen, the node at the end of each of its connections has seen or is about
  to receive.
\<close>

definition flood_inv ::
  "'t p2p_net \<Rightarrow> 'n set \<Rightarrow> 'n route \<Rightarrow> ('n \<Rightarrow> 't p2p) \<Rightarrow> bytes \<Rightarrow> ('n \<Rightarrow> 't p2p) \<times> 'n in_flight \<Rightarrow> bool" where
  "flood_inv N V route nodes0 payload s = (case s of (nodes, fl) \<Rightarrow>
     (\<forall>n. nw_connected_peers (nodes n) = nw_connected_peers (nodes0 n)) \<and> (\<forall>n \<in> V. ready (nodes n)) \<and>
     (\<forall>(k, u, b) \<in> set fl. b = payload \<and> k \<in> V \<and> u \<in> set (urls (nodes0 k)) \<and>
        sees N payload (nodes (fst (route k u)))) \<and>
     (\<forall>n \<in> V. sees N payload (nodes n) \<longrightarrow> (\<forall>u \<in> set (urls (nodes0 n)).
        sees N payload (nodes (fst (route n u))) \<or> (\<exists>v. (fst (route n u), v, payload) \<in> set fl))))"

definition flood_potential ::
  "'t p2p_net \<Rightarrow> 'n set \<Rightarrow> bytes \<Rightarrow> ('n \<Rightarrow> 't p2p) \<times> 'n in_flight \<Rightarrow> nat" where
  "flood_potential N V payload s = (case s of (nodes, fl) \<Rightarrow>
     length fl + (\<Sum>n \<in> {n \<in> V. \<not> sees N payload (nodes n)}. length (urls (nodes n))))"

lemma urls_cong: "nw_connected_peers p = nw_connected_peers q \<Longrightarrow> urls p = urls q"
  by (simp add: urls_def)

lemma flood_invD:
  assumes "flood_inv N V route nodes0 payload (nodes, fl)"
  shows "nw_connected_peers (nodes n) = nw_connected_peers (nodes0 n)"
    and "n \<in> V \<Longrightarrow> ready (nodes n)"
    and "(k, u, b) \<in> set fl \<Longrightarrow> b = payload \<and> k \<in> V \<and> u \<in> set (urls (nodes0 k)) \<and>
      sees N payload (nodes (fst (route k u)))"
    and "n \<in> V \<Longrightarrow> sees N payload (nodes n) \<Longrightarrow> u \<in> set (urls (nodes0 n)) \<Longrightarrow>
      sees N payload (nodes (fst (route n u))) \<or> (\<exists>v. (fst (route n u), v, payload) \<in> set fl)"
  using assms by (fastforce simp: flood_inv_def)+

lemma flood_invI:
  assumes "\<And>n. nw_connected_peers (nodes n) = nw_connected_peers (nodes0 n)"
    and "\<And>n. n \<in> V \<Longrightarrow> ready (nodes n)"
    and "\<And>k u b. (k, u, b) \<in> set fl \<Longrightarrow> b = payload \<and> k \<in> V \<and> u \<in> set (urls (nodes0 k)) \<and>
      sees N payload (nodes (fst (route k u)))"
    and "\<And>n u. n \<in> V \<Longrightarrow> sees N payload (nodes n) \<Longrightarrow> u \<in> set (urls (nodes0 n)) \<Longrightarrow>
      sees N payload (nodes (fst (route n u))) \<or> (\<exists>v. (fst (route n u), v, payload) \<in> set fl)"
  shows "flood_inv N V route nodes0 payload (nodes, fl)"
  using assms by (fastforce simp: flood_inv_def)

lemma flood_inv_step:
  assumes codec: "borsh_roundtrip (pn_codec N)" "p2p_encode (pn_codec N) m = Inr payload"
      "length payload \<le> MAX_MESSAGE_BYTES"
    and "mutual V route nodes0" and inv: "flood_inv N V route nodes0 payload s" and "flood_step N route s s'"
  shows "flood_inv N V route nodes0 payload s'"
  using assms(6)
proof cases
  case (deliver u b nodes k p' out xs ys)
  note inv = flood_invD [OF inv [unfolded deliver(1)]]
  have entry: "b = payload" "k \<in> V" "u \<in> set (urls (nodes0 k))" "sees N payload (nodes (fst (route k u)))"
    using inv(3) [of k u b] by simp_all
  have flight: "c = payload \<and> j \<in> V \<and> v \<in> set (urls (nodes0 j)) \<and> sees N payload (nodes (fst (route j v)))"
    if "(j, v, c) \<in> set xs \<union> set ys" for j v c
    using inv(3) [of j v c] that by auto
  have cover: "sees N payload (nodes (fst (route n v))) \<or>
      (\<exists>w. (fst (route n v), w, payload) \<in> set xs \<union> set ys) \<or> fst (route n v) = k"
    if "n \<in> V" "sees N payload (nodes n)" "v \<in> set (urls (nodes0 n))" for n v
    using inv(4) [OF that] by auto
  note same = inv(1) and rdy = inv(2)
  note facts = gossip_receive_facts [OF codec rdy [OF entry(2)] deliver(3) [unfolded entry(1)]]
  define nodes' where "nodes' = nodes(k := p')"
  have mono: "sees N payload (nodes' n)" if "sees N payload (nodes n)" for n
    using that facts(2) by (simp add: nodes'_def)
  have k_sees: "sees N payload (nodes' k)"
    by (simp add: nodes'_def facts(2))
  have urls_k: "urls (nodes k) = urls (nodes0 k)"
    by (rule urls_cong [OF same])
  have posted: "set (post route k out) =
      (if sees N payload (nodes k) then {}
       else {(fst (route k v), snd (route k v), payload) | v. v \<in> set (urls (nodes0 k)) \<and> v \<noteq> u})"
    using facts(4) by (auto simp: set_post_all urls_k) (simp add: post_def)
  have new: "c = payload \<and> j \<in> V \<and> v \<in> set (urls (nodes0 j)) \<and> sees N payload (nodes' (fst (route j v)))"
    if jvc: "(j, v, c) \<in> set (post route k out)" for j v c
  proof -
    obtain w where w: "w \<in> set (urls (nodes0 k))" "j = fst (route k w)" "v = snd (route k w)" "c = payload"
      using jvc unfolding posted by (auto split: if_splits)
    then have "j \<in> V" "v \<in> set (urls (nodes0 j))" "route j v = (k, w)"
      using assms(4) entry(2) by (auto simp: mutual_def split_beta)
    with w(4) k_sees show ?thesis
      by simp
  qed
  have covered: "sees N payload (nodes' (fst (route n v))) \<or>
      (\<exists>w. (fst (route n v), w, payload) \<in> set xs \<union> set ys \<union> set (post route k out))"
    if "n \<in> V" "sees N payload (nodes' n)" "v \<in> set (urls (nodes0 n))" for n v
  proof (cases "sees N payload (nodes n)")
    case True
    then show ?thesis
      using cover [OF that(1) _ that(3)] mono k_sees by auto
  next
    case False
    with that(2) have "n = k"
      by (auto simp: nodes'_def split: if_splits)
    then show ?thesis
      using False that(3) posted mono entry(4) by (cases "v = u") auto
  qed
  show ?thesis
    unfolding deliver(2) nodes'_def [symmetric]
  proof (rule flood_invI)
    show "nw_connected_peers (nodes' n) = nw_connected_peers (nodes0 n)" for n
      using same facts(3) by (simp add: nodes'_def)
    show "ready (nodes' n)" if "n \<in> V" for n
      using rdy [OF that] facts(1) by (simp add: nodes'_def)
    show "c = payload \<and> j \<in> V \<and> v \<in> set (urls (nodes0 j)) \<and> sees N payload (nodes' (fst (route j v)))"
      if "(j, v, c) \<in> set (xs @ ys @ post route k out)" for j v c
      using that flight [of j v c] new [of j v c] mono by auto
    show "sees N payload (nodes' (fst (route n v))) \<or>
        (\<exists>w. (fst (route n v), w, payload) \<in> set (xs @ ys @ post route k out))"
      if "n \<in> V" "sees N payload (nodes' n)" "v \<in> set (urls (nodes0 n))" for n v
      using covered [OF that] by auto
  qed
qed

lemma flood_potential_step:
  assumes codec: "borsh_roundtrip (pn_codec N)" "p2p_encode (pn_codec N) m = Inr payload"
      "length payload \<le> MAX_MESSAGE_BYTES"
    and "finite V" and inv: "flood_inv N V route nodes0 payload s" and "flood_step N route s s'"
  shows "flood_potential N V payload s' < flood_potential N V payload s"
  using assms(6)
proof cases
  case (deliver u b nodes k p' out xs ys)
  have entry: "b = payload" "k \<in> V" "ready (nodes k)"
    using flood_invD(3) [OF inv [unfolded deliver(1)], of k u b] flood_invD(2) [OF inv [unfolded deliver(1)], of k]
    by simp_all
  note facts = gossip_receive_facts [OF codec entry(3) deliver(3) [unfolded entry(1)]]
  let ?U = "{n \<in> V. \<not> sees N payload (nodes n)}"
  have unseen: "{n \<in> V. \<not> sees N payload ((nodes(k := p')) n)} = ?U - {k}"
    using facts(2) by auto
  have same: "(\<Sum>n \<in> ?U - {k}. length (urls ((nodes(k := p')) n))) = (\<Sum>n \<in> ?U - {k}. length (urls (nodes n)))"
    by (rule sum.cong) auto
  show ?thesis
  proof (cases "sees N payload (nodes k)")
    case True
    then have "?U - {k} = ?U" and "out = []"
      using facts(4) by auto
    then show ?thesis
      using same unseen by (simp add: deliver(1,2) flood_potential_def post_def)
  next
    case False
    then have "(\<Sum>n \<in> ?U. length (urls (nodes n))) =
        length (urls (nodes k)) + (\<Sum>n \<in> ?U - {k}. length (urls (nodes n)))"
      using entry(2) assms(4) by (intro sum.remove) auto
    moreover have "length (post route k out) \<le> length (urls (nodes k))"
      using False facts(4) length_send_bytes_to_all by (simp add: post_def)
    ultimately show ?thesis
      using same unseen by (simp add: deliver(1,2) flood_potential_def)
  qed
qed


lemma flood_run:
  assumes codec: "borsh_roundtrip (pn_codec N)" "p2p_encode (pn_codec N) m = Inr payload"
      "length payload \<le> MAX_MESSAGE_BYTES"
    and "finite V" "mutual V route nodes0" and "flood_inv N V route nodes0 payload s"
    and "(flood_step N route ^^ k) s s'"
  shows "flood_inv N V route nodes0 payload s' \<and>
    flood_potential N V payload s' + k \<le> flood_potential N V payload s"
  using assms(7)
proof (induction k arbitrary: s')
  case 0
  then show ?case
    using assms(6) by simp
next
  case (Suc k)
  then obtain t where "(flood_step N route ^^ k) s t" and step: "flood_step N route t s'"
    by auto
  with Suc.IH have t: "flood_inv N V route nodes0 payload t"
      "flood_potential N V payload t + k \<le> flood_potential N V payload s"
    by auto
  show ?case
    using flood_inv_step [OF codec assms(5) t(1) step] flood_potential_step [OF codec assms(4) t(1) step] t(2)
    by simp
qed

lemma flood_start:
  assumes "p2p_encode (pn_codec N) m = Inr payload" and "mutual V route nodes" "finite V" "n0 \<in> V"
    and "\<forall>n \<in> V. ready (nodes n) \<and> \<not> sees N payload (nodes n)"
    and "broadcast N m (nodes n0) = (r, p0, out)"
  shows "r = Inr ()" and "flood_inv N V route nodes payload (nodes(n0 := p0), post route n0 out)"
    and "flood_potential N V payload (nodes(n0 := p0), post route n0 out) \<le> (\<Sum>n \<in> V. length (urls (nodes n)))"
    and "sees N payload p0"
proof -
  obtain fresh where obs: "observe N payload (nodes n0) = (fresh, p0)"
      and r: "r = Inr ()" and out: "out = send_bytes_to_all payload None p0"
    using assms(1,6) by (auto simp: broadcast_def split: prod.splits)
  note facts = observe_facts [OF _ obs]
  have p0: "ready p0" "sees N payload p0" "nw_connected_peers p0 = nw_connected_peers (nodes n0)"
    using assms(4,5) facts by auto
  have urls_p0: "urls p0 = urls (nodes n0)"
    using p0(3) by (rule urls_cong)
  have posted: "set (post route n0 out) =
      {(fst (route n0 v), snd (route n0 v), payload) | v. v \<in> set (urls (nodes n0))}"
    by (simp add: out set_post_all urls_p0)
  have entries: "c = payload \<and> j \<in> V \<and> v \<in> set (urls (nodes j)) \<and> fst (route j v) = n0"
    if "(j, v, c) \<in> set (post route n0 out)" for j v c
    using that assms(2,4) unfolding posted by (auto simp: mutual_def split_beta)
  show "r = Inr ()" "sees N payload p0"
    using r p0(2) by simp_all
  show "flood_inv N V route nodes payload (nodes(n0 := p0), post route n0 out)"
  proof (rule flood_invI)
    show "nw_connected_peers ((nodes(n0 := p0)) n) = nw_connected_peers (nodes n)" for n
      using p0(3) by simp
    show "ready ((nodes(n0 := p0)) n)" if "n \<in> V" for n
      using that assms(5) p0(1) by simp
    show "c = payload \<and> j \<in> V \<and> v \<in> set (urls (nodes j)) \<and> sees N payload ((nodes(n0 := p0)) (fst (route j v)))"
      if "(j, v, c) \<in> set (post route n0 out)" for j v c
      using entries [OF that] p0(2) by simp
    show "sees N payload ((nodes(n0 := p0)) (fst (route n u))) \<or>
        (\<exists>v. (fst (route n u), v, payload) \<in> set (post route n0 out))"
      if "n \<in> V" "sees N payload ((nodes(n0 := p0)) n)" "u \<in> set (urls (nodes n))" for n u
      using that assms(5) unfolding posted by (cases "n = n0") auto
  qed
  have "{n \<in> V. \<not> sees N payload ((nodes(n0 := p0)) n)} = V - {n0}"
    using assms(5) p0(2) by auto
  moreover have "(\<Sum>n \<in> V - {n0}. length (urls ((nodes(n0 := p0)) n))) = (\<Sum>n \<in> V - {n0}. length (urls (nodes n)))"
    by (rule sum.cong) auto
  moreover have "length (post route n0 out) = length (urls (nodes n0))"
    using p0(3) by (simp add: post_def out send_bytes_to_all_def urls_def)
  ultimately show "flood_potential N V payload (nodes(n0 := p0), post route n0 out) \<le>
      (\<Sum>n \<in> V. length (urls (nodes n)))"
    using sum.remove [OF assms(3,4), of "\<lambda>n. length (urls (nodes n))"] by (simp add: flood_potential_def)
qed

lemma flood_covers:
  assumes "flood_inv N V route nodes0 payload (nodes, [])" and "mutual V route nodes0"
    and "n0 \<in> V" "sees N payload (nodes n0)" and "reaches route nodes0 n0 n"
  shows "n \<in> V \<and> sees N payload (nodes n)"
  using assms(5)
proof induction
  case self
  then show ?case
    using assms(3,4) by simp
next
  case (hop k u)
  then show ?case
    using flood_invD(4) [OF assms(1), of k u] assms(2) by (auto simp: mutual_def split_beta)
qed

lemma sees_stays:
  assumes "flood_step N route s s'" and "borsh_roundtrip (pn_codec N)" "p2p_encode (pn_codec N) m = Inr payload"
    and "length payload \<le> MAX_MESSAGE_BYTES" and "flood_inv N V route nodes0 payload s"
    and "sees N payload (fst s n)"
  shows "sees N payload (fst s' n)"
  using assms(1)
proof cases
  case (deliver u b nodes k p' out xs ys)
  note inv = flood_invD [OF assms(5) [unfolded deliver(1)]]
  have "b = payload" "ready (nodes k)"
    using inv(3) [of k u b] inv(2) [of k] by simp_all
  with gossip_receive_facts(2) [OF assms(2-4), of "nodes k" u p' out] deliver assms(6) show ?thesis
    by simp
qed

lemma sees_run:
  assumes codec: "borsh_roundtrip (pn_codec N)" "p2p_encode (pn_codec N) m = Inr payload"
      "length payload \<le> MAX_MESSAGE_BYTES"
    and "finite V" "mutual V route nodes0" and inv: "flood_inv N V route nodes0 payload s"
    and "(flood_step N route ^^ k) s s'" and "sees N payload (fst s n)"
  shows "sees N payload (fst s' n)"
  using assms(7)
proof (induction k arbitrary: s')
  case (Suc k)
  then obtain t where t: "(flood_step N route ^^ k) s t" and step: "flood_step N route t s'"
    by auto
  then show ?case
    using sees_stays [OF step codec] flood_run [OF codec assms(4,5) inv t] Suc.IH by blast
qed (use assms(8) in simp)

text \<open>
  After at most as many deliveries as the nodes have connections nothing is in flight any more, the network
  never gets stuck before that, and then every node with a path to the origin has seen the message.
\<close>

lemma flood_ends:
  fixes nodes :: "'n \<Rightarrow> 't p2p"
  assumes "borsh_roundtrip (pn_codec N)" "p2p_encode (pn_codec N) m = Inr payload"
      "length payload \<le> MAX_MESSAGE_BYTES"
    and "finite V" "mutual V route nodes" "n0 \<in> V"
    and "\<forall>n \<in> V. ready (nodes n) \<and> \<not> sees N payload (nodes n)"
    and "broadcast N m (nodes n0) = (r, p0, out)"
    and "(flood_step N route ^^ k) (nodes(n0 := p0), post route n0 out) (nodes', fl)"
  shows "k \<le> (\<Sum>n \<in> V. length (urls (nodes n))) \<and>
    (if fl = [] then \<forall>n. reaches route nodes n0 n \<longrightarrow> sees N payload (nodes' n)
     else \<exists>s'. flood_step N route (nodes', fl) s')"
proof -
  note start = flood_start [OF assms(2,5,4,6,7,8)]
  note run = flood_run [OF assms(1-5) start(2) assms(9)]
  have "k \<le> (\<Sum>n \<in> V. length (urls (nodes n)))"
    using run start(3) by simp
  moreover have "sees N payload (fst (nodes', fl) n0)"
    using sees_run [OF assms(1-5) start(2) assms(9)] start(4) by simp
  moreover have "\<exists>s'. flood_step N route (nodes', fl) s'" if flight: "fl \<noteq> []"
  proof -
    obtain j u b ys where "fl = [] @ (j, u, b) # ys"
      using flight by (cases fl) auto
    then show ?thesis
      using flood_step.deliver [of N u b nodes' j _ _ route "[]" ys] by (metis prod.exhaust)
  qed
  ultimately show ?thesis
    using run flood_covers [OF _ assms(5,6)] by auto
qed

section \<open>A concrete message and two nodes\<close>

definition pair_node :: "bool \<Rightarrow> unit p2p" where
  "pair_node b = (p2p_new (p2p_config_default (replicate 32 (if b then 1 else 2))))
     \<lparr>nw_connected_peers := [connected_peer_new ''ws://peer'' ()]\<rparr>"

definition pair_route :: "bool route" where
  "pair_route n u = (\<not> n, u)"

definition sample_reveal_msg :: p2p_msg where
  "sample_reveal_msg = RevealMsg (reveal_new (replicate 32 1) (replicate 32 2))"

definition sample_payload :: bytes where
  "sample_payload = 3 # replicate 32 1 @ replicate 32 2"

lemma sample_payload_encodes: "p2p_encode msg_codec sample_reveal_msg = Inr sample_payload"
  by (simp add: encode_eval f_reveal_def reveal_new_def sample_reveal_msg_def sample_payload_def)

lemma sample_payload_codec:
  "borsh_roundtrip (pn_codec sample_p2p_net)" "p2p_encode (pn_codec sample_p2p_net) sample_reveal_msg = Inr sample_payload"
  "length sample_payload \<le> MAX_MESSAGE_BYTES"
  by (simp_all add: sample_p2p_net_def msg_codec_roundtrip sample_payload_encodes MAX_MESSAGE_BYTES_def sample_payload_def)

lemma pair_node_facts:
  "ready (pair_node n)" "\<not> sees sample_p2p_net b (pair_node n)" "urls (pair_node n) = [''ws://peer'']"
  by (simp_all add: pair_node_def p2p_new_def ready_def sees_def urls_def connected_peer_new_def)
    (simp add: seen_new_def)+

lemma pair_mutual: "mutual UNIV pair_route pair_node"
  by (simp add: mutual_def pair_route_def pair_node_facts)

lemma pair_reaches: "reaches pair_route pair_node False True"
  using reaches.hop [OF reaches.self, of "''ws://peer''" pair_node False pair_route]
  by (simp add: pair_route_def pair_node_facts)

end
