(* ===== verification/Node_Connection.thy ===== *)
theory Node_Connection
  imports P2p_Network
begin

text \<open>
  The connections of a node (\<open>node/src/connection\<close> and \<open>spawn_discovery_drainer\<close> of \<open>node/services.rs\<close>):
  which of two connections to the same node is kept, reading from a peer under a rate limit, dialling
  the peers that were discovered. Every access to the shared list of peers is one atomic section, so that
  the connection tasks can be run one after the other or interleaved.
\<close>

section \<open>Duplicate connections\<close>

definition lower_initiated :: "bool \<Rightarrow> bool \<Rightarrow> bool" where
  "lower_initiated is_inbound we_are_lower = ((\<not> is_inbound \<and> we_are_lower) \<or> (is_inbound \<and> \<not> we_are_lower))"

fun find_peer :: "nat \<Rightarrow> bytes \<Rightarrow> 't connected_peer list \<Rightarrow> (nat \<times> bool) option" where
  "find_peer i node_id [] = None"
| "find_peer i node_id (c # cs) =
     (if cp_node_id c = node_id then Some (i, cp_is_inbound c) else find_peer (Suc i) node_id cs)"

datatype verdict = Proceed | Reject | Replace nat

text \<open>The two atomic sections of \<open>should_proceed\<close>: the look-up, and the removal of the old connection.\<close>

definition lookup_existing :: "'t p2p \<Rightarrow> bytes \<Rightarrow> bool \<Rightarrow> verdict" where
  "lookup_existing p peer_node_id is_inbound =
     (let we_are_lower = bytes_less (pc_node_id (nw_config p)) peer_node_id;
          new_is_lower_initiated = lower_initiated is_inbound we_are_lower in
      case find_peer 0 peer_node_id (nw_connected_peers p) of
        None \<Rightarrow> Proceed
      | Some (idx, existing_is_inbound) \<Rightarrow>
          if \<not> new_is_lower_initiated \<or> lower_initiated existing_is_inbound we_are_lower then Reject
          else Replace idx)"

definition remove_old :: "nat \<Rightarrow> bytes \<Rightarrow> 't p2p \<Rightarrow> 't connected_peer option \<times> 't p2p" where
  "remove_old idx peer_node_id p =
     (let peers = nw_connected_peers p in
      if idx < length peers \<and> cp_node_id (peers ! idx) = peer_node_id
      then (Some (peers ! idx), p\<lparr>nw_connected_peers := take idx peers @ drop (Suc idx) peers\<rparr>)
      else (None, p))"

text \<open>\<open>should_proceed\<close> returns also the connection that it closes.\<close>

definition should_proceed :: "'t p2p \<Rightarrow> bytes \<Rightarrow> bool \<Rightarrow> bool \<times> 't connected_peer option \<times> 't p2p" where
  "should_proceed p peer_node_id is_inbound =
     (case lookup_existing p peer_node_id is_inbound of
        Proceed \<Rightarrow> (True, None, p) | Reject \<Rightarrow> (False, None, p)
      | Replace idx \<Rightarrow> (True, remove_old idx peer_node_id p))"

section \<open>Reading from a peer\<close>

definition MAX_MESSAGES_PER_SECOND :: u32 where "MAX_MESSAGES_PER_SECOND = 100"

datatype read_end = RateLimited | EventsClosed | Disconnected p2p_error | Waiting

text \<open>
  What a read sees: the message or error that arrives, the clock after it, and whether the queue of
  events still accepts it. An empty list is a peer that is silent.
\<close>

type_synonym arrival = "(p2p_msg, p2p_error) result \<times> u64 \<times> bool"

definition window_expired :: "u64 \<Rightarrow> u64 \<Rightarrow> bool" where
  "window_expired now window_start = (1000 \<le> saturating_sub now window_start \<or> now < window_start)"

fun read_loop :: "string \<Rightarrow> u64 \<Rightarrow> u32 \<Rightarrow> arrival list \<Rightarrow> (net_event \<times> u64) list \<times> read_end" where
  "read_loop url window_start count [] = ([], Waiting)"
| "read_loop url window_start count ((Inl e, now, open_q) # rest) = ([], Disconnected e)"
| "read_loop url window_start count ((Inr msg, now, open_q) # rest) =
     (let expired = window_expired now window_start;
          window_start = (if expired then now else window_start);
          count = (if expired then 0 else count) + 1 in
      if MAX_MESSAGES_PER_SECOND < count then ([], RateLimited)
      else if \<not> open_q then ([], EventsClosed)
      else case read_loop url window_start count rest of
        (events, r) \<Rightarrow> ((\<lparr>ne_from = url, ne_msg = msg\<rparr>, now) # events, r))"

text \<open>The state the connection tasks share: the network and the number of connected peers.\<close>

record 't conn_state =
  cn_net :: "'t p2p"
  cn_counter :: u64

definition conn_add :: "'t connected_peer \<Rightarrow> 't conn_state \<Rightarrow> 't conn_state" where
  "conn_add peer s = s\<lparr>cn_net := snd (add_connected_peer peer (cn_net s)), cn_counter := cn_counter s + 1\<rparr>"

definition conn_leave :: "'t connected_peer \<Rightarrow> read_end \<Rightarrow> 't conn_state \<Rightarrow> 't conn_state" where
  "conn_leave peer r s =
     (let net = (if r = RateLimited then blacklist_peer (cp_node_id peer) (cn_net s) else cn_net s) in
      s\<lparr>cn_net := remove_connected_peer (cp_url peer) net, cn_counter := cn_counter s - 1\<rparr>)"

text \<open>
  \<open>read_from_peer_tracked\<close> without other tasks running beside it: the state, the events it passes on, the
  addresses it asks the dialler for, and the urls of the connections it closes.
\<close>

definition read_from_peer_tracked ::
  "(nat \<Rightarrow> bool) \<Rightarrow> u64 \<Rightarrow> arrival list \<Rightarrow> 't connected_peer \<Rightarrow> bool \<Rightarrow> 't conn_state
     \<Rightarrow> 't conn_state \<times> (net_event \<times> u64) list \<times> string list \<times> string list" where
  "read_from_peer_tracked dial_open now_ms arrivals peer is_inbound s =
     (if is_blacklisted (cn_net s) (cp_node_id peer) then (s, [], [], [cp_url peer])
      else case should_proceed (cn_net s) (cp_node_id peer) is_inbound of (proceed, old, net) \<Rightarrow>
        if \<not> proceed then (s, [], [], [])
        else
          let s = conn_add peer (s\<lparr>cn_net := net\<rparr>);
              dials = process_peer_addrs dial_open (cn_net s) (cp_known_peers peer);
              disconnects = (case old of None \<Rightarrow> [] | Some c \<Rightarrow> [cp_url c]) in
          case read_loop (cp_url peer) now_ms 0 arrivals of (events, r) \<Rightarrow>
            if r = Waiting then (s, events, dials, disconnects)
            else (conn_leave peer r s, events, dials,
                  disconnects @ (if r = RateLimited then [cp_url peer] else [])))"

text \<open>
  A description of what one connection task does to the list of peers when no other task runs meanwhile. The
  code looks the peer up and adds it under separate locks; the sections are the steps of
  \<open>conn_step\<close> below.
\<close>

definition register :: "'t connected_peer \<Rightarrow> bool \<Rightarrow> 't p2p \<Rightarrow> 't p2p" where
  "register peer is_inbound p =
     (if is_blacklisted p (cp_node_id peer) then p
      else case should_proceed p (cp_node_id peer) is_inbound of (proceed, _, net) \<Rightarrow>
        if \<not> proceed then p else snd (add_connected_peer peer net))"

lemma read_from_peer_registers:
  "cn_net (fst (read_from_peer_tracked dial_open now_ms [] peer is_inbound s)) = register peer is_inbound (cn_net s)"
  by (auto simp: read_from_peer_tracked_def register_def conn_add_def Let_def split: prod.splits option.splits)

section \<open>Connection tasks side by side\<close>

text \<open>Where a task stands: each step below is one atomic section of \<open>read_from_peer_tracked\<close>.\<close>

datatype conn_phase = AtStart | AtLookup | AtReplace nat | AtAdd | Connected | Ended

definition phase_after :: "verdict \<Rightarrow> conn_phase" where
  "phase_after v = (case v of Proceed \<Rightarrow> AtAdd | Reject \<Rightarrow> Ended | Replace idx \<Rightarrow> AtReplace idx)"

inductive conn_step ::
  "'t conn_state \<times> ('t connected_peer \<times> conn_phase) list \<Rightarrow> 't conn_state \<times> ('t connected_peer \<times> conn_phase) list \<Rightarrow> bool"
where
  check: "i < length ts \<Longrightarrow> ts ! i = (c, AtStart) \<Longrightarrow>
    conn_step (s, ts) (s, ts[i := (c, if is_blacklisted (cn_net s) (cp_node_id c) then Ended else AtLookup)])"
| look: "i < length ts \<Longrightarrow> ts ! i = (c, AtLookup) \<Longrightarrow>
    conn_step (s, ts) (s, ts[i := (c, phase_after (lookup_existing (cn_net s) (cp_node_id c) (cp_is_inbound c)))])"
| replace: "i < length ts \<Longrightarrow> ts ! i = (c, AtReplace idx) \<Longrightarrow>
    conn_step (s, ts) (s\<lparr>cn_net := snd (remove_old idx (cp_node_id c) (cn_net s))\<rparr>, ts[i := (c, AtAdd)])"
| add: "i < length ts \<Longrightarrow> ts ! i = (c, AtAdd) \<Longrightarrow> conn_step (s, ts) (conn_add c s, ts[i := (c, Connected)])"
| leave: "i < length ts \<Longrightarrow> ts ! i = (c, Connected) \<Longrightarrow> r \<noteq> Waiting \<Longrightarrow>
    conn_step (s, ts) (conn_leave c r s, ts[i := (c, Ended)])"

section \<open>Accepting and dialling\<close>

text \<open>
  The semaphores of \<open>listen\<close> and \<open>spawn_accept\<close>: a connection is taken when fewer than \<open>max_inbound\<close>
  permits are held, and gives its permit back when its task ends.
\<close>

definition try_acquire :: "p2p_config \<Rightarrow> nat \<Rightarrow> nat option" where
  "try_acquire cfg held = (if held < pc_max_inbound cfg then Some (Suc held) else None)"

definition MAX_INFLIGHT_DIALS :: nat where "MAX_INFLIGHT_DIALS = 64"

text \<open>The drainer: the addresses being dialled, and the url to dial if there is one.\<close>

definition drain_url :: "'t p2p \<Rightarrow> string \<Rightarrow> string set \<Rightarrow> (string \<times> string) option \<times> string set" where
  "drain_url p url in_flight =
     (let url_norm = normalize_listen_addr url in
      if is_connected_peer p url_norm then (None, in_flight)
      else if MAX_INFLIGHT_DIALS \<le> card in_flight \<or> url_norm \<in> in_flight then (None, in_flight)
      else (Some (url, url_norm), insert url_norm in_flight))"

definition guard_drop :: "string \<Rightarrow> string set \<Rightarrow> string set" where
  "guard_drop url_norm in_flight = in_flight - {url_norm}"

text \<open>\<open>spawn_addr_dial_driver\<close>: the connection to read from, if the dial succeeds within ten seconds.\<close>

definition addr_dial :: "bool \<Rightarrow> ('a, p2p_error) result \<Rightarrow> 'a option" where
  "addr_dial in_time dialed = (if in_time then to_option dialed else None)"

text \<open>One round of \<open>bootstrap_redial_loop\<close>.\<close>

datatype 'a redial = SleepSecs u64 | GiveUp | Session 'a

definition bootstrap_redial_round :: "'t p2p \<Rightarrow> string \<Rightarrow> (nat \<Rightarrow> ('a, p2p_error) result) \<Rightarrow> 'a redial" where
  "bootstrap_redial_round p url dial =
     (if is_connected_peer p (normalize_listen_addr url) then SleepSecs 30
      else case fst (dial_with_backoff dial) of None \<Rightarrow> GiveUp | Some peer \<Rightarrow> Session peer)"

text \<open>The drainer and the dials it started, while the network goes through the states \<open>nets\<close>.\<close>

inductive dialling :: "'t p2p set \<Rightarrow> string set \<times> string list \<Rightarrow> bool" for nets where
  none: "dialling nets ({}, [])"
| request: "dialling nets (F, ds) \<Longrightarrow> p \<in> nets \<Longrightarrow> drain_url p url F = (Some (url, n), F') \<Longrightarrow>
    dialling nets (F', n # ds)"
| refused: "dialling nets (F, ds) \<Longrightarrow> p \<in> nets \<Longrightarrow> drain_url p url F = (None, F') \<Longrightarrow> dialling nets (F', ds)"
| finish: "dialling nets (F, xs @ n # ys) \<Longrightarrow> dialling nets (guard_drop n F, xs @ ys)"

lemma dialling_bounded:
  assumes "dialling nets (F, ds)"
  shows "F = set ds \<and> distinct ds \<and> length ds \<le> MAX_INFLIGHT_DIALS"
  using assms
proof (induction "(F, ds)" arbitrary: F ds rule: dialling.induct)
  case (request F ds p url n F')
  then have "n \<notin> set ds" "F' = insert n F" "card F < MAX_INFLIGHT_DIALS"
    by (auto simp: drain_url_def Let_def split: if_splits)
  then show ?case
    using request(2) by (auto simp: distinct_card)
qed (auto simp: drain_url_def guard_drop_def Let_def split: if_splits)

section \<open>At most one connection to a node\<close>

definition one_per_node :: "'t p2p \<Rightarrow> bool" where
  "one_per_node p = distinct (map cp_node_id (nw_connected_peers p))"

lemma find_peer_None: "find_peer i n cs = None \<longleftrightarrow> n \<notin> cp_node_id ` set cs"
  by (induction cs arbitrary: i) auto

lemma find_peer_snoc:
  "n \<notin> cp_node_id ` set cs \<Longrightarrow> cp_node_id c = n \<Longrightarrow> find_peer i n (cs @ [c]) = Some (i + length cs, cp_is_inbound c)"
  by (induction cs arbitrary: i) auto

lemma find_peer_Some:
  "find_peer i n cs = Some (j, b) \<Longrightarrow>
     i \<le> j \<and> j - i < length cs \<and> cp_node_id (cs ! (j - i)) = n \<and> cp_is_inbound (cs ! (j - i)) = b"
proof (induction cs arbitrary: i)
  case (Cons c cs)
  then show ?case
    by (auto split: if_splits simp: nth_Cons' dest!: Cons.IH [of "Suc i"] Suc_le_lessD)
qed simp

lemma distinct_remove_nth:
  assumes "distinct (map f xs)" "i < length xs"
  shows "f (xs ! i) \<notin> f ` set (take i xs @ drop (Suc i) xs)" "distinct (map f (take i xs @ drop (Suc i) xs))"
proof -
  have "distinct (map f (take i xs @ xs ! i # drop (Suc i) xs))"
    using assms by (simp only: id_take_nth_drop [symmetric])
  then show "f (xs ! i) \<notin> f ` set (take i xs @ drop (Suc i) xs)" "distinct (map f (take i xs @ drop (Suc i) xs))"
    by auto
qed

lemma lookup_existing_cases:
  assumes "one_per_node p"
  shows "case lookup_existing p nid inb of
      Proceed \<Rightarrow> nid \<notin> cp_node_id ` set (nw_connected_peers p)
    | Reject \<Rightarrow> nid \<in> cp_node_id ` set (nw_connected_peers p)
    | Replace idx \<Rightarrow> idx < length (nw_connected_peers p) \<and> cp_node_id (nw_connected_peers p ! idx) = nid"
proof (cases "find_peer 0 nid (nw_connected_peers p)")
  case None
  moreover from None have "nid \<notin> cp_node_id ` set (nw_connected_peers p)"
    by (simp add: find_peer_None)
  ultimately show ?thesis
    by (simp add: lookup_existing_def Let_def)
next
  case (Some jb)
  then obtain j b where "find_peer 0 nid (nw_connected_peers p) = Some (j, b)"
    by (cases jb) simp
  then show ?thesis
    using find_peer_Some [of 0 nid "nw_connected_peers p" j b] by (auto simp: lookup_existing_def Let_def)
qed

lemma should_proceed_facts:
  assumes "one_per_node p" and "should_proceed p nid inb = (proceed, old, net)"
  shows "one_per_node net" and "proceed \<Longrightarrow> nid \<notin> cp_node_id ` set (nw_connected_peers net)"
proof -
  note cases' = lookup_existing_cases [OF assms(1), of nid inb]
  have "one_per_node net \<and> (proceed \<longrightarrow> nid \<notin> cp_node_id ` set (nw_connected_peers net))"
  proof (cases "lookup_existing p nid inb")
    case (Replace idx)
    then have idx: "idx < length (nw_connected_peers p)" "cp_node_id (nw_connected_peers p ! idx) = nid"
      using cases' by simp_all
    then show ?thesis
      using assms Replace distinct_remove_nth [of cp_node_id "nw_connected_peers p" idx]
      by (auto simp: should_proceed_def one_per_node_def remove_old_def Let_def)
  qed (use assms cases' in \<open>auto simp: should_proceed_def\<close>)
  then show "one_per_node net" and "proceed \<Longrightarrow> nid \<notin> cp_node_id ` set (nw_connected_peers net)"
    by blast+
qed

lemma register_one_per_node: "one_per_node p \<Longrightarrow> one_per_node (register c inb p)"
  using should_proceed_facts [of p "cp_node_id c" inb]
  by (auto simp: register_def add_connected_peer_def Let_def one_per_node_def split: prod.splits)

lemma conn_leave_one_per_node: "one_per_node (cn_net s) \<Longrightarrow> one_per_node (cn_net (conn_leave c r s))"
  by (auto simp: conn_leave_def one_per_node_def remove_connected_peer_def blacklist_peer_def Let_def distinct_map
      inj_on_def)

text \<open>
  The history of a node whose connection tasks register one after the other: connections that come in and
  connections that end.
\<close>

datatype 't conn_op = Arrive "'t connected_peer" | Depart "'t connected_peer" read_end

fun run_conn_op :: "'t conn_op \<Rightarrow> 't conn_state \<Rightarrow> 't conn_state" where
  "run_conn_op (Arrive c) s = fst (read_from_peer_tracked (\<lambda>_. True) 0 [] c (cp_is_inbound c) s)"
| "run_conn_op (Depart c r) s = conn_leave c r s"

lemma history_one_per_node:
  "one_per_node (cn_net s) \<Longrightarrow> one_per_node (cn_net (fold run_conn_op ops s))"
proof (induction ops arbitrary: s)
  case (Cons op ops)
  have "one_per_node (cn_net (run_conn_op op s))"
    using Cons.prems
    by (cases op) (simp_all add: read_from_peer_registers register_one_per_node conn_leave_one_per_node)
  then show ?case
    using Cons.IH by simp
qed simp

text \<open>Both connections between two nodes, in either order: the one that the lower node opened stays.\<close>

lemma bytes_less_asym: "bytes_less a b \<Longrightarrow> \<not> bytes_less b a"
  by (induction a b rule: bytes_less.induct) auto

lemma bytes_less_linear: "length a = length b \<Longrightarrow> a \<noteq> b \<Longrightarrow> bytes_less a b \<or> bytes_less b a"
  by (induction a b rule: bytes_less.induct) auto

lemma register_survivor:
  assumes "nid \<notin> cp_node_id ` set (nw_connected_peers p)" "\<not> is_blacklisted p nid"
    and "cp_node_id c = nid" "cp_node_id d = nid" "cp_is_inbound c \<noteq> cp_is_inbound d"
    and keep: "keep = (if lower_initiated (cp_is_inbound c) (bytes_less (pc_node_id (nw_config p)) nid) then c else d)"
  shows "filter (\<lambda>x. cp_node_id x = nid) (nw_connected_peers (register d (cp_is_inbound d)
      (register c (cp_is_inbound c) p))) = [keep]"
proof -
  have none: "filter (\<lambda>x. cp_node_id x = nid) (nw_connected_peers p) = []"
    using assms(1) by (auto simp: filter_empty_conv)
  have "lookup_existing p nid (cp_is_inbound c) = Proceed"
    using assms(1) by (simp add: lookup_existing_def find_peer_None [THEN iffD2])
  then have first: "register c (cp_is_inbound c) p = p\<lparr>nw_connected_peers := nw_connected_peers p @ [c]\<rparr>"
    using assms(2,3) by (simp add: register_def should_proceed_def add_connected_peer_def Let_def)
  have found: "find_peer 0 nid (nw_connected_peers p @ [c]) = Some (length (nw_connected_peers p), cp_is_inbound c)"
    using find_peer_snoc [of nid "nw_connected_peers p" c 0] assms(1,3) by simp
  let ?lower = "bytes_less (pc_node_id (nw_config p)) nid"
  show ?thesis
  proof (cases "lower_initiated (cp_is_inbound c) ?lower")
    case True
    with found show ?thesis
      unfolding first keep using none assms(2-4)
      by (simp add: register_def should_proceed_def lookup_existing_def is_blacklisted_def)
  next
    case False
    then have "lower_initiated (cp_is_inbound d) ?lower"
      using assms(5) by (auto simp: lower_initiated_def)
    with False found show ?thesis
      unfolding first keep using none assms(2-4)
      by (simp add: register_def should_proceed_def lookup_existing_def is_blacklisted_def remove_old_def
          add_connected_peer_def Let_def)
  qed
qed


definition connections_to :: "bytes \<Rightarrow> 't p2p \<Rightarrow> 't connected_peer list" where
  "connections_to nid p = filter (\<lambda>c. cp_node_id c = nid) (nw_connected_peers p)"

text \<open>
  The steps in which no connection is lost, and how far a task is. A task whose neighbours do not move
  meanwhile registers its connection as \<open>register\<close> says.
\<close>

definition conn_up ::
  "'t conn_state \<times> ('t connected_peer \<times> conn_phase) list \<Rightarrow> 't conn_state \<times> ('t connected_peer \<times> conn_phase) list \<Rightarrow> bool" where
  "conn_up s s' \<longleftrightarrow> conn_step s s' \<and>
     (\<forall>i < length (snd s). snd (snd s ! i) = Connected \<longrightarrow> snd (snd s' ! i) = Connected)"

fun phase_rank :: "conn_phase \<Rightarrow> nat" where
  "phase_rank AtStart = 0"
| "phase_rank AtLookup = 1"
| "phase_rank (AtReplace idx) = 2"
| "phase_rank AtAdd = 3"
| "phase_rank Connected = 4"
| "phase_rank Ended = 5"

fun tracked :: "'t connected_peer \<Rightarrow> 't conn_state \<Rightarrow> 't conn_state \<Rightarrow> conn_phase \<Rightarrow> bool" where
  "tracked c s t AtStart = (t = s)"
| "tracked c s t AtLookup = (t = s \<and> \<not> is_blacklisted (cn_net s) (cp_node_id c))"
| "tracked c s t (AtReplace idx) = (t = s \<and> \<not> is_blacklisted (cn_net s) (cp_node_id c) \<and>
     lookup_existing (cn_net s) (cp_node_id c) (cp_is_inbound c) = Replace idx)"
| "tracked c s t AtAdd = (cn_net (conn_add c t) = register c (cp_is_inbound c) (cn_net s))"
| "tracked c s t _ = (cn_net t = register c (cp_is_inbound c) (cn_net s))"

lemma conn_up_task:
  assumes "conn_up (t, ts) (t', ts')"
  obtains k c ph' where "k < length ts" "fst (ts ! k) = c" "ts' = ts[k := (c, ph')]" "phase_rank (snd (ts ! k)) < phase_rank ph'"
    "tracked c s t (snd (ts ! k)) \<longrightarrow> tracked c s t' ph'"
proof -
  from assms have step: "conn_step (t, ts) (t', ts')" and up: "\<forall>i < length ts. snd (ts ! i) = Connected \<longrightarrow> snd (ts' ! i) = Connected"
    by (simp_all add: conn_up_def)
  from step show ?thesis
  proof cases
    case (check i c)
    then show ?thesis
      by (intro that [of i c]) (auto simp: register_def)
  next
    case (look i c)
    then show ?thesis
      by (intro that [of i c])
        (auto simp: phase_after_def register_def should_proceed_def conn_add_def split: verdict.splits)
  next
    case (replace i c idx)
    then show ?thesis
      by (intro that [of i c])
        (auto simp: register_def should_proceed_def conn_add_def split: prod.splits)
  next
    case (add i c)
    then show ?thesis
      by (intro that [of i c]) auto
  next
    case (leave i c r)
    then show ?thesis
      using up by auto
  qed
qed

lemma solo_registers:
  assumes run: "conn_up\<^sup>*\<^sup>* (s, ts) (t, ts')" and i: "i < length ts" "ts ! i = (c, AtStart)"
    and others: "\<forall>j < length ts. j \<noteq> i \<longrightarrow> snd (ts' ! j) = snd (ts ! j)"
  shows "tracked c s t (snd (ts' ! i))"
proof -
  have "length ts' = length ts \<and>
    (\<forall>j < length ts. fst (ts' ! j) = fst (ts ! j) \<and> phase_rank (snd (ts ! j)) \<le> phase_rank (snd (ts' ! j))) \<and>
    ((\<forall>j < length ts. j \<noteq> i \<longrightarrow> snd (ts' ! j) = snd (ts ! j)) \<longrightarrow> tracked c s t (snd (ts' ! i)))"
    using run
  proof (induction rule: rtranclp_induct2)
    case (step t1 ts1 t2 ts2)
    obtain k c' ph where k: "k < length ts1" "fst (ts1 ! k) = c'" "ts2 = ts1[k := (c', ph)]"
        "phase_rank (snd (ts1 ! k)) < phase_rank ph" "tracked c' s t1 (snd (ts1 ! k)) \<longrightarrow> tracked c' s t2 ph"
      by (rule conn_up_task [OF step.hyps(2), where s = s])
    show ?case
    proof (cases "k = i")
      case True
      then have "c' = c"
        using step.IH i k(2) by simp
      with True show ?thesis
        using step.IH k i by (auto simp: nth_list_update)
    next
      case False
      have "ph \<noteq> snd (ts ! k)"
        using step.IH k(1,4) by auto
      with False show ?thesis
        using step.IH k by (auto simp: nth_list_update)
    qed
  qed (use i in auto)
  with others show ?thesis
    by blast
qed

text \<open>
  A node handles the connection \<open>c\<close> and then \<open>d\<close>: the task of \<open>d\<close> starts when that of \<open>c\<close> has
  registered its connection or given it up, and no connection is lost meanwhile.
\<close>

definition one_after_other :: "'t connected_peer \<Rightarrow> 't connected_peer \<Rightarrow> 't conn_state \<Rightarrow> 't conn_state \<Rightarrow> bool" where
  "one_after_other c d s s' \<longleftrightarrow> (\<exists>s1 p1 p2. p1 \<in> {Connected, Ended} \<and> p2 \<in> {Connected, Ended} \<and>
     conn_up\<^sup>*\<^sup>* (s, [(c, AtStart), (d, AtStart)]) (s1, [(c, p1), (d, AtStart)]) \<and>
     conn_up\<^sup>*\<^sup>* (s1, [(c, p1), (d, AtStart)]) (s', [(c, p1), (d, p2)]))"

lemma one_after_other_registers:
  assumes "one_after_other c d s s'"
  shows "cn_net s' = register d (cp_is_inbound d) (register c (cp_is_inbound c) (cn_net s))"
proof -
  obtain s1 p1 p2 where p: "p1 \<in> {Connected, Ended}" "p2 \<in> {Connected, Ended}"
    and runs: "conn_up\<^sup>*\<^sup>* (s, [(c, AtStart), (d, AtStart)]) (s1, [(c, p1), (d, AtStart)])"
      "conn_up\<^sup>*\<^sup>* (s1, [(c, p1), (d, AtStart)]) (s', [(c, p1), (d, p2)])"
    using assms by (auto simp: one_after_other_def)
  have "tracked c s s1 p1"
    using solo_registers [OF runs(1), of 0 c] by (auto simp: less_Suc_eq)
  moreover have "tracked d s1 s' p2"
    using solo_registers [OF runs(2), of 1 d] by (auto simp: less_Suc_eq)
  ultimately show ?thesis
    using p by auto
qed

text \<open>Such runs exist from every state: a task that is left alone registers its connection or gives it up.\<close>

lemma conn_up_set: "conn_step (s, ts) (t, ts[i := p]) \<Longrightarrow> snd (ts ! i) \<noteq> Connected \<Longrightarrow> conn_up (s, ts) (t, ts[i := p])"
  by (auto simp: conn_up_def) (metis nth_list_update_neq)

lemma solo_run_exists:
  assumes "i < length ts" "ts ! i = (c, AtStart)"
  shows "\<exists>t p. p \<in> {Connected, Ended} \<and> conn_up\<^sup>*\<^sup>* (s, ts) (t, ts[i := (c, p)])"
proof -
  have finish: "\<exists>t p. p \<in> {Connected, Ended} \<and> conn_up\<^sup>*\<^sup>* (s', ts[i := (c, ph)]) (t, ts[i := (c, p)])"
    if "ph = AtAdd \<or> (\<exists>idx. ph = AtReplace idx) \<or> ph = Ended" for s' ph
  proof -
    have add: "conn_up (u, ts[i := (c, AtAdd)]) (conn_add c u, ts[i := (c, Connected)])" for u
      using conn_up_set [OF conn_step.add [of i "ts[i := (c, AtAdd)]" c u]] assms(1) by simp
    have rep: "conn_up (u, ts[i := (c, AtReplace idx)])
        (u\<lparr>cn_net := snd (remove_old idx (cp_node_id c) (cn_net u))\<rparr>, ts[i := (c, AtAdd)])" for u idx
      using conn_up_set [OF conn_step.replace [of i "ts[i := (c, AtReplace idx)]" c idx u]] assms(1)
      by simp
    have "\<exists>t. conn_up\<^sup>*\<^sup>* (u, ts[i := (c, AtAdd)]) (t, ts[i := (c, Connected)])" for u
      using r_into_rtranclp [of conn_up, OF add] by blast
    then have "\<exists>t. conn_up\<^sup>*\<^sup>* (u, ts[i := (c, AtReplace idx)]) (t, ts[i := (c, Connected)])" for u idx
      using converse_rtranclp_into_rtranclp [of conn_up, OF rep] by blast
    then have "\<exists>t. conn_up\<^sup>*\<^sup>* (s', ts[i := (c, ph)]) (t, ts[i := (c, Connected)]) \<or> ph = Ended"
      using that r_into_rtranclp [of conn_up, OF add] by blast
    then show ?thesis
      by auto
  qed
  have check: "conn_up (s, ts) (s, ts[i := (c, if is_blacklisted (cn_net s) (cp_node_id c) then Ended else AtLookup)])"
    using conn_up_set [OF conn_step.check [of i ts c s]] assms by simp
  have look: "conn_up (s, ts[i := (c, AtLookup)])
      (s, ts[i := (c, phase_after (lookup_existing (cn_net s) (cp_node_id c) (cp_is_inbound c)))])"
    using conn_up_set [OF conn_step.look [of i "ts[i := (c, AtLookup)]" c s]] assms(1) by simp
  have "phase_after v = AtAdd \<or> (\<exists>idx. phase_after v = AtReplace idx) \<or> phase_after v = Ended" for v
    by (cases v) (simp_all add: phase_after_def)
  from finish [OF this] have looked: "\<exists>t p. p \<in> {Connected, Ended} \<and>
      conn_up\<^sup>*\<^sup>* (s, ts[i := (c, phase_after (lookup_existing (cn_net s) (cp_node_id c) (cp_is_inbound c)))]) (t, ts[i := (c, p)])"
    by blast
  show ?thesis
  proof (cases "is_blacklisted (cn_net s) (cp_node_id c)")
    case True
    with check show ?thesis
      by auto
  next
    case False
    then have "conn_up\<^sup>*\<^sup>* (s, ts) (s, ts[i := (c, phase_after (lookup_existing (cn_net s) (cp_node_id c) (cp_is_inbound c)))])"
      using check look by simp
    with looked show ?thesis
      by (meson rtranclp_trans)
  qed
qed

lemma one_after_other_exists: "\<exists>s'. one_after_other c d s s'"
proof -
  obtain s1 p1 where 1: "p1 \<in> {Connected, Ended}"
      "conn_up\<^sup>*\<^sup>* (s, [(c, AtStart), (d, AtStart)]) (s1, [(c, AtStart), (d, AtStart)][0 := (c, p1)])"
    using solo_run_exists [of 0 "[(c, AtStart), (d, AtStart)]" c s] by auto
  obtain s2 p2 where 2: "p2 \<in> {Connected, Ended}"
      "conn_up\<^sup>*\<^sup>* (s1, [(c, p1), (d, AtStart)]) (s2, [(c, p1), (d, AtStart)][1 := (d, p2)])"
    using solo_run_exists [of 1 "[(c, p1), (d, AtStart)]" d s1] by auto
  show ?thesis
    using 1 2 unfolding one_after_other_def by auto
qed

text \<open>
  (C35) Two nodes that have dialled each other keep the same one of the two connections, when each of them
  handles its two connection tasks one after the other: whichever of the two a node registers first, in the
  end it has exactly one connection to the other node, the one that the node with the lower id opened. The
  connections are \<open>x\<close>, opened by \<open>A\<close> (\<open>xa\<close> at \<open>A\<close>, \<open>xb\<close> at \<open>B\<close>), and \<open>y\<close>, opened by \<open>B\<close>; before, neither node has a
  connection to the other or has blacklisted it. The look-up and the registration of a task are separate critical
  sections: when the tasks of one node overlap, both connections can stay, see
  \<open>concurrent_duplicates_kept\<close>.
\<close>

theorem mutual_dials_agree:
  fixes A B :: "'t conn_state"
  defines "a \<equiv> pc_node_id (nw_config (cn_net A))" and "b \<equiv> pc_node_id (nw_config (cn_net B))"
  assumes "length a = 32" "length b = 32" "a \<noteq> b"
    and "connections_to b (cn_net A) = []" "\<not> is_blacklisted (cn_net A) b"
    and "connections_to a (cn_net B) = []" "\<not> is_blacklisted (cn_net B) a"
    and "cp_node_id xa = b" "cp_node_id ya = b" "cp_node_id xb = a" "cp_node_id yb = a"
    and "\<not> cp_is_inbound xa" "cp_is_inbound ya" "cp_is_inbound xb" "\<not> cp_is_inbound yb"
    and "one_after_other xa ya A A' \<or> one_after_other ya xa A A'"
    and "one_after_other xb yb B B' \<or> one_after_other yb xb B B'"
  shows "(connections_to b (cn_net A'), connections_to a (cn_net B')) =
    (if bytes_less a b then ([xa], [xb]) else ([ya], [yb]))"
proof -
  have none: "b \<notin> cp_node_id ` set (nw_connected_peers (cn_net A))" "a \<notin> cp_node_id ` set (nw_connected_peers (cn_net B))"
    using assms(6,8) by (auto simp: connections_to_def filter_empty_conv)
  have "connections_to b (cn_net A') = [if bytes_less a b then xa else ya]"
    using register_survivor [of b "cn_net A" xa ya] register_survivor [of b "cn_net A" ya xa] none assms(3-18)
      one_after_other_registers [of xa ya A A'] one_after_other_registers [of ya xa A A']
    by (auto simp: connections_to_def lower_initiated_def a_def)
  moreover have "bytes_less b a \<longleftrightarrow> \<not> bytes_less a b"
    using assms(3-5) bytes_less_asym bytes_less_linear by metis
  then have "connections_to a (cn_net B') = [if bytes_less a b then xb else yb]"
    using register_survivor [of a "cn_net B" xb yb] register_survivor [of a "cn_net B" yb xb] none assms(3-17,19)
      one_after_other_registers [of xb yb B B'] one_after_other_registers [of yb xb B B']
    by (auto simp: connections_to_def lower_initiated_def b_def)
  ultimately show ?thesis
    by simp
qed

definition sample_peer :: "u8 \<Rightarrow> bool \<Rightarrow> unit connected_peer" where
  "sample_peer n inb = (connected_peer_new (if inb then ''ws://in'' else ''ws://out'') ())
     \<lparr>cp_node_id := replicate 32 n, cp_is_inbound := inb\<rparr>"

lemma sample_ids_less: "bytes_less (replicate 32 1) (replicate 32 2)"
proof -
  have "(32::nat) = Suc 31"
    by simp
  then show ?thesis
    by (simp only: replicate_Suc bytes_less.simps) simp
qed

theorem mutual_dials_agree_witness:
  "\<exists>A' B'. one_after_other (sample_peer 2 True) (sample_peer 2 False)
       \<lparr>cn_net = p2p_new (p2p_config_default (replicate 32 1)), cn_counter = 0\<rparr> A' \<and>
     one_after_other (sample_peer 1 True) (sample_peer 1 False)
       \<lparr>cn_net = p2p_new (p2p_config_default (replicate 32 2)), cn_counter = 0\<rparr> B' \<and>
     (connections_to (replicate 32 2) (cn_net A'), connections_to (replicate 32 1) (cn_net B')) =
       ([sample_peer 2 False], [sample_peer 1 True])"
proof -
  let ?A = "\<lparr>cn_net = p2p_new (p2p_config_default (replicate 32 1)), cn_counter = 0\<rparr>"
    and ?B = "\<lparr>cn_net = p2p_new (p2p_config_default (replicate 32 2)), cn_counter = 0\<rparr>"
  obtain A' B' where runs: "one_after_other (sample_peer 2 True) (sample_peer 2 False) ?A A'"
      "one_after_other (sample_peer 1 True) (sample_peer 1 False) ?B B'"
    using one_after_other_exists by blast
  then show ?thesis
    using mutual_dials_agree [of ?A ?B "sample_peer 2 False" "sample_peer 2 True" "sample_peer 1 True" "sample_peer 1 False" A' B']
      sample_ids_less
    by (auto simp: sample_peer_def p2p_new_def p2p_config_default_def connections_to_def is_blacklisted_def)
qed

text \<open>
  The look-up of an existing connection and the registration of a new one are separate critical
  sections. Two connection tasks of the same node that run side by side both find no connection and
  both register: from any state without a connection to that node there is an interleaving that ends
  with two.
\<close>

theorem concurrent_duplicates_kept:
  assumes "connections_to (cp_node_id c) (cn_net s) = []" "\<not> is_blacklisted (cn_net s) (cp_node_id c)"
    and "cp_node_id d = cp_node_id c"
  shows "\<exists>s'. conn_step\<^sup>*\<^sup>* (s, [(c, AtStart), (d, AtStart)]) (s', [(c, Connected), (d, Connected)]) \<and>
    connections_to (cp_node_id c) (cn_net s') = [c, d]"
proof -
  have "lookup_existing (cn_net s) (cp_node_id c) inb = Proceed" for inb
    using assms(1) find_peer_None [of 0 "cp_node_id c" "nw_connected_peers (cn_net s)"]
    by (auto simp: lookup_existing_def connections_to_def filter_empty_conv)
  then have l: "phase_after (lookup_existing (cn_net s) (cp_node_id c) inb) = AtAdd" for inb
    by (simp add: phase_after_def)
  have "conn_step (s, [(c, AtStart), (d, AtStart)]) (s, [(c, AtLookup), (d, AtStart)])"
    using conn_step.check [of 0 "[(c, AtStart), (d, AtStart)]" c s] assms(2) by simp
  moreover have "conn_step (s, [(c, AtLookup), (d, AtStart)]) (s, [(c, AtLookup), (d, AtLookup)])"
    using conn_step.check [of 1 "[(c, AtLookup), (d, AtStart)]" d s] assms(2,3) by simp
  moreover have "conn_step (s, [(c, AtLookup), (d, AtLookup)]) (s, [(c, AtAdd), (d, AtLookup)])"
    using conn_step.look [of 0 "[(c, AtLookup), (d, AtLookup)]" c s] l by simp
  moreover have "conn_step (s, [(c, AtAdd), (d, AtLookup)]) (s, [(c, AtAdd), (d, AtAdd)])"
    using conn_step.look [of 1 "[(c, AtAdd), (d, AtLookup)]" d s] l assms(3) by simp
  moreover have "conn_step (s, [(c, AtAdd), (d, AtAdd)]) (conn_add c s, [(c, Connected), (d, AtAdd)])"
    using conn_step.add [of 0 "[(c, AtAdd), (d, AtAdd)]" c s] by simp
  moreover have "conn_step (conn_add c s, [(c, Connected), (d, AtAdd)])
      (conn_add d (conn_add c s), [(c, Connected), (d, Connected)])"
    using conn_step.add [of 1 "[(c, Connected), (d, AtAdd)]" d "conn_add c s"] by simp
  ultimately have "conn_step\<^sup>*\<^sup>* (s, [(c, AtStart), (d, AtStart)])
      (conn_add d (conn_add c s), [(c, Connected), (d, Connected)])"
    by (meson converse_rtranclp_into_rtranclp r_into_rtranclp)
  moreover have "connections_to (cp_node_id c) (cn_net (conn_add d (conn_add c s))) = [c, d]"
    using assms(1,3) by (simp add: conn_add_def add_connected_peer_def Let_def connections_to_def)
  ultimately show ?thesis
    by blast
qed

theorem concurrent_duplicates_kept_witness:
  "\<exists>s'. conn_step\<^sup>*\<^sup>*
      (\<lparr>cn_net = p2p_new (p2p_config_default (replicate 32 1)), cn_counter = 0\<rparr>,
       [(sample_peer 2 False, AtStart), (sample_peer 2 True, AtStart)])
      (s', [(sample_peer 2 False, Connected), (sample_peer 2 True, Connected)]) \<and>
    connections_to (replicate 32 2) (cn_net s') = [sample_peer 2 False, sample_peer 2 True]"
  using concurrent_duplicates_kept [of "sample_peer 2 False"
      "\<lparr>cn_net = p2p_new (p2p_config_default (replicate 32 1)), cn_counter = 0\<rparr>" "sample_peer 2 True"]
  by (simp add: sample_peer_def p2p_new_def connections_to_def is_blacklisted_def)


section \<open>The rate limit\<close>

definition arrival_times :: "arrival list \<Rightarrow> nat list" where
  "arrival_times as = map (\<lambda>(_, now, _). unat now) as"

definition events_in :: "nat \<Rightarrow> (net_event \<times> u64) list \<Rightarrow> nat" where
  "events_in t events = length (filter (\<lambda>(_, now). t \<le> unat now \<and> unat now < t + 1000) events)"

lemma window_expired_iff: "ws \<le> now \<Longrightarrow> window_expired now ws \<longleftrightarrow> unat ws + 1000 \<le> unat now"
  by (auto simp: window_expired_def word_le_nat_alt word_less_nat_alt unat_saturating_sub)

lemma read_loop_message:
  assumes "unat ws \<le> unat now" "unat count \<le> 100"
  defines "over \<equiv> unat ws + 1000 \<le> unat now"
  shows "read_loop url ws count ((Inr msg, now, q) # rest) =
    (if \<not> over \<and> unat count = 100 then ([], RateLimited)
     else if \<not> q then ([], EventsClosed)
     else let (events, r) = read_loop url (if over then now else ws) (if over then 1 else count + 1) rest
       in ((\<lparr>ne_from = url, ne_msg = msg\<rparr>, now) # events, r))"
proof -
  have "unat (count + 1) = unat count + 1"
    using assms(2) by (subst unat_add_no_wrap) simp_all
  then have "100 < count + 1 \<longleftrightarrow> unat count = 100"
    using assms(2) by (auto simp: word_less_nat_alt)
  then show ?thesis
    using assms(1) window_expired_iff [of ws now]
    by (simp add: MAX_MESSAGES_PER_SECOND_def over_def word_le_nat_alt Let_def split: prod.splits)
qed

lemma unat_count_suc: "unat count < 100 \<Longrightarrow> unat (count + 1 :: u32) = unat count + 1"
  by (subst unat_add_no_wrap) simp_all

lemma read_loop_times:
  "(ev, now) \<in> set (fst (read_loop url ws count as)) \<Longrightarrow> unat now \<in> set (arrival_times as)"
  by (induction url ws count as rule: read_loop.induct)
    (auto simp: arrival_times_def Let_def split: if_splits prod.splits)

declare read_loop.simps(3) [simp del]

lemma events_in_late:
  assumes "\<forall>x \<in> set (arrival_times as). t + 1000 \<le> x"
  shows "events_in t (fst (read_loop url ws count as)) = 0"
  using assms read_loop_times [of _ _ url ws count as]
  by (fastforce simp: events_in_def filter_empty_conv)

text \<open>A window that starts within the interval fills what is left of its quota.\<close>

lemma events_in_window:
  assumes "sorted (unat ws # arrival_times as)" "t \<le> unat ws" "unat count \<le> 100"
  shows "events_in t (fst (read_loop url ws count as)) \<le> 100 - unat count"
  using assms
proof (induction as arbitrary: count)
  case (Cons a rest)
  obtain m now q where a: "a = (m, now, q)"
    by (cases a)
  have le: "unat ws \<le> unat now" and srt: "sorted (unat now # arrival_times rest)" "sorted (unat ws # arrival_times rest)"
    using Cons.prems(1) by (auto simp: arrival_times_def a)
  show ?case
  proof (cases m)
    case (Inr msg)
    show ?thesis
    proof (cases "unat ws + 1000 \<le> unat now")
      case True
      then have "\<forall>x \<in> set (arrival_times (a # rest)). t + 1000 \<le> x"
        using srt Cons.prems(2) by (fastforce simp: arrival_times_def a)
      then show ?thesis
        by (simp add: events_in_late)
    next
      case False
      with Inr show ?thesis
        using le Cons.prems(3) unat_count_suc [of count] Cons.IH [OF srt(2) Cons.prems(2), of "count + 1"]
        by (cases "unat count = 100") (auto simp: a read_loop_message events_in_def split: prod.splits)
    qed
  qed (simp add: a events_in_def)
qed (simp add: events_in_def)

text \<open>An interval that starts inside a window meets this window and at most one more.\<close>

lemma events_in_next_window:
  assumes "sorted (unat ws # arrival_times as)" "unat ws < t" "unat count \<le> 100"
    and "\<forall>x \<in> set (arrival_times as). t \<le> x"
  shows "events_in t (fst (read_loop url ws count as)) \<le> 200 - unat count"
  using assms
proof (induction as arbitrary: count)
  case (Cons a rest)
  obtain m now q where a: "a = (m, now, q)"
    by (cases a)
  have le: "unat ws \<le> unat now" "t \<le> unat now" and late: "\<forall>x \<in> set (arrival_times rest). t \<le> x"
      and srt: "sorted (unat now # arrival_times rest)" "sorted (unat ws # arrival_times rest)"
    using Cons.prems(1,4) by (auto simp: arrival_times_def a)
  show ?case
  proof (cases m)
    case (Inr msg)
    show ?thesis
    proof (cases "unat ws + 1000 \<le> unat now")
      case True
      with Inr show ?thesis
        using le Cons.prems(3) events_in_window [OF srt(1) le(2), of 1 url]
        by (auto simp: a read_loop_message events_in_def split: prod.splits)
    next
      case False
      with Inr show ?thesis
        using le Cons.prems(3) unat_count_suc [of count] Cons.IH [OF srt(2) Cons.prems(2) _ late, of "count + 1"]
        by (cases "unat count = 100") (auto simp: a read_loop_message events_in_def split: prod.splits)
    qed
  qed (simp add: a events_in_def)
qed (simp add: events_in_def)

lemma events_in_bound:
  assumes "sorted (unat ws # arrival_times as)" "unat count \<le> 100"
  shows "events_in t (fst (read_loop url ws count as)) \<le> 200"
  using assms
proof (induction as arbitrary: ws count)
  case (Cons a rest)
  obtain m now q where a: "a = (m, now, q)"
    by (cases a)
  have le: "unat ws \<le> unat now"
      and srt: "sorted (unat now # arrival_times rest)" "sorted (unat ws # arrival_times rest)"
    using Cons.prems(1) by (auto simp: arrival_times_def a)
  consider (win) "t \<le> unat ws" | (late) "unat ws < t" "t \<le> unat now" | (early) "unat now < t"
    by linarith
  then show ?case
  proof cases
    case win
    then show ?thesis
      using events_in_window [OF Cons.prems(1) win Cons.prems(2), of url] by simp
  next
    case late
    then have "\<forall>x \<in> set (arrival_times (a # rest)). t \<le> x"
      using srt(1) by (fastforce simp: arrival_times_def a)
    then show ?thesis
      using events_in_next_window [OF Cons.prems(1) late(1) Cons.prems(2), of url] by simp
  next
    case early
    then have "events_in t (fst (read_loop url ws count (a # rest))) \<le>
        max (events_in t (fst (read_loop url now 1 rest)))
          (if unat count = 100 then 0 else events_in t (fst (read_loop url ws (count + 1) rest)))"
      using le Cons.prems(2)
      by (cases m) (auto simp: a read_loop_message events_in_def split: prod.splits)
    also have "\<dots> \<le> 200"
      using Cons.IH [OF srt(1), of 1] Cons.IH [OF srt(2), of "count + 1"] unat_count_suc [of count] Cons.prems(2)
      by auto
    finally show ?thesis .
  qed
qed (simp add: events_in_def)


lemma rate_limited_peer_floods:
  assumes "sorted (unat ws # arrival_times as)" "unat count \<le> 100"
    and "\<forall>x \<in> set hist. unat ws \<le> x" "length hist = unat count"
    and "snd (read_loop url ws count as) = RateLimited"
  shows "\<exists>i. i + 100 < length (hist @ arrival_times as) \<and>
    (hist @ arrival_times as) ! (i + 100) < (hist @ arrival_times as) ! i + 1000"
  using assms
proof (induction as arbitrary: ws count hist)
  case (Cons a rest)
  obtain m now q where a: "a = (m, now, q)"
    by (cases a)
  have le: "unat ws \<le> unat now"
      and srt: "sorted (unat now # arrival_times rest)" "sorted (unat ws # arrival_times rest)"
      and times: "arrival_times (a # rest) = unat now # arrival_times rest"
    using Cons.prems(1) by (auto simp: arrival_times_def a)
  obtain msg where m: "m = Inr msg"
    using Cons.prems(5) by (cases m) (auto simp: a)
  consider (full) "unat now < unat ws + 1000" "unat count = 100" | (new) "unat ws + 1000 \<le> unat now"
    | (same) "unat now < unat ws + 1000" "unat count < 100"
    using Cons.prems(2) by linarith
  then show ?case
  proof cases
    case full
    then have "unat ws \<le> hist ! 0" "length hist = 100"
      using Cons.prems(3,4) by (simp_all add: nth_mem)
    then show ?thesis
      using full(1) by (intro exI [of _ 0]) (simp add: times nth_append)
  next
    case new
    then have "snd (read_loop url now 1 rest) = RateLimited"
      using Cons.prems(2,5) le by (auto simp: a m read_loop_message split: if_splits prod.splits)
    then obtain i where "i + 100 < length ([unat now] @ arrival_times rest)"
        "([unat now] @ arrival_times rest) ! (i + 100) < ([unat now] @ arrival_times rest) ! i + 1000"
      using Cons.IH [OF srt(1), of 1 "[unat now]"] by auto
    then show ?thesis
      by (intro exI [of _ "length hist + i"]) (simp add: times nth_append add.assoc)
  next
    case same
    then have "snd (read_loop url ws (count + 1) rest) = RateLimited"
      using Cons.prems(2,5) le by (auto simp: a m read_loop_message split: if_splits prod.splits)
    then show ?thesis
      using Cons.IH [OF srt(2), of "count + 1" "hist @ [unat now]"] same(2) unat_count_suc [of count] Cons.prems(3,4) le
      by (auto simp: times)
  qed
qed simp

text \<open>
  (C36) The rate limit, for a clock that does not go back: in no second does a peer get more than 200
  messages through (two windows of 100 can meet in it), and a peer is cut off and blacklisted only when
  it did send more than 100 messages within less than a second.
\<close>

theorem rate_limit_bound:
  assumes "sorted (unat start # arrival_times arrivals)" and "read_loop url start 0 arrivals = (events, r)"
  shows "events_in t events \<le> 200 \<and>
    (r = RateLimited \<longrightarrow> (\<exists>i. i + 100 < length arrivals \<and>
       arrival_times arrivals ! (i + 100) < arrival_times arrivals ! i + 1000))"
  using events_in_bound [OF assms(1), of 0 t url] rate_limited_peer_floods [OF assms(1), of 0 "[]" url] assms(2)
  by (auto simp: arrival_times_def)

theorem rate_limit_bound_witness:
  "read_loop ''ws://a'' 5 0 [(Inr (RevealMsg (reveal_new [] [])), 7, True)] =
     ([(\<lparr>ne_from = ''ws://a'', ne_msg = RevealMsg (reveal_new [] [])\<rparr>, 7)], Waiting) \<and>
   events_in 5 [(\<lparr>ne_from = ''ws://a'', ne_msg = RevealMsg (reveal_new [] [])\<rparr>, 7)] \<le> 200"
proof -
  have "read_loop ''ws://a'' 5 0 [(Inr (RevealMsg (reveal_new [] [])), 7, True)] =
     ([(\<lparr>ne_from = ''ws://a'', ne_msg = RevealMsg (reveal_new [] [])\<rparr>, 7)], Waiting)"
    by (simp add: read_loop_message)
  with rate_limit_bound [OF _ this, of 5] show ?thesis
    by (simp add: arrival_times_def)
qed

end
