(* ===== verification/Node_Coordinator.thy ===== *)
theory Node_Coordinator
  imports Handler Data_Sink P2p_Gossip Node_Connection
begin

text \<open>
  The node (\<open>node/src/coordinator\<close>, \<open>node/src/node\<close>, \<open>claim.rs\<close>): the dispatch of the messages of the network,
  the application of chain events, the driver, and the calls of a taker. The node composes the handler,
  the sink of the chains and the network.

  \<open>nd_wasm\<close> is the build target: the browser build is the taker, the native build the liquidity provider or
  observer. The fields \<open>nd_sent\<close>, \<open>nd_txs\<close>, \<open>nd_dials\<close>, \<open>nd_statuses\<close> and \<open>nd_quotes\<close> are logs of what the node
  has put out: the messages to its peers, the transactions, the addresses to dial, and the two channels
  to the browser.
\<close>

section \<open>State\<close>

datatype role = Lp | Observer

record pending_claim =
  pm_secret :: bytes
  pm_expected_counter_chain :: channel_id
  pm_expected_secret_hash :: bytes
  pm_expected_destination_address :: string
  pm_expected_amount_out :: amount_v1

datatype swap_status =
    AwaitingDeposit channel_id string "string option"
  | CommitSubmitted u64
  | StatusLocked
  | StatusCompleted
  | StatusFailed string

record swap_status_update =
  su_swap_id :: bytes
  su_stage :: swap_status
  su_at :: u64

record checked_quote =
  cq_swap_id :: bytes
  cq_origin :: u8
  cq_destination :: u8
  cq_amount_in :: string
  cq_amount_out :: string
  cq_sender_destination_address :: string
  cq_commit_unlock_offset_secs :: u64
  cq_lp_sender_address :: string
  cq_lp_signature :: bytes
  cq_lp_block_confirmations :: u64
  cq_signature_valid :: bool
  cq_balance_sufficient :: bool

record ('s, 'c, 't) node =
  nd_handler :: handler
  nd_network :: "'t p2p"
  nd_sink :: "('s, 'c) chain_data_sink"
  nd_role :: role
  nd_wasm :: bool
  nd_pending_claims :: "(bytes, pending_claim) hashmap"
  nd_sent :: sent
  nd_txs :: "chain_tx list"
  nd_dials :: "string list"
  nd_statuses :: "swap_status_update list"
  nd_quotes :: "checked_quote list"

record ('s, 'c, 't) node_env =
  nv_data :: "('s, 'c) data_env"
  nv_net :: "'t p2p_net"
  nv_ext :: externs
  nv_now :: u64
  nv_show :: "handler_error \<Rightarrow> string"
  nv_show_data :: "data_error \<Rightarrow> string"
  nv_dial_open :: "nat \<Rightarrow> bool"
  nv_json :: "commitment_v1 \<Rightarrow> (string, string) result"

text \<open>The errors that a handler of the coordinator passes up.\<close>

datatype coord_error = P2pErr p2p_error | HandlerErr handler_error | DataErr data_error

definition MAX_REDEEM_SCRIPT_BYTES :: nat where "MAX_REDEEM_SCRIPT_BYTES = 512"

definition pending_claim_matches :: "externs \<Rightarrow> pending_claim \<Rightarrow> commitment_v1 \<Rightarrow> bool" where
  "pending_claim_matches ext claim detected =
     (pm_expected_secret_hash claim = cm_secret_hash detected \<and>
      cm_source detected = channel_as_u8 (pm_expected_counter_chain claim) \<and>
      normalised_address_eq ext (pm_expected_counter_chain claim) (ad_receiver (cm_addresses detected))
        (pm_expected_destination_address claim) \<and>
      at_least (cm_amount detected) (pm_expected_amount_out claim))"

section \<open>What the node puts out\<close>

definition emit_status :: "('s, 'c, 't) node_env \<Rightarrow> bytes \<Rightarrow> swap_status \<Rightarrow> ('s, 'c, 't) node \<Rightarrow> ('s, 'c, 't) node" where
  "emit_status V swap_id stg nd =
     nd\<lparr>nd_statuses := nd_statuses nd @ [\<lparr>su_swap_id = swap_id, su_stage = stg, su_at = nv_now V\<rparr>]\<rparr>"

definition co_broadcast ::
  "('s, 'c, 't) node_env \<Rightarrow> p2p_msg \<Rightarrow> ('s, 'c, 't) node \<Rightarrow> (unit, p2p_error) result \<times> ('s, 'c, 't) node" where
  "co_broadcast V msg nd =
     (case broadcast (nv_net V) msg (nd_network nd) of
        (r, net, out) \<Rightarrow> (r, nd\<lparr>nd_network := net, nd_sent := nd_sent nd @ out\<rparr>))"

definition co_forward ::
  "('s, 'c, 't) node_env \<Rightarrow> string \<Rightarrow> p2p_msg \<Rightarrow> ('s, 'c, 't) node \<Rightarrow> (bool, p2p_error) result \<times> ('s, 'c, 't) node" where
  "co_forward V from_url msg nd =
     (case forward (nv_net V) from_url msg (nd_network nd) of
        (r, net, out) \<Rightarrow> (r, nd\<lparr>nd_network := net, nd_sent := nd_sent nd @ out\<rparr>))"

definition co_send_to ::
  "('s, 'c, 't) node_env \<Rightarrow> string \<Rightarrow> p2p_msg \<Rightarrow> ('s, 'c, 't) node \<Rightarrow> (unit, coord_error) result \<times> ('s, 'c, 't) node" where
  "co_send_to V url msg nd =
     (case send_to (nv_net V) url msg (nd_network nd) of
        (r, out) \<Rightarrow> (map_err P2pErr r, nd\<lparr>nd_sent := nd_sent nd @ out\<rparr>))"

text \<open>A failed broadcast to a chain is logged.\<close>

definition co_broadcast_event ::
  "('s, 'c, 't) node_env \<Rightarrow> channel_id \<Rightarrow> chain_event \<Rightarrow> ('s, 'c, 't) node \<Rightarrow> ('s, 'c, 't) node" where
  "co_broadcast_event V ch event nd =
     (case sink_broadcast_event (nv_data V) ch event (nd_sink nd) of
        (_, txs, sk) \<Rightarrow> nd\<lparr>nd_sink := sk, nd_txs := nd_txs nd @ txs\<rparr>)"

section \<open>Messages\<close>

definition co_on_reveal ::
  "('s, 'c, 't) node_env \<Rightarrow> string \<Rightarrow> reveal_v1 \<Rightarrow> ('s, 'c, 't) node \<Rightarrow> (unit, coord_error) result \<times> ('s, 'c, 't) node" where
  "co_on_reveal V from_url r nd =
     (case co_forward V from_url (RevealMsg r) nd of
        (Inl e, nd) \<Rightarrow> (Inl (P2pErr e), nd)
      | (Inr False, nd) \<Rightarrow> (Inr (), nd)
      | (Inr True, nd) \<Rightarrow>
          (let nd = (case handle_external_reveal (nv_ext V) (nd_handler nd) r of
                 Inl e \<Rightarrow> nd | Inr h \<Rightarrow> nd\<lparr>nd_handler := h\<rparr>)
           in (Inr (), fold (\<lambda>chan. co_broadcast_event V chan (Reveal r)) (sink_channels (nd_sink nd)) nd)))"

definition handle_proposal ::
  "('s, 'c, 't) node_env \<Rightarrow> string \<Rightarrow> proposal_request \<Rightarrow> ('s, 'c, 't) node
     \<Rightarrow> (unit, coord_error) result \<times> ('s, 'c, 't) node" where
  "handle_proposal V from_url req nd =
     (let swap_request = \<lparr>rq_origin = pq_origin req, rq_destination = pq_destination req, rq_amount = pq_amount req\<rparr> in
      case create_proposal (nv_ext V) (nv_now V) (nd_handler nd) swap_request of
        Inl e \<Rightarrow>
          (case rejection_reason (nv_show V) e of
             Some reason \<Rightarrow>
               co_send_to V from_url (ProposalErrorMsg \<lparr>pe_swap_id = pq_swap_id req, pe_origin = pq_origin req,
                 pe_destination = pq_destination req, pe_reason = reason\<rparr>) nd
           | None \<Rightarrow> (Inl (HandlerErr e), nd))
      | Inr proposal \<Rightarrow>
          let origin = tp_origin proposal;
              origin_u8 = channel_as_u8 origin;
              destination_u8 = channel_as_u8 (tp_destination proposal);
              lp_block_confirmations =
                (case hm_get (h_block_confirmations (nd_handler nd)) (tp_destination proposal) of
                   None \<Rightarrow> 0 | Some n \<Rightarrow> n) in
          case sink_lp_address (nv_data V) (nd_sink nd) origin of
            Inl e \<Rightarrow> (Inl (DataErr e), nd)
          | Inr lp_sender_address \<Rightarrow>
              (let digest = proposal_digest (pn_sha256 (nv_net V)) (pq_swap_id req) origin_u8 destination_u8
                     (tp_amount_in proposal) (tp_amount_out proposal) (tp_sender_destination_address proposal)
                     lp_sender_address (tp_commit_unlock_offset_secs proposal) lp_block_confirmations in
               case sink_sign_message (nv_data V) (nd_sink nd) origin digest (tp_amount_in proposal) of
                 Inl e \<Rightarrow> (Inl (DataErr e), nd)
               | Inr (_, lp_signature) \<Rightarrow>
                   co_send_to V from_url (ProposalResponseMsg
                     \<lparr>pp_swap_id = pq_swap_id req, pp_origin = origin_u8, pp_destination = destination_u8,
                      pp_amount_in = tp_amount_in proposal, pp_amount_out = tp_amount_out proposal,
                      pp_sender_destination_address = tp_sender_destination_address proposal,
                      pp_commit_unlock_offset_secs = tp_commit_unlock_offset_secs proposal,
                      pp_lp_sender_address = lp_sender_address, pp_lp_signature = lp_signature,
                      pp_lp_block_confirmations = lp_block_confirmations, pp_extra_data = []\<rparr>) nd))"

text \<open>Both channels of a request or a response exist and are served here.\<close>

definition known_pair :: "handler \<Rightarrow> u8 \<Rightarrow> u8 \<Rightarrow> channel_id option" where
  "known_pair h origin destination =
     (case (channel_try_from origin, channel_try_from destination) of
        (Inr o', Inr d) \<Rightarrow> if knows_channel h o' \<and> knows_channel h d then Some o' else None
      | _ \<Rightarrow> None)"

definition on_proposal_request ::
  "('s, 'c, 't) node_env \<Rightarrow> string \<Rightarrow> proposal_request \<Rightarrow> ('s, 'c, 't) node
     \<Rightarrow> (unit, coord_error) result \<times> ('s, 'c, 't) node" where
  "on_proposal_request V from_url req nd =
     (if known_pair (nd_handler nd) (pq_origin req) (pq_destination req) = None then (Inr (), nd)
      else case co_forward V from_url (ProposalRequestMsg req) nd of
        (Inl e, nd) \<Rightarrow> (Inl (P2pErr e), nd)
      | (Inr False, nd) \<Rightarrow> (Inr (), nd)
      | (Inr True, nd) \<Rightarrow> if nd_role nd = Lp then handle_proposal V from_url req nd else (Inr (), nd))"

definition on_script_announce ::
  "('s, 'c, 't) node_env \<Rightarrow> string \<Rightarrow> script_announce \<Rightarrow> ('s, 'c, 't) node
     \<Rightarrow> (unit, coord_error) result \<times> ('s, 'c, 't) node" where
  "on_script_announce V from_url s nd =
     (if MAX_REDEEM_SCRIPT_BYTES < length (sc_redeem_script s) then (Inr (), nd)
      else case co_forward V from_url (ScriptAnnounceMsg s) nd of
        (Inl e, nd) \<Rightarrow> (Inl (P2pErr e), nd)
      | (Inr False, nd) \<Rightarrow> (Inr (), nd)
      | (Inr True, nd) \<Rightarrow>
          (case sink_script_channel (nd_sink nd) of
             None \<Rightarrow> (Inr (), nd)
           | Some ch \<Rightarrow>
               (case sink_register_script (nv_data V) ch (sc_address s) (sc_redeem_script s) (sc_swap_id s)
                       (sc_unlock_ts s) (sc_deposit_target s) (nd_sink nd) of
                  (_, sk) \<Rightarrow> (Inr (), nd\<lparr>nd_sink := sk\<rparr>))))"

definition on_proposal_error ::
  "('s, 'c, 't) node_env \<Rightarrow> proposal_error \<Rightarrow> ('s, 'c, 't) node \<Rightarrow> ('s, 'c, 't) node" where
  "on_proposal_error V rejection nd =
     (if nd_wasm nd then emit_status V (pe_swap_id rejection) (StatusFailed (pe_reason rejection)) nd else nd)"

definition on_proposal_response ::
  "('s, 'c, 't) node_env \<Rightarrow> proposal_response \<Rightarrow> ('s, 'c, 't) node \<Rightarrow> ('s, 'c, 't) node" where
  "on_proposal_response V r nd =
     (if \<not> nd_wasm nd then nd
      else case known_pair (nd_handler nd) (pp_origin r) (pp_destination r) of
        None \<Rightarrow> nd
      | Some origin \<Rightarrow>
          let digest = proposal_digest (pn_sha256 (nv_net V)) (pp_swap_id r) (pp_origin r) (pp_destination r)
                (pp_amount_in r) (pp_amount_out r) (pp_sender_destination_address r) (pp_lp_sender_address r)
                (pp_commit_unlock_offset_secs r) (pp_lp_block_confirmations r);
              (signature_valid, balance_sufficient) =
                (case sink_verify_message (nv_data V) (nd_sink nd) origin digest (pp_lp_sender_address r)
                        (pp_lp_signature r) (pp_amount_in r) of
                   Inr v \<Rightarrow> (pv_address_matches v, pv_balance_sufficient v)
                 | Inl _ \<Rightarrow> (False, False)) in
          nd\<lparr>nd_quotes := nd_quotes nd @
            [\<lparr>cq_swap_id = pp_swap_id r, cq_origin = pp_destination r, cq_destination = pp_origin r,
              cq_amount_in = pp_amount_out r, cq_amount_out = pp_amount_in r,
              cq_sender_destination_address = pp_sender_destination_address r,
              cq_commit_unlock_offset_secs = pp_commit_unlock_offset_secs r,
              cq_lp_sender_address = pp_lp_sender_address r, cq_lp_signature = pp_lp_signature r,
              cq_lp_block_confirmations = pp_lp_block_confirmations r, cq_signature_valid = signature_valid,
              cq_balance_sufficient = balance_sufficient\<rparr>]\<rparr>)"

definition handle_incoming ::
  "('s, 'c, 't) node_env \<Rightarrow> string \<Rightarrow> p2p_msg \<Rightarrow> ('s, 'c, 't) node \<Rightarrow> (unit, coord_error) result \<times> ('s, 'c, 't) node" where
  "handle_incoming V from_url msg nd =
     (case msg of
        StateMsg s \<Rightarrow>
          (Inr (), if nd_wasm nd then nd
             else nd\<lparr>nd_dials := nd_dials nd @ process_peer_addrs (nv_dial_open V) (nd_network nd) (ns_peers s)\<rparr>)
      | ProposalRequestMsg req \<Rightarrow> on_proposal_request V from_url req nd
      | ProposalResponseMsg r \<Rightarrow> (Inr (), on_proposal_response V r nd)
      | RevealMsg r \<Rightarrow> co_on_reveal V from_url r nd
      | ScriptAnnounceMsg s \<Rightarrow> on_script_announce V from_url s nd
      | ProposalErrorMsg e \<Rightarrow> (Inr (), on_proposal_error V e nd))"

text \<open>The dispatch loop: an error is logged and the next message handled.\<close>

definition dispatch :: "(('s, 'c, 't) node_env \<times> net_event) list \<Rightarrow> ('s, 'c, 't) node \<Rightarrow> ('s, 'c, 't) node" where
  "dispatch events nd = fold (\<lambda>(V, ev) nd. snd (handle_incoming V (ne_from ev) (ne_msg ev) nd)) events nd"

section \<open>Chain events\<close>

text \<open>\<open>spawn_reveal_broadcast\<close>: the task it spawns runs on its own; it is run at once here.\<close>

definition spawn_reveal_broadcast ::
  "('s, 'c, 't) node_env \<Rightarrow> bytes \<Rightarrow> pending_claim \<Rightarrow> ('s, 'c, 't) node \<Rightarrow> ('s, 'c, 't) node" where
  "spawn_reveal_broadcast V swap_id claim nd =
     (case co_broadcast V (RevealMsg (reveal_new swap_id (pm_secret claim))) nd of
        (r, nd) \<Rightarrow> emit_status V swap_id
          (case r of Inr _ \<Rightarrow> StatusCompleted
           | Inl e \<Rightarrow> StatusFailed (''reveal broadcast: '' @ p2p_error_to_string e)) nd)"

definition transmit_reveal :: "('s, 'c, 't) node_env \<Rightarrow> commitment_v1 \<Rightarrow> ('s, 'c, 't) node \<Rightarrow> ('s, 'c, 't) node" where
  "transmit_reveal V c nd =
     (case hm_get (nd_pending_claims nd) (cm_swap_id c) of
        None \<Rightarrow> nd
      | Some claim \<Rightarrow>
          if pending_claim_matches (nv_ext V) claim c
          then spawn_reveal_broadcast V (cm_swap_id c) claim
                 (nd\<lparr>nd_pending_claims := hm_remove (cm_swap_id c) (nd_pending_claims nd)\<rparr>)
          else nd\<lparr>nd_pending_claims := hm_insert (cm_swap_id c) claim
                 (hm_remove (cm_swap_id c) (nd_pending_claims nd))\<rparr>)"

definition apply_effect :: "('s, 'c, 't) node_env \<Rightarrow> effect \<Rightarrow> ('s, 'c, 't) node \<Rightarrow> ('s, 'c, 't) node" where
  "apply_effect V eff nd =
     (case eff of Broadcast ch ev \<Rightarrow> co_broadcast_event V ch ev nd
      | TransmitReveal detected \<Rightarrow> if nd_wasm nd then transmit_reveal V detected nd else nd)"

definition own_deposit :: "channel_id \<Rightarrow> chain_event \<Rightarrow> ('s, 'c, 't) node \<Rightarrow> bytes option" where
  "own_deposit source event nd =
     (case event of
        Commitment c \<Rightarrow>
          if nd_wasm nd \<and> (case hm_get (nd_pending_claims nd) (cm_swap_id c) of None \<Rightarrow> False
               | Some claim \<Rightarrow> source \<noteq> pm_expected_counter_chain claim)
          then Some (cm_swap_id c) else None
      | _ \<Rightarrow> None)"

definition apply_event ::
  "('s, 'c, 't) node_env \<Rightarrow> channel_id \<Rightarrow> chain_event \<Rightarrow> ('s, 'c, 't) node \<Rightarrow> ('s, 'c, 't) node" where
  "apply_event V source event nd =
     (let nd = (case own_deposit source event nd of None \<Rightarrow> nd | Some sid \<Rightarrow> emit_status V sid StatusLocked nd);
          clock = sink_chain_clock (nv_data V) (nd_sink nd) in
      case on_chain_event (nv_ext V) (nv_now V) (nd_handler nd) source event clock of
        (h, Inl e) \<Rightarrow> nd\<lparr>nd_handler := h\<rparr>
      | (h, Inr effects) \<Rightarrow> fold (apply_effect V) effects (nd\<lparr>nd_handler := h\<rparr>))"

definition announce_script :: "('s, 'c, 't) node_env \<Rightarrow> script_announcement \<Rightarrow> ('s, 'c, 't) node \<Rightarrow> ('s, 'c, 't) node" where
  "announce_script V a nd =
     snd (co_broadcast V (ScriptAnnounceMsg
       \<lparr>sc_address = sa_address a, sc_swap_id = sa_swap_id a, sc_redeem_script = us_redeem_script (sa_script a),
        sc_unlock_ts = us_unlock_ts (sa_script a), sc_deposit_target = us_deposit_target (sa_script a)\<rparr>) nd)"

text \<open>One round of the driver loop. A panic of a poll ends the task.\<close>

definition driver_tick ::
  "('s, 'c, 't) node_env \<Rightarrow> ('s, 'c, 't) node \<Rightarrow> (('s, 'c, 't) node, panic) result" where
  "driver_tick V nd =
     (case sink_finalized_chunk (nv_data V) (nd_sink nd) of
        (Inl p, sk) \<Rightarrow> Inl p
      | (Inr events, sk) \<Rightarrow>
          (let nd = fold (\<lambda>(source, event). apply_event V source event) events (nd\<lparr>nd_sink := sk\<rparr>);
               (announcements, sk) = sink_take_announcements (nd_sink nd) in
           Inr (fold (announce_script V) announcements (nd\<lparr>nd_sink := sk\<rparr>))))"

section \<open>The calls of a taker\<close>

datatype stroemnet_error =
    EnvErr string
  | OracleErr string
  | PeerDbErr db_error
  | LpModeForbidsInitiation
  | SecretHashMismatch
  | OtherErr string

definition request_quote ::
  "('s, 'c, 't) node_env \<Rightarrow> bytes \<Rightarrow> channel_id \<Rightarrow> channel_id \<Rightarrow> string \<Rightarrow> ('s, 'c, 't) node
     \<Rightarrow> (unit, stroemnet_error) result \<times> ('s, 'c, 't) node" where
  "request_quote V swap_id origin destination amount nd =
     (if nd_role nd = Lp then (Inl LpModeForbidsInitiation, nd)
      else case co_broadcast V (ProposalRequestMsg \<lparr>pq_swap_id = swap_id, pq_origin = channel_as_u8 origin,
             pq_destination = channel_as_u8 destination, pq_amount = amount, pq_extra_data = []\<rparr>) nd of
        (r, nd) \<Rightarrow> (map_err (\<lambda>e. OtherErr (''broadcast: '' @ p2p_error_to_string e)) r, nd))"

definition register_kaspa_deposit ::
  "('s, 'c, 't) node_env \<Rightarrow> channel_id \<Rightarrow> bytes \<Rightarrow> commitment_v1 \<Rightarrow> ('s, 'c, 't) node
     \<Rightarrow> (string, stroemnet_error) result \<times> ('s, 'c, 't) node" where
  "register_kaspa_deposit V source swap_id commitment nd =
     (case sink_derive_deposit (nv_data V) (nd_sink nd) source commitment of
        Inl e \<Rightarrow> (Inl (OtherErr (''kaspa deposit derive: '' @ nv_show_data V e)), nd)
      | Inr (p2sh, redeem) \<Rightarrow>
          (let target = am_value (cm_amount commitment) in
           case sink_register_script (nv_data V) source p2sh redeem swap_id (cm_unlock_ts commitment) target (nd_sink nd) of
             (Inl e, sk) \<Rightarrow> (Inl (OtherErr (''register script: '' @ nv_show_data V e)), nd\<lparr>nd_sink := sk\<rparr>)
           | (Inr _, sk) \<Rightarrow>
               (let nd = snd (co_broadcast V (ScriptAnnounceMsg \<lparr>sc_address = p2sh, sc_swap_id = swap_id,
                      sc_redeem_script = redeem, sc_unlock_ts = cm_unlock_ts commitment, sc_deposit_target = target\<rparr>)
                      (nd\<lparr>nd_sink := sk\<rparr>))
                in (Inr p2sh, emit_status V swap_id (AwaitingDeposit source p2sh (Some target)) nd))))"

definition register_commitment ::
  "('s, 'c, 't) node_env \<Rightarrow> commitment_v1 \<Rightarrow> bytes \<Rightarrow> string \<Rightarrow> ('s, 'c, 't) node
     \<Rightarrow> (string, stroemnet_error) result \<times> ('s, 'c, 't) node" where
  "register_commitment V commitment secret expected_amount_out nd =
     (if nd_role nd = Lp then (Inl LpModeForbidsInitiation, nd)
      else if pn_sha256 (nv_net V) secret \<noteq> cm_secret_hash commitment then (Inl SecretHashMismatch, nd)
      else case channel_try_from (cm_source commitment) of
        Inl e \<Rightarrow> (Inl (OtherErr (''source channel id: '' @ e)), nd)
      | Inr source \<Rightarrow>
      case channel_try_from (cm_destination commitment) of
        Inl e \<Rightarrow> (Inl (OtherErr (''destination channel id: '' @ e)), nd)
      | Inr destination \<Rightarrow>
      case parse_uint 128 expected_amount_out of
        None \<Rightarrow> (Inl (OtherErr (''expected_amount_out must be a base-unit integer: '' @ expected_amount_out)), nd)
      | Some expected_value \<Rightarrow>
      if expected_value = 0 then (Inl (OtherErr ''expected_amount_out must be greater than zero''), nd)
      else
        let nd = nd\<lparr>nd_pending_claims := hm_insert (cm_swap_id commitment)
              \<lparr>pm_secret = secret, pm_expected_counter_chain = destination,
               pm_expected_secret_hash = cm_secret_hash commitment,
               pm_expected_destination_address = ad_sender_destination (cm_addresses commitment),
               pm_expected_amount_out = amount_new expected_amount_out (decimals destination)\<rparr> (nd_pending_claims nd)\<rparr>
        in case source of
             KaspaTn10 \<Rightarrow> register_kaspa_deposit V source (cm_swap_id commitment) commitment nd
           | _ \<Rightarrow> (map_err (\<lambda>e. OtherErr (''commitment params: '' @ e)) (nv_json V commitment), nd))"

end
