(* ===== verification/Node_Safety.thy ===== *)
theory Node_Safety
  imports Node_Coordinator
begin

text \<open>
  What the composed node guarantees and what it does not: when a taker gives its secret away, which
  quotes it accepts as signed, and what a gossiped reveal does to the claims of a liquidity provider.
\<close>

section \<open>What an event leaves alone\<close>

lemma co_broadcast_event_frame [simp]:
  "nd_sent (co_broadcast_event V ch ev nd) = nd_sent nd"
  "nd_pending_claims (co_broadcast_event V ch ev nd) = nd_pending_claims nd"
  "nd_network (co_broadcast_event V ch ev nd) = nd_network nd"
  "nd_wasm (co_broadcast_event V ch ev nd) = nd_wasm nd"
  "nd_statuses (co_broadcast_event V ch ev nd) = nd_statuses nd"
  by (simp_all add: co_broadcast_event_def split: prod.split)

lemma emit_status_frame [simp]:
  "nd_sent (emit_status V sid s nd) = nd_sent nd"
  "nd_pending_claims (emit_status V sid s nd) = nd_pending_claims nd"
  "nd_network (emit_status V sid s nd) = nd_network nd"
  "nd_wasm (emit_status V sid s nd) = nd_wasm nd"
  "nd_handler (emit_status V sid s nd) = nd_handler nd"
  "nd_sink (emit_status V sid s nd) = nd_sink nd"
  by (simp_all add: emit_status_def)

definition reveal_sent :: "('s, 'c, 't) node_env \<Rightarrow> bytes \<Rightarrow> pending_claim \<Rightarrow> 't p2p \<Rightarrow> sent" where
  "reveal_sent V sid claim net = snd (snd (broadcast (nv_net V) (RevealMsg (reveal_new sid (pm_secret claim))) net))"

lemma spawn_reveal_sent:
  "nd_sent (spawn_reveal_broadcast V sid claim nd) = nd_sent nd @ reveal_sent V sid claim (nd_network nd)"
  by (simp add: spawn_reveal_broadcast_def co_broadcast_def reveal_sent_def split: prod.split)

text \<open>The effects of an event: a commitment asks for its reveal first, then it may lock or claim.\<close>

definition is_broadcast :: "effect \<Rightarrow> bool" where
  "is_broadcast eff = (case eff of Broadcast _ _ \<Rightarrow> True | TransmitReveal _ \<Rightarrow> False)"

lemma on_chain_event_effects:
  assumes "on_chain_event ext now h source event clock = (h', Inr effects)"
  shows "list_all is_broadcast effects \<or>
    (\<exists>c rest. event = Commitment c \<and> effects = TransmitReveal c # rest \<and> list_all is_broadcast rest)"
proof (cases event)
  case (Commitment c)
  then obtain d where d: "effects = TransmitReveal c #
      (if d \<noteq> source then case handle_internal_commitment ext now h' c d clock of
         Inr counter \<Rightarrow> [Broadcast d (Commitment counter)] | Inl _ \<Rightarrow> [] else [])"
    using assms by (cases "handle_external_commitment now h c") (auto simp: on_commitment_def result_simps)
  then show ?thesis
    using Commitment by (cases "handle_internal_commitment ext now h' c d clock") (auto simp: is_broadcast_def)
next
  case (Reveal r)
  then obtain cp where cp: "get_counterparty_channel_id h' (rv_swap_id r) source = Inr cp"
    using assms by (auto simp: on_reveal_def result_simps split: sum.splits)
  show ?thesis
  proof (cases cp)
    case (Some ch)
    then obtain cm where "get_commitment_for_channel h' (rv_swap_id r) ch = Inr cm"
      using assms Reveal cp by (auto simp: on_reveal_def result_simps split: sum.splits)
    then show ?thesis
      using assms Reveal cp Some
      by (cases cm) (auto simp: on_reveal_def is_broadcast_def result_simps split: sum.splits if_splits)
  qed (use assms Reveal cp in \<open>auto simp: on_reveal_def result_simps split: sum.splits\<close>)
qed (use assms in \<open>auto simp: on_refund_def split: sum.splits\<close>)

lemma broadcasts_send_nothing:
  "list_all is_broadcast effs \<Longrightarrow> nd_sent (fold (apply_effect V) effs nd) = nd_sent nd"
  by (induction effs arbitrary: nd) (auto simp: apply_effect_def is_broadcast_def split: effect.splits)

definition after_deposit ::
  "('s, 'c, 't) node_env \<Rightarrow> channel_id \<Rightarrow> chain_event \<Rightarrow> ('s, 'c, 't) node \<Rightarrow> ('s, 'c, 't) node" where
  "after_deposit V source event nd =
     (case own_deposit source event nd of None \<Rightarrow> nd | Some sid \<Rightarrow> emit_status V sid StatusLocked nd)"

lemma after_deposit_frame [simp]:
  "nd_sent (after_deposit V source event nd) = nd_sent nd"
  "nd_pending_claims (after_deposit V source event nd) = nd_pending_claims nd"
  "nd_network (after_deposit V source event nd) = nd_network nd"
  "nd_wasm (after_deposit V source event nd) = nd_wasm nd"
  "nd_handler (after_deposit V source event nd) = nd_handler nd"
  "nd_sink (after_deposit V source event nd) = nd_sink nd"
  by (simp_all add: after_deposit_def split: option.split)

lemma apply_event_unfold:
  "apply_event V source event nd =
     (case on_chain_event (nv_ext V) (nv_now V) (nd_handler nd) source event
             (sink_chain_clock (nv_data V) (nd_sink nd)) of
        (h, Inl e) \<Rightarrow> (after_deposit V source event nd)\<lparr>nd_handler := h\<rparr>
      | (h, Inr effects) \<Rightarrow> fold (apply_effect V) effects ((after_deposit V source event nd)\<lparr>nd_handler := h\<rparr>))"
  unfolding apply_event_def after_deposit_def [symmetric] by (simp add: Let_def)

lemma transmit_reveal_sent:
  "nd_sent (transmit_reveal V c nd) =
     (case hm_get (nd_pending_claims nd) (cm_swap_id c) of
        Some claim \<Rightarrow> if pending_claim_matches (nv_ext V) claim c
          then nd_sent nd @ reveal_sent V (cm_swap_id c) claim (nd_network nd) else nd_sent nd
      | None \<Rightarrow> nd_sent nd)"
  by (simp add: transmit_reveal_def spawn_reveal_sent split: option.split)

section \<open>When a taker gives its secret away\<close>

text \<open>
  The secret of a swap leaves a taker only for a lock that pays for it: whatever a chain event makes a
  node send to its peers is the reveal of a pending claim, for a commitment of the expected chain, under the
  secret's hash, to the taker's own address, of at least the expected amount.
\<close>

theorem reveal_only_when_funded:
  "nd_sent (apply_event V source event nd) = nd_sent nd \<or>
   (\<exists>c claim have need. event = Commitment c \<and> nd_wasm nd \<and>
      hm_get (nd_pending_claims nd) (cm_swap_id c) = Some claim \<and>
      cm_secret_hash c = pm_expected_secret_hash claim \<and>
      cm_source c = channel_as_u8 (pm_expected_counter_chain claim) \<and>
      normalised_address_eq (nv_ext V) (pm_expected_counter_chain claim) (ad_receiver (cm_addresses c))
        (pm_expected_destination_address claim) \<and>
      am_decimals (cm_amount c) = am_decimals (pm_expected_amount_out claim) \<and>
      parse_uint 128 (am_value (cm_amount c)) = Some have \<and>
      parse_uint 128 (am_value (pm_expected_amount_out claim)) = Some need \<and> need \<le> have \<and>
      nd_sent (apply_event V source event nd) =
        nd_sent nd @ reveal_sent V (cm_swap_id c) claim (nd_network nd))"
proof (cases "on_chain_event (nv_ext V) (nv_now V) (nd_handler nd) source event
    (sink_chain_clock (nv_data V) (nd_sink nd))")
  case (Pair h r)
  show ?thesis
  proof (cases r)
    case (Inl e)
    with Pair show ?thesis
      by (simp add: apply_event_unfold)
  next
    case (Inr effects)
    let ?nd = "(after_deposit V source event nd)\<lparr>nd_handler := h\<rparr>"
    have out: "apply_event V source event nd = fold (apply_effect V) effects ?nd"
      using Pair Inr by (simp add: apply_event_unfold)
    from on_chain_event_effects [OF Pair [unfolded Inr]] show ?thesis
    proof
      assume "list_all is_broadcast effects"
      then show ?thesis
        by (simp add: out broadcasts_send_nothing)
    next
      assume "\<exists>c rest. event = Commitment c \<and> effects = TransmitReveal c # rest \<and> list_all is_broadcast rest"
      then obtain c rest where c: "event = Commitment c" "effects = TransmitReveal c # rest" "list_all is_broadcast rest"
        by blast
      have "nd_sent (apply_event V source event nd) =
          (if nd_wasm nd then nd_sent (transmit_reveal V c ?nd) else nd_sent nd)"
        by (simp add: out c(2) broadcasts_send_nothing [OF c(3)] apply_effect_def)
      then show ?thesis
        using c(1) by (auto simp: transmit_reveal_sent pending_claim_matches_def at_least_iff split: option.splits)
    qed
  qed
qed

text \<open>The event of a lock that pays makes a taker send its secret to every peer.\<close>

lemma paid_lock_reveals:
  assumes "nd_wasm nd" "hm_get (nd_pending_claims nd) (cm_swap_id c) = Some claim" "pending_claim_matches (nv_ext V) claim c"
    and "is_ok (handle_external_commitment (nv_now V) (nd_handler nd) c)" "is_ok (try_channel (cm_destination c))"
  shows "nd_sent (apply_event V source (Commitment c) nd) = nd_sent nd @ reveal_sent V (cm_swap_id c) claim (nd_network nd)"
    "hm_get (nd_pending_claims (apply_event V source (Commitment c) nd)) (cm_swap_id c) = None"
proof -
  obtain h' where h': "handle_external_commitment (nv_now V) (nd_handler nd) c = Inr h'"
    using assms(4) by (auto simp: is_ok_iff)
  obtain rest where eff: "on_chain_event (nv_ext V) (nv_now V) (nd_handler nd) source (Commitment c)
      (sink_chain_clock (nv_data V) (nd_sink nd)) = (h', Inr (TransmitReveal c # rest))"
    using assms(5) h' by (auto simp: on_commitment_def is_ok_iff)
  then have rest: "list_all is_broadcast rest"
    using on_chain_event_effects [OF eff] by (auto simp: is_broadcast_def)
  let ?nd = "(after_deposit V source (Commitment c) nd)\<lparr>nd_handler := h'\<rparr>"
  have out: "apply_event V source (Commitment c) nd = fold (apply_effect V) rest (transmit_reveal V c ?nd)"
    using eff assms(1) by (simp add: apply_event_unfold apply_effect_def)
  have keep: "nd_pending_claims (fold (apply_effect V) rest x) = nd_pending_claims x" for x
    using rest by (induction rest arbitrary: x) (auto simp: apply_effect_def is_broadcast_def split: effect.splits)
  have "nd_pending_claims (transmit_reveal V c ?nd) = hm_remove (cm_swap_id c) (nd_pending_claims nd)"
    using assms(2,3)
    by (simp add: transmit_reveal_def spawn_reveal_broadcast_def co_broadcast_def split: prod.split)
  then show "nd_sent (apply_event V source (Commitment c) nd) = nd_sent nd @ reveal_sent V (cm_swap_id c) claim (nd_network nd)"
      "hm_get (nd_pending_claims (apply_event V source (Commitment c) nd)) (cm_swap_id c) = None"
    using assms(2,3) by (simp_all add: out keep broadcasts_send_nothing [OF rest] transmit_reveal_sent)
qed

text \<open>
  The unlock time of the counter lock plays no part. A lock that is already refundable when it is seen
  still makes the taker publish its secret: its owner can then refund it and claim the taker's
  deposit as well.
\<close>

theorem expired_lock_reveals:
  assumes "nd_wasm nd" "hm_get (nd_pending_claims nd) (cm_swap_id c) = Some claim"
    and "pending_claim_matches (nv_ext V) claim c"
    and "is_ok (handle_external_commitment (nv_now V) (nd_handler nd) c)" "is_ok (try_channel (cm_destination c))"
    and "cm_unlock_ts c \<le> nv_now V"
  shows "nd_sent (apply_event V source (Commitment c) nd) =
      nd_sent nd @ reveal_sent V (cm_swap_id c) claim (nd_network nd) \<and>
    hm_get (nd_pending_claims (apply_event V source (Commitment c) nd)) (cm_swap_id c) = None"
  using paid_lock_reveals [OF assms(1-5)] by simp

section \<open>A gossiped reveal\<close>

text \<open>
  The steps of an EVM buffer while its chain does not resolve the swap \<open>sid\<close>: anything but a poll that finds
  the swap claimed or refunded, and the removal of its claim once the chain shows it finalised.
\<close>

inductive unresolved_step :: "bytes \<Rightarrow> ('s, 'c) evm \<Rightarrow> ('s, 'c) evm \<Rightarrow> bool" for sid where
  emit: "unresolved_step sid e (snd (evm_emit_event B D X net now ev e))"
| settle: "unresolved_step sid e (snd (evm_settle_timed B D X net key e))"
| failure: "unresolved_step sid e (evm_record_failure B D key now e)"
| success: "key \<noteq> claim_key sid \<Longrightarrow> unresolved_step sid e (evm_record_success B D key e)"
| poll: "evm_poll_finalized B D C X net clk e = (Inr events, e') \<Longrightarrow>
    \<forall>x \<in> set events. is_commitment (snd x) \<or> event_swap_id (snd x) \<noteq> sid \<Longrightarrow> unresolved_step sid e e'"

lemma track_keeps_claim:
  "is_commitment ev \<or> event_swap_id ev \<noteq> sid \<Longrightarrow>
     find_claim sid (ev_pending_claims (evm_track_actionable_event B D now ev e)) = find_claim sid (ev_pending_claims e)"
  by (auto simp: evm_track_actionable_event_def Let_def find_claim_filter)

lemma logs_keep_claim:
  "evm_handle_logs B D X clk i logs e = (Inr events, e') \<Longrightarrow>
     \<forall>x \<in> set events. is_commitment (snd x) \<or> event_swap_id (snd x) \<noteq> sid \<Longrightarrow>
     find_claim sid (ev_pending_claims e') = find_claim sid (ev_pending_claims e)"
proof (induction logs arbitrary: i e events)
  case (Cons lg logs)
  obtain opt where opt: "decode_log X lg (ev_channel_id e) = Inr opt"
    using Cons.prems(1) by (cases "decode_log X lg (ev_channel_id e)") auto
  show ?case
  proof (cases opt)
    case None
    then show ?thesis
      using Cons opt by simp
  next
    case (Some ev)
    obtain es where "evm_handle_logs B D X clk (Suc i) logs (evm_track_actionable_event B D (clk i) ev e) = (Inr es, e')"
        and "events = (ev_channel_id e, ev) # es"
      using Cons.prems(1) opt Some by (auto simp: result_simps split: prod.splits)
    then show ?thesis
      using Cons.IH Cons.prems(2) track_keeps_claim [of ev sid B D "clk i" e] by auto
  qed
qed simp

lemma poll_keeps_claim:
  assumes "evm_poll_finalized B D C X net clk e = (Inr events, e')"
    and "\<forall>x \<in> set events. is_commitment (snd x) \<or> event_swap_id (snd x) \<noteq> sid"
  shows "find_claim sid (ev_pending_claims e') = find_claim sid (ev_pending_claims e)"
proof (cases "clk 0 < ev_next_poll_secs e")
  case True
  then show ?thesis
    using assms(1) by (simp add: evm_poll_finalized_def)
next
  case False
  then show ?thesis
    using assms
    by (auto simp: evm_poll_finalized_def Let_def split: prod.splits sum.splits option.splits
        dest!: logs_keep_claim [OF _ assms(2)])
qed

lemma unresolved_keeps_claim:
  "unresolved_step sid e e' \<Longrightarrow> find_claim sid (ev_pending_claims e) = Some r \<Longrightarrow>
     find_claim sid (ev_pending_claims e') = Some r"
proof (induction rule: unresolved_step.induct)
  case (emit e B D X net now ev)
  then show ?case
    by (cases ev) (auto simp: evm_emit_event_def Let_def find_claim_push split: sum.split)
next
  case (settle e B D X net key)
  then show ?case
    using evm_settle_timed_state [of B D X net key e] replacement_frame(5) by metis
next
  case (success key e B D)
  have "key = \<lparr>ak_swap_id = ak_swap_id key, ak_action = ak_action key\<rparr>"
    by simp
  then show ?case
    using success by (cases "ak_action key") (auto simp: evm_record_success_def Let_def claim_key_def find_claim_filter)
next
  case (poll B D C X net clk e events e')
  then show ?case
    by (simp add: poll_keeps_claim)
qed (simp add: evm_record_failure_def)

lemma settle_wrong_secret:
  assumes "find_claim sid (ev_pending_claims e) = Some r" "rv_swap_id r = sid"
    and "\<And>swap. en_swaps net (ev_htlc_address e) sid = Some (Inr swap) \<Longrightarrow> ex_sha256 X (rv_secret r) \<noteq> sv_secretHash swap"
  shows "snd (fst (evm_settle B D X net (claim_key sid) e)) = []"
proof -
  have no_tx: "snd (evm_submit_claim X net (ev_htlc_address e) r nonce gas gp) = []" for nonce gas gp
    using assms(2,3)
    by (auto simp: evm_submit_claim_def secret_matches_def claim_skip_reason_def Let_def split: option.splits sum.splits)
  obtain ng e' where rep: "replacement B D X net (claim_key sid) e = (ng, e')"
    by fastforce
  then have "ev_htlc_address e' = ev_htlc_address e"
    using replacement_frame(1) by (metis snd_conv)
  then show ?thesis
    using assms(1) rep no_tx
    by (auto simp: evm_settle_def evm_settle_claim_def claim_key_def find_claim_def split: option.splits prod.splits sum.splits)
       (metis snd_conv)+
qed

text \<open>A message to all channels reaches the buffer of each once.\<close>

lemma broadcast_event_buffer:
  "hm_get (sk_buffers (nd_sink (co_broadcast_event V chan ev nd))) ch =
     (if chan = ch then map_option (\<lambda>b. snd (snd (buf_broadcast_event (nv_data V) ch ev b))) (hm_get (sk_buffers (nd_sink nd)) ch)
      else hm_get (sk_buffers (nd_sink nd)) ch)"
  by (auto simp: co_broadcast_event_def sink_broadcast_event_def sink_buffer_def put_buffer_def split: option.splits
      prod.splits sum.splits simp: result_simps)

lemma broadcast_all_buffer:
  "distinct chans \<Longrightarrow> hm_get (sk_buffers (nd_sink (fold (\<lambda>chan. co_broadcast_event V chan ev) chans nd))) ch =
     (if ch \<in> set chans then map_option (\<lambda>b. snd (snd (buf_broadcast_event (nv_data V) ch ev b))) (hm_get (sk_buffers (nd_sink nd)) ch)
      else hm_get (sk_buffers (nd_sink nd)) ch)"
  by (induction chans arbitrary: nd) (auto simp: broadcast_event_buffer)


text \<open>A gossiped reveal that is new to a node becomes a claim, due at once, of every EVM channel that takes part.\<close>

lemma reveal_becomes_claim:
  assumes "hm_get (sk_buffers (nd_sink nd)) ch = Some (EvmBuf e)" "ev_participate_ccr e"
    and "find_claim sid (ev_pending_claims e) = None"
    and "fst (co_forward V u (RevealMsg (reveal_new sid secret)) nd) = Inr True"
  shows "\<exists>e'. hm_get (sk_buffers (nd_sink (snd (handle_incoming V u (RevealMsg (reveal_new sid secret)) nd)))) ch = Some (EvmBuf e') \<and>
    find_claim sid (ev_pending_claims e') = Some (reveal_new sid secret) \<and> rq_get (claim_key sid) (ev_queue e') \<noteq> None \<and>
    ev_htlc_address e' = ev_htlc_address e \<and> ev_signed_provider e' = ev_signed_provider e \<and> ev_private_key e' = ev_private_key e"
proof -
  let ?r = "reveal_new sid secret"
  obtain nd1 where fwd: "co_forward V u (RevealMsg ?r) nd = (Inr True, nd1)"
    using assms(4) by (cases "co_forward V u (RevealMsg ?r) nd") simp
  define nd2 where "nd2 = (case handle_external_reveal (nv_ext V) (nd_handler nd1) ?r of
    Inl e \<Rightarrow> nd1 | Inr h \<Rightarrow> nd1\<lparr>nd_handler := h\<rparr>)"
  have "nd_sink nd1 = nd_sink nd"
    using fwd by (auto simp: co_forward_def split: prod.splits)
  then have buf: "hm_get (sk_buffers (nd_sink nd2)) ch = Some (EvmBuf e)"
    using assms(1) by (simp add: nd2_def split: sum.split)
  have mem: "ch \<in> set (sink_channels (nd_sink nd2))" and dist: "distinct (sink_channels (nd_sink nd2))"
    using buf hm.iter_keys [of ch "sk_buffers (nd_sink nd2)"] hm.iter_distinct by (auto simp: sink_channels_def)
  define e1 where "e1 = snd (evm_emit_event (de_codec (nv_data V)) (de_swaps (nv_data V)) (de_alloy (nv_data V))
    (de_evm_net (nv_data V) ch) (de_now (nv_data V) ch) (Reveal ?r) e)"
  have "snd (handle_incoming V u (RevealMsg ?r) nd) =
      fold (\<lambda>chan. co_broadcast_event V chan (Reveal ?r)) (sink_channels (nd_sink nd2)) nd2"
    by (simp add: handle_incoming_def co_on_reveal_def fwd nd2_def Let_def)
  then have now: "hm_get (sk_buffers (nd_sink (snd (handle_incoming V u (RevealMsg ?r) nd)))) ch = Some (EvmBuf e1)"
    using broadcast_all_buffer [OF dist, of V "Reveal ?r" nd2 ch] mem buf
    by (simp add: buf_broadcast_event_def e1_def split_beta)
  have "find_claim sid (ev_pending_claims e1) = Some ?r" "rq_get (claim_key sid) (ev_queue e1) \<noteq> None"
      "ev_htlc_address e1 = ev_htlc_address e" "ev_signed_provider e1 = ev_signed_provider e" "ev_private_key e1 = ev_private_key e"
    using assms(2,3)
    by (auto simp: e1_def evm_emit_event_def Let_def find_claim_push reveal_new_def rq_defs hm_contains_def evm_persist_swap_def
        split: option.split)
  with now show ?thesis
    by blast
qed

text \<open>
  (C33) A reveal that comes over the network is passed to every chain without a check of its secret, and
  the first reveal of a swap wins. So one message with a wrong secret disables the claim of that swap: as
  long as the chain does not resolve the swap, no later reveal, the genuine one included, makes the node
  send a claim.
\<close>

theorem poisoned_reveal_blocks_claim:
  fixes nd :: "('a, 'b, 't) node"
  assumes "hm_get (sk_buffers (nd_sink nd)) ch = Some (EvmBuf e)" "ev_participate_ccr e"
    and "find_claim sid (ev_pending_claims e) = None"
    and "fst (co_forward V u (RevealMsg (reveal_new sid bad)) nd) = Inr True"
  shows "\<exists>e1. hm_get (sk_buffers (nd_sink (snd (handle_incoming V u (RevealMsg (reveal_new sid bad)) nd)))) ch =
      Some (EvmBuf e1) \<and>
    (\<forall>e2 B D X net. (unresolved_step sid)\<^sup>*\<^sup>* e1 e2 \<longrightarrow>
       (\<forall>swap. en_swaps net (ev_htlc_address e2) sid = Some (Inr swap) \<longrightarrow> ex_sha256 X bad \<noteq> sv_secretHash swap) \<longrightarrow>
       snd (fst (evm_settle B D X net (claim_key sid) e2)) = [])"
proof -
  let ?r = "reveal_new sid bad"
  from reveal_becomes_claim [OF assms] obtain e1 where
    now: "hm_get (sk_buffers (nd_sink (snd (handle_incoming V u (RevealMsg ?r) nd)))) ch = Some (EvmBuf e1)" and
    claim: "find_claim sid (ev_pending_claims e1) = Some ?r"
    by blast
  have kept: "find_claim sid (ev_pending_claims e2) = Some ?r" if "(unresolved_step sid)\<^sup>*\<^sup>* e1 e2" for e2
    using that claim by (induction rule: rtranclp_induct) (auto dest: unresolved_keeps_claim)
  show ?thesis
  proof (intro exI [of _ e1] conjI allI impI)
    fix e2 :: "('a, 'b) evm" and X :: alloy and net :: evm_net and B and D :: "'a swap_store_ops"
    assume run: "(unresolved_step sid)\<^sup>*\<^sup>* e1 e2"
      and "\<forall>swap. en_swaps net (ev_htlc_address e2) sid = Some (Inr swap) \<longrightarrow> ex_sha256 X bad \<noteq> sv_secretHash swap"
    then show "snd (fst (evm_settle B D X net (claim_key sid) e2)) = []"
      using settle_wrong_secret [OF kept [OF run]] by (simp add: reveal_new_def)
  qed (rule now)
qed

section \<open>Signed quotes\<close>

definition response_preimage :: "proposal_response \<Rightarrow> bytes" where
  "response_preimage r = proposal_preimage (pp_swap_id r) (pp_origin r) (pp_destination r) (pp_amount_in r)
     (pp_amount_out r) (pp_sender_destination_address r) (pp_lp_sender_address r)
     (pp_commit_unlock_offset_secs r) (pp_lp_block_confirmations r)"

definition covered ::
  "proposal_response \<Rightarrow> bytes \<times> u8 \<times> u8 \<times> string \<times> string \<times> string \<times> string \<times> u64 \<times> u64" where
  "covered r = (pp_swap_id r, pp_origin r, pp_destination r, pp_amount_in r, pp_amount_out r,
     pp_sender_destination_address r, pp_lp_sender_address r, pp_commit_unlock_offset_secs r,
     pp_lp_block_confirmations r)"

definition well_sized :: "proposal_response \<Rightarrow> bool" where
  "well_sized r = (length (pp_swap_id r) = 32 \<and> (\<forall>s \<in> {pp_amount_in r, pp_amount_out r,
     pp_sender_destination_address r, pp_lp_sender_address r}. length s < 2 ^ 64))"

lemma response_preimage_inject:
  assumes "well_sized r" "well_sized r'" "response_preimage r = response_preimage r'"
  shows "covered r = covered r'"
  using assms proposal_preimage_inject [OF _ _ _ assms(3) [unfolded response_preimage_def]]
  by (auto simp: well_sized_def covered_def)

text \<open>
  What is assumed of the signature schemes of the two chains: for the address of an EVM account, and for the
  public key of a Kaspa address, a signature that the library recovers to the address, or verifies under the
  key, belongs to a digest that the owner has signed (\<open>D\<close>).
\<close>

definition evm_unforged :: "alloy \<Rightarrow> address \<Rightarrow> bytes set \<Rightarrow> bool" where
  "evm_unforged X addr D \<longleftrightarrow> (\<forall>sig digest. ex_recover_address X sig digest = Inr addr \<longrightarrow> digest \<in> D)"

definition kaspa_unforged :: "kaspa_crypto \<Rightarrow> bytes \<Rightarrow> bytes set \<Rightarrow> bool" where
  "kaspa_unforged K pubkey D \<longleftrightarrow> (\<forall>key sig digest. kc_verifying_key K pubkey = Inr key \<longrightarrow>
     kc_verify K key digest sig \<longrightarrow> digest \<in> D)"

lemma evm_accepted_digest:
  assumes "evm_verify_message X net digest claimed sig required = Inr v" "pv_address_matches v"
    and "\<And>a. ex_parse_address X (trim claimed) = Inr a \<Longrightarrow> evm_unforged X a D"
  shows "digest \<in> D"
  using assms by (auto simp: evm_verify_message_def evm_verify_with_balance_def verify_lp_signature_def evm_unforged_def
      result_simps)

lemma kaspa_accepted_digest:
  assumes "kaspa_verify_message L K net digest claimed sig required = Inr v" "pv_address_matches v"
    and "\<And>a. kl_address_try_from L claimed = Inr a \<Longrightarrow> kaspa_unforged K (ka_payload a) D"
  shows "digest \<in> D"
  using assms by (auto simp: kaspa_verify_message_def kaspa_verify_with_balance_def kaspa_verify_lp_signature_def
      kaspa_unforged_def result_simps split: if_splits)

lemma sink_accepted_digest:
  assumes "sink_verify_message E sk ch digest claimed sig required = Inr v" "pv_address_matches v"
    and "\<And>a. ex_parse_address (de_alloy E) (trim claimed) = Inr a \<Longrightarrow> evm_unforged (de_alloy E) a D"
    and "\<And>a. kl_address_try_from (de_lib E) claimed = Inr a \<Longrightarrow> kaspa_unforged (de_crypto E) (ka_payload a) D"
  shows "digest \<in> D"
proof -
  obtain b where b: "buf_verify_message E ch digest claimed sig required b = Inr v"
    using assms(1) by (auto simp: sink_verify_message_def result_simps)
  then show ?thesis
    using evm_accepted_digest [OF _ assms(2,3)] kaspa_accepted_digest [OF _ assms(2,4)]
    by (cases b) (simp_all add: buf_verify_message_def)
qed

text \<open>
  (C32) A quote that a taker shows as signed is, field by field, one that the owner of the provider's address
  signed. Assumed is: signatures cannot be forged (no signature recovers to that EVM address, or
  verifies under the public key in that Kaspa address, except for the digests the owner signed), those digests are
  the ones of the responses \<open>issued\<close>, SHA-256 does not collide on the encodings of these responses and
  the one received, and ids and strings have their sizes. Then the swap, the channels, the two amounts, the
  addresses, the unlock offset and the confirmations that the taker shows are those of an issued response.
\<close>

theorem accepted_quote_was_signed:
  assumes "nd_quotes (on_proposal_response V r nd) = nd_quotes nd @ [q]" "cq_signature_valid q"
    and "D = (pn_sha256 (nv_net V) \<circ> response_preimage) ` issued"
    and "\<And>a. ex_parse_address (de_alloy (nv_data V)) (trim (pp_lp_sender_address r)) = Inr a \<Longrightarrow>
      evm_unforged (de_alloy (nv_data V)) a D"
    and "\<And>a. kl_address_try_from (de_lib (nv_data V)) (pp_lp_sender_address r) = Inr a \<Longrightarrow>
      kaspa_unforged (de_crypto (nv_data V)) (ka_payload a) D"
    and "inj_on (pn_sha256 (nv_net V)) (response_preimage ` insert r issued)"
    and "\<forall>x \<in> insert r issued. well_sized x"
  shows "\<exists>r0 \<in> issued. covered r0 = covered r \<and>
    (cq_swap_id q, cq_destination q, cq_origin q, cq_amount_out q, cq_amount_in q, cq_sender_destination_address q,
     cq_lp_sender_address q, cq_commit_unlock_offset_secs q, cq_lp_block_confirmations q) = covered r0"
proof -
  obtain origin where origin: "nd_wasm nd" "known_pair (nd_handler nd) (pp_origin r) (pp_destination r) = Some origin"
    using assms(1) by (auto simp: on_proposal_response_def split: if_splits option.splits)
  let ?digest = "pn_sha256 (nv_net V) (response_preimage r)"
  let ?verdict = "sink_verify_message (nv_data V) (nd_sink nd) origin ?digest (pp_lp_sender_address r)
    (pp_lp_signature r) (pp_amount_in r)"
  have digest: "proposal_digest (pn_sha256 (nv_net V)) (pp_swap_id r) (pp_origin r) (pp_destination r)
      (pp_amount_in r) (pp_amount_out r) (pp_sender_destination_address r) (pp_lp_sender_address r)
      (pp_commit_unlock_offset_secs r) (pp_lp_block_confirmations r) = ?digest"
    by (simp add: proposal_digest_def response_preimage_def)
  obtain v where v: "?verdict = Inr v" "pv_address_matches v"
    using assms(1,2) origin digest
    by (cases ?verdict) (auto simp: on_proposal_response_def Let_def)
  have "?digest \<in> D"
    using v assms(4,5) by (rule sink_accepted_digest)
  then obtain r0 where r0: "r0 \<in> issued" "?digest = pn_sha256 (nv_net V) (response_preimage r0)"
    by (auto simp: assms(3))
  then have "response_preimage r = response_preimage r0"
    using assms(6) by (auto dest: inj_onD)
  then have cov: "covered r0 = covered r"
    using response_preimage_inject [of r0 r] assms(7) r0(1) by simp
  have "(cq_swap_id q, cq_destination q, cq_origin q, cq_amount_out q, cq_amount_in q,
     cq_sender_destination_address q, cq_lp_sender_address q, cq_commit_unlock_offset_secs q,
     cq_lp_block_confirmations q) = covered r"
    using assms(1) origin by (auto simp: on_proposal_response_def Let_def covered_def split: sum.splits)
  then show ?thesis
    unfolding cov [symmetric] using r0(1) cov by blast
qed


section \<open>Concrete nodes\<close>

definition sample_node_env :: "(mem_db, mem_db, unit) node_env" where
  "sample_node_env = \<lparr>nv_data = sample_data_env, nv_net = sample_p2p_net, nv_ext = sample_ext, nv_now = 1000,
     nv_show = (\<lambda>_. []), nv_show_data = (\<lambda>_. []), nv_dial_open = (\<lambda>_. True), nv_json = (\<lambda>_. Inl [])\<rparr>"

definition sample_node :: "bool \<Rightarrow> (mem_db, mem_db, unit) node" where
  "sample_node wasm = \<lparr>nd_handler = sample_handler, nd_network = pair_node True,
     nd_sink = \<lparr>sk_buffers = hm_insert EthereumSepolia (EvmBuf sample_evm) hm_empty\<rparr>,
     nd_role = (if wasm then Observer else Lp), nd_wasm = wasm, nd_pending_claims = hm_empty, nd_sent = [], nd_txs = [],
     nd_dials = [], nd_statuses = [], nd_quotes = []\<rparr>"

lemma sample_forward_fresh:
  "fst (co_forward sample_node_env u sample_reveal_msg (sample_node wasm)) = Inr True"
proof -
  obtain fresh p where obs: "observe sample_p2p_net sample_payload (pair_node True) = (fresh, p)"
    by fastforce
  then have "fresh"
    using observe_facts(1) [OF pair_node_facts(1) obs] by (simp add: pair_node_facts)
  with obs show ?thesis
    by (simp add: co_forward_def forward_def sample_node_env_def sample_node_def split: prod.split)
      (simp add: sample_p2p_net_def sample_payload_encodes)
qed

theorem poisoned_reveal_blocks_claim_witness:
  "\<exists>e1. hm_get (sk_buffers (nd_sink (snd (handle_incoming sample_node_env ''ws://peer'' sample_reveal_msg
      (sample_node False))))) EthereumSepolia = Some (EvmBuf e1) \<and>
    snd (fst (evm_settle record_codec (db_swap_store mem_redb) sample_alloy sample_net (claim_key (replicate 32 1)) e1)) = []"
proof -
  have "hm_get (sk_buffers (nd_sink (sample_node False))) EthereumSepolia = Some (EvmBuf sample_evm)"
      "ev_participate_ccr sample_evm" "find_claim (replicate 32 1) (ev_pending_claims sample_evm) = None"
    by (simp_all add: sample_node_def sample_evm_def find_claim_def)
  from poisoned_reveal_blocks_claim [OF this, of sample_node_env "''ws://peer''" "replicate 32 2"]
  show ?thesis
    using sample_forward_fresh by (auto simp: sample_reveal_msg_def sample_net_def)
qed

definition sample_claim :: pending_claim where
  "sample_claim = \<lparr>pm_secret = [7], pm_expected_counter_chain = KaspaTn10, pm_expected_secret_hash = [7],
     pm_expected_destination_address = ''kaspa:user'', pm_expected_amount_out = amount_new ''100'' 8\<rparr>"

definition expired_reply :: commitment_v1 where
  "expired_reply = sample_reply\<lparr>cm_unlock_ts := 900\<rparr>"

definition sample_taker :: "(mem_db, mem_db, unit) node" where
  "sample_taker = (sample_node True)\<lparr>nd_pending_claims := hm_insert [1] sample_claim hm_empty\<rparr>"

lemma parse_samples: "parse_uint 128 (show_nat 148) = Some 148" "parse_uint 128 ''100'' = Some 100"
  by (simp add: parse_uint_show_nat)
    (simp add: parse_uint_def strip_plus_def digits_val_def is_digit_def digit_val_def)

theorem expired_lock_reveals_witness:
  "cm_unlock_ts expired_reply < nv_now sample_node_env \<and>
   nd_sent (apply_event sample_node_env KaspaTn10 (Commitment expired_reply) sample_taker) =
     reveal_sent sample_node_env [1] sample_claim (pair_node True)"
proof -
  have eq: "cm_swap_id expired_reply = [1]" "cm_unlock_ts expired_reply = 900" "cm_destination expired_reply = 1"
    by (simp_all add: expired_reply_def sample_reply_def commitment_new_def)
  have "nd_wasm sample_taker" "hm_get (nd_pending_claims sample_taker) (cm_swap_id expired_reply) = Some sample_claim"
      "nd_sent sample_taker = []" "nd_network sample_taker = pair_node True" "nd_handler sample_taker = sample_handler"
    by (simp_all add: sample_taker_def sample_node_def eq)
  moreover have "pending_claim_matches (nv_ext sample_node_env) sample_claim expired_reply"
    by (simp add: pending_claim_matches_def sample_claim_def expired_reply_def sample_reply_def commitment_new_def
        at_least_iff amount_new_def addresses_new_def normalised_address_eq_def parse_samples)
  moreover have "is_ok (handle_external_commitment (nv_now sample_node_env) sample_handler expired_reply)"
    by (simp add: handle_external_commitment_def sample_handler_def get_swap_def sample_swap_def expired_reply_def
        sample_reply_def commitment_new_def set_counter_commitment_def with_tracker_def addresses_new_def)
  moreover have "is_ok (try_channel (cm_destination expired_reply))"
    by (simp add: eq try_channel_def channel_try_from_def)
  ultimately show ?thesis
    using expired_lock_reveals [of sample_taker expired_reply sample_claim sample_node_env KaspaTn10]
    by (simp add: eq sample_node_env_def)
qed

definition signed_response :: proposal_response where
  "signed_response = \<lparr>pp_swap_id = replicate 32 1, pp_origin = 1, pp_destination = 0, pp_amount_in = ''5'', pp_amount_out = ''6'',
     pp_sender_destination_address = ''kaspa:mm'', pp_commit_unlock_offset_secs = 0, pp_lp_sender_address = ''lp'',
     pp_lp_signature = [9], pp_lp_block_confirmations = 0, pp_extra_data = []\<rparr>"

definition signing_alloy :: alloy where
  "signing_alloy = sample_alloy\<lparr>ex_recover_address :=
     (\<lambda>s d. if d = response_preimage signed_response then Inr (bytes_of_chars (trim ''lp'')) else Inl ''bad'')\<rparr>"

definition signing_env :: "(mem_db, mem_db, unit) node_env" where
  "signing_env = sample_node_env\<lparr>nv_data := sample_data_env\<lparr>de_alloy := signing_alloy\<rparr>\<rparr>"

definition quoting_node :: "(mem_db, mem_db, unit) node" where
  "quoting_node = (sample_node True)\<lparr>nd_handler := sample_handler\<lparr>h_block_confirmations :=
     hm_insert KaspaTn10 1 (hm_insert EthereumSepolia 1 hm_empty)\<rparr>\<rparr>"


lemma signing_verifies:
  "sink_verify_message (nv_data signing_env) (nd_sink quoting_node) ch digest ''lp'' sig required =
     (if ch \<noteq> EthereumSepolia then Inl (data_error.UnknownChannel ch)
      else if digest = response_preimage signed_response
      then Inr \<lparr>pv_address_matches = True, pv_balance_sufficient = True\<rparr>
      else Inl (SignError ''recover address: bad''))"
  by (simp add: sink_verify_message_def quoting_node_def sample_node_def sink_buffer_def buf_verify_message_def
      evm_verify_message_def required_balance_def evm_verify_with_balance_def verify_lp_signature_def query_balance_def
      signing_env_def sample_node_env_def sample_data_env_def signing_alloy_def sample_alloy_def sample_net_def
      retry_timed_first)

lemma quote_emitted:
  assumes "nd_wasm nd" "known_pair (nd_handler nd) (pp_origin r) (pp_destination r) = Some origin"
    and "sink_verify_message (nv_data V) (nd_sink nd) origin (pn_sha256 (nv_net V) (response_preimage r))
      (pp_lp_sender_address r) (pp_lp_signature r) (pp_amount_in r) = Inr v"
  shows "\<exists>q. nd_quotes (on_proposal_response V r nd) = nd_quotes nd @ [q] \<and> cq_signature_valid q = pv_address_matches v"
  using assms by (simp add: on_proposal_response_def proposal_digest_def response_preimage_def)

theorem accepted_quote_was_signed_witness:
  "\<exists>q. nd_quotes (on_proposal_response signing_env signed_response quoting_node) = [q] \<and> cq_signature_valid q \<and>
     cq_amount_out q = ''5'' \<and> cq_amount_in q = ''6''"
proof -
  have lp: "pp_lp_sender_address signed_response = ''lp''"
    by (simp add: signed_response_def)
  have net: "pn_sha256 (nv_net signing_env) = (\<lambda>bs. bs)"
    by (simp add: signing_env_def sample_node_env_def sample_p2p_net_def)
  have pair: "known_pair (nd_handler quoting_node) (pp_origin signed_response) (pp_destination signed_response) =
      Some EthereumSepolia"
    by (simp add: known_pair_def quoting_node_def signed_response_def channel_try_from_def knows_channel_def)
  have wasm: "nd_wasm quoting_node"
    by (simp add: quoting_node_def sample_node_def)
  obtain q where q: "nd_quotes (on_proposal_response signing_env signed_response quoting_node) =
      nd_quotes quoting_node @ [q]" "cq_signature_valid q"
    using quote_emitted [OF wasm pair, of signing_env] by (auto simp: lp signing_verifies net)
  have "well_sized signed_response"
    by (simp add: well_sized_def signed_response_def)
  moreover have "evm_unforged (de_alloy (nv_data signing_env)) a ((pn_sha256 (nv_net signing_env) \<circ> response_preimage) ` {signed_response})"
    for a
    unfolding net by (auto simp: evm_unforged_def signing_env_def signing_alloy_def split: if_splits)
  moreover have "kl_address_try_from (de_lib (nv_data signing_env)) (pp_lp_sender_address signed_response) = Inl ''invalid prefix''"
    by (simp add: lp signing_env_def sample_data_env_def plain_lib_def)
  ultimately have "cq_amount_out q = ''5'' \<and> cq_amount_in q = ''6''"
    using accepted_quote_was_signed [OF q refl, of "{signed_response}"]
    by (auto simp: net) (simp_all add: covered_def signed_response_def)
  with q show ?thesis
    by (auto simp: quoting_node_def sample_node_def)
qed

end
