(* ===== verification/Node_Oracle.thy ===== *)
theory Node_Oracle
  imports Amounts Stroem_Strings
begin

text \<open>
  The price oracle of a liquidity provider (\<open>node/src/oracle\<close>): fetching tickers from three exchanges with
  retries, the robust price of a channel, and the update of the price storage. What an exchange answers
  (the HTTP request and the decoding of its JSON body) is a parameter. The texts of errors only reach the
  log; the model keeps the error values.
\<close>

section \<open>Parsing a decimal number\<close>

text \<open>
  \<open>str::parse::<f64>\<close>: an optional sign, then \<open>inf\<close>, \<open>infinity\<close> or \<open>nan\<close> in any case, or digits with an optional
  point and exponent; the value is rounded once.
\<close>

definition split_digits :: "string \<Rightarrow> string \<times> string" where
  "split_digits s = (takeWhile is_digit s, dropWhile is_digit s)"

definition split_sign :: "string \<Rightarrow> bool \<times> string" where
  "split_sign s = (case s of [] \<Rightarrow> (False, [])
     | c # cs \<Rightarrow> if c = CHR ''-'' then (True, cs) else if c = CHR ''+'' then (False, cs) else (False, s))"

definition parse_exponent :: "string \<Rightarrow> int option" where
  "parse_exponent s =
     (case s of [] \<Rightarrow> Some 0
      | c # cs \<Rightarrow>
          if lower_char c \<noteq> CHR ''e'' then None
          else case split_sign cs of (neg, ds) \<Rightarrow>
            if ds \<noteq> [] \<and> list_all is_digit ds
            then Some (if neg then - int (digits_val ds) else int (digits_val ds)) else None)"

definition parse_decimal :: "string \<Rightarrow> rat option" where
  "parse_decimal s =
     (case split_digits s of (whole, r) \<Rightarrow>
      case (if r \<noteq> [] \<and> hd r = CHR ''.'' then split_digits (tl r) else ([], r)) of (fraction, r') \<Rightarrow>
        if whole = [] \<and> fraction = [] then None
        else map_option (\<lambda>e. of_nat (digits_val (whole @ fraction)) * 10 powi (e - int (length fraction)))
               (parse_exponent r'))"

definition parse_f64 :: "string \<Rightarrow> f64 option" where
  "parse_f64 s =
     (case split_sign s of (neg, r) \<Rightarrow>
        let name = map lower_char r in
        if name = ''inf'' \<or> name = ''infinity'' then Some (Inf neg)
        else if name = ''nan'' then Some NaN
        else map_option (\<lambda>q. fl (if neg then - q else q)) (parse_decimal r))"

section \<open>Robust prices\<close>

record price_sample =
  sm_price :: f64
  sm_volume_usd :: f64

definition MAX_DEVIATION :: f64 where "MAX_DEVIATION = fl (1 / 10)"

definition MIN_SOURCES :: "bool \<Rightarrow> nat" where "MIN_SOURCES wasm = (if wasm then 1 else 2)"

text \<open>The sum of an iterator, from zero.\<close>

definition f_sum :: "f64 list \<Rightarrow> f64" where
  "f_sum xs = foldl f_add (Fin 0) xs"

definition weighted_price :: "price_sample list \<Rightarrow> f64" where
  "weighted_price samples =
     (let total_volume = f_sum (map sm_volume_usd samples) in
      if f_lt (Fin 0) total_volume
      then f_div (f_sum (map (\<lambda>s. f_mul (sm_price s) (sm_volume_usd s)) samples)) total_volume
      else f_div (f_sum (map sm_price samples)) (f_of_nat (length samples)))"

text \<open>The stable sort of \<open>median\<close>; it only ever sorts finite prices, which \<open>partial_cmp\<close> orders totally.\<close>

fun insert_price :: "f64 \<Rightarrow> f64 list \<Rightarrow> f64 list" where
  "insert_price x [] = [x]"
| "insert_price x (y # ys) = (if f_lt y x then y # insert_price x ys else x # y # ys)"

definition sort_prices :: "f64 list \<Rightarrow> f64 list" where
  "sort_prices xs = foldr insert_price xs []"

text \<open>\<open>n / 2 - 1\<close> would underflow for an empty list; \<open>robust_price\<close> never passes one.\<close>

definition median :: "f64 list \<Rightarrow> f64 option" where
  "median prices =
     (let sorted_prices = sort_prices prices; n = length sorted_prices in
      if n mod 2 = 1 then Some (sorted_prices ! (n div 2))
      else if n = 0 then None
      else Some (f_div (f_add (sorted_prices ! (n div 2 - 1)) (sorted_prices ! (n div 2))) (Fin 2)))"

definition valid_sample :: "price_sample \<Rightarrow> bool" where
  "valid_sample s = (is_finite (sm_price s) \<and> f_lt (Fin 0) (sm_price s) \<and>
     is_finite (sm_volume_usd s) \<and> f_le (Fin 0) (sm_volume_usd s))"

definition near_median :: "f64 \<Rightarrow> price_sample \<Rightarrow> bool" where
  "near_median med s = f_le (f_abs (f_div (f_sub (sm_price s) med) med)) MAX_DEVIATION"

definition robust_price :: "bool \<Rightarrow> price_sample list \<Rightarrow> f64 option" where
  "robust_price wasm samples =
     (let valid = filter valid_sample samples in
      if length valid < MIN_SOURCES wasm then None
      else Option.bind (median (map sm_price valid)) (\<lambda>med.
        if f_le med (Fin 0) then None
        else
          let kept = filter (near_median med) valid in
          if length kept < MIN_SOURCES wasm then None
          else
            let p = weighted_price kept in
            if is_finite p \<and> f_lt (Fin 0) p then Some p else None))"

section \<open>Fetching\<close>

datatype missing_price = BadRetCode int string string | EmptyList string | NonPositive string f64

datatype oracle_error =
    Reqwest string
  | FloatParse string
  | Timeout u64
  | NoPriceData missing_price
  | AllSourcesFailed string
  | RetryExhausted nat "oracle_error option"

record bybit_ticker =
  bt_last_price :: string
  bt_turnover_24h :: string

record bybit_response =
  br_ret_code :: int
  br_ret_msg :: string
  br_list :: "bybit_ticker list"

record gateio_ticker =
  gt_last :: string
  gt_quote_volume :: string

record mexc_ticker =
  mt_last_price :: string
  mt_quote_volume :: string

text \<open>
  What the exchanges answer: for every attempt and symbol the decoded body or an error, and whether an
  attempt ends within its thirty seconds.
\<close>

record exchanges =
  xc_bybit :: "nat \<Rightarrow> string \<Rightarrow> (bybit_response, string) result"
  xc_gateio :: "nat \<Rightarrow> string \<Rightarrow> (gateio_ticker list, string) result"
  xc_mexc :: "nat \<Rightarrow> string \<Rightarrow> (mexc_ticker, string) result"
  xc_in_time :: "string \<Rightarrow> nat \<Rightarrow> bool"

text \<open>The end of every \<open>_single\<close>: a volume that does not parse counts as zero.\<close>

definition sample_of :: "string \<Rightarrow> string \<Rightarrow> string \<Rightarrow> (price_sample, oracle_error) result" where
  "sample_of symbol price_text volume_text =
     r_bind (ok_or (parse_f64 price_text) (FloatParse price_text)) (\<lambda>price.
     if f_le price (Fin 0) then Inl (NoPriceData (NonPositive symbol price))
     else Inr \<lparr>sm_price = price,
       sm_volume_usd = (case parse_f64 volume_text of None \<Rightarrow> Fin 0 | Some v \<Rightarrow> v)\<rparr>)"

definition bybit_single :: "exchanges \<Rightarrow> nat \<Rightarrow> string \<Rightarrow> (price_sample, oracle_error) result" where
  "bybit_single X attempt symbol =
     r_bind (map_err Reqwest (xc_bybit X attempt symbol)) (\<lambda>body.
     if br_ret_code body \<noteq> 0 then Inl (NoPriceData (BadRetCode (br_ret_code body) symbol (br_ret_msg body)))
     else case br_list body of [] \<Rightarrow> Inl (NoPriceData (EmptyList symbol))
       | ticker # _ \<Rightarrow> sample_of symbol (bt_last_price ticker) (bt_turnover_24h ticker))"

definition gateio_single :: "exchanges \<Rightarrow> nat \<Rightarrow> string \<Rightarrow> (price_sample, oracle_error) result" where
  "gateio_single X attempt symbol =
     r_bind (map_err Reqwest (xc_gateio X attempt symbol)) (\<lambda>tickers.
     case tickers of [] \<Rightarrow> Inl (NoPriceData (EmptyList symbol))
     | ticker # _ \<Rightarrow> sample_of symbol (gt_last ticker) (gt_quote_volume ticker))"

definition mexc_single :: "exchanges \<Rightarrow> nat \<Rightarrow> string \<Rightarrow> (price_sample, oracle_error) result" where
  "mexc_single X attempt symbol =
     r_bind (map_err Reqwest (xc_mexc X attempt symbol)) (\<lambda>ticker.
     sample_of symbol (mt_last_price ticker) (mt_quote_volume ticker))"

definition bybit_symbol :: "channel_id \<Rightarrow> string option" where
  "bybit_symbol ch = (case ch of KaspaTn10 \<Rightarrow> Some ''KASUSDT'' | EthereumSepolia \<Rightarrow> Some ''ETHUSDT''
     | IgraGalleon \<Rightarrow> Some ''KASUSDT'')"

definition gateio_symbol :: "channel_id \<Rightarrow> string option" where
  "gateio_symbol ch = (case ch of KaspaTn10 \<Rightarrow> Some ''KAS_USDT'' | EthereumSepolia \<Rightarrow> Some ''ETH_USDT''
     | IgraGalleon \<Rightarrow> Some ''KAS_USDT'')"

definition mexc_symbol :: "channel_id \<Rightarrow> string option" where
  "mexc_symbol ch = (case ch of KaspaTn10 \<Rightarrow> Some ''KASUSDT'' | EthereumSepolia \<Rightarrow> Some ''ETHUSDT''
     | IgraGalleon \<Rightarrow> Some ''KASUSDT'')"

text \<open>
  The body that the three fetchers share, with the exchange's name, symbols and single fetch: the
  channels by symbol, one request per symbol, and the sample for every channel of the symbol.
\<close>

definition symbol_channels :: "(channel_id \<Rightarrow> string option) \<Rightarrow> channel_id list \<Rightarrow> (string, channel_id list) hashmap" where
  "symbol_channels symbol channels =
     fold (\<lambda>ch m. case symbol ch of None \<Rightarrow> m
       | Some sy \<Rightarrow> hm_insert sy ((case hm_get m sy of None \<Rightarrow> [] | Some chs \<Rightarrow> chs) @ [ch]) m) channels hm_empty"

definition fetch_symbol ::
  "(string \<Rightarrow> (price_sample, oracle_error) result) \<Rightarrow> string \<times> channel_id list \<Rightarrow> (channel_id \<times> price_sample) list" where
  "fetch_symbol single entry =
     (case single (fst entry) of Inl e \<Rightarrow> [] | Inr sample \<Rightarrow> map (\<lambda>ch. (ch, sample)) (snd entry))"

definition fetch_channels ::
  "string \<Rightarrow> (channel_id \<Rightarrow> string option) \<Rightarrow> (string \<Rightarrow> (price_sample, oracle_error) result) \<Rightarrow> channel_id list
     \<Rightarrow> ((channel_id \<times> price_sample) list, oracle_error) result" where
  "fetch_channels name symbol single channels =
     (let by_symbol = hm_iter (symbol_channels symbol channels) in
      if by_symbol = []
      then Inl (AllSourcesFailed (''No supported '' @ name @ '' symbols for the given channels''))
      else
        let out = concat (map (fetch_symbol single) by_symbol) in
        if out = [] then Inl (AllSourcesFailed (''All '' @ name @ '' tickers returned invalid data'')) else Inr out)"

definition bybit ::
  "exchanges \<Rightarrow> channel_id list \<Rightarrow> nat \<Rightarrow> ((channel_id \<times> price_sample) list, oracle_error) result" where
  "bybit X channels attempt = fetch_channels ''Bybit'' bybit_symbol (bybit_single X attempt) channels"

definition gateio ::
  "exchanges \<Rightarrow> channel_id list \<Rightarrow> nat \<Rightarrow> ((channel_id \<times> price_sample) list, oracle_error) result" where
  "gateio X channels attempt = fetch_channels ''Gate.io'' gateio_symbol (gateio_single X attempt) channels"

definition mexc ::
  "exchanges \<Rightarrow> channel_id list \<Rightarrow> nat \<Rightarrow> ((channel_id \<times> price_sample) list, oracle_error) result" where
  "mexc X channels attempt = fetch_channels ''MEXC'' mexc_symbol (mexc_single X attempt) channels"

definition MAX_RETRIES :: nat where "MAX_RETRIES = 3"
definition ATTEMPT_TIMEOUT_SECS :: u64 where "ATTEMPT_TIMEOUT_SECS = 30"

text \<open>\<open>with_retry\<close>: attempts numbered from one; the browser build has no timer (\<open>in_time\<close> is constantly true).\<close>

fun retry_attempts :: "nat \<Rightarrow> nat \<Rightarrow> (nat \<Rightarrow> bool) \<Rightarrow> (nat \<Rightarrow> ('a, oracle_error) result) \<Rightarrow> oracle_error option \<Rightarrow> ('a, oracle_error) result" where
  "retry_attempts 0 attempt in_time f last_error = Inl (RetryExhausted MAX_RETRIES last_error)"
| "retry_attempts (Suc n) attempt in_time f last_error =
     (case (if in_time attempt then f attempt else Inl (Timeout ATTEMPT_TIMEOUT_SECS)) of
        Inr v \<Rightarrow> Inr v
      | Inl e \<Rightarrow> retry_attempts n (Suc attempt) in_time f (Some e))"

definition with_retry :: "(nat \<Rightarrow> bool) \<Rightarrow> (nat \<Rightarrow> ('a, oracle_error) result) \<Rightarrow> ('a, oracle_error) result" where
  "with_retry in_time f = retry_attempts MAX_RETRIES 1 in_time f None"

definition source_results ::
  "exchanges \<Rightarrow> bool \<Rightarrow> channel_id list \<Rightarrow> ((channel_id \<times> price_sample) list, oracle_error) result list" where
  "source_results X wasm channels =
     (if wasm then [with_retry (\<lambda>_. True) (bybit X channels)]
      else [with_retry (xc_in_time X ''MEXC'') (mexc X channels), with_retry (xc_in_time X ''Bybit'') (bybit X channels),
            with_retry (xc_in_time X ''Gate.io'') (gateio X channels)])"

definition collect_samples ::
  "(channel_id \<times> price_sample) list \<Rightarrow> (channel_id, price_sample list) hashmap \<Rightarrow> (channel_id, price_sample list) hashmap" where
  "collect_samples samples by_channel =
     fold (\<lambda>(ch, sample) m. hm_insert ch ((case hm_get m ch of None \<Rightarrow> [] | Some ss \<Rightarrow> ss) @ [sample]) m)
       samples by_channel"

definition aggregate :: "exchanges \<Rightarrow> bool \<Rightarrow> channel_id list \<Rightarrow> ((channel_id \<times> f64) list, oracle_error) result" where
  "aggregate X wasm channels =
     (let by_channel = fold (\<lambda>res m. case res of Inl e \<Rightarrow> m | Inr samples \<Rightarrow> collect_samples samples m)
            (source_results X wasm channels) hm_empty;
          out = List.map_filter (\<lambda>ch. Option.bind (hm_get by_channel ch) (\<lambda>samples.
            map_option (\<lambda>price. (ch, price)) (robust_price wasm samples))) channels in
      if out = []
      then Inl (AllSourcesFailed ''All exchanges failed or produced insufficient agreeing sources'')
      else Inr out)"

section \<open>The oracle\<close>

text \<open>\<open>clk\<close>: the two clock readings of \<open>PriceStorage::set\<close> for each channel. The oracle runs natively.\<close>

definition update_all_prices ::
  "exchanges \<Rightarrow> (channel_id \<Rightarrow> u64 \<times> u64) \<Rightarrow> price_storage \<Rightarrow> (price_storage, oracle_error) result" where
  "update_all_prices X clk ps =
     r_bind (aggregate X False (ps_channels_list ps)) (\<lambda>prices.
     Inr (fold (\<lambda>(ch, price) ps. ps_set (fst (clk ch)) (snd (clk ch)) ps ch price) prices ps))"

text \<open>One round of \<open>run_loop\<close>, and the pause after it.\<close>

definition oracle_round :: "exchanges \<Rightarrow> (channel_id \<Rightarrow> u64 \<times> u64) \<Rightarrow> price_storage \<Rightarrow> price_storage" where
  "oracle_round X clk ps = (case update_all_prices X clk ps of Inl e \<Rightarrow> ps | Inr ps' \<Rightarrow> ps')"

definition oracle_pause :: "u64 \<Rightarrow> u64" where
  "oracle_pause update_interval_secs = max update_interval_secs 1"


section \<open>Rounding errors\<close>

text \<open>Every finite result of rounding, subnormal or not, is within a small relative and absolute error.\<close>

definition tiny :: rat where "tiny = 1 / 10 ^ 40"

lemma tiny_pos: "0 < tiny"
  by (simp add: tiny_def)

lemma fl_close:
  assumes "fl x = Fin y"
  shows "\<bar>y - x\<bar> \<le> \<bar>x\<bar> / 1000000000 + tiny"
proof -
  have "\<bar>x\<bar> / 2 ^ 53 \<le> \<bar>x\<bar> / 1000000000"
    by (intro divide_left_mono) auto
  moreover have "1 / 2 ^ 1075 \<le> tiny"
    by (simp add: tiny_def)
  ultimately show ?thesis
    using fl_abs_error [OF assms] by linarith
qed

lemma max_deviation: "MAX_DEVIATION = Fin (of_int 7205759403792794 * 2 powi (- 4 - 52))"
  unfolding MAX_DEVIATION_def by (rule fl_eval) (simp_all add: power_int_def power_one_over round_even_def Let_def)

section \<open>Samples near the median\<close>

lemma near_median_close:
  assumes "near_median (Fin m) s" "sm_price s = Fin x" "0 < m"
  shows "\<bar>x - m\<bar> \<le> 1001 / 10000 * m + 2 * tiny"
proof -
  obtain d where d: "fl (x - m) = Fin d"
    using assms by (cases "fl (x - m)") (auto simp: near_median_def f_sub_def max_deviation)
  obtain q where q: "fl (d / m) = Fin q" and le: "\<bar>q\<bar> \<le> of_int 7205759403792794 * 2 powi (- 4 - 52)"
    using assms d by (cases "fl (d / m)") (auto simp: near_median_def f_sub_def max_deviation)
  define r where "r = \<bar>d\<bar> / m"
  have r: "\<bar>d / m\<bar> = r" "\<bar>d\<bar> = r * m"
    using assms(3) by (simp_all add: r_def abs_divide)
  have "\<bar>q\<bar> \<le> 10001 / 100000"
    using le by (simp add: power_int_def power_one_over)
  moreover have "tiny \<le> 1 / 10000000000"
    by (simp add: tiny_def)
  ultimately have "r \<le> 10002 / 100000"
    using fl_close [OF q] abs_triangle_ineq2 [of "d / m" q] r(1) by (simp add: abs_minus_commute)
  then have "\<bar>d\<bar> \<le> 10002 / 100000 * m"
    using assms(3) by (simp add: r(2) mult_right_mono)
  then show ?thesis
    using fl_close [OF d] abs_triangle_ineq2 [of "x - m" d] tiny_pos assms(3) by (simp add: abs_minus_commute)
qed

text \<open>Two samples that are near the same median are near each other.\<close>

lemma near_median_pair:
  assumes "near_median (Fin m) s" "sm_price s = Fin x" "near_median (Fin m) s'" "sm_price s' = Fin h"
    and "0 < m" "1 / 10 ^ 20 \<le> h"
  shows "815 / 1000 * h \<le> x" "x \<le> 1225 / 1000 * h"
proof -
  note near_median_close [OF assms(1,2,5)] near_median_close [OF assms(3,4,5)]
  moreover have "tiny \<le> h / 10000000000"
    using assms(6) by (simp add: tiny_def)
  ultimately show "815 / 1000 * h \<le> x" "x \<le> 1225 / 1000 * h"
    using assms(5) tiny_pos by (auto simp: abs_le_iff)
qed

section \<open>The weighted mean\<close>

lemma f_add_Fin: "f_add a b = Fin z \<Longrightarrow> \<exists>x y. a = Fin x \<and> b = Fin y \<and> fl (x + y) = Fin z"
  by (cases "(a, b)" rule: f_add.cases) (auto split: if_splits)

lemma f_mul_Fin: "f_mul a b = Fin z \<Longrightarrow> \<exists>x y. a = Fin x \<and> b = Fin y \<and> fl (x * y) = Fin z"
  by (cases "(a, b)" rule: f_mul.cases) (auto split: if_splits)

lemma foldl_add_Fin: "foldl f_add a xs = Fin s \<Longrightarrow> (\<exists>x. a = Fin x) \<and> (\<exists>ys. xs = map Fin ys)"
proof (induction xs arbitrary: a)
  case (Cons b xs)
  then obtain z ys where "f_add a b = Fin z" "xs = map Fin ys"
    by fastforce
  then show ?case
    using f_add_Fin [of a b z] by (metis list.simps(9))
qed simp

lemma foldl_add_close:
  assumes "foldl f_add (Fin c) (map Fin ys) = Fin s" "0 \<le> c" "\<forall>y \<in> set ys. 0 \<le> y" "0 \<le> a"
    and "\<bar>c - a\<bar> \<le> of_nat k * (a / 1000000000 + tiny)" "k + 2 * length ys \<le> 1000"
  shows "\<bar>s - (a + sum_list ys)\<bar> \<le> of_nat (k + 2 * length ys) * ((a + sum_list ys) / 1000000000 + tiny)"
  using assms
proof (induction ys arbitrary: a c k)
  case (Cons y ys)
  obtain c' where c': "fl (c + y) = Fin c'"
    using Cons.prems(1) foldl_add_Fin [of "fl (c + y)" "map Fin ys" s] by auto
  have c'_nonneg: "0 \<le> c'"
    using fl_sign [OF c'] Cons.prems by simp
  define w w' where "w = a / 1000000000 + tiny" and "w' = (a + y) / 1000000000 + tiny"
  have w: "0 < w" "w \<le> w'"
    using Cons.prems tiny_pos by (auto simp: w_def w'_def divide_right_mono intro: add_nonneg_pos)
  have k: "of_nat k * w \<le> of_nat k * w'" "of_nat k * w \<le> 1000 * w"
    using w Cons.prems(6) by (auto intro!: mult_left_mono mult_right_mono)
  have "\<bar>c' - (c + y)\<bar> \<le> (c + y) / 1000000000 + tiny"
    using fl_close [OF c'] Cons.prems by simp
  also have "\<dots> \<le> w' + of_nat k * w / 1000000000"
    using Cons.prems(5) [folded w_def] unfolding w'_def by (simp add: field_simps abs_le_iff)
  also have "\<dots> \<le> 2 * w'"
    using k w by linarith
  finally have "\<bar>c' - (a + y)\<bar> \<le> of_nat (k + 2) * w'"
    using Cons.prems(5) k(1) by (simp add: distrib_right flip: w_def)
  then have "\<bar>s - ((a + y) + sum_list ys)\<bar> \<le> of_nat ((k + 2) + 2 * length ys) * (((a + y) + sum_list ys) / 1000000000 + tiny)"
    using Cons.prems c' c'_nonneg by (intro Cons.IH [of c']) (auto simp: w'_def)
  then show ?case
    by (simp add: ac_simps)
qed simp

lemma f_sum_close:
  assumes "f_sum (map Fin ys) = Fin s" "\<forall>y \<in> set ys. 0 \<le> y" "length ys \<le> 3"
  shows "\<bar>s - sum_list ys\<bar> \<le> 6 * (sum_list ys / 1000000000 + tiny)"
proof -
  have "\<bar>s - (0 + sum_list ys)\<bar> \<le> of_nat (0 + 2 * length ys) * ((0 + sum_list ys) / 1000000000 + tiny)"
    using assms by (intro foldl_add_close [of 0 ys s 0 0]) (auto simp: f_sum_def)
  also have "\<dots> \<le> 6 * (sum_list ys / 1000000000 + tiny)"
    using assms(2,3) tiny_pos by (intro mult_mono) (auto intro!: add_nonneg_nonneg sum_list_nonneg)
  finally show ?thesis
    by simp
qed

primrec f_val :: "f64 \<Rightarrow> rat" where
  "f_val NaN = 0"
| "f_val (Inf b) = 0"
| "f_val (Fin x) = x"

definition priced :: "rat \<Rightarrow> rat \<Rightarrow> price_sample \<Rightarrow> bool" where
  "priced a b s = (\<exists>x v. sm_price s = Fin x \<and> a \<le> x \<and> x \<le> b \<and> sm_volume_usd s = Fin v \<and> 0 \<le> v)"

definition volume_of :: "price_sample list \<Rightarrow> rat" where
  "volume_of ss = sum_list (map (f_val \<circ> sm_volume_usd) ss)"

lemma products_close:
  assumes "map (\<lambda>s. f_mul (sm_price s) (sm_volume_usd s)) ss = map Fin zs" "\<forall>s \<in> set ss. priced a b s" "0 < a"
  shows "(\<forall>z \<in> set zs. 0 \<le> z) \<and> 0 \<le> volume_of ss \<and> length zs = length ss \<and>
    sum_list zs \<le> 1000000001 / 1000000000 * (b * volume_of ss) + of_nat (length ss) * tiny \<and>
    999999999 / 1000000000 * (a * volume_of ss) - of_nat (length ss) * tiny \<le> sum_list zs"
  using assms(1,2)
proof (induction ss arbitrary: zs)
  case (Cons s ss)
  then obtain z zs' where zs: "zs = z # zs'" "f_mul (sm_price s) (sm_volume_usd s) = Fin z"
    "map (\<lambda>s. f_mul (sm_price s) (sm_volume_usd s)) ss = map Fin zs'"
    by (auto simp: Cons_eq_map_conv)
  obtain x v where xv: "sm_price s = Fin x" "a \<le> x" "x \<le> b" "sm_volume_usd s = Fin v" "0 \<le> v"
    using Cons.prems(2) by (auto simp: priced_def)
  have z: "fl (x * v) = Fin z"
    using zs(2) xv by simp
  have prod: "a * v \<le> x * v" "x * v \<le> b * v" "0 \<le> x * v"
    using xv assms(3) by (auto intro: mult_right_mono)
  have "0 \<le> z"
    using fl_sign [OF z prod(3)] .
  moreover have "\<bar>z - x * v\<bar> \<le> x * v / 1000000000 + tiny"
    using fl_close [OF z] prod(3) by simp
  then have "z \<le> b * v * (1000000001 / 1000000000) + tiny" "a * v * (999999999 / 1000000000) - tiny \<le> z"
    using prod by (auto simp: abs_le_iff)
  ultimately show ?case
    using Cons.IH [OF zs(3)] Cons.prems(2) xv(4,5) by (auto simp: zs(1) volume_of_def algebra_simps add_divide_distrib)
qed (simp add: volume_of_def)

lemma f_sum_nonneg:
  assumes "\<forall>y \<in> set ys. 0 \<le> y"
  shows "f_sum (map Fin ys) = Inf False \<or> (\<exists>s. f_sum (map Fin ys) = Fin s)"
proof -
  have inf: "foldl f_add (Inf False) (map Fin ys) = Inf False" for ys
    by (induction ys) auto
  have "foldl f_add (Fin c) (map Fin ys) = Inf False \<or> (\<exists>s. foldl f_add (Fin c) (map Fin ys) = Fin s)"
    if "0 \<le> c" "\<forall>y \<in> set ys. 0 \<le> y" for c
    using that
  proof (induction ys arbitrary: c)
    case (Cons y ys)
    then have "0 \<le> c + y"
      by simp
    then have "fl (c + y) = Inf False \<or> (\<exists>z. fl (c + y) = Fin z \<and> 0 \<le> z)"
      by (rule fl_nonneg)
    then show ?case
    proof (elim disjE exE conjE)
      fix z
      assume "fl (c + y) = Fin z" "0 \<le> z"
      then show ?case
        using Cons.IH [of z] Cons.prems by simp
    qed (simp add: inf)
  qed simp
  from this [of 0] assms show ?thesis
    by (simp add: f_sum_def)
qed

lemma quotient_bounds:
  fixes a b V s t p :: rat
  assumes "fl (s / t) = Fin p" "1 / 10 ^ 21 \<le> a" "a \<le> b" "1 \<le> V"
    and "99999 / 100000 * (a * V) \<le> s" "s \<le> 100001 / 100000 * (b * V)"
    and "99999 / 100000 * V \<le> t" "t \<le> 100001 / 100000 * V"
  shows "9999 / 10000 * a \<le> p" "p \<le> 10001 / 10000 * b"
proof -
  have pos: "0 < t" "0 < a" "0 < b"
    using assms by (auto intro: less_le_trans [of 0 "1 / 10 ^ 21"] less_le_trans [of 0 "99999 / 100000 * V"])
  have bV: "0 \<le> b * V" "0 \<le> a * V"
    using pos assms(4) by auto
  have "b * (99999 / 100000 * V) \<le> b * t"
    using assms(7) pos by (intro mult_left_mono) auto
  then have "99999 / 100000 * (b * V) \<le> b * t"
    by (simp only: mult.left_commute)
  then have "s \<le> 100003 / 100000 * (b * t)"
    using assms(6) bV by linarith
  then have hi: "s / t \<le> 100003 / 100000 * b"
    using pos by (simp add: divide_le_eq mult.assoc)
  have "a * t \<le> a * (100001 / 100000 * V)"
    using assms(8) pos by (intro mult_left_mono) auto
  then have "a * t \<le> 100001 / 100000 * (a * V)"
    by (simp only: mult.left_commute)
  then have "99997 / 100000 * (a * t) \<le> s"
    using assms(5) bV by linarith
  then have lo: "99997 / 100000 * a \<le> s / t"
    using pos by (simp add: le_divide_eq mult.assoc)
  have "tiny \<le> a / 10000000000"
    using assms(2) by (simp add: tiny_def)
  moreover have "\<bar>p - s / t\<bar> \<le> s / t / 1000000000 + tiny"
    using fl_close [OF assms(1)] lo pos by simp
  ultimately show "9999 / 10000 * a \<le> p" "p \<le> 10001 / 10000 * b"
    using hi lo assms(3) pos by (auto simp: abs_le_iff)
qed

text \<open>
  The volume-weighted mean of at most three samples lies in the range of their prices, up to rounding,
  when their volume is at least one dollar.
\<close>

lemma weighted_price_between:
  assumes "\<forall>s \<in> set ss. priced a b s" "1 / 10 ^ 21 \<le> a" "length ss \<le> 3" "1 \<le> volume_of ss"
    and p: "weighted_price ss = Fin p" "0 < p"
  shows "9999 / 10000 * a \<le> p" "p \<le> 10001 / 10000 * b"
proof -
  let ?V = "volume_of ss" and ?products = "map (\<lambda>s. f_mul (sm_price s) (sm_volume_usd s)) ss"
  define vs where "vs = map (f_val \<circ> sm_volume_usd) ss"
  have vols: "map sm_volume_usd ss = map Fin vs" "\<forall>v \<in> set vs. 0 \<le> v" "sum_list vs = ?V" "length vs = length ss"
    using assms(1) by (auto simp: vs_def priced_def volume_of_def)
  have "f_sum (map sm_volume_usd ss) \<noteq> Inf False"
    using p by (cases "f_sum ?products") (auto simp: weighted_price_def)
  then obtain t where t: "f_sum (map Fin vs) = Fin t"
    using f_sum_nonneg [OF vols(2)] by (auto simp: vols(1))
  have tV: "\<bar>t - ?V\<bar> \<le> 6 * (?V / 1000000000 + tiny)"
    using f_sum_close [OF t vols(2)] vols(3,4) assms(3) by simp
  moreover have tiny: "tiny \<le> 1 / 1000000000"
    by (simp add: tiny_def)
  ultimately have t_bounds: "99999 / 100000 * ?V \<le> t" "t \<le> 100001 / 100000 * ?V"
    using assms(4) by (auto simp: abs_le_iff)
  then have "0 < t"
    using assms(4) by (intro less_le_trans [OF _ t_bounds(1)]) simp
  then obtain s where s: "f_sum ?products = Fin s" "fl (s / t) = Fin p"
    using p t by (cases "f_sum ?products") (auto simp: weighted_price_def vols(1))
  obtain zs where zs: "?products = map Fin zs"
    using foldl_add_Fin [of "Fin 0" ?products s] s(1) by (auto simp: f_sum_def)
  have "0 < a"
    using assms(2) by (intro less_le_trans [OF _ assms(2)]) simp
  note prods = products_close [OF zs assms(1) this]
  have "a \<le> b"
    using assms(1,4) by (cases ss) (auto simp: priced_def volume_of_def)
  then have aV: "a \<le> a * ?V" "a * ?V \<le> b * ?V"
    using assms(4) \<open>0 < a\<close> by (auto intro: mult_right_mono)
  have slack: "of_nat (length ss) * tiny \<le> 3 * tiny"
    using assms(3) tiny_pos by (intro mult_right_mono) auto
  have "tiny \<le> a / 1000000000"
    using assms(2) by (simp add: tiny_def)
  then have small: "tiny \<le> a * ?V / 1000000000"
    using aV(1) by linarith
  have "\<bar>s - sum_list zs\<bar> \<le> 6 * (sum_list zs / 1000000000 + tiny)"
    using prods assms(3) s(1) zs by (intro f_sum_close) auto
  then have s_bounds: "s \<le> sum_list zs + 6 * (sum_list zs / 1000000000 + tiny)"
    "sum_list zs - 6 * (sum_list zs / 1000000000 + tiny) \<le> s"
    by (simp_all only: abs_le_iff) linarith+
  have z_bounds: "sum_list zs \<le> 1000000001 / 1000000000 * (b * ?V) + 3 * tiny"
    "999999999 / 1000000000 * (a * ?V) - 3 * tiny \<le> sum_list zs"
    using prods slack by linarith+
  have "99999 / 100000 * (a * ?V) \<le> s"
    using s_bounds(2) z_bounds(2) small tiny_pos aV \<open>0 < a\<close> by simp
  moreover have "tiny \<le> b * ?V / 1000000000"
    using small aV(2) by linarith
  then have "s \<le> 100001 / 100000 * (b * ?V)"
    using s_bounds(1) z_bounds(1) tiny_pos by simp
  ultimately show "9999 / 10000 * a \<le> p" "p \<le> 10001 / 10000 * b"
    using quotient_bounds [OF s(2) assms(2) \<open>a \<le> b\<close> assms(4) _ _ t_bounds] by auto
qed

section \<open>One faulty source\<close>

text \<open>
  A sample is honest for a price range when its price lies in the range and its volume is at least a dollar.
\<close>

definition honest :: "rat \<Rightarrow> rat \<Rightarrow> price_sample \<Rightarrow> bool" where
  "honest lo hi s = (\<exists>x v. sm_price s = Fin x \<and> lo \<le> x \<and> x \<le> hi \<and> sm_volume_usd s = Fin v \<and> 1 \<le> v)"

definition price_within :: "rat \<Rightarrow> rat \<Rightarrow> f64 \<Rightarrow> bool" where
  "price_within a b p = (\<exists>x. p = Fin x \<and> a \<le> x \<and> x \<le> b)"

lemma valid_sample_fin:
  assumes "valid_sample s"
  obtains x v where "sm_price s = Fin x" "0 < x" "sm_volume_usd s = Fin v" "0 \<le> v"
  using assms by (cases "sm_price s"; cases "sm_volume_usd s") (auto simp: valid_sample_def)

lemma volume_of_honest:
  "s \<in> set ss \<Longrightarrow> honest lo hi s \<Longrightarrow> \<forall>s \<in> set ss. valid_sample s \<Longrightarrow> 1 \<le> volume_of ss"
proof (induction ss)
  case (Cons r ss)
  obtain x v where r: "sm_price r = Fin x" "0 < x" "sm_volume_usd r = Fin v" "0 \<le> v"
    using Cons.prems(3) valid_sample_fin [of r] by auto
  have "0 \<le> volume_of ss"
    unfolding volume_of_def by (rule sum_list_nonneg) (use Cons.prems(3) in \<open>auto elim!: valid_sample_fin\<close>)
  then show ?case
    using Cons r by (auto simp: volume_of_def honest_def)
qed simp

lemma filter_filter_length: "length (filter P (filter Q xs)) \<le> length (filter P xs)"
  by (induction xs) auto

lemma robust_price_within:
  assumes "robust_price False samples = Some p" "length samples \<le> 3"
    and "length (filter (\<lambda>s. \<not> honest lo hi s) samples) \<le> 1" "1 / 10 ^ 20 \<le> lo"
  shows "price_within (81 / 100 * lo) (123 / 100 * hi) p"
proof -
  define valid where "valid = filter valid_sample samples"
  obtain med where med: "median (map sm_price valid) = Some med" "\<not> f_le med (Fin 0)"
    and two: "2 \<le> length (filter (near_median med) valid)"
    and p: "p = weighted_price (filter (near_median med) valid)" "is_finite p" "f_lt (Fin 0) p"
    using assms(1) by (auto simp: robust_price_def Let_def MIN_SOURCES_def bind_eq_Some_conv valid_def split: if_splits)
  define kept where "kept = filter (near_median med) valid"
  have sub: "length (filter P kept) \<le> length (filter P samples)" for P
    unfolding kept_def valid_def using filter_filter_length order_trans by blast
  have kept_len: "length kept \<le> 3"
    using sub [of "\<lambda>_. True"] assms(2) by simp
  have "\<exists>h \<in> set kept. honest lo hi h"
  proof (rule ccontr)
    assume "\<not> ?thesis"
    then have "filter (\<lambda>s. \<not> honest lo hi s) kept = kept"
      by (auto simp: filter_id_conv)
    with sub [of "\<lambda>s. \<not> honest lo hi s"] assms(3) two show False
      by (simp add: kept_def)
  qed
  then obtain h y where h: "h \<in> set kept" "honest lo hi h" and y: "sm_price h = Fin y" "lo \<le> y" "y \<le> hi"
    by (auto simp: honest_def)
  have kept: "near_median med s" "valid_sample s" if "s \<in> set kept" for s
    using that by (auto simp: kept_def valid_def)
  obtain m where m: "med = Fin m" "0 < m"
    using kept(1) [OF h(1)] y(1) med(2) by (cases med) (auto simp: near_median_def f_sub_def max_deviation)
  have "priced (815 / 1000 * lo) (1225 / 1000 * hi) s" if mem: "s \<in> set kept" for s
  proof -
    obtain x v where s: "sm_price s = Fin x" "0 < x" "sm_volume_usd s = Fin v" "0 \<le> v"
      using kept(2) [OF mem] by (rule valid_sample_fin)
    from near_median_pair [of m s x h y] kept(1) [OF mem] kept(1) [OF h(1)] s y m assms(4)
    show ?thesis
      by (auto simp: priced_def)
  qed
  moreover obtain q where q: "p = Fin q" "0 < q"
    using p(2,3) by (cases p) auto
  moreover have "1 / 10 ^ 21 \<le> 815 / 1000 * lo"
    using assms(4) by simp
  ultimately have "9999 / 10000 * (815 / 1000 * lo) \<le> q" "q \<le> 10001 / 10000 * (1225 / 1000 * hi)"
    using weighted_price_between [of kept "815 / 1000 * lo" "1225 / 1000 * hi" q] p(1) kept_len
      volume_of_honest [OF h] kept(2) by (auto simp: kept_def)
  moreover have "0 < lo" "lo \<le> hi"
    using assms(4) y(2,3) by (auto intro: less_le_trans [of 0 "1 / 10 ^ 20"])
  ultimately show ?thesis
    by (simp add: price_within_def q)
qed

section \<open>From the exchanges to the stored price\<close>

datatype exchange = Mexc | Bybit | Gateio

text \<open>What an exchange quotes for a channel in an attempt.\<close>

definition exchange_quote :: "exchanges \<Rightarrow> exchange \<Rightarrow> nat \<Rightarrow> channel_id \<Rightarrow> (price_sample, oracle_error) result" where
  "exchange_quote X x i ch =
     (case x of Mexc \<Rightarrow> mexc_single X i (the (mexc_symbol ch))
      | Bybit \<Rightarrow> bybit_single X i (the (bybit_symbol ch))
      | Gateio \<Rightarrow> gateio_single X i (the (gateio_symbol ch)))"

definition samples_for :: "channel_id \<Rightarrow> (channel_id \<times> price_sample) list \<Rightarrow> price_sample list" where
  "samples_for ch xs = map snd (filter (\<lambda>x. fst x = ch) xs)"

lemma symbol_channels_get:
  "hm_get (symbol_channels symbol chs) sy =
     (if \<exists>c \<in> set chs. symbol c = Some sy then Some (filter (\<lambda>c. symbol c = Some sy) chs) else None)"
  by (induction chs rule: rev_induct) (auto simp: symbol_channels_def split: option.splits)

lemma concat_one_key:
  assumes "distinct (map fst es)" "\<And>e. e \<in> set es \<Longrightarrow> fst e \<noteq> k \<Longrightarrow> g e = []" "\<And>e. e \<in> set es \<Longrightarrow> length (g e) \<le> 1"
  shows "length (concat (map g es)) \<le> 1"
  using assms
proof (induction es)
  case (Cons e es)
  show ?case
  proof (cases "fst e = k")
    case True
    then have "g x = []" if "x \<in> set es" for x
      using that Cons.prems(1,2) by (metis distinct.simps(2) image_eqI list.set_intros(2) list.set_map list.simps(9))
    then have "concat (map g es) = []"
      by simp
    then show ?thesis
      using Cons.prems(3) [of e] by (simp only: list.map concat.simps append_Nil2 list.set_intros)
  next
    case False
    then show ?thesis
      using Cons by simp
  qed
qed simp

lemma filter_eq_distinct: "distinct xs \<Longrightarrow> filter (\<lambda>c. c = ch) xs = (if ch \<in> set xs then [ch] else [])"
  by (induction xs) auto

lemma fetch_channels_samples:
  assumes "fetch_channels name symbol single channels = Inr out" "distinct channels" "symbol ch = Some sy"
  shows "length (samples_for ch out) \<le> 1" and "\<forall>s \<in> set (samples_for ch out). single sy = Inr s"
proof -
  let ?es = "hm_iter (symbol_channels symbol channels)"
  have out: "out = concat (map (fetch_symbol single) ?es)"
    using assms(1) by (auto simp: fetch_channels_def Let_def split: if_splits)
  have entry: "snd e = filter (\<lambda>c. symbol c = Some (fst e)) channels" if "e \<in> set ?es" for e
    using that hm.iter_keys [of "fst e" "symbol_channels symbol channels"] 
      hm.iter_get [of "fst e" "snd e" "symbol_channels symbol channels"]
    by (auto simp: symbol_channels_get split: if_splits)
  have piece: "samples_for ch (fetch_symbol single e) =
      (if fst e = sy \<and> ch \<in> set channels then (case single sy of Inl _ \<Rightarrow> [] | Inr s \<Rightarrow> [s]) else [])"
    if "e \<in> set ?es" for e
    using entry [OF that] assms(2,3)
    by (auto simp: samples_for_def fetch_symbol_def filter_map o_def filter_eq_distinct split: sum.split
        simp flip: filter_filter)
  have all: "samples_for ch out = concat (map (samples_for ch \<circ> fetch_symbol single) ?es)"
    by (simp add: out samples_for_def filter_concat map_concat o_def)
  show "length (samples_for ch out) \<le> 1"
    unfolding all
    by (rule concat_one_key [where k = sy, OF hm.iter_distinct]) (auto simp: piece split: sum.split)
  show "\<forall>s \<in> set (samples_for ch out). single sy = Inr s"
    unfolding all by (auto simp: piece split: if_splits sum.splits)
qed

lemma with_retry_Inr: "with_retry in_time f = Inr v \<Longrightarrow> \<exists>i. f i = Inr v"
proof -
  have "retry_attempts n i in_time f e = Inr v \<Longrightarrow> \<exists>i. f i = Inr v" for n i e
    by (induction n arbitrary: i e) (auto split: sum.splits if_splits)
  then show "with_retry in_time f = Inr v \<Longrightarrow> \<exists>i. f i = Inr v"
    by (simp add: with_retry_def)
qed

lemma collect_samples_get:
  "(case hm_get (collect_samples xs m) ch of None \<Rightarrow> [] | Some ss \<Rightarrow> ss) =
   (case hm_get m ch of None \<Rightarrow> [] | Some ss \<Rightarrow> ss) @ samples_for ch xs"
  by (induction xs arbitrary: m) (auto simp: collect_samples_def samples_for_def)

definition source_samples :: "channel_id \<Rightarrow> ((channel_id \<times> price_sample) list, oracle_error) result \<Rightarrow> price_sample list" where
  "source_samples ch res = (case res of Inl _ \<Rightarrow> [] | Inr xs \<Rightarrow> samples_for ch xs)"

lemma source_samples_retry:
  assumes "distinct channels" "symbol ch = Some sy"
    and "\<And>i. fetch i = fetch_channels name symbol (single i) channels"
  shows "length (source_samples ch (with_retry in_time fetch)) \<le> 1"
    and "\<forall>s \<in> set (source_samples ch (with_retry in_time fetch)). \<exists>i. single i sy = Inr s"
proof -
  have "length (source_samples ch r) \<le> 1 \<and> (\<forall>s \<in> set (source_samples ch r). \<exists>i. single i sy = Inr s)"
    if r: "with_retry in_time fetch = r" for r
  proof (cases r)
    case (Inr out)
    then obtain i where "fetch_channels name symbol (single i) channels = Inr out"
      using with_retry_Inr [of in_time fetch out] r assms(3) by auto
    then show ?thesis
      using fetch_channels_samples [of name symbol "single i" channels out ch sy] assms(1,2)
      by (auto simp: source_samples_def Inr)
  qed (simp add: source_samples_def)
  then show "length (source_samples ch (with_retry in_time fetch)) \<le> 1"
    and "\<forall>s \<in> set (source_samples ch (with_retry in_time fetch)). \<exists>i. single i sy = Inr s"
    by auto
qed

lemma aggregate_samples:
  assumes "aggregate X wasm channels = Inr out" "(ch, p) \<in> set out"
  shows "robust_price wasm (concat (map (source_samples ch) (source_results X wasm channels))) = Some p"
proof -
  let ?step = "\<lambda>res m. case res of Inl e \<Rightarrow> m | Inr samples \<Rightarrow> collect_samples samples m"
  have fold: "(case hm_get (fold ?step rs m) ch of None \<Rightarrow> [] | Some ss \<Rightarrow> ss) =
      (case hm_get m ch of None \<Rightarrow> [] | Some ss \<Rightarrow> ss) @ concat (map (source_samples ch) rs)" for rs m
    by (induction rs arbitrary: m) (auto simp: collect_samples_get source_samples_def split: sum.splits)
  from assms obtain ss where "hm_get (fold ?step (source_results X wasm channels) hm_empty) ch = Some ss"
    "robust_price wasm ss = Some p"
    by (auto simp: aggregate_def Let_def List.map_filter_def bind_eq_Some_conv split: if_splits)
  with fold [of "source_results X wasm channels" hm_empty] show ?thesis
    by simp
qed

lemma source_samples_exchanges:
  assumes "distinct channels" "\<forall>x i s. x \<noteq> bad \<longrightarrow> exchange_quote X x i ch = Inr s \<longrightarrow> honest lo hi s"
  defines "samples \<equiv> concat (map (source_samples ch) (source_results X False channels))"
  shows "length samples \<le> 3" "length (filter (\<lambda>s. \<not> honest lo hi s) samples) \<le> 1"
proof -
  define from_source where "from_source x = source_samples ch (case x of
      Mexc \<Rightarrow> with_retry (xc_in_time X ''MEXC'') (mexc X channels)
    | Bybit \<Rightarrow> with_retry (xc_in_time X ''Bybit'') (bybit X channels)
    | Gateio \<Rightarrow> with_retry (xc_in_time X ''Gate.io'') (gateio X channels))" for x
  have symbols: "mexc_symbol ch = Some (the (mexc_symbol ch))" "bybit_symbol ch = Some (the (bybit_symbol ch))"
    "gateio_symbol ch = Some (the (gateio_symbol ch))"
    by (cases ch; simp add: mexc_symbol_def bybit_symbol_def gateio_symbol_def)+
  note retry = source_samples_retry [OF assms(1) symbols(1) mexc_def]
    source_samples_retry [OF assms(1) symbols(2) bybit_def] source_samples_retry [OF assms(1) symbols(3) gateio_def]
  have one: "length (from_source x) \<le> 1" for x
    using retry(1,3,5) by (cases x) (simp_all add: from_source_def)
  have good: "honest lo hi s" if "x \<noteq> bad" "s \<in> set (from_source x)" for x s
  proof -
    have "\<exists>i. exchange_quote X x i ch = Inr s"
      using that(2) retry(2,4,6) by (cases x) (auto simp: from_source_def exchange_quote_def)
    then show ?thesis
      using that(1) assms(2) by blast
  qed
  have none: "filter (\<lambda>s. \<not> honest lo hi s) (from_source x) = []" if "x \<noteq> bad" for x
    using good [OF that] by (simp add: filter_empty_conv)
  have samples: "samples = from_source Mexc @ from_source Bybit @ from_source Gateio"
    by (simp add: samples_def source_results_def from_source_def)
  show "length samples \<le> 3"
    using one [of Mexc] one [of Bybit] one [of Gateio] by (simp add: samples)
  show "length (filter (\<lambda>s. \<not> honest lo hi s) samples) \<le> 1"
    using none [of Mexc] none [of Bybit] none [of Gateio]
      order_trans [OF length_filter_le [of "\<lambda>s. \<not> honest lo hi s" "from_source bad"] one [of bad]]
    by (cases bad) (simp_all add: samples)
qed

lemma ps_get_updates:
  assumes "ps_get now (fold (\<lambda>(c, price) ps. ps_set (fst (clk c)) (snd (clk c)) ps c price) prices ps) ch = Some p"
  shows "ps_get now ps ch = Some p \<or> (ch, p) \<in> set prices"
  using assms
proof (induction prices arbitrary: ps)
  case (Cons cp prices)
  obtain c price where cp: "cp = (c, price)"
    by (cases cp)
  have "ps_get now (ps_set ng ni ps c price) ch = Some p \<Longrightarrow> ps_get now ps ch = Some p \<or> (ch, p) = cp" for ng ni
    by (rule ps_set_cases [of ng ni ps c price]) (auto simp: ps_get_Some cp split: if_splits)
  with Cons show ?case
    by (fastforce simp: cp)
qed simp

text \<open>
  (C38) One exchange cannot dictate the price, under conditions on the two others. Whatever one of the three
  exchanges answers, in any attempt: if every quote of the other two for a channel has a price between
  \<open>lo\<close> and \<open>hi\<close>, where \<open>lo\<close> is at least \<open>10 ^ -20\<close>, and a volume of at least one dollar, then the price that
  the storage returns after an update is the one it returned before the update, or it lies between 0.81 \<open>lo\<close>
  and 1.23 \<open>hi\<close>, rounding included. The condition on the volume is needed: a volume that is missing or
  unparsable counts as zero, and weights near the smallest double round the weighted mean away from
  the quotes.
\<close>

theorem one_exchange_cannot_dictate:
  assumes "\<forall>x i s. x \<noteq> bad \<longrightarrow> exchange_quote X x i ch = Inr s \<longrightarrow> honest lo hi s" and "1 / 10 ^ 20 \<le> lo"
    and "ps_get now (oracle_round X clk ps) ch = Some p"
  shows "ps_get now ps ch = Some p \<or> price_within (81 / 100 * lo) (123 / 100 * hi) p"
proof (cases "aggregate X False (ps_channels_list ps)")
  case (Inr prices)
  then have "ps_get now ps ch = Some p \<or> (ch, p) \<in> set prices"
    using assms(3) ps_get_updates [of now clk prices ps ch p] by (simp add: oracle_round_def update_all_prices_def)
  moreover have "distinct (ps_channels_list ps)"
    by (simp add: ps_channels_list_def hm.iter_distinct)
  note source_samples_exchanges [OF this assms(1)]
  ultimately show ?thesis
    using aggregate_samples [OF Inr] robust_price_within [OF _ _ _ assms(2)] by blast
qed (use assms(3) in \<open>simp add: oracle_round_def update_all_prices_def\<close>)

definition sample_exchanges :: exchanges where
  "sample_exchanges = \<lparr>xc_bybit = (\<lambda>_ _. Inr \<lparr>br_ret_code = 0, br_ret_msg = [], br_list = [\<lparr>bt_last_price = ''2'', bt_turnover_24h = ''100''\<rparr>]\<rparr>),
     xc_gateio = (\<lambda>_ _. Inr [\<lparr>gt_last = ''2.0'', gt_quote_volume = ''1e2''\<rparr>]),
     xc_mexc = (\<lambda>_ _. Inr \<lparr>mt_last_price = ''1000'', mt_quote_volume = ''999999''\<rparr>), xc_in_time = (\<lambda>_ _. True)\<rparr>"

lemma sample_numbers: "parse_f64 ''2'' = Some (Fin 2)" "parse_f64 ''100'' = Some (Fin 100)" "parse_f64 ''2.0'' = Some (Fin 2)"
  "parse_f64 ''1e2'' = Some (Fin 100)" "parse_f64 ''1000'' = Some (Fin 1000)" "parse_f64 ''999999'' = Some (Fin 999999)"
  by (simp_all add: parse_f64_def split_sign_def parse_decimal_def split_digits_def parse_exponent_def is_digit_def
      lower_char_def digits_val_def digit_val_def)

lemma sample_quotes:
  "exchange_quote sample_exchanges x i ch =
     Inr (if x = Mexc then \<lparr>sm_price = Fin 1000, sm_volume_usd = Fin 999999\<rparr> else \<lparr>sm_price = Fin 2, sm_volume_usd = Fin 100\<rparr>)"
  by (cases x) (simp_all add: exchange_quote_def sample_exchanges_def mexc_single_def bybit_single_def gateio_single_def
      sample_of_def sample_numbers)

lemma hm_iter_single: "hm_iter (hm_insert k v hm_empty) = [(k, v)]"
  by (simp add: hm_iter_def hm_insert_def hm_empty_def DAList.update.rep_eq DAList.empty.rep_eq)

lemma sample_fetch:
  "symbol KaspaTn10 = Some sy \<Longrightarrow> single sy = Inr s \<Longrightarrow> fetch_channels name symbol single [KaspaTn10] = Inr [(KaspaTn10, s)]"
  by (simp add: fetch_channels_def symbol_channels_def hm_iter_single fetch_symbol_def)

lemma with_retry_first: "in_time 1 \<Longrightarrow> f 1 = Inr v \<Longrightarrow> with_retry in_time f = Inr v"
  by (simp add: with_retry_def MAX_RETRIES_def numeral_3_eq_3)

lemma sample_aggregate: "aggregate sample_exchanges False [KaspaTn10] = Inr [(KaspaTn10, Fin 2)]"
proof -
  let ?good = "\<lparr>sm_price = Fin 2, sm_volume_usd = Fin 100\<rparr>" and ?bad = "\<lparr>sm_price = Fin 1000, sm_volume_usd = Fin 999999\<rparr>"
  have "mexc sample_exchanges [KaspaTn10] i = Inr [(KaspaTn10, ?bad)]"
    "bybit sample_exchanges [KaspaTn10] i = Inr [(KaspaTn10, ?good)]"
    "gateio sample_exchanges [KaspaTn10] i = Inr [(KaspaTn10, ?good)]" for i
    using sample_quotes [of Mexc i KaspaTn10] sample_quotes [of Bybit i KaspaTn10] sample_quotes [of Gateio i KaspaTn10]
    by (simp_all add: mexc_def bybit_def gateio_def sample_fetch exchange_quote_def mexc_symbol_def bybit_symbol_def gateio_symbol_def)
  then have "source_results sample_exchanges False [KaspaTn10] =
      [Inr [(KaspaTn10, ?bad)], Inr [(KaspaTn10, ?good)], Inr [(KaspaTn10, ?good)]]"
    by (simp add: source_results_def with_retry_first sample_exchanges_def)
  moreover have "robust_price False [?bad, ?good, ?good] = Some (Fin 2)"
    by (simp add: robust_price_def MIN_SOURCES_def valid_sample_def median_def sort_prices_def near_median_def
        max_deviation f_sub_def weighted_price_def f_sum_def)
  ultimately show ?thesis
    by (simp add: aggregate_def collect_samples_def List.map_filter_def)
qed

theorem one_exchange_cannot_dictate_witness:
  "ps_get 100 (oracle_round sample_exchanges (\<lambda>_. (100, 100)) (ps_with_max_age [KaspaTn10] 300)) KaspaTn10 = Some (Fin 2) \<and>
   ps_get 100 (ps_with_max_age [KaspaTn10] 300) KaspaTn10 = None \<and> price_within (81 / 100 * 2) (123 / 100 * 2) (Fin 2)"
proof -
  let ?ps = "ps_with_max_age [KaspaTn10] 300"
  have chs: "ps_channels_list ?ps = [KaspaTn10]"
    by (simp add: ps_channels_list_def ps_with_max_age_def hm_iter_single)
  have none: "ps_get t ?ps KaspaTn10 = None" for t
    by (simp add: ps_get_def ps_with_max_age_def)
  have got: "ps_get 100 (oracle_round sample_exchanges (\<lambda>_. (100, 100)) ?ps) KaspaTn10 = Some (Fin 2)"
    using none [of 100]
    by (simp add: oracle_round_def update_all_prices_def chs sample_aggregate ps_set_def)
      (simp add: ps_get_def ps_with_max_age_def saturating_sub_def)
  moreover have "honest 2 2 \<lparr>sm_price = Fin 2, sm_volume_usd = Fin 100\<rparr>"
    by (simp add: honest_def)
  ultimately show ?thesis
    using one_exchange_cannot_dictate [of Mexc sample_exchanges KaspaTn10 2 2 100 "\<lambda>_. (100, 100)" ?ps "Fin 2"] none [of 100]
    by (auto simp: sample_quotes split: if_splits)
qed

end
