(* ===== verification/Node_Config.thy ===== *)
theory Node_Config
  imports Node_Coordinator Node_Oracle
begin

text \<open>
  From the daemon's configuration to a running node (\<open>node/src/config\<close>, \<open>node/build.rs\<close>, \<open>node/start.rs\<close>,
  \<open>node/services.rs\<close>, \<open>bin/stroemnetd.rs\<close>): checking and converting the configuration, building the
  handler, the sink and the network, the tasks that are started, and saving the peers. Reading the file
  and parsing its TOML is left out; the parsers of the channel configurations are those of the sink.
\<close>

section \<open>Configuration\<close>

text \<open>The values of \<open>serde_json\<close> that the code builds; the only numbers in them are unsigned.\<close>

datatype json = JNull | JBool bool | JNumber u64 | JString string | JArray "json list" | JObject "(string \<times> json) list"

definition json_get :: "json \<Rightarrow> string \<Rightarrow> json option" where
  "json_get v key = (case v of JObject m \<Rightarrow> map_of m key | _ \<Rightarrow> None)"

definition as_u64 :: "json \<Rightarrow> u64 option" where
  "as_u64 v = (case v of JNumber n \<Rightarrow> Some n | _ \<Rightarrow> None)"

record channel_spec =
  cs_config :: json
  cs_lp_private_key :: "string option"

definition minimum_block_confirmations :: "channel_spec \<Rightarrow> u64" where
  "minimum_block_confirmations spec =
     (case Option.bind (json_get (cs_config spec) ''minimum_block_confirmations'') as_u64 of None \<Rightarrow> 0 | Some n \<Rightarrow> n)"

type_synonym socket_addr = "(u8 \<times> u8 \<times> u8 \<times> u8) \<times> 16 word"

record node_config =
  nc_handler :: handler_config
  nc_channels :: "(channel_id, channel_spec) hashmap"
  nc_bind_addr :: "socket_addr option"
  nc_price_oracle_update_interval_secs :: u64
  nc_bootstrap_peers :: "string list"
  nc_role :: role
  nc_advertised_listen_addr :: "string option"

record channel_config =
  cc_private_key :: "string option"
  cc_participate_ccr :: bool
  cc_min_confirmations :: "u64 option"
  cc_rpc_url :: "string option"
  cc_htlc_address :: "string option"
  cc_gas_payment :: "string option"
  cc_network_id :: "string option"
  cc_coinbase_maturity :: "u64 option"
  cc_script_ttl_secs :: "u64 option"

record daemon_config =
  dc_bind_addr :: socket_addr
  dc_external_hostname :: string
  dc_min_trade_usd :: "f64 option"
  dc_max_trade_usd :: "f64 option"
  dc_spread_percent :: "f64 option"
  dc_price_oracle_update_interval_secs :: u64
  dc_commit_buffer_secs :: u64
  dc_bootstrap_peers :: "string list"
  dc_lp :: bool
  dc_peer_db :: string
  dc_channels :: "(string, channel_config) hashmap"

definition default_commit_buffer_secs :: u64 where "default_commit_buffer_secs = 960"

definition default_peer_db :: string where "default_peer_db = ''./stroemnet-peers.db''"

definition json_insert_opt :: "json \<Rightarrow> string \<Rightarrow> json option \<Rightarrow> json" where
  "json_insert_opt target key value =
     (case (target, value) of (JObject m, Some v) \<Rightarrow> JObject (AList.update key v m) | _ \<Rightarrow> target)"

datatype chain_kind_tag = KaspaKind | EvmKind

definition chain_kind :: "channel_id \<Rightarrow> chain_kind_tag" where
  "chain_kind ch = (case ch of KaspaTn10 \<Rightarrow> KaspaKind | EthereumSepolia \<Rightarrow> EvmKind | IgraGalleon \<Rightarrow> EvmKind)"

definition quoted :: "string \<Rightarrow> string" where
  "quoted s = [CHR 0x27] @ s @ [CHR 0x27]"

definition channel_id_from_name :: "string \<Rightarrow> (channel_id, stroemnet_error) result" where
  "channel_id_from_name name =
     (if name = ''kaspa-tn10'' then Inr KaspaTn10
      else if name = ''ethereum-sepolia'' then Inr EthereumSepolia
      else if name = ''igra-galleon'' then Inr IgraGalleon
      else Inl (EnvErr (''unknown channel '' @ quoted name)))"

text \<open>The error of a missing field.\<close>

definition required_field :: "string \<Rightarrow> string \<Rightarrow> 'a option \<Rightarrow> ('a, stroemnet_error) result" where
  "required_field name field x = ok_or x (EnvErr (''channel '' @ quoted name @ '': '' @ field @ '' is required''))"

definition base_config :: "channel_config \<Rightarrow> channel_id \<Rightarrow> string \<Rightarrow> (json, stroemnet_error) result" where
  "base_config cc ch name =
     (case chain_kind ch of
        EvmKind \<Rightarrow>
          r_bind (required_field name ''rpc_url'' (cc_rpc_url cc)) (\<lambda>rpc_url.
          r_bind (required_field name ''htlc_address'' (cc_htlc_address cc)) (\<lambda>htlc_address.
          Inr (JObject [(''rpc_url'', JString rpc_url), (''htlc_address'', JString htlc_address),
            (''participate_ccr'', JBool (cc_participate_ccr cc))])))
      | KaspaKind \<Rightarrow>
          r_bind (required_field name ''network_id'' (cc_network_id cc)) (\<lambda>network_id.
          let cfg = JObject [(''network_id'', JString network_id), (''participate_ccr'', JBool (cc_participate_ccr cc))];
              cfg = json_insert_opt cfg ''wrpc_url'' (map_option JString (cc_rpc_url cc));
              cfg = json_insert_opt cfg ''coinbase_maturity'' (map_option JNumber (cc_coinbase_maturity cc))
          in Inr (json_insert_opt cfg ''script_ttl_secs'' (map_option JNumber (cc_script_ttl_secs cc)))))"

definition into_spec :: "channel_config \<Rightarrow> channel_id \<Rightarrow> string \<Rightarrow> (channel_spec, stroemnet_error) result" where
  "into_spec cc ch name =
     r_bind (base_config cc ch name) (\<lambda>config.
     if (case cc_min_confirmations cc of None \<Rightarrow> 0 | Some n \<Rightarrow> n) = 0
     then Inl (EnvErr (''channel '' @ quoted name @
       '': min_confirmations must be set to a non-zero value for EVM channels (reorg safety)''))
     else
       let config = json_insert_opt config ''minimum_block_confirmations'' (map_option JNumber (cc_min_confirmations cc));
           config = json_insert_opt config ''gas_payment'' (map_option JString (cc_gas_payment cc))
       in Inr \<lparr>cs_config = config, cs_lp_private_key = cc_private_key cc\<rparr>)"

text \<open>The loop over the configured channels, in the order of the map.\<close>

fun convert_channels ::
  "bool \<Rightarrow> (string \<times> channel_config) list \<Rightarrow> (channel_id, channel_spec) hashmap
     \<Rightarrow> ((channel_id, channel_spec) hashmap, stroemnet_error) result" where
  "convert_channels lp [] channels = Inr channels"
| "convert_channels lp ((name, cc) # rest) channels =
     r_bind (channel_id_from_name name) (\<lambda>ch.
     if lp \<and> cc_private_key cc = None
     then Inl (EnvErr (''LP mode: channel '' @ quoted name @ '' requires private_key''))
     else if cc_participate_ccr cc \<and> cc_private_key cc = None
     then Inl (EnvErr (''CCR mode: channel '' @ quoted name @ '' requires private_key''))
     else if lp \<and> \<not> cc_participate_ccr cc
     then Inl (EnvErr (''LP mode: channel '' @ quoted name @
       '' requires participate_ccr = true so the LP claims its own settled legs''))
     else r_bind (into_spec cc ch name) (\<lambda>spec. convert_channels lp rest (hm_insert ch spec channels)))"

definition max_lock_time :: "(channel_id, channel_spec) hashmap \<Rightarrow> u64" where
  "max_lock_time channels = fold (\<lambda>e. max (lock_time_secs (fst e))) (hm_iter channels) 0"

definition add_saved_peers :: "string list \<Rightarrow> string list \<Rightarrow> string list" where
  "add_saved_peers db_peers peers = fold (\<lambda>p ps. if p \<in> set ps then ps else ps @ [p]) db_peers peers"

definition trade_limits :: "daemon_config \<Rightarrow> (f64 \<times> f64 \<times> f64, stroemnet_error) result" where
  "trade_limits dc =
     (if dc_lp dc
      then r_bind (ok_or (dc_min_trade_usd dc) (EnvErr ''LP mode: min_trade_usd is required'')) (\<lambda>lo.
           r_bind (ok_or (dc_max_trade_usd dc) (EnvErr ''LP mode: max_trade_usd is required'')) (\<lambda>hi.
           r_bind (ok_or (dc_spread_percent dc) (EnvErr ''LP mode: spread_percent is required'')) (\<lambda>spread.
           Inr (lo, hi, spread))))
      else Inr (case dc_min_trade_usd dc of None \<Rightarrow> Fin 0 | Some x \<Rightarrow> x,
                case dc_max_trade_usd dc of None \<Rightarrow> Fin 0 | Some x \<Rightarrow> x,
                case dc_spread_percent dc of None \<Rightarrow> Fin 0 | Some x \<Rightarrow> x))"

definition into_node_config :: "daemon_config \<Rightarrow> string list \<Rightarrow> (node_config, stroemnet_error) result" where
  "into_node_config dc db_peers =
     r_bind (convert_channels (dc_lp dc) (hm_iter (dc_channels dc)) hm_empty) (\<lambda>channels.
     if hm_iter channels = [] then Inl (EnvErr ''no channels configured'')
     else if dc_lp dc \<and> dc_commit_buffer_secs dc < max_lock_time channels
     then Inl (EnvErr (''LP mode: commit_buffer_secs ('' @ show_nat (unat (dc_commit_buffer_secs dc)) @ '') must be >= '' @
       show_nat (unat (max_lock_time channels)) @
       '' (max chain lock time among configured channels) to preserve atomic-swap timelock safety''))
     else r_bind (trade_limits dc) (\<lambda>(min_trade_usd, max_trade_usd, spread_percent).
     Inr \<lparr>nc_handler = \<lparr>hc_min_trade_usd = min_trade_usd, hc_max_trade_usd = max_trade_usd,
            hc_spread_percent = spread_percent, hc_commit_buffer_secs = dc_commit_buffer_secs dc\<rparr>,
          nc_channels = channels, nc_bind_addr = Some (dc_bind_addr dc),
          nc_price_oracle_update_interval_secs = dc_price_oracle_update_interval_secs dc,
          nc_bootstrap_peers = add_saved_peers db_peers (dc_bootstrap_peers dc),
          nc_role = (if dc_lp dc then Lp else Observer),
          nc_advertised_listen_addr = Some (trim_end_slash (dc_external_hostname dc))\<rparr>))"

section \<open>Building a node\<close>

definition build_network :: "bool \<Rightarrow> bytes \<Rightarrow> string list \<Rightarrow> string option \<Rightarrow> 't p2p" where
  "build_network wasm random_id bootstrap_peers advertised =
     p2p_new ((p2p_config_default random_id)\<lparr>pc_bootstrap_peers := bootstrap_peers,
       pc_advertised_listen_addr := advertised, pc_discovery := \<not> wasm\<rparr>)"

fun lp_addresses ::
  "('s, 'c) data_env \<Rightarrow> (data_error \<Rightarrow> string) \<Rightarrow> ('s, 'c) chain_data_sink \<Rightarrow> channel_id list
     \<Rightarrow> (channel_id, string) hashmap \<Rightarrow> ((channel_id, string) hashmap, stroemnet_error) result" where
  "lp_addresses E show_err sk [] addresses = Inr addresses"
| "lp_addresses E show_err sk (ch # rest) addresses =
     r_bind (map_err (\<lambda>e. OtherErr (''lp address for '' @ channel_to_string ch @ '': '' @ show_err e)) (sink_lp_address E sk ch))
       (\<lambda>address. lp_addresses E show_err sk rest (hm_insert ch address addresses))"

definition build_handler_and_sink ::
  "('s, 'c) data_env \<Rightarrow> json sink_dial \<Rightarrow> (data_error \<Rightarrow> string) \<Rightarrow> handler_config \<Rightarrow> (channel_id, channel_spec) hashmap
     \<Rightarrow> 'c option \<Rightarrow> 's option \<Rightarrow> (handler \<times> ('s, 'c) chain_data_sink \<times> 'c intake list, stroemnet_error) result" where
  "build_handler_and_sink E M show_err handler_config channels cursor_store swap_db =
     (let specs = hm_iter channels;
          price_storage = ps_new (map fst specs);
          keyed_channels = map fst (filter (\<lambda>e. cs_lp_private_key (snd e) \<noteq> None) specs);
          confirmations = fold (\<lambda>(ch, spec). hm_insert ch (minimum_block_confirmations spec)) specs hm_empty;
          sink_configs = fold (\<lambda>(ch, spec). hm_insert ch (cs_config spec, cs_lp_private_key spec)) specs hm_empty in
      r_bind (map_err (\<lambda>e. OtherErr (''chain data sink: '' @ show_err e)) (sink_new E M sink_configs cursor_store swap_db))
        (\<lambda>(sk, intakes).
      r_bind (lp_addresses E show_err sk keyed_channels hm_empty) (\<lambda>addresses.
      Inr (handler_new price_storage tracker_new handler_config addresses confirmations, sk, intakes))))"

text \<open>The tasks of a node, and what \<open>spawn_native_services\<close> starts.\<close>

datatype service =
    DispatchLoop
  | DriverLoop
  | DiscoveryDrainer
  | OracleLoop u64
  | CleanupLoop
  | AcceptLoop socket_addr
  | BootstrapRedial string
  | PeriodicState u64

definition spawn_native_services ::
  "role \<Rightarrow> (unit, string) result \<Rightarrow> u64 \<Rightarrow> socket_addr option \<Rightarrow> (service list, stroemnet_error) result" where
  "spawn_native_services role oracle_client oracle_interval_secs bind_addr =
     r_bind (if role = Lp then map_err OracleErr oracle_client else Inr ()) (\<lambda>_.
     Inr ([DiscoveryDrainer] @ (if role = Lp then [OracleLoop (oracle_pause oracle_interval_secs)] else []) @
       [CleanupLoop] @ (case bind_addr of None \<Rightarrow> [] | Some addr \<Rightarrow> [AcceptLoop addr])))"

text \<open>One round of the hourly clean-up.\<close>

definition cleanup_round :: "u64 \<Rightarrow> handler \<Rightarrow> handler" where
  "cleanup_round now_unix h = h\<lparr>h_swap_tracker := cleanup_old_swaps now_unix 86400 (h_swap_tracker h)\<rparr>"

text \<open>
  \<open>Node::start\<close>. \<open>random_id\<close> is the identity that is drawn, \<open>oracle_client\<close> what building the HTTP client of
  the oracle returns.
\<close>

definition node_start ::
  "('s, 'c) data_env \<Rightarrow> json sink_dial \<Rightarrow> (data_error \<Rightarrow> string) \<Rightarrow> bool \<Rightarrow> bytes \<Rightarrow> (unit, string) result \<Rightarrow> node_config
     \<Rightarrow> 'c option \<Rightarrow> 's option \<Rightarrow> (('s, 'c, 't) node \<times> service list \<times> 'c intake list, stroemnet_error) result" where
  "node_start E M show_err wasm random_id oracle_client cfg cursor_store swap_db =
     r_bind (build_handler_and_sink E M show_err (nc_handler cfg) (nc_channels cfg) cursor_store swap_db)
       (\<lambda>(handler, sk, intakes).
     r_bind (if wasm then Inr []
             else spawn_native_services (nc_role cfg) oracle_client (nc_price_oracle_update_interval_secs cfg) (nc_bind_addr cfg))
       (\<lambda>native.
     Inr (\<lparr>nd_handler = handler,
           nd_network = build_network wasm random_id (nc_bootstrap_peers cfg) (nc_advertised_listen_addr cfg),
           nd_sink = sk, nd_role = nc_role cfg, nd_wasm = wasm, nd_pending_claims = hm_empty, nd_sent = [], nd_txs = [],
           nd_dials = [], nd_statuses = [], nd_quotes = []\<rparr>,
          [DispatchLoop, DriverLoop] @ native @ map BootstrapRedial (nc_bootstrap_peers cfg) @ [PeriodicState 60],
          intakes)))"

section \<open>The daemon\<close>

definition saved_peers :: "'d redb_ops \<Rightarrow> 'u url_ops \<Rightarrow> 'd \<Rightarrow> (string list, stroemnet_error) result" where
  "saved_peers R U d = r_bind (map_err PeerDbErr (get_peers R U d)) (\<lambda>ps. Inr (map (\<lambda>p. url_as_str U (pr_url p)) ps))"

text \<open>
  \<open>daemon::main\<close> up to the start of the node: the database file named in the configuration is
  opened or created, its peers are added to the configuration, and the database is the store of cursors and
  swaps. \<open>disk\<close> is what the files hold.
\<close>

definition daemon_start ::
  "('d, 'd) data_env \<Rightarrow> json sink_dial \<Rightarrow> (data_error \<Rightarrow> string) \<Rightarrow> 'd redb_ops \<Rightarrow> 'u url_ops \<Rightarrow> bytes \<Rightarrow> (unit, string) result
     \<Rightarrow> (string \<Rightarrow> 'd option) \<Rightarrow> daemon_config
     \<Rightarrow> (('d, 'd, 't) node \<times> service list \<times> 'd intake list, stroemnet_error) result" where
  "daemon_start E M show_err R U random_id oracle_client disk dc =
     r_bind (map_err PeerDbErr (peer_db_new R disk (dc_peer_db dc))) (\<lambda>peer_db.
     r_bind (saved_peers R U peer_db) (\<lambda>peers.
     r_bind (into_node_config dc peers) (\<lambda>cfg.
     node_start (E\<lparr>de_swaps := db_swap_store R, de_cursors := db_cursor_store R\<rparr>) M show_err False random_id
       oracle_client cfg (Some peer_db) (Some peer_db))))"

text \<open>One round of the task that saves the connected peers.\<close>

definition persist_peer :: "'d redb_ops \<Rightarrow> 'u url_ops \<Rightarrow> string \<Rightarrow> 'd \<Rightarrow> 'd" where
  "persist_peer R U url_s d =
     (case url_parse U url_s of Inl e \<Rightarrow> d
      | Inr url \<Rightarrow>
          (case get_peer R U url d of
             Inr None \<Rightarrow> (case add_peer R U \<lparr>pr_url = url\<rparr> d of Inl e \<Rightarrow> d | Inr d' \<Rightarrow> d')
           | _ \<Rightarrow> d))"

definition persist_peers :: "'d redb_ops \<Rightarrow> 'u url_ops \<Rightarrow> 't p2p \<Rightarrow> 'd \<Rightarrow> 'd" where
  "persist_peers R U p d = fold (persist_peer R U) (List.map_filter cp_advertised_listen (nw_connected_peers p)) d"


section \<open>A liquidity provider starts complete\<close>

lemma json_get_insert:
  "json_get (json_insert_opt (JObject m) key v) k =
     (if k = key \<and> v \<noteq> None then v else json_get (JObject m) k)"
  by (cases v) (simp_all add: json_insert_opt_def json_get_def update_conv')

lemma json_insert_opt_object: "\<exists>m'. json_insert_opt (JObject m) key v = JObject m'"
  by (cases v) (simp_all add: json_insert_opt_def)

lemma base_config_object: "base_config cc ch name = Inr config \<Longrightarrow> \<exists>m. config = JObject m"
  by (auto simp: base_config_def Let_def result_simps json_insert_opt_object json_insert_opt_def split: chain_kind_tag.splits option.splits)

lemma into_spec_confirmed:
  assumes "into_spec cc ch name = Inr spec"
  shows "minimum_block_confirmations spec \<noteq> 0" "cs_lp_private_key spec = cc_private_key cc"
proof -
  obtain m n where base: "base_config cc ch name = Inr (JObject m)" and n: "cc_min_confirmations cc = Some n" "n \<noteq> 0"
    and spec: "spec = \<lparr>cs_config = json_insert_opt (json_insert_opt (JObject m) ''minimum_block_confirmations'' (Some (JNumber n)))
        ''gas_payment'' (map_option JString (cc_gas_payment cc)), cs_lp_private_key = cc_private_key cc\<rparr>"
    using assms base_config_object [of cc ch name]
    by (fastforce simp: into_spec_def Let_def result_simps split: if_splits option.splits)
  obtain m' where m': "json_insert_opt (JObject m) ''minimum_block_confirmations'' (Some (JNumber n)) = JObject m'"
    using json_insert_opt_object by blast
  have "json_get (cs_config spec) ''minimum_block_confirmations'' = Some (JNumber n)"
    using json_get_insert [of m "''minimum_block_confirmations''" "Some (JNumber n)" "''minimum_block_confirmations''"]
    by (simp add: spec m' json_get_insert)
  then show "minimum_block_confirmations spec \<noteq> 0"
    using n(2) by (simp add: minimum_block_confirmations_def as_u64_def)
  show "cs_lp_private_key spec = cc_private_key cc"
    by (simp add: spec)
qed

definition keyed_and_confirmed :: "(channel_id, channel_spec) hashmap \<Rightarrow> bool" where
  "keyed_and_confirmed channels =
     (\<forall>ch spec. hm_get channels ch = Some spec \<longrightarrow> cs_lp_private_key spec \<noteq> None \<and> minimum_block_confirmations spec \<noteq> 0)"

lemma convert_channels_lp:
  "convert_channels True entries channels = Inr out \<Longrightarrow> keyed_and_confirmed channels \<Longrightarrow> keyed_and_confirmed out"
proof (induction entries arbitrary: channels)
  case (Cons e entries)
  obtain name cc where e: "e = (name, cc)"
    by (cases e)
  then obtain ch spec where spec: "into_spec cc ch name = Inr spec" "cc_private_key cc \<noteq> None"
    and rest: "convert_channels True entries (hm_insert ch spec channels) = Inr out"
    using Cons.prems(1) by (auto simp: result_simps split: if_splits)
  have "keyed_and_confirmed (hm_insert ch spec channels)"
    using Cons.prems(2) into_spec_confirmed [OF spec(1)] spec(2) by (auto simp: keyed_and_confirmed_def)
  then show ?case
    by (rule Cons.IH [OF rest])
qed simp

lemma max_lock_time_ge: "hm_contains channels ch \<Longrightarrow> lock_time_secs ch \<le> max_lock_time channels"
proof -
  have start: "x \<le> fold (\<lambda>e. max (f (fst e))) es x"
    for es :: "(channel_id \<times> channel_spec) list" and f :: "channel_id \<Rightarrow> u64" and x
    by (induction es arbitrary: x) (auto intro: order_trans [OF max.cobounded2])
  have "e \<in> set es \<Longrightarrow> f (fst e) \<le> fold (\<lambda>e. max (f (fst e))) es x"
    for es :: "(channel_id \<times> channel_spec) list" and f :: "channel_id \<Rightarrow> u64" and e x
    by (induction es arbitrary: x) (auto intro: order_trans [OF max.cobounded1 start])
  moreover assume "hm_contains channels ch"
  then obtain spec where "(ch, spec) \<in> set (hm_iter channels)"
    by (auto simp: hm_contains_def hm.iter_get)
  ultimately show ?thesis
    unfolding max_lock_time_def by fastforce
qed

lemma lp_addresses_found:
  assumes "lp_addresses E show_err sk chs addresses = Inr out"
  shows "(\<forall>ch \<in> set chs. \<exists>a. sink_lp_address E sk ch = Inr a \<and> hm_get out ch = Some a) \<and>
    (\<forall>ch. ch \<notin> set chs \<longrightarrow> hm_get out ch = hm_get addresses ch)"
  using assms
proof (induction chs arbitrary: addresses)
  case (Cons ch chs)
  obtain a where a: "sink_lp_address E sk ch = Inr a" "lp_addresses E show_err sk chs (hm_insert ch a addresses) = Inr out"
    using Cons.prems by (auto simp: result_simps)
  show ?case
    using Cons.IH [OF a(2)] a(1) by (cases "ch \<in> set chs") auto
qed simp

lemma get_fold_iter:
  "hm_get (fold (\<lambda>(ch, spec). hm_insert ch (f spec)) (hm_iter m) hm_empty) k = map_option f (hm_get m k)"
proof -
  let ?es = "map (\<lambda>(k, v). (k, f v)) (hm_iter m)"
  have "fold (\<lambda>(ch, spec). hm_insert ch (f spec)) (hm_iter m) hm_empty = fold (\<lambda>(k, v). hm_insert k v) ?es hm_empty"
    by (simp add: fold_map o_def case_prod_beta')
  moreover have "map fst ?es = map fst (hm_iter m)"
    by (auto simp: case_prod_beta')
  then have "distinct (map fst ?es)"
    using hm.iter_distinct [of m] by (simp only:)
  moreover have "map_of (hm_iter m) k = hm_get m k"
    using hm.iter_get [of k _ m] hm.iter_distinct [of m] by (cases "hm_get m k") (auto simp: map_of_eq_None_iff hm.iter_keys)
  ultimately show ?thesis
    by (cases "hm_get m k") (simp_all add: hm.get_fold_insert_distinct map_of_map)
qed

text \<open>What \<open>build_handler_and_sink\<close> delivers: the handler and the sink serve the configured channels.\<close>

lemma build_handler_and_sink_facts:
  assumes "build_handler_and_sink E M show_err hc channels cursors db = Inr (h, sk, intakes)"
  shows "sink_typed sk" "h_config h = hc" "sink_knows_channel sk ch \<longleftrightarrow> hm_contains channels ch"
    "hm_get (h_block_confirmations h) ch = map_option minimum_block_confirmations (hm_get channels ch)"
    "hm_contains (ps_channels (h_price_storage h)) ch \<longleftrightarrow> hm_contains channels ch"
    "hm_get channels ch = Some spec \<Longrightarrow> cs_lp_private_key spec \<noteq> None \<Longrightarrow>
       \<exists>a. sink_lp_address E sk ch = Inr a \<and> hm_get (h_address_lookup_table h) ch = Some a"
proof -
  let ?sinks = "fold (\<lambda>(ch, spec). hm_insert ch (cs_config spec, cs_lp_private_key spec)) (hm_iter channels) hm_empty"
  let ?keyed = "map fst (filter (\<lambda>e. cs_lp_private_key (snd e) \<noteq> None) (hm_iter channels))"
  obtain addresses where new: "sink_new E M ?sinks cursors db = Inr (sk, intakes)"
    and addr: "lp_addresses E show_err sk ?keyed hm_empty = Inr addresses"
    and h: "h = handler_new (ps_new (map fst (hm_iter channels))) tracker_new hc addresses
      (fold (\<lambda>(ch, spec). hm_insert ch (minimum_block_confirmations spec)) (hm_iter channels) hm_empty)"
    using assms by (auto simp: build_handler_and_sink_def Let_def result_simps)
  show "sink_typed sk" "sink_knows_channel sk ch \<longleftrightarrow> hm_contains channels ch"
    using sink_new_typed [OF new] get_fold_iter [of "\<lambda>spec. (cs_config spec, cs_lp_private_key spec)" channels ch]
    by (auto simp: hm_contains_def)
  show "h_config h = hc" "hm_get (h_block_confirmations h) ch = map_option minimum_block_confirmations (hm_get channels ch)"
    by (simp_all add: h handler_new_def get_fold_iter)
  have "hm_contains (fold (\<lambda>ch. hm_insert ch ()) chs m) ch \<longleftrightarrow> ch \<in> set chs \<or> hm_contains m ch" for chs m
    by (induction chs arbitrary: m) auto
  then show "hm_contains (ps_channels (h_price_storage h)) ch \<longleftrightarrow> hm_contains channels ch"
    using hm.iter_keys [of ch channels] by (simp add: h handler_new_def ps_new_def ps_with_max_age_def hm_contains_def)
  assume "hm_get channels ch = Some spec" "cs_lp_private_key spec \<noteq> None"
  then have "ch \<in> set ?keyed"
    using hm.iter_get [of ch spec channels] by (force intro: rev_image_eqI [of "(ch, spec)"])
  then show "\<exists>a. sink_lp_address E sk ch = Inr a \<and> hm_get (h_address_lookup_table h) ch = Some a"
    using conjunct1 [OF lp_addresses_found [OF addr]] by (auto simp only: h handler_new_def handler.simps)
qed

text \<open>
  (C39) An accepted configuration of a liquidity provider makes a complete node: handler, sink and price
  storage serve the same channels, and every one of them has a buffer of its kind, an address of the
  provider that the sink derives, a non-zero number of confirmations, and a lock time within the commit
  buffer; and the oracle runs.
\<close>

theorem lp_node_starts_complete:
  assumes "into_node_config dc peers = Inr cfg" "dc_lp dc"
    and "node_start E M show_err False random_id oracle_client cfg cursors db = Inr (nd, services, intakes)"
  shows "nd_role nd = Lp \<and> sink_typed (nd_sink nd) \<and> (\<exists>secs \<ge> 1. OracleLoop secs \<in> set services) \<and>
    (\<forall>ch. (knows_channel (nd_handler nd) ch \<longleftrightarrow> sink_knows_channel (nd_sink nd) ch) \<and>
          (knows_channel (nd_handler nd) ch \<longleftrightarrow> ch \<in> set (ps_channels_list (h_price_storage (nd_handler nd)))) \<and>
          (knows_channel (nd_handler nd) ch \<longrightarrow>
             (\<exists>a n. sink_lp_address E (nd_sink nd) ch = Inr a \<and>
                hm_get (h_address_lookup_table (nd_handler nd)) ch = Some a \<and>
                hm_get (h_block_confirmations (nd_handler nd)) ch = Some n \<and> n \<noteq> 0) \<and>
             lock_time_secs ch \<le> hc_commit_buffer_secs (h_config (nd_handler nd))))"
proof -
  obtain channels where conv: "convert_channels True (hm_iter (dc_channels dc)) hm_empty = Inr channels"
    and buffer: "max_lock_time channels \<le> hc_commit_buffer_secs (nc_handler cfg)"
    and cfg: "nc_channels cfg = channels" "nc_role cfg = Lp"
    using assms(1,2) by (auto simp: into_node_config_def result_simps split: if_splits)
  have keyed: "keyed_and_confirmed channels"
    using convert_channels_lp [OF conv] by (simp add: keyed_and_confirmed_def)
  obtain h sk native where built: "build_handler_and_sink E M show_err (nc_handler cfg) channels cursors db = Inr (h, sk, intakes)"
    and native: "spawn_native_services Lp oracle_client (nc_price_oracle_update_interval_secs cfg) (nc_bind_addr cfg) = Inr native"
    and nd: "nd_handler nd = h" "nd_sink nd = sk" "nd_role nd = Lp" "set native \<subseteq> set services"
    using assms(3) by (fastforce simp: node_start_def cfg result_simps)
  note facts = build_handler_and_sink_facts [OF built]
  have "OracleLoop (oracle_pause (nc_price_oracle_update_interval_secs cfg)) \<in> set services"
    using native nd(4) by (auto simp: spawn_native_services_def result_simps)
  moreover have "1 \<le> oracle_pause secs" for secs
    by (simp add: oracle_pause_def)
  moreover have "knows_channel h ch \<longleftrightarrow> hm_contains channels ch" for ch
    by (simp add: knows_channel_def hm_contains_def facts(4))
  moreover have "ch \<in> set (ps_channels_list (h_price_storage h)) \<longleftrightarrow> hm_contains channels ch" for ch
    using facts(5) [of ch] by (simp add: ps_channels_list_def hm.iter_keys hm_contains_def)
  moreover have "\<exists>a n. sink_lp_address E sk ch = Inr a \<and> hm_get (h_address_lookup_table h) ch = Some a \<and>
      hm_get (h_block_confirmations h) ch = Some n \<and> n \<noteq> 0" if "hm_contains channels ch" for ch
    using that keyed facts(4) [of ch] facts(6) [of ch] by (auto simp: hm_contains_def keyed_and_confirmed_def)
  moreover have "lock_time_secs ch \<le> hc_commit_buffer_secs (nc_handler cfg)" if "hm_contains channels ch" for ch
    using max_lock_time_ge [OF that] buffer by (rule order_trans)
  ultimately show ?thesis
    using facts(1,2,3) by (auto simp: nd)
qed

definition sample_lp_config :: daemon_config where
  "sample_lp_config = \<lparr>dc_bind_addr = ((0, 0, 0, 0), 9000), dc_external_hostname = ''ws://lp.example/'',
     dc_min_trade_usd = Some (Fin 1), dc_max_trade_usd = Some (Fin 100), dc_spread_percent = Some (Fin 1),
     dc_price_oracle_update_interval_secs = 30, dc_commit_buffer_secs = default_commit_buffer_secs,
     dc_bootstrap_peers = [], dc_lp = True, dc_peer_db = default_peer_db,
     dc_channels = hm_insert ''ethereum-sepolia'' \<lparr>cc_private_key = Some ''key'', cc_participate_ccr = True,
       cc_min_confirmations = Some 12, cc_rpc_url = Some ''http://rpc'', cc_htlc_address = Some ''htlc'', cc_gas_payment = None,
       cc_network_id = None, cc_coinbase_maturity = None, cc_script_ttl_secs = None\<rparr> hm_empty\<rparr>"

definition sample_json_dial :: "json sink_dial" where
  "sample_json_dial = \<lparr>sd_evm_config = (\<lambda>_. Inr sample_evm_config), sd_kaspa_config = (\<lambda>_. Inr sample_kaspa_config),
     sd_kaspa_dial = (\<lambda>_. sample_dial), sd_evm_boot = (\<lambda>_ _. sample_net),
     sd_kaspa_boot = (\<lambda>_ _. (sample_kaspa_net, False))\<rparr>"

lemma sample_config_accepted: "\<exists>cfg. into_node_config sample_lp_config [] = Inr cfg \<and>
    hm_iter (nc_channels cfg) = [(EthereumSepolia, \<lparr>cs_config = JObject [(''rpc_url'', JString ''http://rpc''),
      (''htlc_address'', JString ''htlc''), (''participate_ccr'', JBool True), (''minimum_block_confirmations'', JNumber 12)],
      cs_lp_private_key = Some ''key''\<rparr>)] \<and> nc_role cfg = Lp"
  by (simp add: into_node_config_def sample_lp_config_def hm_iter_eval channel_id_from_name_def into_spec_def base_config_def
      chain_kind_def required_field_def json_insert_opt_def max_lock_time_def default_commit_buffer_secs_def trade_limits_def)

lemma sample_node_starts:
  assumes "hm_iter (nc_channels cfg) = [(EthereumSepolia, spec)]" "cs_lp_private_key spec = Some ''key''" "nc_role cfg = Lp"
  shows "\<exists>nd services intakes. node_start sample_data_env sample_json_dial (\<lambda>_. []) False [] (Inr ()) cfg None None =
    Inr (nd, services, intakes)"
proof -
  let ?connect = "evm_connect record_codec (db_swap_store mem_redb) mem_cursors sample_alloy sample_net (\<lambda>_. sample_net)
    (\<lambda>_. 1000) EthereumSepolia (Inr sample_evm_config) (Some ''key'') None None"
  obtain e where e: "?connect = Inr e" "ev_private_key e = Some ''key''"
    by (simp add: evm_connect_def parse_address_def build_providers_def sample_alloy_def sample_net_def retry_timed_first Let_def
        restore_def restored_default_def seed_queue_def reconcile_on_boot_def evm_settler_def rq_due_now_def hm_iter_eval)
  show ?thesis
    using assms e
    by (simp add: node_start_def build_handler_and_sink_def sink_new_def build_buffer_def hm_iter_eval sample_data_env_def
        sample_json_dial_def sink_lp_address_def sink_buffer_def buf_lp_address_def evm_lp_address_def address_from_private_key_def
        sample_alloy_def spawn_native_services_def case_prod_beta)
qed

theorem lp_node_starts_complete_witness:
  "\<exists>cfg nd services intakes. into_node_config sample_lp_config [] = Inr cfg \<and>
     node_start sample_data_env sample_json_dial (\<lambda>_. []) False [] (Inr ()) cfg None None =
       Inr (nd :: (mem_db, mem_db, unit) node, services, intakes) \<and>
     nd_role nd = Lp \<and> sink_typed (nd_sink nd) \<and> (\<exists>secs \<ge> 1. OracleLoop secs \<in> set services)"
proof -
  obtain cfg where cfg: "into_node_config sample_lp_config [] = Inr cfg"
    "\<exists>nd services intakes. node_start sample_data_env sample_json_dial (\<lambda>_. []) False [] (Inr ()) cfg None None =
       Inr (nd :: (mem_db, mem_db, unit) node, services, intakes)"
    using sample_config_accepted sample_node_starts by fastforce
  then obtain nd :: "(mem_db, mem_db, unit) node" and services intakes where
    "node_start sample_data_env sample_json_dial (\<lambda>_. []) False [] (Inr ()) cfg None None = Inr (nd, services, intakes)"
    by blast
  with lp_node_starts_complete [OF cfg(1) _ this] cfg(1) show ?thesis
    by (auto simp: sample_lp_config_def)
qed

section \<open>Peers survive a restart\<close>

text \<open>The rows of the peer table: every address is stored under itself.\<close>

definition peer_rows_ok :: "(string \<Rightarrow> bytes \<Rightarrow> bytes option) \<Rightarrow> bool" where
  "peer_rows_ok rows = (\<forall>k v. rows PEERS k = Some v \<longrightarrow> v = k)"

definition url_law :: "'u url_ops \<Rightarrow> bool" where
  "url_law U = (\<forall>u. url_parse U (url_as_str U u) = Inr u \<and> utf8_valid (bytes_of_chars (url_as_str U u)))"

definition peer_key :: "'u url_ops \<Rightarrow> 'u \<Rightarrow> bytes" where
  "peer_key U u = bytes_of_chars (url_as_str U u)"

lemma parse_peer_row_key: "url_law U \<Longrightarrow> parse_peer_row U k (peer_key U u) = Some \<lparr>pr_url = u\<rparr>"
  using from_utf8_of_chars [of "url_as_str U u"] by (simp add: parse_peer_row_def peer_key_def url_law_def del: from_utf8_of_chars)

context redb_reliable
begin

lemma persist_peer_rows:
  assumes "url_law U" "peer_rows_ok (tab d)"
  shows "peer_rows_ok (tab (persist_peer R U a d))"
    and "url_parse U a = Inr u \<Longrightarrow> tab (persist_peer R U a d) PEERS (peer_key U u) \<noteq> None"
    and "tab d PEERS k \<noteq> None \<Longrightarrow> tab (persist_peer R U a d) PEERS k \<noteq> None"
proof -
  have "peer_rows_ok (tab (persist_peer R U a d)) \<and>
    (url_parse U a = Inr u \<longrightarrow> tab (persist_peer R U a d) PEERS (peer_key U u) \<noteq> None) \<and>
    (tab d PEERS k \<noteq> None \<longrightarrow> tab (persist_peer R U a d) PEERS k \<noteq> None)"
  proof (cases "url_parse U a")
    case (Inr w)
    obtain row where got: "rd_get R PEERS (peer_key U w) d = Inr row"
      using get_ok [of PEERS "peer_key U w" d] by (auto simp: is_ok_iff)
    note row = got get [OF got]
    obtain d' where d': "rd_insert R PEERS (peer_key U w) (peer_key U w) d = Inr d'"
      using insert_ok [of PEERS "peer_key U w" "peer_key U w" d] by (auto simp: is_ok_iff)
    have found: "get_peer R U w d = Inr (if row = None then None else Some \<lparr>pr_url = w\<rparr>)"
      using row assms parse_peer_row_key [OF assms(1)]
      by (auto simp: get_peer_def Let_def peer_rows_ok_def simp flip: peer_key_def split: option.splits)
    have "persist_peer R U a d = (if row = None then d' else d)"
      using d' by (simp add: persist_peer_def Inr found add_peer_def Let_def flip: peer_key_def)
    then show ?thesis
      using insert [OF d'] row(2) assms(2) Inr by (auto simp: peer_rows_ok_def)
  qed (use assms(2) in \<open>simp add: persist_peer_def\<close>)
  then show "peer_rows_ok (tab (persist_peer R U a d))"
    and "url_parse U a = Inr u \<Longrightarrow> tab (persist_peer R U a d) PEERS (peer_key U u) \<noteq> None"
    and "tab d PEERS k \<noteq> None \<Longrightarrow> tab (persist_peer R U a d) PEERS k \<noteq> None"
    by auto
qed

lemma persist_all_rows:
  assumes "url_law U" "peer_rows_ok (tab d)"
  shows "peer_rows_ok (tab (fold (persist_peer R U) as d)) \<and>
    (\<forall>a \<in> set as. \<forall>u. url_parse U a = Inr u \<longrightarrow> tab (fold (persist_peer R U) as d) PEERS (peer_key U u) \<noteq> None) \<and>
    (\<forall>k. tab d PEERS k \<noteq> None \<longrightarrow> tab (fold (persist_peer R U) as d) PEERS k \<noteq> None)"
  using assms(2)
proof (induction as arbitrary: d)
  case (Cons a as)
  note step = persist_peer_rows [OF assms(1) Cons.prems, where a = a]
  show ?case
    using Cons.IH [OF step(1)] step(2,3) by auto
qed simp

lemma saved_peers_rows:
  assumes "url_law U" "peer_rows_ok (tab d)" "tab d PEERS (peer_key U u) \<noteq> None"
  shows "\<exists>peers. saved_peers R U d = Inr peers \<and> url_as_str U u \<in> set peers"
proof -
  obtain rows where rows: "rd_iter R PEERS d = Inr rows"
    using iter_ok [of PEERS d] by (auto simp: is_ok_iff)
  have "(peer_key U u, peer_key U u) \<in> set rows"
    using iter [OF rows] assms(2,3) by (auto simp: peer_rows_ok_def)
  then have "\<lparr>pr_url = u\<rparr> \<in> set (List.map_filter (\<lambda>(k, v). parse_peer_row U k v) rows)"
    using parse_peer_row_key [OF assms(1)] by (force simp: set_map_filter_iff)
  then show ?thesis
    by (force simp: saved_peers_def get_peers_def rows)
qed

end

text \<open>What happens to the database file of a daemon: saving single peers, calls of the stores, restarts.\<close>

inductive db_step :: "'d redb_ops \<Rightarrow> 'u url_ops \<Rightarrow> 'd \<Rightarrow> 'd \<Rightarrow> bool" for R U where
  db_peer: "db_step R U d (persist_peer R U url_s d)"
| db_swaps: "db_step R U d (run_store_call R call d)"
| db_cursor: "db_step R U d (cursor_save R ch cursor d)"
| db_reopen: "disk path = Some d \<Longrightarrow> peer_db_new R disk path = Inr d' \<Longrightarrow> db_step R U d d'"

definition peers_kept :: "('d \<Rightarrow> string \<Rightarrow> bytes \<Rightarrow> bytes option) \<Rightarrow> 'd \<Rightarrow> 'd \<Rightarrow> bool" where
  "peers_kept tab d d' \<longleftrightarrow> (\<forall>k. tab d PEERS k \<noteq> None \<longrightarrow> tab d' PEERS k \<noteq> None)"

context redb_reliable
begin

lemma other_tables: "rd_insert R t k v d = Inr d' \<or> rd_remove R t k d = Inr d' \<Longrightarrow> t \<noteq> PEERS \<Longrightarrow> tab d' PEERS = tab d PEERS"
  using insert [of t k v d d' PEERS] remove [of t k d d' PEERS] by (auto simp: fun_eq_iff)

lemma store_call_peers: "tab (run_store_call R call d) PEERS = tab d PEERS"
proof (cases call)
  case (SaveCall ch sid row)
  then show ?thesis
    by (auto simp: db_save_def set_swap_def SWAPS_def PEERS_def dest: other_tables [OF disjI1] split: sum.splits)
next
  case (DeleteCall ch sid)
  then show ?thesis
    by (auto simp: db_delete_def remove_swap_def SWAPS_def PEERS_def dest: other_tables [OF disjI2] split: sum.splits)
next
  case (QuarantineCall ch sid raw reason)
  then show ?thesis
    by (auto simp: db_quarantine_def quarantine_swap_def QUARANTINE_def PEERS_def dest: other_tables [OF disjI1] split: sum.splits)
qed

lemma cursor_save_peers: "tab (cursor_save R ch cursor d) PEERS = tab d PEERS"
  by (auto simp: cursor_save_def set_cursor_def CURSORS_def PEERS_def dest: other_tables [OF disjI1] split: sum.splits)

lemma db_step_peers:
  assumes "db_step R U d d'" "url_law U" "peer_rows_ok (tab d)"
  shows "peer_rows_ok (tab d') \<and> peers_kept tab d d'"
  using assms(1)
proof cases
  case (db_peer url_s)
  then show ?thesis
    using persist_peer_rows [OF assms(2,3), where a = url_s] by (simp add: peers_kept_def)
next
  case (db_reopen disk path)
  then show ?thesis
    using peer_db_new_rows(2) assms(3) by (metis peers_kept_def)
qed (use assms(3) in \<open>simp_all add: peer_rows_ok_def peers_kept_def store_call_peers cursor_save_peers\<close>)

lemma db_steps_peers:
  assumes "(db_step R U)\<^sup>*\<^sup>* d d'" "url_law U" "peer_rows_ok (tab d)"
  shows "peer_rows_ok (tab d') \<and> peers_kept tab d d'"
  using assms(1)
proof induction
  case (step d1 d2)
  then show ?case
    using db_step_peers [OF step.hyps(2) assms(2)] by (auto simp: peers_kept_def)
qed (use assms(3) in \<open>simp add: peers_kept_def\<close>)

lemma saved_after_restart:
  assumes "url_law U" "disk0 path0 = None" "peer_db_new R disk0 path0 = Inr d0" "(db_step R U)\<^sup>*\<^sup>* d0 d"
    and "a \<in> set (List.map_filter cp_advertised_listen (nw_connected_peers p))" "url_parse U a = Inr u"
    and "(db_step R U)\<^sup>*\<^sup>* (persist_peers R U p d) d'"
  shows "peer_rows_ok (tab d') \<and> tab d' PEERS (peer_key U u) \<noteq> None"
proof -
  have "peer_rows_ok (tab d0)"
    using peer_db_new_rows(1) [OF assms(3,2)] by (simp add: peer_rows_ok_def)
  then have d: "peer_rows_ok (tab d)"
    using db_steps_peers [OF assms(4,1)] by blast
  have "peer_rows_ok (tab (persist_peers R U p d))" "tab (persist_peers R U p d) PEERS (peer_key U u) \<noteq> None"
    using persist_all_rows [OF assms(1) d] assms(5,6) unfolding persist_peers_def by blast+
  then show ?thesis
    using db_steps_peers [OF assms(7,1)] by (auto simp: peers_kept_def)
qed

end

lemma add_saved_peers_set: "set (add_saved_peers ps qs) = set ps \<union> set qs"
  by (induction ps arbitrary: qs) (auto simp: add_saved_peers_def)

text \<open>
  (C40) A peer that is connected when the peers are saved is dialled again after every later restart. Over a
  database that does not fail, and if the url crate parses what it prints: take a database file created by
  \<open>PeerDb::new\<close> where there was none, any history of it (saving of peers, calls of the swap and
  cursor stores, restarts), a round that saves the connected peers, and any further history. A daemon that
  then starts, opening that file through \<open>PeerDb::new\<close>, with whatever configuration names it,
  loads the address the peer advertised, in the form the url crate prints, and redials it.
\<close>

theorem peers_survive_restart:
  assumes "redb_reliable R tab" "url_law U"
    and "disk0 path0 = None" "peer_db_new R disk0 path0 = Inr d0" "(db_step R U)\<^sup>*\<^sup>* d0 d"
    and "c \<in> set (nw_connected_peers p)" "cp_advertised_listen c = Some a" "url_parse U a = Inr u"
    and "(db_step R U)\<^sup>*\<^sup>* (persist_peers R U p d) d'" "disk (dc_peer_db dc) = Some d'"
    and "daemon_start E M show_err R U random_id client disk dc = Inr (nd, services, intakes)"
  shows "BootstrapRedial (url_as_str U u) \<in> set services"
proof -
  have redb: "redb R tab"
    using assms(1) by (simp add: redb_reliable_def)
  have "a \<in> set (List.map_filter cp_advertised_listen (nw_connected_peers p))"
    using assms(6,7) by (auto simp: set_map_filter_iff)
  then have rows: "peer_rows_ok (tab d')" "tab d' PEERS (peer_key U u) \<noteq> None"
    using redb_reliable.saved_after_restart [OF assms(1,2,3,4,5) _ assms(8,9)] by blast+
  obtain peer_db peers cfg where opened: "peer_db_new R disk (dc_peer_db dc) = Inr peer_db"
    and peers: "saved_peers R U peer_db = Inr peers" and cfg: "into_node_config dc peers = Inr cfg"
    and services: "BootstrapRedial ` set (nc_bootstrap_peers cfg) \<subseteq> set services"
    using assms(11) by (fastforce simp: daemon_start_def node_start_def result_simps)
  have "tab peer_db = tab d'"
    using redb.peer_db_new_rows(2) [OF redb opened assms(10)] .
  then have "url_as_str U u \<in> set peers"
    using redb_reliable.saved_peers_rows [OF assms(1,2), of peer_db u] rows peers by auto
  then show ?thesis
    using cfg services by (auto simp: into_node_config_def result_simps add_saved_peers_set split: if_splits)
qed

definition sample_urls :: "unit url_ops" where
  "sample_urls = \<lparr>url_parse = (\<lambda>s. if s = ''ws://a'' then Inr () else Inl ''relative URL''), url_as_str = (\<lambda>_. ''ws://a'')\<rparr>"

definition peered_network :: "unit p2p" where
  "peered_network = (p2p_new (p2p_config_default (replicate 32 1)))
     \<lparr>nw_connected_peers := [(connected_peer_new ''ws://10.0.0.1'' ())\<lparr>cp_advertised_listen := Some ''ws://a''\<rparr>]\<rparr>"

definition sample_peer_db :: mem_db where
  "sample_peer_db = persist_peers mem_redb sample_urls peered_network hm_empty"

lemma sample_peer_db_eq:
  "sample_peer_db = hm_insert (PEERS, bytes_of_chars ''ws://a'') (bytes_of_chars ''ws://a'') hm_empty"
  by (simp add: sample_peer_db_def persist_peers_def peered_network_def List.map_filter_simps persist_peer_def sample_urls_def
      get_peer_def add_peer_def mem_redb_def Let_def)

lemma sample_peer_db_rows:
  "db_load_channel mem_redb EthereumSepolia sample_peer_db = []"
  "cursor_load mem_redb EthereumSepolia sample_peer_db = None"
  by (simp_all add: sample_peer_db_eq db_load_channel_def get_swaps_for_channel_def mem_redb_def mem_rows_def hm_iter_eval
      PEERS_def SWAPS_def CURSORS_def List.map_filter_simps cursor_load_def get_cursor_def)

lemma sample_saved_peers: "\<exists>peers. saved_peers mem_redb sample_urls sample_peer_db = Inr peers"
  by (simp add: saved_peers_def get_peers_def mem_redb_def)

lemma sample_lp_config_any_peers:
  "\<exists>cfg. into_node_config sample_lp_config peers = Inr cfg \<and>
    hm_iter (nc_channels cfg) = [(EthereumSepolia, \<lparr>cs_config = JObject [(''rpc_url'', JString ''http://rpc''),
      (''htlc_address'', JString ''htlc''), (''participate_ccr'', JBool True), (''minimum_block_confirmations'', JNumber 12)],
      cs_lp_private_key = Some ''key''\<rparr>)] \<and> nc_role cfg = Lp"
  by (simp add: into_node_config_def sample_lp_config_def hm_iter_eval channel_id_from_name_def into_spec_def base_config_def
      chain_kind_def required_field_def json_insert_opt_def max_lock_time_def default_commit_buffer_secs_def trade_limits_def)

lemma sample_daemon_starts:
  "\<exists>(nd :: (mem_db, mem_db, unit) node) services intakes.
     daemon_start sample_data_env sample_json_dial (\<lambda>_. []) mem_redb sample_urls [] (Inr ())
       [dc_peer_db sample_lp_config \<mapsto> sample_peer_db] sample_lp_config = Inr (nd, services, intakes)"
proof -
  obtain peers where peers: "saved_peers mem_redb sample_urls sample_peer_db = Inr peers"
    using sample_saved_peers by blast
  obtain cfg where cfg: "into_node_config sample_lp_config peers = Inr cfg" "nc_role cfg = Lp"
      "hm_iter (nc_channels cfg) = [(EthereumSepolia, \<lparr>cs_config = JObject [(''rpc_url'', JString ''http://rpc''),
      (''htlc_address'', JString ''htlc''), (''participate_ccr'', JBool True), (''minimum_block_confirmations'', JNumber 12)],
      cs_lp_private_key = Some ''key''\<rparr>)]"
    using sample_lp_config_any_peers by blast
  have env: "sample_data_env\<lparr>de_swaps := db_swap_store mem_redb, de_cursors := db_cursor_store mem_redb\<rparr> = sample_data_env"
    by (simp add: sample_data_env_def mem_cursors_eq)
  let ?connect = "evm_connect record_codec (db_swap_store mem_redb) mem_cursors sample_alloy sample_net (\<lambda>_. sample_net)
    (\<lambda>_. 1000) EthereumSepolia (Inr sample_evm_config) (Some ''key'') (Some sample_peer_db) (Some sample_peer_db)"
  obtain e where e: "?connect = Inr e" "ev_private_key e = Some ''key''"
    by (simp add: evm_connect_def parse_address_def build_providers_def sample_alloy_def sample_net_def retry_timed_first Let_def
        restore_def restored_default_def seed_queue_def reconcile_on_boot_def evm_settler_def rq_due_now_def hm_iter_eval
        db_swap_store_def sample_peer_db_rows)
  have "\<exists>(nd :: (mem_db, mem_db, unit) node) services intakes. node_start sample_data_env sample_json_dial (\<lambda>_. []) False []
      (Inr ()) cfg (Some sample_peer_db) (Some sample_peer_db) = Inr (nd, services, intakes)"
    using cfg e
    by (simp add: node_start_def build_handler_and_sink_def sink_new_def build_buffer_def hm_iter_eval sample_data_env_def
        sample_json_dial_def sink_lp_address_def sink_buffer_def buf_lp_address_def evm_lp_address_def address_from_private_key_def
        sample_alloy_def spawn_native_services_def case_prod_beta)
  then show ?thesis
    by (simp add: daemon_start_def mem_peer_db_new peers cfg(1) env)
qed

theorem peers_survive_restart_witness:
  "\<exists>(nd :: (mem_db, mem_db, unit) node) services intakes.
     daemon_start sample_data_env sample_json_dial (\<lambda>_. []) mem_redb sample_urls [] (Inr ())
       [dc_peer_db sample_lp_config \<mapsto> sample_peer_db] sample_lp_config = Inr (nd, services, intakes) \<and>
     BootstrapRedial ''ws://a'' \<in> set services"
proof -
  let ?disk = "[dc_peer_db sample_lp_config \<mapsto> sample_peer_db]"
  have "bytes_of_chars ''ws://a'' = [119, 115, 58, 47, 47, 97]"
    by (simp add: bytes_of_chars_def)
  then have law: "url_law sample_urls"
    by (simp add: url_law_def sample_urls_def utf8_chunk_def utf8_width_def)
  obtain nd :: "(mem_db, mem_db, unit) node" and services intakes where
      start: "daemon_start sample_data_env sample_json_dial (\<lambda>_. []) mem_redb sample_urls [] (Inr ()) ?disk sample_lp_config =
        Inr (nd, services, intakes)"
    using sample_daemon_starts by blast
  have "BootstrapRedial (url_as_str sample_urls ()) \<in> set services"
    using law start by (intro peers_survive_restart [OF mem.redb_reliable_axioms, where ?disk0.0 = Map.empty and d = hm_empty
          and ?d0.0 = hm_empty and p = peered_network and a = "''ws://a''" and disk = ?disk and d' = sample_peer_db
          and c = "(connected_peer_new ''ws://10.0.0.1'' ())\<lparr>cp_advertised_listen := Some ''ws://a''\<rparr>"])
      (auto simp: peered_network_def sample_urls_def sample_peer_db_def mem_peer_db_new)
  then show ?thesis
    using start by (auto simp: sample_urls_def)
qed

end
