(* ===== verification/Node_Run.thy ===== *)
theory Node_Run
  imports Node_Safety Node_Config
begin

text \<open>
  The whole life of a node. Every entry point of the node is a step: the messages of the network, the polls of
  the driver and the events they deliver, the announcements, the calls of a taker, and the tasks that run
  beside them (settlers and intakes, connections, the periodic state, the price oracle, the clean-up).
  The steps interleave freely; between a poll and its last event other tasks run. A run keeps its labels,
  the latest first, so that what a node has sent and what it tracks can be traced back to what it was
  told and what its chains have shown.
\<close>

section \<open>Steps and runs\<close>

datatype node_label =
    Got string p2p_msg
  | Polled "(channel_id \<times> chain_event) list"
  | Applied channel_id chain_event
  | Registered commitment_v1 bytes string
  | Internal

text \<open>The environment changes from step to step, the hash function, the parsers and the codec do not.\<close>

definition env_ok :: "externs \<Rightarrow> p2p_msg borsh_codec \<Rightarrow> ('s, 'c, 't) node_env \<Rightarrow> bool" where
  "env_ok ext B V = (nv_ext V = ext \<and> pn_codec (nv_net V) = B \<and> pn_sha256 (nv_net V) = x_sha256 ext)"

text \<open>A state is the node with the events that the driver has polled and not yet applied.\<close>

inductive node_step ::
  "externs \<Rightarrow> p2p_msg borsh_codec \<Rightarrow> ('s, 'c, 't) node \<times> (channel_id \<times> chain_event) list \<Rightarrow> node_label
     \<Rightarrow> ('s, 'c, 't) node \<times> (channel_id \<times> chain_event) list \<Rightarrow> bool"
  for ext B where
  message: "env_ok ext B V \<Longrightarrow> handle_incoming V u m nd = (r, nd') \<Longrightarrow> node_step ext B (nd, q) (Got u m) (nd', q)"
| poll: "sink_finalized_chunk E (nd_sink nd) = (Inr events, sk) \<Longrightarrow>
    node_step ext B (nd, []) (Polled events) (nd\<lparr>nd_sink := sk\<rparr>, events)"
| event: "env_ok ext B V \<Longrightarrow>
    node_step ext B (nd, (source, ev) # q) (Applied source ev) (apply_event V source ev nd, q)"
| announce: "env_ok ext B V \<Longrightarrow> sink_take_announcements (nd_sink nd) = (as, sk) \<Longrightarrow>
    node_step ext B (nd, []) Internal (fold (announce_script V) as (nd\<lparr>nd_sink := sk\<rparr>), [])"
| quote: "env_ok ext B V \<Longrightarrow> request_quote V sid origin destination amount nd = (rq, nd') \<Longrightarrow>
    node_step ext B (nd, q) Internal (nd', q)"
| register: "env_ok ext B V \<Longrightarrow> register_commitment V c secret expected nd = (rc, nd') \<Longrightarrow>
    node_step ext B (nd, q) (Registered c secret expected) (nd', q)"
| state: "pn_codec N = B \<Longrightarrow> periodic_state_broadcast N (nd_network nd) = (p, out) \<Longrightarrow>
    node_step ext B (nd, q) Internal (nd\<lparr>nd_network := p, nd_sent := nd_sent nd @ out\<rparr>, q)"
| connection: "conn_step (\<lparr>cn_net = nd_network nd, cn_counter = k\<rparr>, ts) (s, ts') \<Longrightarrow>
    node_step ext B (nd, q) Internal (nd\<lparr>nd_network := cn_net s\<rparr>, q)"
| settler: "sink_step (nd_sink nd) sk \<Longrightarrow> node_step ext B (nd, q) Internal (nd\<lparr>nd_sink := sk\<rparr>, q)"
| feed: "node_step ext B (nd, q) Internal
    (nd\<lparr>nd_handler := (nd_handler nd)\<lparr>h_price_storage := oracle_round X clk (h_price_storage (nd_handler nd))\<rparr>\<rparr>, q)"
| cleanup: "node_step ext B (nd, q) Internal (nd\<lparr>nd_handler := cleanup_round now_unix (nd_handler nd)\<rparr>, q)"

inductive node_run ::
  "externs \<Rightarrow> p2p_msg borsh_codec \<Rightarrow> ('s, 'c, 't) node \<Rightarrow> node_label list
     \<Rightarrow> ('s, 'c, 't) node \<times> (channel_id \<times> chain_event) list \<Rightarrow> bool"
  for ext B nd0 where
  run_start: "node_run ext B nd0 [] (nd0, [])"
| run_step: "node_run ext B nd0 tr s \<Longrightarrow> node_step ext B s l s' \<Longrightarrow> node_run ext B nd0 (l # tr) s'"

text \<open>A round of the driver loop is a run of its parts.\<close>

lemma run_events:
  "env_ok ext B V \<Longrightarrow> node_run ext B nd0 tr (nd, events @ q) \<Longrightarrow>
     \<exists>tr'. node_run ext B nd0 tr' (fold (\<lambda>(source, ev). apply_event V source ev) events nd, q)"
proof (induction events arbitrary: nd tr)
  case (Cons x events)
  obtain source ev where x: "x = (source, ev)"
    by fastforce
  have "node_run ext B nd0 (Applied source ev # tr) (apply_event V source ev nd, events @ q)"
    using Cons.prems x by (auto intro: run_step event)
  from Cons.IH [OF Cons.prems(1) this] show ?case
    by (simp add: x)
qed auto

lemma driver_tick_run:
  assumes "env_ok ext B V" "node_run ext B nd0 tr (nd, [])" "driver_tick V nd = Inr nd'"
  shows "\<exists>tr'. node_run ext B nd0 tr' (nd', [])"
proof -
  obtain events sk where poll: "sink_finalized_chunk (nv_data V) (nd_sink nd) = (Inr events, sk)"
    using assms(3) by (auto simp: driver_tick_def split: prod.splits sum.splits)
  then have "node_run ext B nd0 (Polled events # tr) (nd\<lparr>nd_sink := sk\<rparr>, events @ [])"
    using assms(1,2) by (auto intro: run_step node_step.poll)
  from run_events [OF assms(1) this] obtain tr1 where
    tr1: "node_run ext B nd0 tr1 (fold (\<lambda>(source, ev). apply_event V source ev) events (nd\<lparr>nd_sink := sk\<rparr>), [])"
    by blast
  let ?nd = "fold (\<lambda>(source, ev). apply_event V source ev) events (nd\<lparr>nd_sink := sk\<rparr>)"
  obtain as sk' where as: "sink_take_announcements (nd_sink ?nd) = (as, sk')"
    by fastforce
  then have "nd' = fold (announce_script V) as (?nd\<lparr>nd_sink := sk'\<rparr>)"
    using assms(3) poll by (simp add: driver_tick_def Let_def)
  then show ?thesis
    using run_step [OF tr1 announce [OF assms(1) as]] by blast
qed

section \<open>What a step changes\<close>

text \<open>The handler changes only by its own operations; a commitment reaches it only with a chain event.\<close>

inductive handler_step :: "externs \<Rightarrow> node_label \<Rightarrow> handler \<Rightarrow> handler \<Rightarrow> bool" for ext l where
  commitment: "l = Applied source (Commitment c) \<Longrightarrow> handle_external_commitment now_unix h c = Inr h' \<Longrightarrow> handler_step ext l h h'"
| reveal: "handle_external_reveal ext h rv = Inr h' \<Longrightarrow> handler_step ext l h h'"
| refund: "handle_external_refund h rf = Inr h' \<Longrightarrow> handler_step ext l h h'"
| prices: "handler_step ext l h (h\<lparr>h_price_storage := ps\<rparr>)"
| clean: "handler_step ext l h (cleanup_round now_unix h)"
| same: "handler_step ext l h h"

text \<open>What a step appends to the messages sent: encodings of messages that satisfy \<open>P\<close>.\<close>

definition sends :: "p2p_msg borsh_codec \<Rightarrow> (p2p_msg \<Rightarrow> bool) \<Rightarrow> sent \<Rightarrow> sent \<Rightarrow> bool" where
  "sends B P old new = (\<exists>out. new = old @ out \<and> (\<forall>(u, bs) \<in> set out. \<exists>m. bo_to_vec B m = Inr bs \<and> P m))"

lemma sends_refl [simp]: "sends B P xs xs"
  by (simp add: sends_def)

lemma sends_trans: "sends B P xs ys \<Longrightarrow> sends B P ys zs \<Longrightarrow> sends B P xs zs"
  by (fastforce simp: sends_def)

lemma sends_mono: "sends B P xs ys \<Longrightarrow> (\<And>m. P m \<Longrightarrow> Q m) \<Longrightarrow> sends B Q xs ys"
  by (fastforce simp: sends_def)

lemma broadcast_sends:
  "broadcast N msg p = (r, p', out) \<Longrightarrow> pn_codec N = B \<Longrightarrow> sends B (\<lambda>m. m = msg) xs (xs @ out)"
  by (auto simp: broadcast_def sends_def p2p_encode_def send_bytes_to_all_def result_simps split: sum.splits prod.splits)

lemma forward_sends:
  "forward N u msg p = (r, p', out) \<Longrightarrow> pn_codec N = B \<Longrightarrow> sends B (\<lambda>m. m = msg) xs (xs @ out)"
  by (auto simp: forward_def sends_def p2p_encode_def send_bytes_to_all_def result_simps
      split: sum.splits prod.splits if_splits)

lemma send_to_sends:
  "send_to N u msg p = (r, out) \<Longrightarrow> pn_codec N = B \<Longrightarrow> sends B (\<lambda>m. m = msg) xs (xs @ out)"
  by (auto simp: send_to_def sends_def p2p_encode_def result_simps split: sum.splits option.splits)

text \<open>The output operations of the node touch the network and the log of messages only.\<close>

definition quiet :: "('s, 'c, 't) node \<Rightarrow> ('s, 'c, 't) node \<Rightarrow> bool" where
  "quiet nd nd' = (nd_handler nd' = nd_handler nd \<and> nd_sink nd' = nd_sink nd \<and> nd_pending_claims nd' = nd_pending_claims nd \<and>
     nd_wasm nd' = nd_wasm nd \<and> nd_role nd' = nd_role nd)"

lemma quiet_refl [simp]: "quiet nd nd"
  by (simp add: quiet_def)

lemma quiet_emit [simp]: "quiet nd (emit_status V sid s nd)" "nd_sent (emit_status V sid s nd) = nd_sent nd"
  by (simp_all add: quiet_def emit_status_def)

lemma co_broadcast_out:
  assumes "env_ok ext B V" "co_broadcast V msg nd = (r, nd')"
  shows "quiet nd nd'" "sends B (\<lambda>m. m = msg) (nd_sent nd) (nd_sent nd')"
  using assms
  by (auto simp: co_broadcast_def quiet_def env_ok_def split: prod.splits intro: broadcast_sends)

lemma co_forward_out:
  assumes "env_ok ext B V" "co_forward V u msg nd = (r, nd')"
  shows "quiet nd nd'" "sends B (\<lambda>m. m = msg) (nd_sent nd) (nd_sent nd')"
  using assms
  by (auto simp: co_forward_def quiet_def env_ok_def split: prod.splits intro: forward_sends)

lemma co_send_to_out:
  assumes "env_ok ext B V" "co_send_to V u msg nd = (r, nd')"
  shows "quiet nd nd'" "sends B (\<lambda>m. m = msg) (nd_sent nd) (nd_sent nd')"
  using assms
  by (auto simp: co_send_to_def quiet_def env_ok_def split: prod.splits intro: send_to_sends)

text \<open>A claim that a label registers, and the reveals that a step may send.\<close>

definition registers :: "externs \<Rightarrow> node_label \<Rightarrow> bytes \<Rightarrow> pending_claim \<Rightarrow> bool" where
  "registers ext l sid claim = (\<exists>c secret expected destination need. l = Registered c secret expected \<and> sid = cm_swap_id c \<and>
     x_sha256 ext secret = cm_secret_hash c \<and> cm_destination c = channel_as_u8 destination \<and>
     parse_uint 128 expected = Some need \<and> need \<noteq> 0 \<and>
     claim = \<lparr>pm_secret = secret, pm_expected_counter_chain = destination, pm_expected_secret_hash = cm_secret_hash c,
       pm_expected_destination_address = ad_sender_destination (cm_addresses c),
       pm_expected_amount_out = amount_new expected (decimals destination)\<rparr>)"

definition may_reveal :: "externs \<Rightarrow> node_label \<Rightarrow> (bytes, pending_claim) hashmap \<Rightarrow> p2p_msg \<Rightarrow> bool" where
  "may_reveal ext l claims m = (\<forall>rv. m = RevealMsg rv \<longrightarrow> (\<exists>u. l = Got u m) \<or>
     (\<exists>source c claim. l = Applied source (Commitment c) \<and> hm_get claims (cm_swap_id c) = Some claim \<and>
        pending_claim_matches ext claim c \<and> rv = reveal_new (cm_swap_id c) (pm_secret claim)))"

definition step_facts ::
  "externs \<Rightarrow> p2p_msg borsh_codec \<Rightarrow> node_label \<Rightarrow> ('s, 'c, 't) node \<Rightarrow> ('s, 'c, 't) node \<Rightarrow> bool" where
  "step_facts ext B l nd nd' = (handler_step ext l (nd_handler nd) (nd_handler nd') \<and> sink_step\<^sup>*\<^sup>* (nd_sink nd) (nd_sink nd') \<and>
     (\<forall>sid claim. hm_get (nd_pending_claims nd') sid = Some claim \<longrightarrow>
        hm_get (nd_pending_claims nd) sid = Some claim \<or> registers ext l sid claim) \<and>
     sends B (may_reveal ext l (nd_pending_claims nd)) (nd_sent nd) (nd_sent nd'))"

lemma may_reveal_other [simp]: "(\<And>rv. m \<noteq> RevealMsg rv) \<Longrightarrow> may_reveal ext l claims m"
  by (simp add: may_reveal_def)

lemma step_factsI:
  assumes "quiet nd nd'" "sends B (may_reveal ext l (nd_pending_claims nd)) (nd_sent nd) (nd_sent nd')"
  shows "step_facts ext B l nd nd'"
  using assms by (auto simp: step_facts_def quiet_def intro: same)

lemma co_broadcast_event_step:
  "sink_step (nd_sink nd) (nd_sink (co_broadcast_event V ch ev nd))"
  "nd_handler (co_broadcast_event V ch ev nd) = nd_handler nd"
proof -
  have "nd_sink (co_broadcast_event V ch ev nd) = snd (snd (sink_broadcast_event (nv_data V) ch ev (nd_sink nd)))"
    by (simp add: co_broadcast_event_def split: prod.split)
  then show "sink_step (nd_sink nd) (nd_sink (co_broadcast_event V ch ev nd))"
    by (simp add: sink_step.broadcast)
qed (simp add: co_broadcast_event_def split: prod.split)

lemma broadcast_all_facts:
  "sink_step\<^sup>*\<^sup>* (nd_sink nd) (nd_sink (fold (\<lambda>chan. co_broadcast_event V chan ev) chans nd))"
  "nd_handler (fold (\<lambda>chan. co_broadcast_event V chan ev) chans nd) = nd_handler nd"
  "nd_sent (fold (\<lambda>chan. co_broadcast_event V chan ev) chans nd) = nd_sent nd"
  "nd_pending_claims (fold (\<lambda>chan. co_broadcast_event V chan ev) chans nd) = nd_pending_claims nd"
  by (induction chans arbitrary: nd)
    (auto simp: co_broadcast_event_step(2) intro: converse_rtranclp_into_rtranclp co_broadcast_event_step(1))

subsection \<open>Messages\<close>

lemma handle_proposal_cases:
  assumes "handle_proposal V u req nd = (r, nd')"
  shows "nd' = nd \<or> (\<exists>msg r. (\<forall>rv. msg \<noteq> RevealMsg rv) \<and> co_send_to V u msg nd = (r, nd'))"
proof (cases "create_proposal (nv_ext V) (nv_now V) (nd_handler nd)
    \<lparr>rq_origin = pq_origin req, rq_destination = pq_destination req, rq_amount = pq_amount req\<rparr>")
  case (Inl e)
  with assms have "nd' = nd \<or> (\<exists>pe r. co_send_to V u (ProposalErrorMsg pe) nd = (r, nd'))"
    by (auto simp: handle_proposal_def split: option.splits)
  then show ?thesis
    by fastforce
next
  case (Inr p)
  with assms have "nd' = nd \<or> (\<exists>pp r. co_send_to V u (ProposalResponseMsg pp) nd = (r, nd'))"
    by (auto simp: handle_proposal_def Let_def case_prod_beta split: sum.splits)
  then show ?thesis
    by fastforce
qed

lemma handle_proposal_out:
  assumes "env_ok ext B V" "handle_proposal V u req nd = (r, nd')"
  shows "quiet nd nd' \<and> sends B (\<lambda>m. \<forall>rv. m \<noteq> RevealMsg rv) (nd_sent nd) (nd_sent nd')"
  using handle_proposal_cases [OF assms(2)]
proof (elim disjE exE conjE)
  fix msg r
  assume msg: "\<forall>rv. msg \<noteq> RevealMsg rv" and send: "co_send_to V u msg nd = (r, nd')"
  have "sends B (\<lambda>m. \<forall>rv. m \<noteq> RevealMsg rv) (nd_sent nd) (nd_sent nd')"
    by (rule sends_mono [OF co_send_to_out(2) [OF assms(1) send]]) (use msg in simp)
  with co_send_to_out(1) [OF assms(1) send] show ?thesis
    by simp
qed simp

lemma proposal_request_facts:
  assumes "env_ok ext B V" "on_proposal_request V u req nd = (r, nd')"
  shows "step_facts ext B l nd nd'"
proof -
  obtain f nd1 where fwd: "co_forward V u (ProposalRequestMsg req) nd = (f, nd1)"
    by fastforce
  note out1 = co_forward_out [OF assms(1) fwd]
  have s1: "sends B (\<lambda>m. \<forall>rv. m \<noteq> RevealMsg rv) (nd_sent nd) (nd_sent nd1)"
    using sends_mono [OF out1(2)] by fastforce
  have "nd' = nd \<or> nd' = nd1 \<or> (\<exists>r. handle_proposal V u req nd1 = (r, nd'))"
    using assms(2) fwd by (auto simp: on_proposal_request_def split: if_splits sum.splits bool.splits)
  then have "quiet nd nd' \<and> sends B (\<lambda>m. \<forall>rv. m \<noteq> RevealMsg rv) (nd_sent nd) (nd_sent nd')"
    using out1(1) s1 handle_proposal_out [OF assms(1), of u req nd1] by (auto simp: quiet_def intro: sends_trans)
  then show ?thesis
    by (auto intro!: step_factsI elim: sends_mono)
qed

lemma script_announce_facts:
  assumes "env_ok ext B V" "on_script_announce V u s nd = (r, nd')"
  shows "step_facts ext B l nd nd'"
proof -
  obtain f nd1 where fwd: "co_forward V u (ScriptAnnounceMsg s) nd = (f, nd1)"
    by fastforce
  note out1 = co_forward_out [OF assms(1) fwd]
  have s1: "sends B (may_reveal ext l (nd_pending_claims nd)) (nd_sent nd) (nd_sent nd1)"
    by (rule sends_mono [OF out1(2)]) simp
  consider "nd' = nd" | "nd' = nd1" | ch where "nd' = nd1\<lparr>nd_sink := snd (sink_register_script (nv_data V) ch (sc_address s)
      (sc_redeem_script s) (sc_swap_id s) (sc_unlock_ts s) (sc_deposit_target s) (nd_sink nd1))\<rparr>"
    using assms(2) fwd
    by (auto simp: on_script_announce_def case_prod_beta split: if_splits sum.splits bool.splits option.splits)
  then show ?thesis
  proof cases
    case 3
    then show ?thesis
      using out1(1) s1 by (auto simp: step_facts_def quiet_def intro: same sink_step.register)
  qed (use out1(1) s1 in \<open>auto intro: step_factsI\<close>)
qed

lemma reveal_facts:
  assumes "env_ok ext B V" "co_on_reveal V u rv nd = (r, nd')"
  shows "step_facts ext B (Got u (RevealMsg rv)) nd nd'"
proof -
  let ?l = "Got u (RevealMsg rv)"
  obtain f nd1 where fwd: "co_forward V u (RevealMsg rv) nd = (f, nd1)"
    by fastforce
  note out1 = co_forward_out [OF assms(1) fwd]
  have s1: "sends B (may_reveal ext ?l (nd_pending_claims nd)) (nd_sent nd) (nd_sent nd1)"
    by (rule sends_mono [OF out1(2)]) (simp add: may_reveal_def)
  define nd2 where "nd2 = (case handle_external_reveal (nv_ext V) (nd_handler nd1) rv of
    Inl e \<Rightarrow> nd1 | Inr h \<Rightarrow> nd1\<lparr>nd_handler := h\<rparr>)"
  have nd2: "handler_step ext ?l (nd_handler nd) (nd_handler nd2)" "nd_sink nd2 = nd_sink nd"
      "nd_pending_claims nd2 = nd_pending_claims nd" "nd_sent nd2 = nd_sent nd1"
    using out1(1) assms(1) by (auto simp: nd2_def quiet_def env_ok_def split: sum.splits intro: same handler_step.reveal)
  consider "nd' = nd1" | "nd' = fold (\<lambda>chan. co_broadcast_event V chan (Reveal rv)) (sink_channels (nd_sink nd2)) nd2"
    using assms(2) fwd by (auto simp: co_on_reveal_def nd2_def Let_def split: sum.splits bool.splits)
  then show ?thesis
  proof cases
    case 2
    then show ?thesis
      using broadcast_all_facts [where nd = nd2 and V = V and ev = "Reveal rv"] nd2 s1 by (simp add: step_facts_def)
  qed (use out1(1) s1 in \<open>auto intro: step_factsI\<close>)
qed

lemma message_facts:
  assumes "env_ok ext B V" "handle_incoming V u m nd = (r, nd')"
  shows "step_facts ext B (Got u m) nd nd'"
proof (cases m)
  case (StateMsg s)
  then show ?thesis
    using assms(2) by (auto simp: handle_incoming_def intro!: step_factsI split: if_splits) (simp_all add: quiet_def)
next
  case (ProposalResponseMsg p)
  then have "quiet nd nd'" "nd_sent nd' = nd_sent nd"
    using assms(2)
    by (auto simp: handle_incoming_def on_proposal_response_def quiet_def Let_def case_prod_beta split: if_splits option.splits)
  then show ?thesis
    by (auto intro: step_factsI)
next
  case (ProposalErrorMsg e)
  then show ?thesis
    using assms(2) by (auto simp: handle_incoming_def on_proposal_error_def intro!: step_factsI)
qed (use assms in \<open>auto simp: handle_incoming_def intro: proposal_request_facts script_announce_facts reveal_facts\<close>)

subsection \<open>Chain events\<close>

lemma on_chain_event_handler:
  assumes "on_chain_event ext now_unix h source ev clock = (h', r)"
  shows "handler_step ext (Applied source ev) h h'"
proof (cases ev)
  case (Commitment c)
  with assms show ?thesis
    by (cases "handle_external_commitment now_unix h c") (auto simp: on_commitment_def intro: same handler_step.commitment)
next
  case (Reveal rv)
  with assms show ?thesis
    by (cases "handle_external_reveal ext h rv") (auto simp: on_reveal_def intro: same handler_step.reveal)
next
  case (Refund rf)
  with assms show ?thesis
    by (cases "handle_external_refund h rf") (auto simp: on_refund_def intro: same handler_step.refund)
qed

lemma broadcast_effects_facts:
  assumes "list_all is_broadcast effs"
  shows "sink_step\<^sup>*\<^sup>* (nd_sink nd) (nd_sink (fold (apply_effect V) effs nd))"
    "nd_handler (fold (apply_effect V) effs nd) = nd_handler nd"
    "nd_pending_claims (fold (apply_effect V) effs nd) = nd_pending_claims nd"
  using assms
  by (induction effs arbitrary: nd)
    (auto simp: apply_effect_def is_broadcast_def co_broadcast_event_step(2) split: effect.splits
      intro: converse_rtranclp_into_rtranclp co_broadcast_event_step(1))

lemma spawn_reveal_out:
  assumes "env_ok ext B V"
  shows "quiet nd (spawn_reveal_broadcast V sid claim nd)"
    "sends B (\<lambda>m. m = RevealMsg (reveal_new sid (pm_secret claim))) (nd_sent nd) (nd_sent (spawn_reveal_broadcast V sid claim nd))"
proof -
  obtain r nd1 where co: "co_broadcast V (RevealMsg (reveal_new sid (pm_secret claim))) nd = (r, nd1)"
    by fastforce
  then show "quiet nd (spawn_reveal_broadcast V sid claim nd)"
    using co_broadcast_out(1) [OF assms co] by (simp add: spawn_reveal_broadcast_def quiet_def emit_status_def)
  show "sends B (\<lambda>m. m = RevealMsg (reveal_new sid (pm_secret claim))) (nd_sent nd) (nd_sent (spawn_reveal_broadcast V sid claim nd))"
    using co_broadcast_out(2) [OF assms co] co by (simp add: spawn_reveal_broadcast_def)
qed

lemma transmit_reveal_facts:
  assumes "env_ok ext B V"
  shows "step_facts ext B (Applied source (Commitment c)) nd (transmit_reveal V c nd)"
    "nd_handler (transmit_reveal V c nd) = nd_handler nd"
proof -
  let ?l = "Applied source (Commitment c)"
  show "step_facts ext B ?l nd (transmit_reveal V c nd)"
  proof (cases "\<exists>claim. hm_get (nd_pending_claims nd) (cm_swap_id c) = Some claim \<and> pending_claim_matches ext claim c")
    case True
    then obtain claim where claim: "hm_get (nd_pending_claims nd) (cm_swap_id c) = Some claim"
        "pending_claim_matches ext claim c"
      by blast
    let ?nd = "nd\<lparr>nd_pending_claims := hm_remove (cm_swap_id c) (nd_pending_claims nd)\<rparr>"
    have eq: "transmit_reveal V c nd = spawn_reveal_broadcast V (cm_swap_id c) claim ?nd"
      using claim assms by (simp add: transmit_reveal_def env_ok_def)
    have "sends B (may_reveal ext ?l (nd_pending_claims nd)) (nd_sent ?nd) (nd_sent (transmit_reveal V c nd))"
      unfolding eq by (rule sends_mono [OF spawn_reveal_out(2) [OF assms]]) (use claim in \<open>auto simp: may_reveal_def\<close>)
    then show ?thesis
      using spawn_reveal_out(1) [OF assms, of ?nd "cm_swap_id c" claim] unfolding eq
      by (auto simp: step_facts_def quiet_def intro: same split: if_splits)
  next
    case False
    then have "transmit_reveal V c nd = nd \<or> (\<exists>claim. hm_get (nd_pending_claims nd) (cm_swap_id c) = Some claim \<and>
        transmit_reveal V c nd = nd\<lparr>nd_pending_claims := hm_insert (cm_swap_id c) claim
          (hm_remove (cm_swap_id c) (nd_pending_claims nd))\<rparr>)"
      using assms by (auto simp: transmit_reveal_def env_ok_def split: option.splits)
    then show ?thesis
      by (auto simp: step_facts_def intro: same split: if_splits)
  qed
  show "nd_handler (transmit_reveal V c nd) = nd_handler nd"
    using spawn_reveal_out(1) [OF assms] by (auto simp: transmit_reveal_def quiet_def split: option.splits)
qed

lemma event_facts:
  assumes "env_ok ext B V"
  shows "step_facts ext B (Applied source ev) nd (apply_event V source ev nd)"
proof -
  obtain h r where on: "on_chain_event (nv_ext V) (nv_now V) (nd_handler nd) source ev
      (sink_chain_clock (nv_data V) (nd_sink nd)) = (h, r)"
    by fastforce
  let ?nd = "(after_deposit V source ev nd)\<lparr>nd_handler := h\<rparr>"
  have h: "handler_step ext (Applied source ev) (nd_handler nd) h"
    using on_chain_event_handler [OF on] assms by (simp add: env_ok_def)
  show ?thesis
  proof (cases r)
    case (Inl e)
    then show ?thesis
      using on h by (simp add: apply_event_unfold step_facts_def)
  next
    case (Inr effs)
    have out: "apply_event V source ev nd = fold (apply_effect V) effs ?nd"
      using on Inr by (simp add: apply_event_unfold)
    from on_chain_event_effects [OF on [unfolded Inr]] show ?thesis
    proof (elim disjE exE conjE)
      assume "list_all is_broadcast effs"
      then show ?thesis
        using h broadcast_effects_facts [where nd = ?nd and V = V and effs = effs] by (simp add: out step_facts_def broadcasts_send_nothing)
    next
      fix c rest
      assume c: "ev = Commitment c" "effs = TransmitReveal c # rest" "list_all is_broadcast rest"
      let ?nd1 = "if nd_wasm nd then transmit_reveal V c ?nd else ?nd"
      have "step_facts ext B (Applied source ev) ?nd ?nd1" "nd_handler ?nd1 = h"
        using transmit_reveal_facts(1) [OF assms, of source c ?nd] transmit_reveal_facts(2) [OF assms, of c ?nd] c(1) by (auto intro: step_factsI)
      then show ?thesis
        using h broadcast_effects_facts [OF c(3), where nd = ?nd1 and V = V] broadcasts_send_nothing [OF c(3), where nd = ?nd1 and V = V]
        by (auto simp: out c(2) apply_effect_def step_facts_def)
    qed
  qed
qed

lemma apply_event_handler:
  assumes "env_ok ext B V"
  shows "nd_handler (apply_event V source ev nd) =
    fst (on_chain_event (nv_ext V) (nv_now V) (nd_handler nd) source ev (sink_chain_clock (nv_data V) (nd_sink nd)))"
proof -
  obtain h r where on: "on_chain_event (nv_ext V) (nv_now V) (nd_handler nd) source ev
      (sink_chain_clock (nv_data V) (nd_sink nd)) = (h, r)"
    by fastforce
  have keep: "nd_handler (apply_effect V eff x) = nd_handler x" for eff x
    using co_broadcast_event_step(2) [of V] transmit_reveal_facts(2) [OF assms]
    by (simp add: apply_effect_def split: effect.split)
  have "nd_handler (fold (apply_effect V) effs x) = nd_handler x" for effs x
    by (induction effs arbitrary: x) (simp_all add: keep)
  then show ?thesis
    using on by (simp add: apply_event_unfold split: sum.split)
qed

subsection \<open>The calls of a taker and the tasks\<close>

lemma quiet_sends_facts:
  assumes "quiet nd nd'" "sends B (\<lambda>m. m = msg) (nd_sent nd) (nd_sent nd')" "\<And>rv. msg \<noteq> RevealMsg rv"
  shows "step_facts ext B l nd nd'"
  using assms(1) by (rule step_factsI) (rule sends_mono [OF assms(2)], use assms(3) in simp)

lemma quote_facts:
  assumes "env_ok ext B V" "request_quote V sid origin destination amount nd = (r, nd')"
  shows "step_facts ext B l nd nd'"
proof (cases "nd_role nd = Lp")
  case False
  let ?msg = "ProposalRequestMsg \<lparr>pq_swap_id = sid, pq_origin = channel_as_u8 origin,
    pq_destination = channel_as_u8 destination, pq_amount = amount, pq_extra_data = []\<rparr>"
  obtain rq where co: "co_broadcast V ?msg nd = (rq, nd')"
    using assms(2) False by (auto simp: request_quote_def split: prod.splits)
  show ?thesis
    by (rule quiet_sends_facts [OF co_broadcast_out [OF assms(1) co]]) simp
qed (use assms(2) in \<open>auto simp: request_quote_def intro: step_factsI\<close>)

lemma announce_script_out:
  assumes "env_ok ext B V"
  shows "quiet nd (announce_script V a nd) \<and>
    sends B (\<lambda>m. \<forall>rv. m \<noteq> RevealMsg rv) (nd_sent nd) (nd_sent (announce_script V a nd))"
proof -
  obtain r where "co_broadcast V (ScriptAnnounceMsg \<lparr>sc_address = sa_address a, sc_swap_id = sa_swap_id a,
      sc_redeem_script = us_redeem_script (sa_script a), sc_unlock_ts = us_unlock_ts (sa_script a),
      sc_deposit_target = us_deposit_target (sa_script a)\<rparr>) nd = (r, announce_script V a nd)"
    by (simp add: announce_script_def) (metis prod.collapse)
  note out = co_broadcast_out [OF assms this]
  have "sends B (\<lambda>m. \<forall>rv. m \<noteq> RevealMsg rv) (nd_sent nd) (nd_sent (announce_script V a nd))"
    by (rule sends_mono [OF out(2)]) simp
  with out(1) show ?thesis
    by simp
qed

lemma announce_facts:
  assumes "env_ok ext B V"
  shows "quiet nd (fold (announce_script V) as nd) \<and>
    sends B (\<lambda>m. \<forall>rv. m \<noteq> RevealMsg rv) (nd_sent nd) (nd_sent (fold (announce_script V) as nd))"
proof (induction as arbitrary: nd)
  case (Cons a as)
  then show ?case
    using announce_script_out [OF assms, of nd a] Cons.IH [of "announce_script V a nd"]
    by (auto simp: quiet_def intro: sends_trans)
qed simp

lemma register_kaspa_facts:
  assumes "env_ok ext B V" "register_kaspa_deposit V source sid c nd = (r, nd')"
  shows "step_facts ext B l nd nd'"
proof (cases "sink_derive_deposit (nv_data V) (nd_sink nd) source c")
  case (Inr d)
  obtain p2sh redeem where d: "d = (p2sh, redeem)"
    by fastforce
  let ?reg = "sink_register_script (nv_data V) source p2sh redeem sid (cm_unlock_ts c) (am_value (cm_amount c)) (nd_sink nd)"
  obtain rr sk where reg: "?reg = (rr, sk)"
    by fastforce
  let ?msg = "ScriptAnnounceMsg \<lparr>sc_address = p2sh, sc_swap_id = sid, sc_redeem_script = redeem,
    sc_unlock_ts = cm_unlock_ts c, sc_deposit_target = am_value (cm_amount c)\<rparr>"
  obtain rb nd1 where co: "co_broadcast V ?msg (nd\<lparr>nd_sink := sk\<rparr>) = (rb, nd1)"
    by fastforce
  have step: "sink_step\<^sup>*\<^sup>* (nd_sink nd) sk"
    using sink_step.register [of "nd_sink nd" "nv_data V" source p2sh redeem sid "cm_unlock_ts c" "am_value (cm_amount c)"]
    by (simp add: reg r_into_rtranclp)
  consider "nd' = nd\<lparr>nd_sink := sk\<rparr>" | s where "nd' = emit_status V sid s nd1"
    using assms(2) Inr d reg co by (auto simp: register_kaspa_deposit_def Let_def split: sum.splits)
  then show ?thesis
  proof cases
    case 2
    have "sends B (may_reveal ext l (nd_pending_claims nd)) (nd_sent nd) (nd_sent nd1)"
      using sends_mono [OF co_broadcast_out(2) [OF assms(1) co], of "may_reveal ext l (nd_pending_claims nd)"] by simp
    then show ?thesis
      using 2 step co_broadcast_out(1) [OF assms(1) co] by (simp add: step_facts_def quiet_def same)
  qed (use step in \<open>simp add: step_facts_def same\<close>)
qed (use assms(2) in \<open>auto simp: register_kaspa_deposit_def intro: step_factsI\<close>)

lemma register_facts:
  assumes "env_ok ext B V" "register_commitment V c secret expected nd = (r, nd')"
  shows "step_facts ext B (Registered c secret expected) nd nd'"
proof (cases "nd' = nd")
  case False
  let ?l = "Registered c secret expected"
  obtain source destination need where ok: "x_sha256 ext secret = cm_secret_hash c"
      "channel_try_from (cm_source c) = Inr source" "channel_try_from (cm_destination c) = Inr destination"
      "parse_uint 128 expected = Some need" "need \<noteq> 0" "nd_role nd \<noteq> Lp"
    using assms False by (auto simp: register_commitment_def env_ok_def split: if_splits sum.splits option.splits)
  define claim where "claim = \<lparr>pm_secret = secret, pm_expected_counter_chain = destination,
    pm_expected_secret_hash = cm_secret_hash c, pm_expected_destination_address = ad_sender_destination (cm_addresses c),
    pm_expected_amount_out = amount_new expected (decimals destination)\<rparr>"
  let ?nd = "nd\<lparr>nd_pending_claims := hm_insert (cm_swap_id c) claim (nd_pending_claims nd)\<rparr>"
  have reg: "registers ext ?l (cm_swap_id c) claim"
    using ok by (auto simp: registers_def claim_def channel_try_from_eq_Inr)
  have "nd' = ?nd \<or> (\<exists>r. register_kaspa_deposit V source (cm_swap_id c) c ?nd = (r, nd'))"
    using assms ok by (auto simp: register_commitment_def env_ok_def claim_def Let_def split: channel_id.splits)
  then have "step_facts ext B ?l ?nd nd'"
    using register_kaspa_facts [OF assms(1)] by (auto intro: step_factsI)
  then show ?thesis
    using reg by (auto simp: step_facts_def may_reveal_def split: if_splits elim!: sends_mono)
qed (auto intro: step_factsI)

text \<open>Every step of a node, summarised.\<close>

lemma node_step_facts:
  "node_step ext B (nd, q) l (nd', q') \<Longrightarrow> step_facts ext B l nd nd'"
proof (induction "(nd, q)" l "(nd', q')" arbitrary: nd q nd' q' rule: node_step.induct)
  case (poll E nd events sk)
  then show ?case
    using sink_step.poll [of "nd_sink nd" E] by (simp add: step_facts_def same r_into_rtranclp)
next
  case (announce V nd as sk)
  have "sends B (may_reveal ext Internal (nd_pending_claims nd)) (nd_sent nd) (nd_sent (fold (announce_script V) as (nd\<lparr>nd_sink := sk\<rparr>)))"
    using announce_facts [OF announce(1), of "nd\<lparr>nd_sink := sk\<rparr>" as] by (auto elim: sends_mono)
  moreover have "sink_step (nd_sink nd) sk"
    using sink_step.announcements [of "nd_sink nd"] announce(2) by simp
  ultimately show ?case
    using announce_facts [OF announce(1), of "nd\<lparr>nd_sink := sk\<rparr>" as] by (simp add: step_facts_def quiet_def same r_into_rtranclp)
next
  case (state N nd p out q)
  have "sends B (may_reveal ext Internal (nd_pending_claims nd)) (nd_sent nd) (nd_sent nd @ out)"
  proof (cases "ns_peers (current_state (nd_network nd)) = []")
    case False
    then obtain r where "broadcast N (StateMsg (current_state (nd_network nd))) (nd_network nd) = (r, p, out)"
      using state(2) by (auto simp: periodic_state_broadcast_def Let_def split: prod.splits)
    from sends_mono [OF broadcast_sends [OF this state(1)]] show ?thesis
      by simp
  qed (use state(2) in \<open>simp add: periodic_state_broadcast_def\<close>)
  then show ?case
    by (simp add: step_facts_def same)
next
  case (settler nd sk q)
  then show ?case
    by (simp add: step_facts_def same r_into_rtranclp)
next
  case (feed nd q X clk)
  then show ?case
    by (simp add: step_facts_def handler_step.prices)
next
  case (cleanup nd q now_unix)
  then show ?case
    by (simp add: step_facts_def handler_step.clean)
next
  case (connection nd k ts s ts' q)
  then show ?case
    by (simp add: step_facts_def same)
qed (auto intro: message_facts event_facts quote_facts register_facts)

section \<open>What a run preserves\<close>

definition polled :: "node_label list \<Rightarrow> (channel_id \<times> chain_event) set" where
  "polled tr = (\<Union>l \<in> set tr. case l of Polled events \<Rightarrow> set events | _ \<Rightarrow> {})"

lemma polled_Cons [simp]:
  "polled [] = {}" "polled (l # tr) = (case l of Polled events \<Rightarrow> set events | _ \<Rightarrow> {}) \<union> polled tr"
  by (simp_all add: polled_def)

text \<open>A lock that a poll of its own chain has shown.\<close>

definition on_chain :: "node_label list \<Rightarrow> commitment_v1 \<Rightarrow> bool" where
  "on_chain tr c = (\<exists>ch. cm_source c = channel_as_u8 ch \<and> (ch, Commitment c) \<in> polled tr)"

lemma on_chain_Cons: "on_chain tr c \<Longrightarrow> on_chain (l # tr) c"
  by (auto simp: on_chain_def)

definition records_on_chain :: "node_label list \<Rightarrow> swap_tracker \<Rightarrow> bool" where
  "records_on_chain tr t = (\<forall>sid r. get_swap t sid = Some r \<longrightarrow> cm_swap_id (sr_init_commitment r) = sid \<and>
     on_chain tr (sr_init_commitment r) \<and> (\<forall>c. sr_counter_commitment r = Some c \<longrightarrow> cm_swap_id c = sid \<and> on_chain tr c))"

text \<open>The lock that a taker was promised: of its hash, on the chain it asked for, to its address, of the expected amount.\<close>

definition lock_pays :: "externs \<Rightarrow> commitment_v1 \<Rightarrow> bytes \<Rightarrow> string \<Rightarrow> channel_id \<Rightarrow> commitment_v1 \<Rightarrow> bool" where
  "lock_pays ext cm secret expected ch c =
     (cm_swap_id c = cm_swap_id cm \<and> cm_secret_hash c = x_sha256 ext secret \<and> cm_secret_hash cm = x_sha256 ext secret \<and>
      cm_destination cm = channel_as_u8 ch \<and> cm_source c = channel_as_u8 ch \<and>
      normalised_address_eq ext ch (ad_receiver (cm_addresses c)) (ad_sender_destination (cm_addresses cm)) \<and>
      am_decimals (cm_amount c) = decimals ch \<and>
      (\<exists>got need. parse_uint 128 (am_value (cm_amount c)) = Some got \<and> parse_uint 128 expected = Some need \<and> 0 < need \<and> need \<le> got))"

definition funded :: "externs \<Rightarrow> node_label list \<Rightarrow> reveal_v1 \<Rightarrow> bool" where
  "funded ext tr rv = (\<exists>newer ch c older cm secret expected. tr = newer @ Applied ch (Commitment c) # older \<and>
     (ch, Commitment c) \<in> polled older \<and> Registered cm secret expected \<in> set older \<and>
     rv = reveal_new (cm_swap_id cm) secret \<and> lock_pays ext cm secret expected ch c)"

definition justified :: "externs \<Rightarrow> node_label list \<Rightarrow> p2p_msg \<Rightarrow> bool" where
  "justified ext tr m = (\<forall>rv. m = RevealMsg rv \<longrightarrow> (\<exists>u. Got u m \<in> set tr) \<or> funded ext tr rv)"

lemma funded_Cons: "funded ext tr rv \<Longrightarrow> funded ext (l # tr) rv"
  unfolding funded_def by (metis append_Cons)

lemma justified_Cons: "justified ext tr m \<Longrightarrow> justified ext (l # tr) m"
  by (auto simp: justified_def intro: funded_Cons)

definition run_inv ::
  "externs \<Rightarrow> p2p_msg borsh_codec \<Rightarrow> ('s, 'c, 't) node \<Rightarrow> node_label list
     \<Rightarrow> ('s, 'c, 't) node \<times> (channel_id \<times> chain_event) list \<Rightarrow> bool" where
  "run_inv ext B nd0 tr s = (case s of (nd, q) \<Rightarrow>
     tracker_reachable (x_sha256 ext) (x_hex_encode ext) (h_swap_tracker (nd_handler nd)) \<and>
     records_on_chain tr (h_swap_tracker (nd_handler nd)) \<and>
     h_config (nd_handler nd) = h_config (nd_handler nd0) \<and>
     h_address_lookup_table (nd_handler nd) = h_address_lookup_table (nd_handler nd0) \<and>
     sink_typed (nd_sink nd) \<and> (\<forall>ch. sink_knows_channel (nd_sink nd) ch = sink_knows_channel (nd_sink nd0) ch) \<and>
     set q \<subseteq> polled tr \<and>
     (\<forall>x \<in> polled tr. sink_knows_channel (nd_sink nd0) (fst x) \<and> event_of (fst x) x) \<and>
     (\<forall>sid claim. hm_get (nd_pending_claims nd) sid = Some claim \<longrightarrow> (\<exists>l \<in> set tr. registers ext l sid claim)) \<and>
     (\<forall>(u, bs) \<in> set (nd_sent nd). \<exists>m. bo_to_vec B m = Inr bs \<and> justified ext tr m))"

text \<open>The handler.\<close>

lemmas handler_calls = handle_external_commitment_def handle_external_reveal_def handle_external_refund_def
  with_tracker_Inr cleanup_round_def

lemma handler_step_tracker:
  "handler_step ext l h h' \<Longrightarrow> h_swap_tracker h' = h_swap_tracker h \<or>
     tracker_step (x_sha256 ext) (x_hex_encode ext) (h_swap_tracker h) (h_swap_tracker h')"
  by (induction rule: handler_step.induct)
    (auto simp: handler_calls split: option.splits if_splits dest: step_init step_counter step_revealed step_refunded intro: step_cleanup)

lemma handler_step_tables:
  "handler_step ext l h h' \<Longrightarrow> h_config h' = h_config h \<and> h_address_lookup_table h' = h_address_lookup_table h"
  by (induction rule: handler_step.induct)
    (auto simp: handler_calls split: option.splits if_splits)

text \<open>A record changes its init leg never and gains a counter leg only from a commitment of a chain.\<close>

lemma handler_step_records:
  "handler_step ext l h h' \<Longrightarrow> get_swap (h_swap_tracker h') sid = Some r' \<Longrightarrow>
     (\<exists>source c. l = Applied source (Commitment c) \<and> cm_swap_id c = sid \<and>
        (sr_init_commitment r' = c \<and> sr_counter_commitment r' = None \<or>
         sr_counter_commitment r' = Some c \<and>
           (\<exists>r. get_swap (h_swap_tracker h) sid = Some r \<and> sr_init_commitment r' = sr_init_commitment r))) \<or>
     (\<exists>r. get_swap (h_swap_tracker h) sid = Some r \<and> sr_init_commitment r' = sr_init_commitment r \<and>
        sr_counter_commitment r' = sr_counter_commitment r)"
  by (induction rule: handler_step.induct)
    (auto simp: handler_calls set_init_commitment_Inr set_counter_commitment_Inr set_revealed_Inr set_refunded_Inr get_swap_cleanup
      split: option.splits if_splits)

lemma records_on_chain_step:
  assumes "handler_step ext l h h'" "records_on_chain tr (h_swap_tracker h)"
    and "\<And>source c. l = Applied source (Commitment c) \<Longrightarrow> on_chain tr c"
  shows "records_on_chain (l # tr) (h_swap_tracker h')"
  unfolding records_on_chain_def
proof (intro allI impI)
  fix sid r'
  assume "get_swap (h_swap_tracker h') sid = Some r'"
  from handler_step_records [OF assms(1) this] assms(2,3)
  show "cm_swap_id (sr_init_commitment r') = sid \<and> on_chain (l # tr) (sr_init_commitment r') \<and>
    (\<forall>c. sr_counter_commitment r' = Some c \<longrightarrow> cm_swap_id c = sid \<and> on_chain (l # tr) c)"
    by (fastforce simp: records_on_chain_def intro: on_chain_Cons)
qed

text \<open>The messages: what a claim may reveal is funded.\<close>

lemma registered_funded:
  assumes "registers ext l (cm_swap_id c) claim" "l \<in> set tr" "pending_claim_matches ext claim c"
    and "(source, Commitment c) \<in> polled tr" "cm_source c = channel_as_u8 source"
  shows "funded ext (Applied source (Commitment c) # tr) (reveal_new (cm_swap_id c) (pm_secret claim))"
proof -
  obtain cm secret expected destination need where reg: "l = Registered cm secret expected" "cm_swap_id c = cm_swap_id cm"
      "x_sha256 ext secret = cm_secret_hash cm" "cm_destination cm = channel_as_u8 destination"
      "parse_uint 128 expected = Some need" "need \<noteq> 0"
      "claim = \<lparr>pm_secret = secret, pm_expected_counter_chain = destination, pm_expected_secret_hash = cm_secret_hash cm,
         pm_expected_destination_address = ad_sender_destination (cm_addresses cm),
         pm_expected_amount_out = amount_new expected (decimals destination)\<rparr>"
    using assms(1) unfolding registers_def by blast
  have "destination = source"
    using assms(3,5) reg(7) by (simp add: pending_claim_matches_def channel_as_u8_inject)
  then have "lock_pays ext cm secret expected source c"
    using assms(3,5) reg by (auto simp: lock_pays_def pending_claim_matches_def at_least_iff amount_new_def)
  then show ?thesis
    using assms(2,4) reg(1,2,7) unfolding funded_def by fastforce
qed

lemma sent_justified:
  assumes "sends B (may_reveal ext l claims) old new" "\<forall>(u, bs) \<in> set old. \<exists>m. bo_to_vec B m = Inr bs \<and> justified ext tr m"
    and "\<And>sid claim. hm_get claims sid = Some claim \<Longrightarrow> \<exists>l \<in> set tr. registers ext l sid claim"
    and "\<And>source c. l = Applied source (Commitment c) \<Longrightarrow> (source, Commitment c) \<in> polled tr \<and> cm_source c = channel_as_u8 source"
  shows "\<forall>(u, bs) \<in> set new. \<exists>m. bo_to_vec B m = Inr bs \<and> justified ext (l # tr) m"
proof -
  have "justified ext (l # tr) m" if "may_reveal ext l claims m" for m
    unfolding justified_def
  proof (intro allI impI)
    fix rv
    assume "m = RevealMsg rv"
    with that consider u where "l = Got u m"
      | source c claim where "l = Applied source (Commitment c)" "hm_get claims (cm_swap_id c) = Some claim"
        "pending_claim_matches ext claim c" "rv = reveal_new (cm_swap_id c) (pm_secret claim)"
      by (auto simp: may_reveal_def)
    then show "(\<exists>u. Got u m \<in> set (l # tr)) \<or> funded ext (l # tr) rv"
    proof cases
      case 2
      then show ?thesis
        using assms(3) [OF 2(2)] assms(4) [OF 2(1)] registered_funded by blast
    qed auto
  qed
  then show ?thesis
    using assms(1,2) unfolding sends_def by (fastforce intro: justified_Cons)
qed

text \<open>The queue of the driver.\<close>

lemma node_step_queue:
  "node_step ext B (nd, q) l (nd', q') \<Longrightarrow> set q \<subseteq> polled tr \<Longrightarrow> set q' \<subseteq> polled (l # tr)"
  "node_step ext B (nd, q) (Applied source ev) (nd', q') \<Longrightarrow> (source, ev) \<in> set q"
  "node_step ext B (nd, q) (Polled events) (nd', q') \<Longrightarrow> \<exists>E. fst (sink_finalized_chunk E (nd_sink nd)) = Inr events"
proof -
  show "node_step ext B (nd, q) l (nd', q') \<Longrightarrow> set q \<subseteq> polled tr \<Longrightarrow> set q' \<subseteq> polled (l # tr)"
    by (induction "(nd, q)" l "(nd', q')" rule: node_step.induct) auto
  show "node_step ext B (nd, q) (Applied source ev) (nd', q') \<Longrightarrow> (source, ev) \<in> set q"
    by (auto elim: node_step.cases)
  show "node_step ext B (nd, q) (Polled events) (nd', q') \<Longrightarrow> \<exists>E. fst (sink_finalized_chunk E (nd_sink nd)) = Inr events"
    by (erule node_step.cases) (auto, metis fst_conv)
qed

lemma sink_steps_typed:
  "sink_step\<^sup>*\<^sup>* sk sk' \<Longrightarrow> sink_typed sk \<Longrightarrow> sink_typed sk' \<and> (\<forall>ch. sink_knows_channel sk' ch = sink_knows_channel sk ch)"
  by (induction rule: rtranclp_induct) (auto dest: sink_step_typed)

lemma run_inv_step:
  assumes inv: "run_inv ext B nd0 tr (nd, q)" and step: "node_step ext B (nd, q) l (nd', q')"
  shows "run_inv ext B nd0 (l # tr) (nd', q')"
proof -
  note facts = node_step_facts [OF step, unfolded step_facts_def]
  have inv': "records_on_chain tr (h_swap_tracker (nd_handler nd))" "sink_typed (nd_sink nd)" "set q \<subseteq> polled tr"
      "\<forall>ch. sink_knows_channel (nd_sink nd) ch = sink_knows_channel (nd_sink nd0) ch"
      "\<forall>x \<in> polled tr. sink_knows_channel (nd_sink nd0) (fst x) \<and> event_of (fst x) x"
      "\<And>sid claim. hm_get (nd_pending_claims nd) sid = Some claim \<Longrightarrow> \<exists>l \<in> set tr. registers ext l sid claim"
    using inv by (auto simp: run_inv_def)
  have shown: "(source, Commitment c) \<in> polled tr \<and> cm_source c = channel_as_u8 source"
    if "l = Applied source (Commitment c)" for source c
    using node_step_queue(2) [OF step [unfolded that]] inv'(3,5) by (fastforce simp: event_of_def)
  have events: "sink_knows_channel (nd_sink nd0) (fst x) \<and> event_of (fst x) x" if x: "x \<in> polled (l # tr)" for x
  proof (cases "x \<in> polled tr")
    case False
    then obtain events where l: "l = Polled events" "x \<in> set events"
      using x by (cases l) auto
    obtain E sk where "sink_finalized_chunk E (nd_sink nd) = (Inr events, sk)"
      using node_step_queue(3) [OF step [unfolded l(1)]] by (metis prod.collapse)
    from finalized_chunk_typed(3) [OF inv'(2) this refl l(2)] inv'(4) show ?thesis
      by simp
  qed (use inv'(5) in simp)
  have "records_on_chain (l # tr) (h_swap_tracker (nd_handler nd'))"
    using records_on_chain_step [OF conjunct1 [OF facts] inv'(1)] shown by (auto simp: on_chain_def)
  moreover have "\<forall>(u, bs) \<in> set (nd_sent nd'). \<exists>m. bo_to_vec B m = Inr bs \<and> justified ext (l # tr) m"
    by (rule sent_justified [OF _ _ inv'(6) shown]) (use facts inv in \<open>auto simp: run_inv_def\<close>)
  moreover have "tracker_reachable (x_sha256 ext) (x_hex_encode ext) (h_swap_tracker (nd_handler nd'))"
    using inv handler_step_tracker [OF conjunct1 [OF facts]] by (auto simp: run_inv_def intro: reach_step)
  moreover have "\<forall>sid claim. hm_get (nd_pending_claims nd') sid = Some claim \<longrightarrow> (\<exists>l' \<in> set (l # tr). registers ext l' sid claim)"
    using facts inv'(6) by fastforce
  ultimately show ?thesis
    using inv events sink_steps_typed [of "nd_sink nd" "nd_sink nd'"] handler_step_tables [OF conjunct1 [OF facts]]
      node_step_queue(1) [OF step inv'(3)] facts
    unfolding run_inv_def by simp
qed

lemma node_start_new:
  assumes "node_start E M show_err wasm random_id client cfg cursors db = Inr (nd, services, intakes)"
  shows "h_swap_tracker (nd_handler nd) = tracker_new" "sink_typed (nd_sink nd)" "nd_pending_claims nd = hm_empty" "nd_sent nd = []"
proof -
  obtain sk configs where "sink_new E M configs cursors db = Inr (sk, intakes)" "nd_sink nd = sk"
      "h_swap_tracker (nd_handler nd) = tracker_new" "nd_pending_claims nd = hm_empty" "nd_sent nd = []"
    using assms
    by (auto simp: node_start_def build_handler_and_sink_def Let_def result_simps handler_new_def split: prod.splits)
  then show "h_swap_tracker (nd_handler nd) = tracker_new" "sink_typed (nd_sink nd)" "nd_pending_claims nd = hm_empty"
      "nd_sent nd = []"
    using sink_new_typed by blast+
qed

lemma run_inv_run:
  assumes "node_run ext B nd0 tr s" "node_start E M show_err wasm random_id client cfg cursors db = Inr (nd0, services, intakes)"
  shows "run_inv ext B nd0 tr s"
  using assms(1)
proof (induction rule: node_run.induct)
  case run_start
  then show ?case
    using node_start_new [OF assms(2)]
    by (simp add: run_inv_def reach_new [unfolded tracker_new_def] records_on_chain_def get_swap_def tracker_new_def)
next
  case (run_step tr s l s')
  then show ?case
    by (cases s; cases s') (auto intro: run_inv_step)
qed

end
