(* ===== verification/Wasm_Gateway.thy ===== *)
theory Wasm_Gateway
  imports Node_Config
begin

text \<open>
  The browser gateway (\<open>src/crates/wasm\<close>): the object that a web page holds, its configuration and defaults,
  its calls and listeners, the price query and the validation of addresses. Converting JavaScript values
  (\<open>serde_wasm_bindgen\<close>) is a parameter, a listener is a value of type \<open>'f\<close>, and an error is its message.
\<close>

section \<open>Validation of addresses\<close>

definition no_ascii_uppercase :: "string \<Rightarrow> bool" where
  "no_ascii_uppercase s = list_all (\<lambda>c. \<not> (65 \<le> (of_char c :: nat) \<and> (of_char c :: nat) \<le> 90)) s"

text \<open>\<open>from_str\<close> and \<open>parse_checksummed\<close> are those of the alloy address.\<close>

definition validate_eth_address ::
  "(string \<Rightarrow> ('a, string) result) \<Rightarrow> (string \<Rightarrow> ('a, string) result) \<Rightarrow> string \<Rightarrow> (unit, string) result" where
  "validate_eth_address from_str parse_checksummed input =
     (let trimmed = trim input in
      if trimmed = [] then Inl ''address is empty''
      else if starts_with ''0x'' trimmed \<and> no_ascii_uppercase (drop 2 trimmed)
      then r_bind (map_err (\<lambda>e. ''malformed EVM address: '' @ e) (from_str trimmed)) (\<lambda>_. Inr ())
      else r_bind (map_err (\<lambda>e. ''EVM address has invalid EIP-55 checksum (likely typo): '' @ e)
             (parse_checksummed trimmed)) (\<lambda>_. Inr ()))"

definition em_dash :: string where "em_dash = [CHR 0xE2, CHR 0x80, CHR 0x94]"

fun show_prefix :: "kaspa_prefix \<Rightarrow> string" where
  "show_prefix Mainnet = ''Mainnet''"
| "show_prefix Testnet = ''Testnet''"
| "show_prefix Simnet = ''Simnet''"
| "show_prefix Devnet = ''Devnet''"

definition validate_kas_address ::
  "(string \<Rightarrow> (kaspa_address, string) result) \<Rightarrow> string \<Rightarrow> string \<Rightarrow> (unit, string) result" where
  "validate_kas_address try_from input network_id =
     (let trimmed = trim input in
      if trimmed = [] then Inl ''address is empty''
      else r_bind (map_err (\<lambda>e. ''malformed Kaspa address: '' @ e) (try_from trimmed)) (\<lambda>addr.
      r_bind (if starts_with ''mainnet'' network_id then Inr Mainnet
              else if starts_with ''testnet'' network_id then Inr Testnet
              else if starts_with ''simnet'' network_id then Inr Simnet
              else if starts_with ''devnet'' network_id then Inr Devnet
              else Inl (''unknown network id: '' @ network_id)) (\<lambda>expected_prefix.
      if ka_prefix addr \<noteq> expected_prefix
      then Inl (''address is on wrong network '' @ em_dash @ '' expected '' @ show_prefix expected_prefix @
             '', got '' @ show_prefix (ka_prefix addr))
      else Inr ())))"

section \<open>Configuration\<close>

record handler_config_js =
  hj_min_trade_usd :: f64
  hj_max_trade_usd :: f64
  hj_spread_percent :: f64
  hj_commit_buffer_secs :: u64

record gateway_config =
  gc_observer_channels :: "json option"
  gc_bootstrap_peers :: "string list option"
  gc_handler :: handler_config_js

definition SEED_NODES :: "string list" where "SEED_NODES = []"

definition default_bootstrap_peers :: "string list" where "default_bootstrap_peers = SEED_NODES"

definition default_observer_channels_json :: json where
  "default_observer_channels_json = JObject
     [(''ethereum-sepolia'', JObject [(''rpc_url'', JString ''https://eth-sepolia.api.onfinality.io/public''),
        (''htlc_address'', JString ''0xb249849CAc76bcd86A566016AcA5e7FC63dA5122''), (''minimum_block_confirmations'', JNumber 1)]),
      (''igra-galleon'', JObject [(''rpc_url'', JString ''https://galleon-testnet.igralabs.com:8545''),
        (''htlc_address'', JString ''0x5C1f98eE073186BF1684b06b3CFE863a8bB569b4''), (''minimum_block_confirmations'', JNumber 1)]),
      (''kaspa-tn10'', JObject [(''wrpc_url'', JString ''wss://tn10.stroem.finance''),
        (''network_id'', JString ''testnet-10''), (''minimum_block_confirmations'', JNumber 30)])]"

text \<open>What \<open>getDefaultConfig\<close> returns, read back as a configuration.\<close>

definition default_gateway_config :: gateway_config where
  "default_gateway_config = \<lparr>gc_observer_channels = Some default_observer_channels_json,
     gc_bootstrap_peers = Some default_bootstrap_peers,
     gc_handler = \<lparr>hj_min_trade_usd = Fin 1, hj_max_trade_usd = Fin 100000, hj_spread_percent = Fin (1 / 2),
       hj_commit_buffer_secs = 960\<rparr>\<rparr>"

fun observer_channels ::
  "(string \<times> json) list \<Rightarrow> (channel_id, channel_spec) hashmap \<Rightarrow> ((channel_id, channel_spec) hashmap, string) result" where
  "observer_channels [] channels = Inr channels"
| "observer_channels ((k, v) # obj) channels =
     r_bind (channel_try_from_str k) (\<lambda>ch.
     observer_channels obj (hm_insert ch \<lparr>cs_config = v, cs_lp_private_key = None\<rparr> channels))"

text \<open>The browser has no listening address and no oracle; those fields of a node's configuration are unused.\<close>

definition gateway_node_config :: "gateway_config \<Rightarrow> (node_config, string) result" where
  "gateway_node_config cfg =
     (let raw_channels = (case gc_observer_channels cfg of None \<Rightarrow> default_observer_channels_json | Some v \<Rightarrow> v) in
      r_bind (ok_or (case raw_channels of JObject obj \<Rightarrow> Some obj | _ \<Rightarrow> None) ''observerChannels must be a JSON object'') (\<lambda>obj.
      r_bind (observer_channels obj hm_empty) (\<lambda>channels.
      Inr \<lparr>nc_handler = \<lparr>hc_min_trade_usd = hj_min_trade_usd (gc_handler cfg), hc_max_trade_usd = hj_max_trade_usd (gc_handler cfg),
             hc_spread_percent = hj_spread_percent (gc_handler cfg), hc_commit_buffer_secs = hj_commit_buffer_secs (gc_handler cfg)\<rparr>,
           nc_channels = channels, nc_bind_addr = None, nc_price_oracle_update_interval_secs = 0,
           nc_bootstrap_peers = (case gc_bootstrap_peers cfg of None \<Rightarrow> default_bootstrap_peers | Some ps \<Rightarrow> ps),
           nc_role = Observer, nc_advertised_listen_addr = None\<rparr>)))"

section \<open>The gateway\<close>

datatype drain = QuoteDrain | StatusDrain | PeerCountPoll

record ('s, 'c, 't, 'f) gateway =
  gw_node :: "('s, 'c, 't) node option"
  gw_quote_listeners :: "'f list"
  gw_status_listeners :: "'f list"
  gw_peer_listeners :: "'f list"
  gw_config :: "node_config option"
  gw_status_rx :: bool
  gw_drains :: "drain list"

definition gateway_new :: "(gateway_config, string) result \<Rightarrow> (('s, 'c, 't, 'f) gateway, string) result" where
  "gateway_new parsed =
     r_bind (map_err (\<lambda>e. ''config: '' @ e) parsed) (\<lambda>cfg.
     r_bind (gateway_node_config cfg) (\<lambda>node_cfg.
     Inr \<lparr>gw_node = None, gw_quote_listeners = [], gw_status_listeners = [], gw_peer_listeners = [],
          gw_config = Some node_cfg, gw_status_rx = True, gw_drains = []\<rparr>))"

definition require_node :: "('s, 'c, 't, 'f) gateway \<Rightarrow> (('s, 'c, 't) node, string) result" where
  "require_node gw = ok_or (gw_node gw) (''gateway not connected '' @ em_dash @ '' call connect() first'')"

definition gateway_peer_count :: "u64 \<Rightarrow> ('s, 'c, 't, 'f) gateway \<Rightarrow> (u64, string) result" where
  "gateway_peer_count count gw = r_bind (require_node gw) (\<lambda>_. Inr count)"

definition on_quote :: "'f \<Rightarrow> ('s, 'c, 't, 'f) gateway \<Rightarrow> ('s, 'c, 't, 'f) gateway" where
  "on_quote f gw = gw\<lparr>gw_quote_listeners := gw_quote_listeners gw @ [f]\<rparr>"

definition on_swap_status :: "'f \<Rightarrow> ('s, 'c, 't, 'f) gateway \<Rightarrow> ('s, 'c, 't, 'f) gateway" where
  "on_swap_status f gw = gw\<lparr>gw_status_listeners := gw_status_listeners gw @ [f]\<rparr>"

definition on_peer_count :: "'f \<Rightarrow> ('s, 'c, 't, 'f) gateway \<Rightarrow> ('s, 'c, 't, 'f) gateway" where
  "on_peer_count f gw = gw\<lparr>gw_peer_listeners := gw_peer_listeners gw @ [f]\<rparr>"

text \<open>The texts of the node's errors (\<open>node/src/error.rs\<close>, \<open>storage/src/error.rs\<close>).\<close>

fun db_error_to_string :: "db_error \<Rightarrow> string" where
  "db_error_to_string (Redb e) = ''Database error: '' @ e"
| "db_error_to_string (Commit e) = ''Commit error: '' @ e"
| "db_error_to_string (Transaction e) = ''Transaction error: '' @ e"
| "db_error_to_string (Table e) = ''Table error: '' @ e"
| "db_error_to_string (StorageErr e) = ''Storage error: '' @ e"

fun stroemnet_error_to_string :: "stroemnet_error \<Rightarrow> string" where
  "stroemnet_error_to_string (EnvErr e) = ''Env error: '' @ e"
| "stroemnet_error_to_string (OracleErr e) = ''Oracle error: '' @ e"
| "stroemnet_error_to_string (PeerDbErr e) = ''Peer db error: '' @ db_error_to_string e"
| "stroemnet_error_to_string LpModeForbidsInitiation = ''LP mode forbids trade initiation''"
| "stroemnet_error_to_string SecretHashMismatch = ''secret/commitment mismatch: sha256(secret) != commitment.secret_hash''"
| "stroemnet_error_to_string (OtherErr e) = e"

text \<open>
  \<open>connect\<close> gives up control while the node starts: what precedes that takes the configuration, what follows
  sets the node and starts the drains.
\<close>

definition connect_take :: "('s, 'c, 't, 'f) gateway \<Rightarrow> (node_config, string) result \<times> ('s, 'c, 't, 'f) gateway" where
  "connect_take gw =
     (if gw_node gw \<noteq> None then (Inl ''gateway already connected'', gw)
      else case gw_config gw of
        None \<Rightarrow> (Inl ''gateway already consumed'', gw)
      | Some cfg \<Rightarrow> (Inr cfg, gw\<lparr>gw_config := None\<rparr>))"

definition connect_finish ::
  "(('s, 'c, 't) node \<times> service list \<times> 'c intake list, stroemnet_error) result \<Rightarrow> ('s, 'c, 't, 'f) gateway
     \<Rightarrow> (unit, string) result \<times> ('s, 'c, 't, 'f) gateway" where
  "connect_finish started gw =
     (case started of
        Inl e \<Rightarrow> (Inl (''Node::start: '' @ stroemnet_error_to_string e), gw)
      | Inr (nd, services, intakes) \<Rightarrow>
          if gw_node gw \<noteq> None then (Inl ''node already set'', gw)
          else (Inr (), gw\<lparr>gw_node := Some nd, gw_status_rx := False,
                  gw_drains := gw_drains gw @ [QuoteDrain] @ (if gw_status_rx gw then [StatusDrain] else []) @ [PeerCountPoll]\<rparr>))"

definition gateway_connect ::
  "('s, 'c) data_env \<Rightarrow> json sink_dial \<Rightarrow> (data_error \<Rightarrow> string) \<Rightarrow> bytes \<Rightarrow> ('s, 'c, 't, 'f) gateway
     \<Rightarrow> (unit, string) result \<times> ('s, 'c, 't, 'f) gateway" where
  "gateway_connect E M show_err random_id gw =
     (case connect_take gw of
        (Inl e, gw) \<Rightarrow> (Inl e, gw)
      | (Inr cfg, gw) \<Rightarrow> connect_finish (node_start E M show_err True random_id (Inr ()) cfg None None) gw)"

text \<open>What \<open>spawn_drain\<close> calls for an item, and a round of the poll of the peer count.\<close>

definition drain_item :: "('a \<Rightarrow> ('j, string) result) \<Rightarrow> 'f list \<Rightarrow> 'a \<Rightarrow> ('f \<times> 'j) list" where
  "drain_item serialize listeners item =
     (case serialize item of Inl e \<Rightarrow> [] | Inr js \<Rightarrow> map (\<lambda>f. (f, js)) listeners)"

definition peer_count_round :: "'f list \<Rightarrow> u64 \<Rightarrow> u64 option \<Rightarrow> u64 option \<times> ('f \<times> f64) list" where
  "peer_count_round listeners current last_count =
     (if last_count \<noteq> Some current
      then (Some current, map (\<lambda>f. (f, f_of_nat (unat current))) listeners) else (last_count, []))"

definition to_32 :: "bytes \<Rightarrow> string \<Rightarrow> (bytes, string) result" where
  "to_32 bs field =
     (if length bs \<noteq> 32 then Inl (field @ '': expected 32 bytes, got '' @ show_nat (length bs)) else Inr bs)"

definition gateway_request_quote ::
  "('s, 'c, 't) node_env \<Rightarrow> bytes \<Rightarrow> u8 \<Rightarrow> u8 \<Rightarrow> string \<Rightarrow> ('s, 'c, 't, 'f) gateway
     \<Rightarrow> (unit, string) result \<times> ('s, 'c, 't, 'f) gateway" where
  "gateway_request_quote V swap_id origin destination amount gw =
     (case require_node gw of Inl e \<Rightarrow> (Inl e, gw)
      | Inr nd \<Rightarrow>
      case r_bind (to_32 swap_id ''swap_id'') (\<lambda>swap_id.
           r_bind (map_err (\<lambda>e. ''origin chain id: '' @ e) (channel_try_from origin)) (\<lambda>origin.
           r_bind (map_err (\<lambda>e. ''destination chain id: '' @ e) (channel_try_from destination)) (\<lambda>destination.
           Inr (swap_id, origin, destination)))) of
        Inl e \<Rightarrow> (Inl e, gw)
      | Inr (swap_id, origin, destination) \<Rightarrow>
          (case request_quote V swap_id origin destination amount nd of
             (r, nd) \<Rightarrow> (map_err (\<lambda>e. ''request_quote: '' @ stroemnet_error_to_string e) r, gw\<lparr>gw_node := Some nd\<rparr>)))"

definition gateway_register_commitment ::
  "('s, 'c, 't) node_env \<Rightarrow> (commitment_v1, string) result \<Rightarrow> bytes \<Rightarrow> string \<Rightarrow> ('s, 'c, 't, 'f) gateway
     \<Rightarrow> (string, string) result \<times> ('s, 'c, 't, 'f) gateway" where
  "gateway_register_commitment V parsed secret expected_amount_out gw =
     (case require_node gw of Inl e \<Rightarrow> (Inl e, gw)
      | Inr nd \<Rightarrow>
      case r_bind (map_err (\<lambda>e. ''commitment: '' @ e) parsed) (\<lambda>commitment.
           r_bind (to_32 secret ''secret'') (\<lambda>secret. Inr (commitment, secret))) of
        Inl e \<Rightarrow> (Inl e, gw)
      | Inr (commitment, secret) \<Rightarrow>
          (case register_commitment V commitment secret expected_amount_out nd of
             (r, nd) \<Rightarrow> (map_err (\<lambda>e. ''register_commitment: '' @ stroemnet_error_to_string e) r, gw\<lparr>gw_node := Some nd\<rparr>)))"

section \<open>Prices\<close>

text \<open>The prices by the number of their channel; \<open>show\<close> prints an error of the feed.\<close>

definition get_prices :: "exchanges \<Rightarrow> (oracle_error \<Rightarrow> string) \<Rightarrow> ((string \<times> f64) list, string) result" where
  "get_prices X show_err =
     r_bind (map_err (\<lambda>e. ''price feed: '' @ show_err e) (aggregate X True [KaspaTn10, EthereumSepolia, IgraGalleon]))
       (\<lambda>prices. Inr (fold (\<lambda>(ch, price). AList.update (show_nat (unat (channel_as_u8 ch))) price) prices []))"

text \<open>The defaults are a configuration that the gateway accepts: an observer of the three channels without keys.\<close>

lemma default_config_accepted:
  "\<exists>cfg. gateway_node_config default_gateway_config = Inr cfg \<and> nc_role cfg = Observer \<and>
     map (\<lambda>(ch, spec). (ch, minimum_block_confirmations spec, cs_lp_private_key spec)) (hm_iter (nc_channels cfg)) =
       [(EthereumSepolia, 1, None), (IgraGalleon, 1, None), (KaspaTn10, 30, None)]"
  by (simp add: gateway_node_config_def default_gateway_config_def default_observer_channels_json_def channel_try_from_str_def
      lower_char_def hm_iter_eval minimum_block_confirmations_def json_get_def as_u64_def)

section \<open>Runs of the gateway\<close>

text \<open>
  The calls of a page interleave with the starts that are under way, which are kept with the configuration
  that each of them took; every start has its own environment. The tasks of the node change it at any time.
\<close>

inductive gw_step ::
  "('s, 'c, 't, 'f) gateway \<times> node_config list \<Rightarrow> ('s, 'c, 't, 'f) gateway \<times> node_config list \<Rightarrow> bool" where
  gs_take: "connect_take gw = (Inr cfg, gw') \<Longrightarrow> gw_step (gw, js) (gw', cfg # js)"
| gs_refused: "connect_take gw = (Inl e, gw') \<Longrightarrow> gw_step (gw, js) (gw', js)"
| gs_finish: "connect_finish (node_start E M show_err True random_id (Inr ()) cfg None None) gw = (r, gw') \<Longrightarrow>
    gw_step (gw, js1 @ cfg # js2) (gw', js1 @ js2)"
| gs_on_quote: "gw_step (gw, js) (on_quote f gw, js)"
| gs_on_swap_status: "gw_step (gw, js) (on_swap_status f gw, js)"
| gs_on_peer_count: "gw_step (gw, js) (on_peer_count f gw, js)"
| gs_request: "gateway_request_quote V swap_id origin destination amount gw = (r, gw') \<Longrightarrow> gw_step (gw, js) (gw', js)"
| gs_register: "gateway_register_commitment V parsed secret expected gw = (r', gw') \<Longrightarrow> gw_step (gw, js) (gw', js)"
| gs_node: "gw_node gw = Some nd \<Longrightarrow> gw_step (gw, js) (gw\<lparr>gw_node := Some nd'\<rparr>, js)"

text \<open>What a step can change of the configuration, the starts under way and the node.\<close>

definition gw_tokens :: "('s, 'c, 't, 'f) gateway \<times> node_config list \<Rightarrow> nat" where
  "gw_tokens s = (if gw_config (fst s) = None then 0 else 1) + length (snd s) + (if gw_node (fst s) = None then 0 else 1)"

definition connected_drains :: "('s, 'c, 't, 'f) gateway \<Rightarrow> drain list" where
  "connected_drains gw = (if gw_node gw = None then [] else [QuoteDrain, StatusDrain, PeerCountPoll])"

definition gw_inv :: "('s, 'c, 't, 'f) gateway \<times> node_config list \<Rightarrow> bool" where
  "gw_inv s = (gw_tokens s \<le> 1 \<and> gw_drains (fst s) = connected_drains (fst s) \<and> gw_status_rx (fst s) = (gw_node (fst s) = None))"

lemma connect_take_simps:
  "gw_node gw = None \<Longrightarrow> gw_config gw = Some cfg \<Longrightarrow> connect_take gw = (Inr cfg, gw\<lparr>gw_config := None\<rparr>)"
  "gw_node gw = None \<Longrightarrow> gw_config gw = None \<Longrightarrow> connect_take gw = (Inl ''gateway already consumed'', gw)"
  "gw_node gw = Some nd \<Longrightarrow> connect_take gw = (Inl ''gateway already connected'', gw)"
  by (simp_all add: connect_take_def)

lemma connect_take_cases:
  "(\<exists>e. connect_take gw = (Inl e, gw)) \<or>
   (\<exists>cfg. connect_take gw = (Inr cfg, gw\<lparr>gw_config := None\<rparr>) \<and> gw_config gw = Some cfg \<and> gw_node gw = None)"
  by (auto simp: connect_take_def split: option.splits)

lemma connect_finish_cases:
  "(\<exists>e. connect_finish started gw = (Inl e, gw)) \<or>
   (\<exists>nd. gw_node gw = None \<and> connect_finish started gw = (Inr (), gw\<lparr>gw_node := Some nd, gw_status_rx := False,
      gw_drains := gw_drains gw @ [QuoteDrain] @ (if gw_status_rx gw then [StatusDrain] else []) @ [PeerCountPoll]\<rparr>))"
  by (auto simp: connect_finish_def split: sum.splits)

text \<open>A call that needs the node is refused without one, and otherwise replaces at most the node.\<close>

lemma node_calls:
  "snd (gateway_request_quote V swap_id origin destination amount gw) = gw \<or>
   gw_node gw \<noteq> None \<and> (\<exists>nd. snd (gateway_request_quote V swap_id origin destination amount gw) = gw\<lparr>gw_node := Some nd\<rparr>)"
  "snd (gateway_register_commitment V parsed secret expected gw) = gw \<or>
   gw_node gw \<noteq> None \<and> (\<exists>nd. snd (gateway_register_commitment V parsed secret expected gw) = gw\<lparr>gw_node := Some nd\<rparr>)"
  by (auto simp: gateway_request_quote_def gateway_register_commitment_def require_node_def ok_or_eq_Inr
      split: sum.splits option.splits prod.splits)

lemma gw_inv_node [simp]:
  "gw_node gw = Some nd \<Longrightarrow> gw_inv (gw\<lparr>gw_node := Some nd'\<rparr>, js) = gw_inv (gw, js)"
  by (simp add: gw_inv_def gw_tokens_def connected_drains_def)

lemma gw_inv_step: "gw_step s s' \<Longrightarrow> gw_inv s \<Longrightarrow> gw_inv s'"
proof (induction rule: gw_step.induct)
  case (gs_take gw cfg gw' js)
  then show ?case
    using connect_take_cases [of gw] by (auto simp: gw_inv_def gw_tokens_def connected_drains_def)
next
  case (gs_refused gw e gw' js)
  then show ?case
    using connect_take_cases [of gw] by auto
next
  case (gs_finish E M show_err random_id cfg gw r gw' js1 js2)
  then show ?case
    using connect_finish_cases [of "node_start E M show_err True random_id (Inr ()) cfg None None" gw]
    by (auto simp: gw_inv_def gw_tokens_def connected_drains_def split: if_splits)
next
  case (gs_request V swap_id origin destination amount gw r gw' js)
  then show ?case
    using node_calls(1) [of V swap_id origin destination amount gw] by auto
next
  case (gs_register V parsed secret expected gw r' gw' js)
  then show ?case
    using node_calls(2) [of V parsed secret expected gw] by auto
qed (simp_all add: gw_inv_def gw_tokens_def connected_drains_def on_quote_def on_swap_status_def on_peer_count_def)

lemma gw_inv_new: "gateway_new parsed = Inr gw \<Longrightarrow> gw_inv (gw, [])"
  by (auto simp: gateway_new_def result_simps gw_inv_def gw_tokens_def connected_drains_def)

lemma gw_inv_run:
  assumes "gw_step\<^sup>*\<^sup>* (gw0, []) s" "gateway_new parsed = Inr gw0"
  shows "gw_inv s"
  using assms(1) gw_inv_new [OF assms(2)] by (induction rule: rtranclp_induct) (auto intro: gw_inv_step)

text \<open>Without configuration, start or node, no call brings any of them back.\<close>

lemma spent_step: "gw_step s s' \<Longrightarrow> gw_tokens s = 0 \<Longrightarrow> gw_tokens s' = 0"
proof (induction rule: gw_step.induct)
  case (gs_take gw cfg gw' js)
  then show ?case
    using connect_take_cases [of gw] by (auto simp: gw_tokens_def split: if_splits)
next
  case (gs_refused gw e gw' js)
  then show ?case
    using connect_take_cases [of gw] by auto
next
  case (gs_request V swap_id origin destination amount gw r gw' js)
  then show ?case
    using node_calls(1) [of V swap_id origin destination amount gw] by (auto simp: gw_tokens_def split: if_splits)
next
  case (gs_register V parsed secret expected gw r' gw' js)
  then show ?case
    using node_calls(2) [of V parsed secret expected gw] by (auto simp: gw_tokens_def split: if_splits)
qed (simp_all add: gw_tokens_def on_quote_def on_swap_status_def on_peer_count_def)

lemma spent_run: "gw_step\<^sup>*\<^sup>* s s' \<Longrightarrow> gw_tokens s = 0 \<Longrightarrow> gw_tokens s' = 0"
  by (induction rule: rtranclp_induct) (auto intro: spent_step)

lemma spent_calls:
  assumes "gw_tokens (gw, js) = 0"
  shows "gateway_connect E M show_err random_id gw = (Inl ''gateway already consumed'', gw)"
    and "\<not> is_ok (fst (gateway_request_quote V swap_id origin destination amount gw))"
    and "\<not> is_ok (fst (gateway_register_commitment V parsed secret expected gw))"
    and "\<not> is_ok (gateway_peer_count count gw)"
  using assms
  by (auto simp: gw_tokens_def gateway_connect_def connect_take_simps gateway_request_quote_def gateway_register_commitment_def
      gateway_peer_count_def require_node_def is_ok_iff split: if_splits)

text \<open>A start that comes back always finds the node unset: no other start was under way.\<close>

lemma finish_finds_no_node:
  assumes "gw_step\<^sup>*\<^sup>* (gw0, []) (gw, js1 @ cfg # js2)" "gateway_new parsed = Inr gw0"
  shows "gw_node gw = None \<and> gw_config gw = None \<and> js1 = [] \<and> js2 = []"
  using gw_inv_run [OF assms] by (auto simp: gw_inv_def gw_tokens_def split: if_splits)

text \<open>
  (C37) A failed connection is final: when the start of the node fails, however briefly the chains were out of
  reach, no later call connects the gateway, and every call of the page that needs the node is refused. The
  configuration was used up before the start.
\<close>

theorem failed_connect_is_final:
  fixes gw :: "('s, 'c, 't, 'f) gateway" and started :: "(('s, 'c, 't) node \<times> service list \<times> 'c intake list, stroemnet_error) result"
  assumes new: "gateway_new parsed = Inr gw0"
    and under_way: "gw_step\<^sup>*\<^sup>* (gw0, []) (gw, js1 @ cfg # js2)"
    and started: "started = node_start E M show_err True random_id (Inr ()) cfg None None" "started = Inl e"
    and finish: "connect_finish started gw = (r, gw1)"
    and later: "gw_step\<^sup>*\<^sup>* (gw1, js1 @ js2) (gw2, js)"
  shows "r = Inl (''Node::start: '' @ stroemnet_error_to_string e) \<and>
    gateway_connect E' M' show_err' random_id' gw2 = (Inl ''gateway already consumed'', gw2) \<and>
    \<not> is_ok (fst (gateway_request_quote V swap_id origin destination amount gw2)) \<and>
    \<not> is_ok (fst (gateway_register_commitment V commitment secret expected gw2)) \<and>
    \<not> is_ok (gateway_peer_count count gw2)"
proof -
  from started(2) finish have gw1: "gw1 = gw" "r = Inl (''Node::start: '' @ stroemnet_error_to_string e)"
    by (simp_all add: connect_finish_def)
  from finish_finds_no_node [OF under_way new] have "gw_tokens (gw1, js1 @ js2) = 0"
    by (simp add: gw1 gw_tokens_def)
  from spent_calls [OF spent_run [OF later this]] gw1(2) show ?thesis
    by blast
qed

text \<open>An RPC node that does not answer while the page connects, and does afterwards.\<close>

definition sample_gateway_config :: gateway_config where
  "sample_gateway_config = default_gateway_config\<lparr>gc_observer_channels := Some (JObject [(''ethereum-sepolia'', JNull)])\<rparr>"

definition sample_node_config :: node_config where
  "sample_node_config = \<lparr>nc_handler = \<lparr>hc_min_trade_usd = Fin 1, hc_max_trade_usd = Fin 100000,
       hc_spread_percent = Fin (1 / 2), hc_commit_buffer_secs = 960\<rparr>,
     nc_channels = hm_insert EthereumSepolia \<lparr>cs_config = JNull, cs_lp_private_key = None\<rparr> hm_empty, nc_bind_addr = None,
     nc_price_oracle_update_interval_secs = 0, nc_bootstrap_peers = [], nc_role = Observer, nc_advertised_listen_addr = None\<rparr>"

definition sample_gateway :: "(mem_db, mem_db, unit, nat) gateway" where
  "sample_gateway = \<lparr>gw_node = None, gw_quote_listeners = [], gw_status_listeners = [], gw_peer_listeners = [],
     gw_config = Some sample_node_config, gw_status_rx = True, gw_drains = []\<rparr>"

definition silent_data_env :: "(mem_db, mem_db) data_env" where
  "silent_data_env = sample_data_env\<lparr>de_evm_net := (\<lambda>_. sample_net\<lparr>en_block_number := (\<lambda>_. None)\<rparr>)\<rparr>"

lemma sample_gateway_new: "gateway_new (Inr sample_gateway_config) = Inr sample_gateway"
  by (simp add: gateway_new_def gateway_node_config_def sample_gateway_config_def default_gateway_config_def sample_gateway_def
      sample_node_config_def channel_try_from_str_def lower_char_def default_bootstrap_peers_def SEED_NODES_def)

lemma silent_start_fails:
  "node_start silent_data_env sample_json_dial (\<lambda>_. []) True [] (Inr ()) sample_node_config None None =
     Inl (OtherErr ''chain data sink: '')"
  by (simp add: node_start_def build_handler_and_sink_def sink_new_def build_buffer_def hm_iter_eval silent_data_env_def
      sample_data_env_def sample_json_dial_def evm_connect_def parse_address_def build_providers_def sample_alloy_def
      sample_net_def retry_timed_def RETRY_ATTEMPTS_def numeral_3_eq_3 sample_node_config_def)

theorem failed_connect_is_final_witness:
  "fst (gateway_connect silent_data_env sample_json_dial (\<lambda>_. []) [] sample_gateway) = Inl ''Node::start: chain data sink: '' \<and>
   fst (gateway_connect sample_data_env sample_json_dial (\<lambda>_. []) []
     (on_quote 1 (snd (gateway_connect silent_data_env sample_json_dial (\<lambda>_. []) [] sample_gateway)))) =
     Inl ''gateway already consumed''"
proof -
  let ?gw = "sample_gateway\<lparr>gw_config := None\<rparr>"
  have take: "connect_take sample_gateway = (Inr sample_node_config, ?gw)"
    by (simp add: connect_take_def sample_gateway_def)
  then have "gw_step (sample_gateway, []) (?gw, [sample_node_config])"
    by (rule gs_take)
  then have run: "gw_step\<^sup>*\<^sup>* (sample_gateway, []) (?gw, [] @ sample_node_config # [])"
    by (simp add: r_into_rtranclp)
  have later: "gw_step\<^sup>*\<^sup>* (?gw, [] @ []) (on_quote 1 ?gw, [])"
    by (simp add: r_into_rtranclp gs_on_quote)
  have "connect_finish (Inl (OtherErr ''chain data sink: '')) ?gw = (Inl ''Node::start: chain data sink: '', ?gw)"
    by (simp add: connect_finish_def)
  from failed_connect_is_final [OF sample_gateway_new run silent_start_fails [symmetric] refl this later] this take
  show ?thesis
    by (simp add: gateway_connect_def silent_start_fails)
qed

end
