(* ===== verification/Node_Composition.thy ===== *)
theory Node_Composition
  imports Node_Run Wasm_Gateway
begin

text \<open>
  Nodes over their whole runs: what they track, when a taker gives its secret away, what a liquidity provider
  answers, and how the secret travels from the lock that pays for it to the provider's claim on the other
  chain.
\<close>

section \<open>Properties of a run\<close>

text \<open>
  (C7) The swaps that a node tracks are real. However its tasks interleave, both legs of every swap were
  shown by a poll of the chain that the leg names, the counter leg mirrors the init leg, and a completed
  swap stores a preimage of the hash that both legs lock.
\<close>

theorem tracked_swaps_are_on_chain:
  assumes "node_start E M show_err wasm random_id client cfg cursors db = Inr (nd0, services, intakes)"
    and "node_run ext B nd0 tr (nd, q)"
    and "get_swap (h_swap_tracker (nd_handler nd)) sid = Some r"
  shows "on_chain tr (sr_init_commitment r) \<and> cm_swap_id (sr_init_commitment r) = sid \<and>
    (\<forall>c. sr_counter_commitment r = Some c \<longrightarrow> on_chain tr c \<and> cm_swap_id c = sid \<and> mirrors (sr_init_commitment r) c) \<and>
    (stage r = Completed \<longrightarrow> (\<exists>c secret. sr_counter_commitment r = Some c \<and> sr_resolution r = Some (x_hex_encode ext secret) \<and>
       x_sha256 ext secret = cm_secret_hash (sr_init_commitment r) \<and> x_sha256 ext secret = cm_secret_hash c))"
proof -
  have inv: "tracker_reachable (x_sha256 ext) (x_hex_encode ext) (h_swap_tracker (nd_handler nd))"
      "records_on_chain tr (h_swap_tracker (nd_handler nd))"
    using run_inv_run [OF assms(2,1)] by (auto simp: run_inv_def)
  have "record_ok (x_sha256 ext) (x_hex_encode ext) r"
    by (rule tracker_okD [OF tracker_reachable_ok [OF inv(1)] assms(3)])
  then have "\<forall>c. sr_counter_commitment r = Some c \<longrightarrow> mirrors (sr_init_commitment r) c"
      "stage r = Completed \<longrightarrow> (\<exists>c secret. sr_counter_commitment r = Some c \<and> sr_resolution r = Some (x_hex_encode ext secret) \<and>
         x_sha256 ext secret = cm_secret_hash (sr_init_commitment r) \<and> x_sha256 ext secret = cm_secret_hash c)"
    by (fastforce simp: record_ok_def stage_def mirrors_def split: option.splits if_splits)+
  with inv(2) assms(3) show ?thesis
    by (auto simp: records_on_chain_def)
qed

text \<open>
  (C5) The secret of a taker is safe until it is paid for. Whatever a node receives and however its tasks
  interleave, a reveal that it sends to its peers either is one that it has received, or it belongs to a
  commitment that was registered before and to a lock that a poll had shown on the very chain the taker
  asked for, under the hash of the secret, to the taker's address, of at least the expected amount.
\<close>

theorem secret_kept_until_funded:
  assumes "node_start E M show_err wasm random_id client cfg cursors db = Inr (nd0, services, intakes)"
    and "node_run ext B nd0 tr (nd, q)" and "borsh_roundtrip B"
    and "(u, bs) \<in> set (nd_sent nd)" "bo_to_vec B (RevealMsg rv) = Inr bs"
  shows "(\<exists>from_url. Got from_url (RevealMsg rv) \<in> set tr) \<or> funded ext tr rv"
proof -
  obtain m where m: "bo_to_vec B m = Inr bs" "justified ext tr m"
    using run_inv_run [OF assms(2,1)] assms(4) by (fastforce simp: run_inv_def)
  have "m = RevealMsg rv"
    using assms(3,5) m(1) by (metis borsh_roundtrip_def sum.inject(2))
  with m(2) show ?thesis
    by (simp add: justified_def)
qed

section \<open>A provider over its run\<close>

text \<open>The deposit behind a counter lock, as the handler sees it.\<close>

lemma counter_broadcast_cases:
  assumes "on_chain_event ext now_unix h source ev clock = (h', Inr effs)" "Broadcast ch (Commitment counter) \<in> set effs"
  obtains c r src ours where "ev = Commitment c" "ch \<noteq> source" "handle_external_commitment now_unix h c = Inr h'"
    "get_swap (h_swap_tracker h') (cm_swap_id c) = Some r" "cm_source (sr_init_commitment r) = cm_source c"
    "cm_source (sr_init_commitment r) = channel_as_u8 src" "cm_destination (sr_init_commitment r) = channel_as_u8 ch"
    "hm_get (h_address_lookup_table h') src = Some ours"
    "normalised_address_eq ext src (ad_receiver (cm_addresses (sr_init_commitment r))) ours"
    "build_counter_commitment ext now_unix h' (cm_swap_id c) (sr_init_commitment r) src ch clock = Inr counter"
proof -
  obtain c where c: "ev = Commitment c" "on_commitment ext now_unix h source c clock = (h', Inr effs)"
    using assms by (cases ev) (auto simp: on_refund_def split: sum.splits dest: on_reveal_broadcast)
  have ext: "handle_external_commitment now_unix h c = Inr h'"
    using c(2) by (auto simp: on_commitment_Inr)
  from on_commitment_broadcast [OF c(2) assms(2)]
  have int: "handle_internal_commitment ext now_unix h' c ch clock = Inr counter" "ch \<noteq> source"
    by auto
  then show ?thesis
    using that c(1) ext external_commitment_same_source [OF ext] unfolding handle_internal_commitment_Inr by blast
qed

lemma counter_of_deposit:
  assumes "build_counter_commitment ext now_unix h sid init src dst clock = Inr counter"
  shows "cm_swap_id counter = sid" "cm_source counter = channel_as_u8 dst" "cm_destination counter = channel_as_u8 src"
    "cm_secret_hash counter = cm_secret_hash init"
    "ad_receiver (cm_addresses counter) = ad_sender_destination (cm_addresses init)"
    "\<exists>source_now. clock_now_checked now_unix clock src = Some source_now \<and>
       unat source_now + 2 * unat (lock_time_secs dst) \<le> unat (cm_unlock_ts init)"
proof -
  obtain source_now where now: "clock_now_checked now_unix clock src = Some source_now"
      "\<not> saturating_sub (cm_unlock_ts init) source_now < lock_time_secs dst * 2"
    using assms by (auto simp: build_counter_commitment_Inr)
  have "2 * unat (lock_time_secs dst) \<le> unat (cm_unlock_ts init) - unat source_now" "0 < unat (lock_time_secs dst)"
    using now(2) lock_time_secs_bounds [of dst] by (simp_all add: word_less_nat_alt rust_arith lock_time_twice)
  then show "\<exists>source_now. clock_now_checked now_unix clock src = Some source_now \<and>
      unat source_now + 2 * unat (lock_time_secs dst) \<le> unat (cm_unlock_ts init)"
    using now(1) by (intro exI [of _ source_now]) linarith
qed (use assms in \<open>auto simp: build_counter_commitment_Inr addresses_new_def\<close>)

text \<open>
  (C6) A liquidity provider locks funds only against a deposit. Whenever, in any run of a node, an event makes
  it broadcast a counter lock, the chain of that event has shown a deposit for the same swap that is
  addressed to the provider's address on that chain; the counter lock is on the other chain that the
  deposit names, under the same hash, payable to the address the depositor gave, and the deposit stays
  locked at least twice the lock time of the counter lock from the time of its own chain.
\<close>

theorem provider_answers_deposits:
  assumes start: "node_start E M show_err wasm random_id client cfg cursors db = Inr (nd0, services, intakes)"
    and run: "node_run ext B nd0 tr (nd, (source, ev) # q)"
    and eff: "on_chain_event ext now_unix (nd_handler nd) source ev clock = (h', Inr effs)"
      "Broadcast ch (Commitment counter) \<in> set effs"
  shows "ch \<noteq> source \<and> (\<exists>deposit ours source_now.
    (source, Commitment deposit) \<in> polled tr \<and> cm_swap_id deposit = cm_swap_id counter \<and>
    cm_source deposit = channel_as_u8 source \<and> cm_destination deposit = channel_as_u8 ch \<and>
    hm_get (h_address_lookup_table (nd_handler nd0)) source = Some ours \<and>
    normalised_address_eq ext source (ad_receiver (cm_addresses deposit)) ours \<and>
    cm_source counter = channel_as_u8 ch \<and> cm_destination counter = channel_as_u8 source \<and>
    cm_secret_hash counter = cm_secret_hash deposit \<and>
    ad_receiver (cm_addresses counter) = ad_sender_destination (cm_addresses deposit) \<and>
    clock_now_checked now_unix clock source = Some source_now \<and>
    unat source_now + 2 * unat (lock_time_secs ch) \<le> unat (cm_unlock_ts deposit))"
proof -
  have inv: "run_inv ext B nd0 tr (nd, (source, ev) # q)"
    by (rule run_inv_run [OF run start])
  obtain c r src ours where c: "ev = Commitment c" "ch \<noteq> source" "handle_external_commitment now_unix (nd_handler nd) c = Inr h'"
      "get_swap (h_swap_tracker h') (cm_swap_id c) = Some r" "cm_source (sr_init_commitment r) = cm_source c"
      "cm_source (sr_init_commitment r) = channel_as_u8 src" "cm_destination (sr_init_commitment r) = channel_as_u8 ch"
      "hm_get (h_address_lookup_table h') src = Some ours"
      "normalised_address_eq ext src (ad_receiver (cm_addresses (sr_init_commitment r))) ours"
      "build_counter_commitment ext now_unix h' (cm_swap_id c) (sr_init_commitment r) src ch clock = Inr counter"
    by (rule counter_broadcast_cases [OF eff])
  have polled: "(source, Commitment c) \<in> polled tr" "cm_source c = channel_as_u8 source"
    using inv c(1) by (auto simp: run_inv_def event_of_def)
  then have src: "src = source"
    using c(5,6) by simp
  have h': "handler_step ext (Applied source (Commitment c)) (nd_handler nd) h'"
    using c(3) by (blast intro: handler_step.commitment)
  have "records_on_chain (Applied source (Commitment c) # tr) (h_swap_tracker h')"
    by (rule records_on_chain_step [OF h']) (use inv polled in \<open>auto simp: run_inv_def on_chain_def\<close>)
  then have "(source, Commitment (sr_init_commitment r)) \<in> polled tr" "cm_swap_id (sr_init_commitment r) = cm_swap_id c"
    using c(4,6) src by (fastforce simp: records_on_chain_def on_chain_def)+
  moreover have "h_address_lookup_table h' = h_address_lookup_table (nd_handler nd0)"
    using inv handler_step_tables [OF h'] by (simp add: run_inv_def)
  ultimately show ?thesis
    using c(2,6-9) counter_of_deposit [OF c(10)] unfolding src by auto
qed

section \<open>From the lock to the claim\<close>

text \<open>
  The chain of the deposit, when a provider with a signing key settles: it answers the queries for gas price and
  nonces, it shows the swap open, its hash is that of the secret, and its lock has not run out, unless the
  chain does not tell the block time.
\<close>

definition claimable :: "alloy \<Rightarrow> evm_net \<Rightarrow> ('s, 'c) evm \<Rightarrow> bytes \<Rightarrow> bytes \<Rightarrow> bool" where
  "claimable X net e sid secret = (ev_signed_provider e \<and> retry_timed (en_gas_price net) \<noteq> None \<and>
     (\<exists>addr. account_address X e = Some addr \<and> retry_timed (en_tx_count net addr) \<noteq> None \<and>
        retry_timed (en_tx_count_pending net addr) \<noteq> None) \<and>
     (\<exists>swap. en_swaps net (ev_htlc_address e) sid = Some (Inr swap) \<and> sv_initialized swap \<and> \<not> sv_finalized swap \<and>
        ex_sha256 X secret = sv_secretHash swap \<and>
        (case current_block_timestamp net of None \<Rightarrow> True
         | Some t \<Rightarrow> unat t < unat (sv_timelock swap) \<and> t \<noteq> - 1)))"

lemma replacement_available:
  assumes "rq_get key (ev_queue e) = Some a" "retry_timed (en_gas_price net) \<noteq> None" "account_address X e = Some addr"
    and "retry_timed (en_tx_count net addr) \<noteq> None" "retry_timed (en_tx_count_pending net addr) \<noteq> None"
  shows "\<exists>nonce gas. fst (replacement B D X net key e) = Some (nonce, gas)"
  using assms by (auto simp: replacement_def Let_def split: option.splits prod.splits)

lemma settle_sends_claim:
  assumes "find_claim sid (ev_pending_claims e) = Some r" "rv_swap_id r = sid" "rq_get (claim_key sid) (ev_queue e) = Some a"
    and "claimable X net e sid (rv_secret r)"
  shows "\<exists>tx. snd (fst (evm_settle B D X net (claim_key sid) e)) = [tx] \<and> tx_to tx = ev_htlc_address e \<and>
    tx_call tx = ClaimCall sid (rv_secret r)"
proof -
  obtain swap where swap: "en_swaps net (ev_htlc_address e) sid = Some (Inr swap)" "sv_initialized swap" "\<not> sv_finalized swap"
      "ex_sha256 X (rv_secret r) = sv_secretHash swap"
      "\<And>t. current_block_timestamp net = Some t \<Longrightarrow> unat t < unat (sv_timelock swap) \<and> t \<noteq> - 1"
    using assms(4) by (auto simp: claimable_def split: option.splits)
  obtain addr where addr: "account_address X e = Some addr" "retry_timed (en_tx_count net addr) \<noteq> None"
      "retry_timed (en_tx_count_pending net addr) \<noteq> None" "retry_timed (en_gas_price net) \<noteq> None"
    using assms(4) unfolding claimable_def by blast
  from replacement_available [OF assms(3) addr(4,1,2,3), of B D]
  obtain nonce gas e' where rep: "replacement B D X net (claim_key sid) e = (Some (nonce, gas), e')"
    by (cases "replacement B D X net (claim_key sid) e") auto
  then have htlc: "ev_htlc_address e' = ev_htlc_address e"
    using replacement_frame(1) by (metis snd_conv)
  define lock :: u64 where "lock = (if unat (sv_timelock swap) < 2 ^ 64 then ucast (sv_timelock swap) else - 1)"
  have "\<not> lock \<le> t" if t: "current_block_timestamp net = Some t" for t
  proof (cases "unat (sv_timelock swap) < 2 ^ 64")
    case True
    then have "unat lock = unat (sv_timelock swap)"
      by (simp add: lock_def unsigned_ucast_eq take_bit_nat_eq_self)
    then show ?thesis
      using swap(5) [OF t] by (simp add: word_le_nat_alt)
  qed (use swap(5) [OF t] in \<open>simp add: lock_def word_order.extremum_unique\<close>)
  then have "claim_skip_reason True False True (current_block_timestamp net) lock = None"
    by (simp add: claim_skip_reason_def split: option.split)
  then have "\<exists>tx. snd (evm_submit_claim X net (ev_htlc_address e) r nonce gas (ev_gas_payment e')) = [tx] \<and>
      tx_to tx = ev_htlc_address e \<and> tx_call tx = ClaimCall sid (rv_secret r)"
    using swap(1-4) assms(2)
    by (auto simp: evm_submit_claim_def secret_matches_def Let_def base_tx_def apply_gas_and_nonce_def lock_def
        split: gas_payment.splits if_splits)
  then show ?thesis
    using assms(1,4) rep htlc
    by (auto simp: evm_settle_def evm_settle_claim_def claim_key_def find_claim_def claimable_def evm_signed_def
        split: prod.splits sum.splits)
qed

lemma claimable_frame:
  "ev_htlc_address e' = ev_htlc_address e \<Longrightarrow> ev_signed_provider e' = ev_signed_provider e \<Longrightarrow>
     ev_private_key e' = ev_private_key e \<Longrightarrow> claimable X net e' sid secret = claimable X net e sid secret"
  by (simp add: claimable_def account_address_def)

text \<open>
  (C8) From the paid taker to the claim of the provider, for a deposit on an EVM chain. When a chain shows the
  taker a lock that matches its pending claim, and the taker's handler accepts that commitment, every connected peer
  is sent the secret. Take a provider that participates on the deposit's EVM channel, holds no claim for this
  swap yet (a claim with a wrong secret would block the slot), and for whom the message is new. Once
  it has handled the bytes it received, the claim of the deposit is in its queue; and if it can sign, the
  chain answers, shows the swap initialised and open under the hash of the secret, and its block
  time, when it can be read, is before the end of the lock, then settling sends exactly one transaction, to
  the contract, that claims the deposit with the secret. The message has to fit the size limit and the
  Borsh codec has to round-trip.
\<close>

theorem paid_secret_claims_deposit:
  fixes taker :: "('s, 'c, 't) node" and lp :: "('a, 'b, 'p) node"
  assumes taker: "nd_wasm taker" "hm_get (nd_pending_claims taker) (cm_swap_id c) = Some claim"
      "pending_claim_matches (nv_ext V) claim c"
      "is_ok (handle_external_commitment (nv_now V) (nd_handler taker) c)" "is_ok (try_channel (cm_destination c))"
    and codec: "pn_codec (nv_net V) = B" "borsh_roundtrip B"
      "p2p_encode B (RevealMsg (reveal_new (cm_swap_id c) (pm_secret claim))) = Inr bs" "length bs \<le> MAX_MESSAGE_BYTES"
    and peer: "p \<in> set (nw_connected_peers (nd_network taker))"
    and lp: "hm_get (sk_buffers (nd_sink lp)) ch = Some (EvmBuf e)" "ev_participate_ccr e"
      "find_claim (cm_swap_id c) (ev_pending_claims e) = None"
      "fst (co_forward W u (RevealMsg (reveal_new (cm_swap_id c) (pm_secret claim))) lp) = Inr True"
    and chain: "claimable X net e (cm_swap_id c) (pm_secret claim)"
  shows "(cp_url p, bs) \<in> set (nd_sent (apply_event V source (Commitment c) taker)) \<and>
    (\<exists>m e' tx. p2p_decode B bs = Inr m \<and>
       hm_get (sk_buffers (nd_sink (snd (handle_incoming W u m lp)))) ch = Some (EvmBuf e') \<and>
       rq_get (claim_key (cm_swap_id c)) (ev_queue e') \<noteq> None \<and>
       snd (fst (evm_settle C D X net (claim_key (cm_swap_id c)) e')) = [tx] \<and> tx_to tx = ev_htlc_address e \<and>
       tx_call tx = ClaimCall (cm_swap_id c) (pm_secret claim))"
proof -
  let ?rv = "reveal_new (cm_swap_id c) (pm_secret claim)"
  obtain fresh net' where obs: "observe (nv_net V) bs (nd_network taker) = (fresh, net')"
    by fastforce
  then have "nw_connected_peers net' = nw_connected_peers (nd_network taker)"
    by (auto simp: observe_def split: prod.splits)
  then have "(cp_url p, bs) \<in> set (reveal_sent V (cm_swap_id c) claim (nd_network taker))"
    using codec(1,3) obs peer by (auto simp: reveal_sent_def broadcast_def send_bytes_to_all_def)
  then have sent: "(cp_url p, bs) \<in> set (nd_sent (apply_event V source (Commitment c) taker))"
    by (simp add: paid_lock_reveals [OF taker])
  have decode: "p2p_decode B bs = Inr (RevealMsg ?rv)"
    using p2p_decode_encode [OF codec(2,3)] codec(4) by simp
  from reveal_becomes_claim [OF lp(1-3), of W u "pm_secret claim"] lp(4)
  obtain e' where e': "hm_get (sk_buffers (nd_sink (snd (handle_incoming W u (RevealMsg ?rv) lp)))) ch = Some (EvmBuf e')"
      "find_claim (cm_swap_id c) (ev_pending_claims e') = Some ?rv" "rq_get (claim_key (cm_swap_id c)) (ev_queue e') \<noteq> None"
      "ev_htlc_address e' = ev_htlc_address e" "ev_signed_provider e' = ev_signed_provider e" "ev_private_key e' = ev_private_key e"
    by blast
  have "claimable X net e' (cm_swap_id c) (rv_secret ?rv)"
    using chain claimable_frame [OF e'(4-6)] by (simp add: reveal_new_def)
  with e'(2,3) obtain tx where "snd (fst (evm_settle C D X net (claim_key (cm_swap_id c)) e')) = [tx]"
      "tx_to tx = ev_htlc_address e'" "tx_call tx = ClaimCall (cm_swap_id c) (rv_secret ?rv)"
    using settle_sends_claim [of "cm_swap_id c" e' ?rv] by (fastforce simp: reveal_new_def)
  then show ?thesis
    using sent decode e'(1,3,4) by (auto simp: reveal_new_def)
qed

section \<open>Concrete runs\<close>

text \<open>A buffer as it is connected, and a chain that shows it one lock.\<close>

definition started_evm :: "channel_id \<Rightarrow> string option \<Rightarrow> (mem_db, mem_db) evm" where
  "started_evm ch key = \<lparr>ev_channel_id = ch, ev_htlc_address = bytes_of_chars ''htlc'', ev_minimum_block_confirmations = 3,
     ev_poll_interval_secs = max (DEFAULT_POLL_INTERVAL_MS div 1000) 1, ev_max_blocks_per_poll = DEFAULT_MAX_BLOCKS_PER_POLL,
     ev_participate_ccr = True, ev_gas_payment = Eip1559, ev_private_key = key, ev_signed_provider = (key \<noteq> None),
     ev_poll = \<lparr>pl_cursor = 98\<rparr>, ev_pending_refunds = [], ev_pending_claims = [], ev_next_poll_secs = 0,
     ev_last_block_ts = None, ev_cursor_store = None, ev_swap_store = None, ev_queue = hm_empty\<rparr>"

lemma started_evm_connects:
  "evm_connect record_codec (db_swap_store mem_redb) mem_cursors sample_alloy sample_net (\<lambda>_. sample_net) (\<lambda>_. 1000) ch
     (Inr sample_evm_config) key None None = Inr (started_evm ch key)"
  by (cases key) (simp_all add: evm_connect_def parse_address_def build_providers_def sample_alloy_def sample_net_def retry_timed_first
      Let_def restore_def restored_default_def seed_queue_def reconcile_on_boot_def evm_settler_def rq_due_now_def hm_iter_eval
      sample_evm_config_def restored_cursor_def started_evm_def saturating_add_def saturating_sub_def)

definition shown_lock :: "u8 \<Rightarrow> commitment_log" where
  "shown_lock destination = \<lparr>cl_swapId = replicate 32 1, cl_sender = bytes_of_chars ''from'', cl_receiver = bytes_of_chars ''user'',
     cl_sender_destination_address = bytes_of_chars ''dest'', cl_amount = 10 ^ 18, cl_secretHash = replicate 32 2,
     cl_timelock = 100000, cl_destination = destination\<rparr>"

definition showing_env :: "(mem_db, mem_db) data_env" where
  "showing_env = sample_data_env\<lparr>de_alloy := sample_alloy\<lparr>ex_decode_commitment := (\<lambda>_. Inr (shown_lock 2))\<rparr>,
     de_evm_net := (\<lambda>ch. if ch = EthereumSepolia
       then sample_net\<lparr>en_block_number := (\<lambda>_. Some (Inr 101)),
              en_get_logs := (\<lambda>_ _ _ _. Some (Inr [\<lparr>lg_address = [], lg_topics = [], lg_data = []\<rparr>]))\<rparr>
       else sample_net)\<rparr>"

definition seen_lock :: commitment_v1 where
  "seen_lock = commitment_new (replicate 32 1) (addresses_new ''from'' ''user'' ''dest'') (amount_new (show_nat (10 ^ 18)) 18)
     (replicate 32 2) 100000 1 2"

lemma dest_utf8: "from_utf8_lossy (bytes_of_chars ''dest'') = ''dest''"
  by code_simp

lemma shown_lock_seen: "decode_log (de_alloy showing_env) lg EthereumSepolia = Inr (Some (Commitment seen_lock))"
  by (simp add: decode_log_def showing_env_def shown_lock_def seen_lock_def uint_to_u64_def sample_alloy_def dest_utf8)

lemma poll_shows_lock:
  "\<exists>e. evm_poll_finalized record_codec (db_swap_store mem_redb) mem_cursors (de_alloy showing_env) (de_evm_net showing_env EthereumSepolia)
     (\<lambda>_. 1000) (started_evm EthereumSepolia key) = (Inr [(EthereumSepolia, Commitment seen_lock)], e)"
proof -
  have "poll_once (de_evm_net showing_env EthereumSepolia) htlc 3 DEFAULT_MAX_BLOCKS_PER_POLL \<lparr>pl_cursor = 98\<rparr> =
      ([\<lparr>lg_address = [], lg_topics = [], lg_data = []\<rparr>], \<lparr>pl_cursor = 99\<rparr>)" for htlc
    by (simp add: poll_once_def showing_env_def retry_timed_first sample_net_def Let_def next_range_def advance_def checked_sub_def checked_add_def saturating_add_def DEFAULT_MAX_BLOCKS_PER_POLL_def)
  then show ?thesis
    using shown_lock_seen
    by (simp add: evm_poll_finalized_def started_evm_def Let_def case_prod_beta evm_track_actionable_event_def evm_persist_swap_def)
qed

text \<open>A taker that observes one chain.\<close>

definition started_taker :: "(mem_db, mem_db, unit) node" where
  "started_taker = \<lparr>nd_handler = handler_new (ps_new [EthereumSepolia]) tracker_new (nc_handler sample_node_config) hm_empty
       (hm_insert EthereumSepolia 0 hm_empty),
     nd_network = build_network True (replicate 32 1) [] None,
     nd_sink = \<lparr>sk_buffers = hm_insert EthereumSepolia (EvmBuf (started_evm EthereumSepolia None)) hm_empty\<rparr>,
     nd_role = Observer, nd_wasm = True, nd_pending_claims = hm_empty, nd_sent = [], nd_txs = [], nd_dials = [],
     nd_statuses = [], nd_quotes = []\<rparr>"

lemma taker_starts:
  "\<exists>services. node_start sample_data_env sample_json_dial (\<lambda>_. []) True (replicate 32 1) (Inr ()) sample_node_config None None =
     Inr (started_taker, services, [])"
  using started_evm_connects [of EthereumSepolia None]
  by (simp add: node_start_def build_handler_and_sink_def sink_new_def build_buffer_def hm_iter_eval sample_node_config_def
      sample_data_env_def sample_json_dial_def started_taker_def minimum_block_confirmations_def json_get_def)

definition showing_node_env :: "(mem_db, mem_db, unit) node_env" where
  "showing_node_env = sample_node_env\<lparr>nv_data := showing_env\<rparr>"

lemma showing_env_ok: "env_ok sample_ext msg_codec showing_node_env"
  by (simp add: env_ok_def showing_node_env_def sample_node_env_def sample_p2p_net_def sample_ext_def id_def)

definition asked_swap :: commitment_v1 where
  "asked_swap = commitment_new (replicate 32 1) (addresses_new ''us'' ''lp'' ''user'') (amount_new ''7'' 18) (replicate 32 2) 200000 2 1"

definition asking_taker :: "(mem_db, mem_db, unit) node" where
  "asking_taker = started_taker\<lparr>
     nd_network := (nd_network started_taker)\<lparr>nw_connected_peers := [connected_peer_new ''ws://peer'' ()]\<rparr>,
     nd_pending_claims := hm_insert (replicate 32 1) \<lparr>pm_secret = replicate 32 2, pm_expected_counter_chain = EthereumSepolia,
       pm_expected_secret_hash = replicate 32 2, pm_expected_destination_address = ''user'',
       pm_expected_amount_out = amount_new ''100'' 18\<rparr> hm_empty\<rparr>"

lemma taker_asks:
  "node_run sample_ext msg_codec started_taker [Registered asked_swap (replicate 32 2) ''100'', Internal] (asking_taker, [])"
proof -
  let ?peer = "connected_peer_new ''ws://peer'' ()"
  let ?s = "\<lparr>cn_net = nd_network started_taker, cn_counter = 0\<rparr>"
  have "conn_step (?s, [(?peer, AtAdd)]) (conn_add ?peer ?s, [(?peer, Connected)])"
    using conn_step.add [of 0 "[(?peer, AtAdd)]" ?peer ?s] by simp
  from node_step.connection [OF this, of sample_ext msg_codec "[]"]
  have run: "node_run sample_ext msg_codec started_taker [Internal]
      (started_taker\<lparr>nd_network := cn_net (conn_add ?peer ?s)\<rparr>, [])"
    by (blast intro: run_step run_start)
  have "snd (register_commitment showing_node_env asked_swap (replicate 32 2) ''100''
      (started_taker\<lparr>nd_network := cn_net (conn_add ?peer ?s)\<rparr>)) = asking_taker"
    by (simp add: register_commitment_def asking_taker_def started_taker_def conn_add_def add_connected_peer_def asked_swap_def
        commitment_new_def addresses_new_def channel_try_from_def showing_node_env_def sample_node_env_def sample_p2p_net_def
        parse_samples Let_def build_network_def p2p_new_def)
  then obtain r where "register_commitment showing_node_env asked_swap (replicate 32 2) ''100''
      (started_taker\<lparr>nd_network := cn_net (conn_add ?peer ?s)\<rparr>) = (r, asking_taker)"
    by (metis prod.collapse)
  from run_step [OF run node_step.register [OF showing_env_ok this]] show ?thesis .
qed

abbreviation lock_trace :: "node_label list" where
  "lock_trace \<equiv> [Polled [(EthereumSepolia, Commitment seen_lock)], Registered asked_swap (replicate 32 2) ''100'', Internal]"

lemma taker_polls: "\<exists>sk. node_run sample_ext msg_codec started_taker lock_trace
    (asking_taker\<lparr>nd_sink := sk\<rparr>, [(EthereumSepolia, Commitment seen_lock)])"
proof -
  obtain sk where "sink_finalized_chunk showing_env (nd_sink asking_taker) = (Inr [(EthereumSepolia, Commitment seen_lock)], sk)"
    using poll_shows_lock [of None]
    by (auto simp: sink_finalized_chunk_def asking_taker_def started_taker_def hm_iter_eval buf_finalized_chunk_def showing_env_def
        sample_data_env_def)
  from run_step [OF taker_asks node_step.poll [OF this]] show ?thesis
    by blast
qed

definition asked_claim :: pending_claim where
  "asked_claim = \<lparr>pm_secret = replicate 32 2, pm_expected_counter_chain = EthereumSepolia, pm_expected_secret_hash = replicate 32 2,
     pm_expected_destination_address = ''user'', pm_expected_amount_out = amount_new ''100'' 18\<rparr>"

lemma seen_lock_facts:
  "cm_swap_id seen_lock = replicate 32 1" "is_ok (try_channel (cm_destination seen_lock))"
  "pending_claim_matches (nv_ext showing_node_env) asked_claim seen_lock"
  by (simp_all add: seen_lock_def commitment_new_def try_channel_def channel_try_from_def pending_claim_matches_def asked_claim_def
      at_least_iff amount_new_def addresses_new_def normalised_address_eq_def parse_samples(2) parse_uint_show_nat)

lemma asking_taker_facts:
  assumes "nd = asking_taker\<lparr>nd_sink := sk\<rparr>"
  shows "nd_wasm nd" "hm_get (nd_pending_claims nd) (cm_swap_id seen_lock) = Some asked_claim"
    "is_ok (handle_external_commitment (nv_now showing_node_env) (nd_handler nd) seen_lock)"
    "nw_connected_peers (nd_network nd) = [connected_peer_new ''ws://peer'' ()]"
  by (simp_all add: assms asking_taker_def started_taker_def seen_lock_facts asked_claim_def handler_new_def
      handle_external_commitment_def tracker_new_def get_swap_def with_tracker_def set_init_commitment_def hm_contains_def)

lemma asked_reveal_encodes: "p2p_encode msg_codec (RevealMsg (reveal_new (cm_swap_id seen_lock) (pm_secret asked_claim))) = Inr sample_payload"
  using sample_payload_encodes by (simp add: sample_reveal_msg_def seen_lock_facts asked_claim_def)

lemma taker_reveals:
  assumes "nd = asking_taker\<lparr>nd_sink := sk\<rparr>"
  shows "(''ws://peer'', sample_payload) \<in> set (nd_sent (apply_event showing_node_env EthereumSepolia (Commitment seen_lock) nd))"
proof -
  note nd = asking_taker_facts [OF assms]
  have "(''ws://peer'', sample_payload) \<in> set (reveal_sent showing_node_env (cm_swap_id seen_lock) asked_claim (nd_network nd))"
    using asked_reveal_encodes nd(4)
    by (simp add: reveal_sent_def broadcast_def showing_node_env_def sample_node_env_def sample_p2p_net_def observe_def
        send_bytes_to_all_def connected_peer_new_def split: prod.split)
  then show ?thesis
    unfolding paid_lock_reveals(1) [OF nd(1,2) seen_lock_facts(3) nd(3) seen_lock_facts(2)] by simp
qed

lemma taker_run:
  "\<exists>nd services. node_start sample_data_env sample_json_dial (\<lambda>_. []) True (replicate 32 1) (Inr ()) sample_node_config None None =
       Inr (started_taker, services, []) \<and>
     node_run sample_ext msg_codec started_taker (Applied EthereumSepolia (Commitment seen_lock) # lock_trace) (nd, []) \<and>
     (''ws://peer'', sample_payload) \<in> set (nd_sent nd)"
proof -
  obtain sk where run: "node_run sample_ext msg_codec started_taker lock_trace
      (asking_taker\<lparr>nd_sink := sk\<rparr>, [(EthereumSepolia, Commitment seen_lock)])"
    using taker_polls by blast
  from run_step [OF run node_step.event [OF showing_env_ok]] taker_reveals [OF refl, of sk] taker_starts show ?thesis
    by blast
qed

theorem secret_kept_until_funded_witness:
  "\<exists>nd services. node_start sample_data_env sample_json_dial (\<lambda>_. []) True (replicate 32 1) (Inr ()) sample_node_config None None =
       Inr (started_taker, services, []) \<and>
     node_run sample_ext msg_codec started_taker (Applied EthereumSepolia (Commitment seen_lock) # lock_trace) (nd, []) \<and>
     (''ws://peer'', sample_payload) \<in> set (nd_sent nd) \<and>
     funded sample_ext (Applied EthereumSepolia (Commitment seen_lock) # lock_trace) (reveal_new (replicate 32 1) (replicate 32 2))"
proof -
  obtain nd services where run: "node_start sample_data_env sample_json_dial (\<lambda>_. []) True (replicate 32 1) (Inr ()) sample_node_config
        None None = Inr (started_taker, services, [])"
      "node_run sample_ext msg_codec started_taker (Applied EthereumSepolia (Commitment seen_lock) # lock_trace) (nd, [])"
      "(''ws://peer'', sample_payload) \<in> set (nd_sent nd)"
    using taker_run by blast
  have "bo_to_vec msg_codec (RevealMsg (reveal_new (replicate 32 1) (replicate 32 2))) = Inr sample_payload"
    using sample_payload_encodes by (simp add: sample_reveal_msg_def p2p_encode_def map_err_eq_Inr)
  from secret_kept_until_funded [OF run(1,2) msg_codec_roundtrip run(3) this] run show ?thesis
    by auto
qed

text \<open>A provider of two chains, once it has prices, sees a deposit to its address.\<close>

definition two_chain_config :: node_config where
  "two_chain_config = sample_node_config\<lparr>nc_channels := hm_insert IgraGalleon \<lparr>cs_config = JNull, cs_lp_private_key = Some ''user''\<rparr>
     (hm_insert EthereumSepolia \<lparr>cs_config = JNull, cs_lp_private_key = Some ''user''\<rparr> hm_empty), nc_role := Lp\<rparr>"

lemma sample_aggregate_two:
  "aggregate sample_exchanges False [EthereumSepolia, IgraGalleon] = Inr [(EthereumSepolia, Fin 2), (IgraGalleon, Fin 2)]"
proof -
  let ?good = "\<lparr>sm_price = Fin 2, sm_volume_usd = Fin 100\<rparr>" and ?bad = "\<lparr>sm_price = Fin 1000, sm_volume_usd = Fin 999999\<rparr>"
  let ?both = "\<lambda>s. [(EthereumSepolia, s), (IgraGalleon, s)]"
  have "mexc_single sample_exchanges i sy = Inr ?bad" "bybit_single sample_exchanges i sy = Inr ?good"
    "gateio_single sample_exchanges i sy = Inr ?good" for i sy
    by (simp_all add: sample_exchanges_def mexc_single_def bybit_single_def gateio_single_def sample_of_def sample_numbers)
  then have "mexc sample_exchanges [EthereumSepolia, IgraGalleon] i = Inr (?both ?bad)"
    "bybit sample_exchanges [EthereumSepolia, IgraGalleon] i = Inr (?both ?good)"
    "gateio sample_exchanges [EthereumSepolia, IgraGalleon] i = Inr (?both ?good)" for i
    by (simp_all add: mexc_def bybit_def gateio_def fetch_channels_def symbol_channels_def hm_iter_eval fetch_symbol_def
        mexc_symbol_def bybit_symbol_def gateio_symbol_def)
  then have "source_results sample_exchanges False [EthereumSepolia, IgraGalleon] = [Inr (?both ?bad), Inr (?both ?good), Inr (?both ?good)]"
    by (simp add: source_results_def with_retry_first sample_exchanges_def)
  moreover have "robust_price False [?bad, ?good, ?good] = Some (Fin 2)"
    by (simp add: robust_price_def MIN_SOURCES_def valid_sample_def median_def sort_prices_def near_median_def
        max_deviation f_sub_def weighted_price_def f_sum_def)
  ultimately show ?thesis
    by (simp add: aggregate_def collect_samples_def List.map_filter_def)
qed

definition started_provider :: "(mem_db, mem_db, unit) node" where
  "started_provider = \<lparr>nd_handler = handler_new (ps_new [EthereumSepolia, IgraGalleon]) tracker_new (nc_handler sample_node_config)
       (hm_insert IgraGalleon ''user'' (hm_insert EthereumSepolia ''user'' hm_empty))
       (hm_insert IgraGalleon 0 (hm_insert EthereumSepolia 0 hm_empty)),
     nd_network = build_network False (replicate 32 1) [] None,
     nd_sink = \<lparr>sk_buffers = hm_insert IgraGalleon (EvmBuf (started_evm IgraGalleon (Some ''user'')))
       (hm_insert EthereumSepolia (EvmBuf (started_evm EthereumSepolia (Some ''user''))) hm_empty)\<rparr>,
     nd_role = Lp, nd_wasm = False, nd_pending_claims = hm_empty, nd_sent = [], nd_txs = [], nd_dials = [],
     nd_statuses = [], nd_quotes = []\<rparr>"

lemma provider_starts:
  "\<exists>services. node_start sample_data_env sample_json_dial (\<lambda>_. []) False (replicate 32 1) (Inr ()) two_chain_config None None =
     Inr (started_provider, services, [])"
  using started_evm_connects [of EthereumSepolia "Some ''user''"] started_evm_connects [of IgraGalleon "Some ''user''"]
  by (simp add: node_start_def build_handler_and_sink_def sink_new_def build_buffer_def hm_iter_eval two_chain_config_def
      sample_node_config_def sample_data_env_def sample_json_dial_def started_provider_def minimum_block_confirmations_def json_get_def
      spawn_native_services_def sink_lp_address_def sink_buffer_def buf_lp_address_def evm_lp_address_def address_from_private_key_def
      sample_alloy_def started_evm_def)

definition priced_handler :: handler where
  "priced_handler = (nd_handler started_provider)\<lparr>h_price_storage :=
     oracle_round sample_exchanges (\<lambda>_. (1000, 1000)) (h_price_storage (nd_handler started_provider))\<rparr>"

lemma priced_handler_facts:
  "ps_get 1000 (h_price_storage priced_handler) EthereumSepolia = Some (Fin 2)"
  "ps_get 1000 (h_price_storage priced_handler) IgraGalleon = Some (Fin 2)"
proof -
  let ?ps = "ps_new [EthereumSepolia, IgraGalleon]"
  have "ps_channels_list ?ps = [EthereumSepolia, IgraGalleon]"
    by (simp add: ps_channels_list_def ps_new_def ps_with_max_age_def hm_iter_eval)
  then show "ps_get 1000 (h_price_storage priced_handler) EthereumSepolia = Some (Fin 2)"
    "ps_get 1000 (h_price_storage priced_handler) IgraGalleon = Some (Fin 2)"
    by (simp_all add: priced_handler_def started_provider_def handler_new_def oracle_round_def update_all_prices_def
        sample_aggregate_two ps_set_def)
      (simp_all add: ps_get_def ps_new_def ps_with_max_age_def saturating_sub_def)
qed

lemma provider_polls: "\<exists>sk. node_run sample_ext msg_codec started_provider
    [Polled [(EthereumSepolia, Commitment seen_lock)], Internal]
    (started_provider\<lparr>nd_handler := priced_handler, nd_sink := sk\<rparr>, [(EthereumSepolia, Commitment seen_lock)])"
proof -
  have run: "node_run sample_ext msg_codec started_provider [Internal] (started_provider\<lparr>nd_handler := priced_handler\<rparr>, [])"
    unfolding priced_handler_def by (rule run_step [OF run_start node_step.feed])
  have "poll_once sample_net htlc 3 DEFAULT_MAX_BLOCKS_PER_POLL \<lparr>pl_cursor = 98\<rparr> = ([], \<lparr>pl_cursor = 98\<rparr>)" for htlc
    by (simp add: poll_once_def retry_timed_first sample_net_def next_range_def checked_sub_def checked_add_def)
  then have quiet: "\<exists>e. evm_poll_finalized record_codec (db_swap_store mem_redb) mem_cursors (de_alloy showing_env) sample_net (\<lambda>_. 1000)
      (started_evm IgraGalleon key) = (Inr [], e)" for key
    by (simp add: evm_poll_finalized_def started_evm_def Let_def)
  obtain sk where "sink_finalized_chunk showing_env (nd_sink (started_provider\<lparr>nd_handler := priced_handler\<rparr>)) =
      (Inr [(EthereumSepolia, Commitment seen_lock)], sk)"
    using poll_shows_lock [of "Some ''user''"] quiet [of "Some ''user''"]
    by (auto simp: sink_finalized_chunk_def started_provider_def hm_iter_eval buf_finalized_chunk_def showing_env_def
        sample_data_env_def)
  from run_step [OF run node_step.poll [OF this]] show ?thesis
    by auto
qed

definition two_chain_clock :: chain_clock where
  "two_chain_clock = clock_new (hm_insert IgraGalleon 1000 (hm_insert EthereumSepolia 1000 hm_empty))"

lemma provider_replies:
  "\<exists>h' counter. on_chain_event sample_ext 1000 priced_handler EthereumSepolia (Commitment seen_lock) two_chain_clock =
     (h', Inr [TransmitReveal seen_lock, Broadcast IgraGalleon (Commitment counter)])"
proof -
  let ?r = "\<lparr>sr_init_commitment = seen_lock, sr_counter_commitment = None, sr_resolution = None, sr_created_at = 1000\<rparr>"
  let ?h = "priced_handler\<lparr>h_swap_tracker := \<lparr>swaps = hm_insert (replicate 32 1) ?r hm_empty\<rparr>\<rparr>"
  have tracker: "h_swap_tracker priced_handler = tracker_new"
      "h_address_lookup_table priced_handler = hm_insert IgraGalleon ''user'' (hm_insert EthereumSepolia ''user'' hm_empty)"
      "h_config priced_handler = nc_handler sample_node_config"
    by (simp_all add: priced_handler_def started_provider_def handler_new_def)
  have ext: "handle_external_commitment 1000 priced_handler seen_lock = Inr ?h"
    by (simp add: handle_external_commitment_def tracker tracker_new_def get_swap_def with_tracker_def set_init_commitment_def
        hm_contains_def seen_lock_def commitment_new_def)
  have parse: "x_u256_from_str sample_ext (show_nat 1000000000000000000) = Some (10 ^ 18)"
    by (simp add: sample_ext_def parse_uint_show_nat)
  have out: "amount_out 1000000000000000000 (Fin 2) 18 (Fin 2) 18 (Fin (1 / 2)) = Inr 995000000000000000"
    by (simp add: amount_out_def price_fixed_2_3 Let_def spread_bps_def rescale_def checked_mul_def checked_div_def saturating_sub_def)
  have "fl 1000000000000000000 = Fin (of_int 7812500000000000 * 2 powi (59 - 52))"
    by (rule fl_eval) (simp_all add: power_int_def power_one_over round_even_def Let_def)
  then have usd: "amount_in_usd 1000000000000000000 18 (Fin 2) = Fin 2"
    by (simp add: amount_in_usd_def f_of_nat_def)
  have "\<exists>counter. build_counter_commitment sample_ext 1000 ?h (replicate 32 1) seen_lock EthereumSepolia IgraGalleon two_chain_clock = Inr counter"
    unfolding build_counter_commitment_def
    using priced_handler_facts parse out usd
    by (simp add: seen_lock_def commitment_new_def amount_new_def tracker sample_node_config_def clock_now_checked_def
        clock_new_def two_chain_clock_def saturating_sub_def required_init_lock_secs_def)
  then obtain counter where "build_counter_commitment sample_ext 1000 ?h (replicate 32 1) seen_lock EthereumSepolia IgraGalleon
      two_chain_clock = Inr counter"
    by blast
  then have "handle_internal_commitment sample_ext 1000 ?h seen_lock IgraGalleon two_chain_clock = Inr counter"
    by (simp add: handle_internal_commitment_def get_swap_def tracker normalised_address_eq_def seen_lock_def commitment_new_def
        addresses_new_def try_channel_def channel_try_from_def)
  moreover have "cm_destination seen_lock = 2" "try_channel 2 = Inr IgraGalleon"
    by (simp_all add: seen_lock_def commitment_new_def)
  ultimately show ?thesis
    using ext by (simp add: on_commitment_def del: try_channel_Inr)
qed

theorem provider_answers_deposits_witness:
  "\<exists>services sk h' counter deposit.
     node_start sample_data_env sample_json_dial (\<lambda>_. []) False (replicate 32 1) (Inr ()) two_chain_config None None =
       Inr (started_provider, services, []) \<and>
     node_run sample_ext msg_codec started_provider [Polled [(EthereumSepolia, Commitment seen_lock)], Internal]
       (started_provider\<lparr>nd_handler := priced_handler, nd_sink := sk\<rparr>, [(EthereumSepolia, Commitment seen_lock)]) \<and>
     on_chain_event sample_ext 1000 priced_handler EthereumSepolia (Commitment seen_lock) two_chain_clock =
       (h', Inr [TransmitReveal seen_lock, Broadcast IgraGalleon (Commitment counter)]) \<and>
     deposit = seen_lock \<and> cm_secret_hash counter = cm_secret_hash deposit"
proof -
  obtain services sk h' counter where
    start: "node_start sample_data_env sample_json_dial (\<lambda>_. []) False (replicate 32 1) (Inr ()) two_chain_config None None =
       Inr (started_provider, services, [])" and
    run: "node_run sample_ext msg_codec started_provider [Polled [(EthereumSepolia, Commitment seen_lock)], Internal]
       (started_provider\<lparr>nd_handler := priced_handler, nd_sink := sk\<rparr>, [(EthereumSepolia, Commitment seen_lock)])" and
    reply: "on_chain_event sample_ext 1000 priced_handler EthereumSepolia (Commitment seen_lock) two_chain_clock =
       (h', Inr [TransmitReveal seen_lock, Broadcast IgraGalleon (Commitment counter)])"
    using provider_starts provider_polls provider_replies by blast
  have "on_chain_event sample_ext 1000 (nd_handler (started_provider\<lparr>nd_handler := priced_handler, nd_sink := sk\<rparr>)) EthereumSepolia
      (Commitment seen_lock) two_chain_clock = (h', Inr [TransmitReveal seen_lock, Broadcast IgraGalleon (Commitment counter)])"
    using reply by simp
  from provider_answers_deposits [OF start run this, of IgraGalleon counter]
  have "cm_secret_hash counter = cm_secret_hash seen_lock"
    by auto
  with start run reply show ?thesis
    by blast
qed

theorem tracked_swaps_are_on_chain_witness:
  "\<exists>nd services. node_start sample_data_env sample_json_dial (\<lambda>_. []) True (replicate 32 1) (Inr ()) sample_node_config None None =
       Inr (started_taker, services, []) \<and>
     node_run sample_ext msg_codec started_taker (Applied EthereumSepolia (Commitment seen_lock) # lock_trace) (nd, []) \<and>
     (\<exists>r. get_swap (h_swap_tracker (nd_handler nd)) (replicate 32 1) = Some r \<and>
        on_chain (Applied EthereumSepolia (Commitment seen_lock) # lock_trace) (sr_init_commitment r))"
proof -
  obtain sk services where run: "node_run sample_ext msg_codec started_taker lock_trace
      (asking_taker\<lparr>nd_sink := sk\<rparr>, [(EthereumSepolia, Commitment seen_lock)])"
    and start: "node_start sample_data_env sample_json_dial (\<lambda>_. []) True (replicate 32 1) (Inr ()) sample_node_config None None =
       Inr (started_taker, services, [])"
    using taker_polls taker_starts by blast
  let ?nd = "apply_event showing_node_env EthereumSepolia (Commitment seen_lock) (asking_taker\<lparr>nd_sink := sk\<rparr>)"
  note run' = run_step [OF run node_step.event [OF showing_env_ok]]
  have tracker: "h_swap_tracker (nd_handler (asking_taker\<lparr>nd_sink := sk\<rparr>)) = tracker_new"
    by (simp add: asking_taker_def started_taker_def handler_new_def)
  have "\<exists>r. get_swap (h_swap_tracker (nd_handler ?nd)) (replicate 32 1) = Some r"
    unfolding apply_event_handler [OF showing_env_ok] on_chain_event.simps on_commitment_def
    by (simp add: handle_external_commitment_def tracker [simplified] tracker_new_def get_swap_def with_tracker_def set_init_commitment_def
        hm_contains_def seen_lock_def commitment_new_def)
  then show ?thesis
    using run' start tracked_swaps_are_on_chain [OF start run'] by blast
qed

text \<open>The chain of the deposit shows the swap open; the provider hears of the secret for the first time.\<close>

definition open_net :: evm_net where
  "open_net = sample_net\<lparr>en_swaps := (\<lambda>_ _. Some (Inr \<lparr>sv_sender = [], sv_sender_destination_address = [], sv_receiver = [],
     sv_amount = 10 ^ 18, sv_secretHash = replicate 32 2, sv_timelock = 100000, sv_initialized = True,
     sv_finalized = False\<rparr>))\<rparr>"

theorem paid_secret_claims_deposit_witness:
  "\<exists>m e' tx. p2p_decode msg_codec sample_payload = Inr m \<and>
     hm_get (sk_buffers (nd_sink (snd (handle_incoming sample_node_env ''ws://taker'' m started_provider)))) IgraGalleon = Some (EvmBuf e') \<and>
     snd (fst (evm_settle record_codec (db_swap_store mem_redb) sample_alloy open_net (claim_key (replicate 32 1)) e')) = [tx] \<and>
     tx_call tx = ClaimCall (replicate 32 1) (replicate 32 2)"
proof -
  let ?e = "started_evm IgraGalleon (Some ''user'')"
  note taker = asking_taker_facts [where sk = "nd_sink asking_taker" and nd = asking_taker, simplified]
  have lp: "hm_get (sk_buffers (nd_sink started_provider)) IgraGalleon = Some (EvmBuf ?e)" "ev_participate_ccr ?e"
      "find_claim (cm_swap_id seen_lock) (ev_pending_claims ?e) = None"
    by (simp_all add: started_provider_def started_evm_def find_claim_def)
  have fresh: "fst (co_forward sample_node_env ''ws://taker'' (RevealMsg (reveal_new (cm_swap_id seen_lock) (pm_secret asked_claim)))
      started_provider) = Inr True"
    using asked_reveal_encodes
    by (simp add: co_forward_def forward_def sample_node_env_def sample_p2p_net_def observe_def started_provider_def build_network_def
        p2p_new_def seen_insert_def seen_new_def split: prod.split)
  have chain: "claimable sample_alloy open_net ?e (cm_swap_id seen_lock) (pm_secret asked_claim)"
    by (simp add: claimable_def open_net_def sample_net_def retry_timed_first started_evm_def account_address_def sample_alloy_def
        address_from_private_key_def current_block_timestamp_def asked_claim_def)
  have codec: "pn_codec (nv_net showing_node_env) = msg_codec" "length sample_payload \<le> MAX_MESSAGE_BYTES"
    by (simp_all add: showing_node_env_def sample_node_env_def sample_p2p_net_def sample_payload_def MAX_MESSAGE_BYTES_def)
  from paid_secret_claims_deposit [OF taker(1,2) seen_lock_facts(3) taker(3) seen_lock_facts(2) codec(1) msg_codec_roundtrip
      asked_reveal_encodes codec(2) _ lp fresh chain, of "connected_peer_new ''ws://peer'' ()" EthereumSepolia record_codec
      "db_swap_store mem_redb"] taker(4)
  show ?thesis
    by (auto simp: seen_lock_facts asked_claim_def)
qed

end
