(* ===== verification/Node_Gossip.thy ===== *)
theory Node_Gossip
  imports Node_Safety
begin

text \<open>
  A network of whole nodes. A message that arrives is decoded and handed to \<open>handle_incoming\<close> of the
  coordinator, which decides whether it is relayed: always for a revealed secret, for a script announcement
  when its script is not too long, and never for states, quotes and rejections (a request for a
  quote is relayed by nodes that serve its channels and may also be answered, which is not followed here).
  The result is that a relayed message reaches every connected node, whatever the order of the
  deliveries, and that the flood ends.
\<close>

inductive relay_step ::
  "'t p2p_net \<Rightarrow> 'n route \<Rightarrow> ('n \<Rightarrow> ('s, 'c, 't) node) \<times> 'n in_flight \<Rightarrow> ('n \<Rightarrow> ('s, 'c, 't) node) \<times> 'n in_flight \<Rightarrow> bool"
  for N route where
  handled: "pn_codec (nv_net W) = pn_codec N \<Longrightarrow> pn_sha256 (nv_net W) = pn_sha256 N \<Longrightarrow>
    p2p_decode (pn_codec N) payload = Inr msg \<Longrightarrow> handle_incoming W u msg (nodes k) = (r, nd) \<Longrightarrow>
    nd_sent nd = nd_sent (nodes k) @ out \<Longrightarrow>
    relay_step N route (nodes, xs @ (k, u, payload) # ys) (nodes(k := nd), xs @ ys @ post route k out)"
| undecodable: "p2p_decode (pn_codec N) payload = Inl e \<Longrightarrow>
    relay_step N route (nodes, xs @ (k, u, payload) # ys) (nodes, xs @ ys)"

text \<open>The messages that every node relays.\<close>

fun relayed :: "p2p_msg \<Rightarrow> bool" where
  "relayed (RevealMsg r) = True"
| "relayed (ScriptAnnounceMsg s) = (length (sc_redeem_script s) \<le> MAX_REDEEM_SCRIPT_BYTES)"
| "relayed _ = False"

definition network_of :: "('n \<Rightarrow> ('s, 'c, 't) node) \<times> 'n in_flight \<Rightarrow> ('n \<Rightarrow> 't p2p) \<times> 'n in_flight" where
  "network_of s = (\<lambda>n. nd_network (fst s n), snd s)"

section \<open>A delivery to a node is a delivery to its network layer\<close>

lemma forward_cong:
  "pn_codec N = pn_codec M \<Longrightarrow> pn_sha256 N = pn_sha256 M \<Longrightarrow> forward N u msg p = forward M u msg p"
proof -
  assume "pn_codec N = pn_codec M" "pn_sha256 N = pn_sha256 M"
  moreover from this(2) have "observe N bs p = observe M bs p" for bs
    by (simp add: observe_def seen_hash_def)
  ultimately show ?thesis
    by (simp add: forward_def split: sum.split)
qed

lemma broadcast_event_network:
  "nd_network (co_broadcast_event V ch ev nd) = nd_network nd" "nd_sent (co_broadcast_event V ch ev nd) = nd_sent nd"
  by (simp_all add: co_broadcast_event_def split: prod.split)

lemma broadcast_events_network:
  "nd_network (fold (\<lambda>ch. co_broadcast_event V ch ev) chs nd) = nd_network nd"
  "nd_sent (fold (\<lambda>ch. co_broadcast_event V ch ev) chs nd) = nd_sent nd"
  by (induction chs arbitrary: nd) (simp_all add: broadcast_event_network)

lemma relayed_is_forwarded:
  assumes "relayed m" "handle_incoming W u m nd = (r, nd')" "forward (nv_net W) u m (nd_network nd) = (f, net, out)"
  shows "nd_network nd' = net" "nd_sent nd' = nd_sent nd @ out"
proof -
  have "nd_network nd' = net \<and> nd_sent nd' = nd_sent nd @ out"
  proof (cases m)
    case (RevealMsg rv)
    with assms show ?thesis
      by (auto simp: handle_incoming_def co_on_reveal_def co_forward_def Let_def broadcast_events_network
          split: sum.splits bool.splits)
  next
    case (ScriptAnnounceMsg s)
    with assms show ?thesis
      by (auto simp: handle_incoming_def on_script_announce_def co_forward_def not_less
          split: sum.splits bool.splits option.splits prod.splits)
  qed (use assms(1) in simp_all)
  then show "nd_network nd' = net" "nd_sent nd' = nd_sent nd @ out"
    by auto
qed

lemma relay_step_floods:
  assumes "relay_step N route s s'" and codec: "borsh_roundtrip (pn_codec N)" "p2p_encode (pn_codec N) m = Inr payload"
      "length payload \<le> MAX_MESSAGE_BYTES"
    and "relayed m" and inv: "flood_inv N V route nodes0 payload (network_of s)"
  shows "flood_step N route (network_of s) (network_of s')"
proof -
  have only: "b = payload" if "(k, u, b) \<in> set (snd s)" for k u b
    using flood_invD(3) [OF inv [unfolded network_of_def], of k u b] that by blast
  have decode: "p2p_decode (pn_codec N) payload = Inr m"
    using p2p_decode_encode [OF codec(1,2)] codec(3) by simp
  show ?thesis
    using assms(1)
  proof cases
    case (handled W b msg u nodes k r nd out xs ys)
    have b: "b = payload" "msg = m"
      using only [of k u b] handled(5) decode by (simp_all add: handled(1))
    obtain f net sent where fwd: "forward (nv_net W) u m (nd_network (nodes k)) = (f, net, sent)"
      by (metis prod.exhaust)
    note facts = relayed_is_forwarded [OF assms(5) handled(6) [unfolded b] fwd]
    have "gossip_receive N u payload (nd_network (nodes k)) = (net, sent)"
      using fwd forward_cong [OF handled(3,4)] by (simp add: gossip_receive_def decode)
    moreover have "out = sent"
      using facts(2) handled(7) by simp
    moreover have "(\<lambda>n. nd_network ((nodes(k := nd)) n)) = (\<lambda>n. nd_network (nodes n))(k := net)"
      using facts(1) by auto
    ultimately show ?thesis
      using flood_step.deliver [of N u payload "\<lambda>n. nd_network (nodes n)" k net sent route xs ys]
      by (simp add: handled(1,2) network_of_def b)
  next
    case (undecodable b e nodes xs k u ys)
    then show ?thesis
      using only [of k u b] decode by simp
  qed
qed

lemma relay_run_floods:
  assumes "(relay_step N route ^^ k) s s'" and codec: "borsh_roundtrip (pn_codec N)" "p2p_encode (pn_codec N) m = Inr payload"
      "length payload \<le> MAX_MESSAGE_BYTES"
    and "relayed m" "finite V" "mutual V route nodes0" and inv: "flood_inv N V route nodes0 payload (network_of s)"
  shows "(flood_step N route ^^ k) (network_of s) (network_of s')"
  using assms(1)
proof (induction k arbitrary: s')
  case (Suc k)
  then obtain t where t: "(relay_step N route ^^ k) s t" and step: "relay_step N route t s'"
    by auto
  have "flood_inv N V route nodes0 payload (network_of t)"
    using flood_run [OF codec assms(6,7) inv Suc.IH [OF t]] by blast
  then show ?case
    using Suc.IH [OF t] relay_step_floods [OF step codec assms(5)] by auto
qed simp

section \<open>The flood\<close>

text \<open>
  (C31) A revealed secret, or a script announcement whose script is within the limit, floods the network: take
  nodes whose connections are mutual, none of which has seen the message, and let one of them broadcast it. Whatever
  the order in which the messages are delivered, each handled by \<open>handle_incoming\<close> of the receiver in
  whatever environment, there are at most as many deliveries as the nodes have connections, the network is
  never stuck before, and when nothing is in flight any more, every node with a path to the origin has seen
  the message. The connections stay as they are during the flood, no sent message is lost, and the
  message fits the size limit.
\<close>

theorem relayed_message_floods:
  fixes nodes :: "'n \<Rightarrow> ('s, 'c, 't) node"
  assumes "relayed m" "borsh_roundtrip (pn_codec (nv_net W))" "p2p_encode (pn_codec (nv_net W)) m = Inr payload"
      "length payload \<le> MAX_MESSAGE_BYTES"
    and "finite V" "mutual V route (\<lambda>n. nd_network (nodes n))" "n0 \<in> V"
    and "\<forall>n \<in> V. ready (nd_network (nodes n)) \<and> \<not> sees (nv_net W) payload (nd_network (nodes n))"
    and "co_broadcast W m (nodes n0) = (r, nd0)" "nd_sent nd0 = nd_sent (nodes n0) @ out"
    and "(relay_step (nv_net W) route ^^ k) (nodes(n0 := nd0), post route n0 out) (nodes', flight)"
  shows "k \<le> (\<Sum>n \<in> V. length (urls (nd_network (nodes n)))) \<and>
    (if flight = [] then \<forall>n. reaches route (\<lambda>n. nd_network (nodes n)) n0 n \<longrightarrow> sees (nv_net W) payload (nd_network (nodes' n))
     else \<exists>s'. relay_step (nv_net W) route (nodes', flight) s')"
proof -
  let ?N = "nv_net W" and ?net = "\<lambda>n. nd_network (nodes n)"
  obtain p0 out0 where bc: "broadcast ?N m (?net n0) = (r, p0, out0)"
    and nd0: "nd0 = (nodes n0)\<lparr>nd_network := p0, nd_sent := nd_sent (nodes n0) @ out0\<rparr>"
    using assms(9) by (auto simp: co_broadcast_def split: prod.splits)
  have "out0 = out"
    using assms(10) by (simp add: nd0)
  then have start: "network_of (nodes(n0 := nd0), post route n0 out) = (?net(n0 := p0), post route n0 out0)"
    by (auto simp: network_of_def nd0)
  note init = flood_start [OF assms(3,6,5,7,8) bc]
  have run: "(flood_step ?N route ^^ k) (?net(n0 := p0), post route n0 out0) (\<lambda>n. nd_network (nodes' n), flight)"
    using relay_run_floods [OF assms(11,2-4,1,5,6)] init(2) unfolding start by (simp add: network_of_def)
  have "\<exists>s'. relay_step ?N route (nodes', flight) s'" if pending: "flight \<noteq> []"
  proof -
    obtain j u b ys where "flight = [] @ (j, u, b) # ys"
      using pending by (cases flight) auto
    moreover have "b = payload"
      using flood_run [OF assms(2-6) init(2) run] calculation flood_invD(3) by fastforce
    moreover have "p2p_decode (pn_codec ?N) payload = Inr m"
      using p2p_decode_encode [OF assms(2,3)] assms(4) by simp
    moreover obtain r' nd' where handle: "handle_incoming W u m (nodes' j) = (r', nd')"
      by fastforce
    moreover obtain sent where "nd_sent nd' = nd_sent (nodes' j) @ sent"
      using relayed_is_forwarded(2) [OF assms(1) handle] by (metis prod.exhaust)
    ultimately show ?thesis
      using relay_step.handled [of W ?N payload m u nodes' j r' nd' sent route "[]" ys] by auto
  qed
  then show ?thesis
    using flood_ends [OF assms(2-8) bc run] by auto
qed

definition pair_whole :: "bool \<Rightarrow> (mem_db, mem_db, unit) node" where
  "pair_whole b = (sample_node False)\<lparr>nd_network := pair_node b\<rparr>"

theorem relayed_message_floods_witness:
  "\<exists>nd0 nodes'. co_broadcast sample_node_env sample_reveal_msg (pair_whole False) = (Inr (), nd0) \<and>
     (relay_step sample_p2p_net pair_route ^^ 1) (pair_whole(False := nd0), [(True, ''ws://peer'', sample_payload)]) (nodes', []) \<and>
     sees sample_p2p_net sample_payload (nd_network (nodes' True))"
proof -
  have net: "nv_net sample_node_env = sample_p2p_net" "(\<lambda>n. nd_network (pair_whole n)) = pair_node"
    "nd_network (pair_whole n) = pair_node n" for n
    by (simp_all add: sample_node_env_def pair_whole_def)
  obtain fresh p0 where obs: "observe sample_p2p_net sample_payload (pair_node False) = (fresh, p0)"
    by (cases "observe sample_p2p_net sample_payload (pair_node False)")
  note peers = observe_facts(4) [OF pair_node_facts(1) obs]
  define nd0 where "nd0 = (pair_whole False)\<lparr>nd_network := p0, nd_sent := nd_sent (pair_whole False) @ [(''ws://peer'', sample_payload)]\<rparr>"
  have bc: "co_broadcast sample_node_env sample_reveal_msg (pair_whole False) = (Inr (), nd0)"
    using obs peers sample_payload_codec(2)
    by (simp add: co_broadcast_def broadcast_def net pair_whole_def nd0_def send_bytes_to_all_def)
      (simp add: pair_node_def connected_peer_new_def)
  let ?start = "(pair_whole(False := nd0), post pair_route False [(''ws://peer'', sample_payload)])"
  obtain r nd1 where handle: "handle_incoming sample_node_env ''ws://peer'' sample_reveal_msg (pair_whole True) = (r, nd1)"
    by fastforce
  obtain f q out where fwd: "forward sample_p2p_net ''ws://peer'' sample_reveal_msg (pair_node True) = (f, q, out)"
    by (metis prod.exhaust)
  then have "out = []"
    using sample_payload_codec(2)
    by (auto simp: forward_def send_bytes_to_all_def observe_def pair_node_def connected_peer_new_def split: prod.splits if_splits)
  then have sent: "nd_sent nd1 = nd_sent ((pair_whole(False := nd0)) True) @ []"
    using relayed_is_forwarded(2) [OF _ handle, of f q out] fwd
    by (simp add: net sample_reveal_msg_def pair_whole_def)
  have dec: "p2p_decode (pn_codec sample_p2p_net) sample_payload = Inr sample_reveal_msg"
    using p2p_decode_encode [OF sample_payload_codec(1,2)] sample_payload_codec(3) by simp
  have "relay_step sample_p2p_net pair_route ?start ((pair_whole(False := nd0))(True := nd1), [] @ [] @ post pair_route True [])"
    using relay_step.handled [of sample_node_env sample_p2p_net sample_payload sample_reveal_msg "''ws://peer''"
        "pair_whole(False := nd0)" True r nd1 "[]" pair_route "[]" "[]"] handle net dec sent
    by (simp add: post_def pair_route_def)
  then have step: "(relay_step (nv_net sample_node_env) pair_route ^^ 1) ?start ((pair_whole(False := nd0))(True := nd1), [])"
    by (simp add: post_def net eq_OO)
  have "reaches pair_route (\<lambda>n. nd_network (pair_whole n)) False True \<longrightarrow>
      sees (nv_net sample_node_env) sample_payload (nd_network (((pair_whole(False := nd0))(True := nd1)) True))"
    using relayed_message_floods [OF _ _ _ _ finite _ UNIV_I _ bc _ step, of sample_payload] sample_payload_codec pair_mutual
      pair_node_facts(1,2)
    by (auto simp: net sample_reveal_msg_def nd0_def)
  then have "sees sample_p2p_net sample_payload (nd_network (((pair_whole(False := nd0))(True := nd1)) True))"
    using pair_reaches by (simp add: net)
  with bc step show ?thesis
    by (auto simp: net post_def pair_route_def)
qed

end
