(* ===== verification/Spec2Isabelle.thy ===== *)
theory Spec2Isabelle
  imports Node_Composition Node_Gossip
begin

text \<open>
  A verification of stroemnet, a peer-to-peer network for atomic swaps between Kaspa and EVM chains.

  A user locks funds in a hash time-locked contract on one chain; a liquidity provider that runs a node answers
  with a counter lock on the other chain; revealing the secret of the common hash settles both legs, and
  expired legs are refunded. A node polls its chains through one buffer per channel
  (\<open>src/crates/data\<close>), feeds the chain events to the handler (\<open>src/crates/handler\<close>), which keeps the
  swap tracker (\<open>src/crates/protocol\<close>) and prices the counter leg (\<open>src/crates/amounts\<close>), and broadcasts
  the resulting commitments and reveals; a settlement engine retries claims and refunds until the chain
  confirms them, and an embedded database (\<open>src/crates/storage\<close>) carries cursors, records and peers over
  a restart. Nodes talk over websockets (\<open>src/crates/p2p\<close>): quotes, reveals and deposit scripts are
  flooded. \<open>src/crates/node\<close> ties the parts together: configuration, coordinator, driver, connections, the
  price oracle of a provider, and the calls of a taker in the browser.

  \<^bold>\<open>Theories.\<close>
  \<^item> \<open>Stroem_Prelude\<close>: Rust's integers, \<open>Result\<close>, hash maps (locale \<open>finite_map\<close>); \<open>Stroem_Strings\<close>:
    decimal numbers, trimming, hexadecimal, UTF-8; \<open>F64\<close>: IEEE doubles; \<open>Borsh\<close>: the serialisation interface.
  \<^item> \<open>Protocol\<close>: channels, clock and messages (\<open>protocol/src/channels.rs\<close>, \<open>clock/\<close>, \<open>v1/\<close>);
    \<open>Swap_Tracker\<close>: \<open>protocol/src/swap_tracker/\<close>.
  \<^item> \<open>Amounts\<close>: \<open>amounts/src/amount_out.rs\<close> and \<open>storage.rs\<close>; \<open>Handler\<close>: \<open>handler/src/\<close>.
  \<^item> \<open>Settlement\<close>: \<open>data/src/chains/settlement/\<close> with \<open>record/attempt.rs\<close>, \<open>chains/mod.rs\<close> and
    \<open>chains/net.rs\<close>; the \<open>Settler\<close> trait is the locale \<open>settler_contract\<close>.
  \<^item> \<open>Swap_Records\<close>: \<open>data/src/store.rs\<close>, \<open>types.rs\<close> and \<open>chains/record/\<close>; the \<open>SwapStore\<close> trait is
    the locale \<open>swap_store\<close>. \<open>Swap_Sync\<close>: the locale \<open>persisted_buffer\<close>, what both channels owe their
    store. \<open>Storage\<close>: \<open>storage/src/\<close> over a database engine given as a parameter (locales \<open>redb\<close>,
    whose \<open>create\<close> makes an empty database or opens the one on disk, and \<open>redb_reliable\<close>), a sublocale of
    \<open>swap_store\<close>.
  \<^item> \<open>Evm_Chain\<close>, \<open>Evm_Settlement\<close>, \<open>Evm_Recovery\<close>: \<open>data/src/chains/evm/\<close>; the alloy crate and the RPC
    node are parameters.
  \<^item> \<open>Kaspa_Script\<close>, \<open>Kaspa_Contract\<close>: deposit scripts (\<open>data/src/chains/kaspa/contracts/\<close>) over the locale
    \<open>txscript\<close>; \<open>Kaspa_Decode\<close>: \<open>decode/\<close> and \<open>intake/\<close>; \<open>Kaspa_Broadcast\<close>, \<open>Kaspa_Spending\<close>: \<open>broadcast/\<close> and
    \<open>signing/\<close>; \<open>Kaspa_Chain\<close>, \<open>Kaspa_Settlement\<close>, \<open>Kaspa_Recovery\<close>: the buffer of the channel.
  \<^item> \<open>Data_Sink\<close>: \<open>data/src/sink/\<close> and \<open>buffer.rs\<close>, the buffers behind one interface.
  \<^item> \<open>P2p_Wire\<close>: \<open>p2p/src/wire/\<close>, \<open>addr.rs\<close>, \<open>identity.rs\<close>; \<open>P2p_Network\<close>: \<open>p2p/src/{gossip,network,peer,transport}\<close>;
    \<open>P2p_Gossip\<close>: the network layers of many nodes that relay one message.
  \<^item> \<open>Node_Connection\<close>: \<open>node/src/connection/\<close>; \<open>Node_Coordinator\<close>, \<open>Node_Safety\<close>: \<open>node/src/coordinator/\<close>,
    \<open>claim.rs\<close> and the driver and taker of \<open>node/src/node/\<close>; \<open>Node_Oracle\<close>: \<open>node/src/oracle/\<close>;
    \<open>Node_Gossip\<close>: a network of whole nodes that handle and relay messages;
    \<open>Node_Config\<close>: \<open>node/src/config/\<close>, \<open>build.rs\<close>, \<open>start.rs\<close>, \<open>services.rs\<close> and \<open>bin/stroemnetd.rs\<close>.
  \<^item> \<open>Wasm_Gateway\<close>: \<open>wasm/src/\<close>, the object through which a web page uses a node.
  \<^item> \<open>Node_Run\<close>: the tasks that \<open>node/src/node/start.rs\<close> starts, interleaved call by call, the trace of a run and
    its invariant; \<open>Node_Composition\<close>: the properties of whole runs and of a taker with a provider.

  \<^bold>\<open>How the code is modelled.\<close> A struct is a record with a prefix per type, an enum a datatype, a Rust integer
  a word of its width, \<open>Result\<close> a sum with the error on the left, an \<open>f64\<close> an exact rational that is rounded
  after every operation. A method that changes its receiver returns it. Clocks, random numbers, networks
  and third-party crates are arguments, collected in records; what is relied on of them is a locale or a
  named hypothesis, and each is met by a concrete instance (\<open>mem\<close>, \<open>mem_evm\<close>, \<open>mem_kaspa\<close>, \<open>plain\<close>). What a
  component puts out (transactions, messages, dials, status updates, metrics) is returned or appended to a
  log field. Locks are the atomicity of a call; where tasks interleave between their locks the sections are
  the steps of a relation (\<open>conn_step\<close>, \<open>flood_step\<close>, \<open>relay_step\<close>, \<open>db_step\<close>, \<open>evm_step\<close>, \<open>sink_step\<close>, \<open>gw_step\<close>,
  \<open>node_step\<close>). A task that a call
  spawns and forgets runs at once. A panic is a value (\<open>panic\<close>). The browser and the native build are
  one model with a flag.

  \<^bold>\<open>What is shown.\<close>
  \<^item> Swaps: the legs of a swap mirror each other in every reachable tracker, the tracker refines the life
    cycle of a swap, the provider's lock ends before the user's, its amount is at most the
    fair value less the spread, in the quoted prices and up to their rounding, and limited, and a valid
    reveal is passed on.
  \<^item> Prices: output amounts and price jumps are bounded, and one exchange cannot dictate the stored price
    while the other two quote with a volume of at least one dollar.
  \<^item> Chains: polls deliver every block once, settlements send only valid transactions and are never
    dropped, and both channels recover their state after a crash; deposit scripts round-trip; Kaspa
    commitments spend mature outputs and return the change, and claims and refunds pass the branch of the deposit
    script they select, preimage, lock time and payee included.
  \<^item> Network: reveals and script announcements are relayed until every connected node has seen them, duplicate
    connections that are handled one after the other are resolved alike on both sides, the rate limit holds, saved peers are dialled again after a restart.
  \<^item> Node: the sink stays well typed, a provider starts complete, and a quote is marked as signed only if it was,
    when signatures cannot be forged.
    In every run of a node, however its tasks interleave, the tracked swaps are on their chains, a secret is
    sent only when it was received or paid for, and a counter lock answers a deposit to the provider.
    The secret of a paid taker becomes the provider's claim of an EVM deposit, when the provider holds no other
    claim of the swap.
  \<^item> Defects of the code are theorems too: a replayed deposit is answered again, a huge timelock loses a
    block range, a restarted Kaspa channel watches nothing, an altered script is accepted, an
    unverified reveal blocks a claim, an expired lock is answered with the secret, concurrent duplicate
    connections stay, a gateway cannot connect again after a failed attempt.

  \<^bold>\<open>Bounds.\<close> Loops of the code that count are recursions on their counter: three retries of an RPC call or a
  price fetch, five attempts to dial, at most \<open>MAX_PAGES\<close> pages of Kaspa blocks per poll. The endless loops
  (driver, settler, intake, connections, oracle) are modelled by one round, and a run is a sequence of
  rounds or a closure of steps, so no fuel is needed. The rounding bounds of the oracle hold for at most
  three samples, the number of its exchanges, for prices of at least \<open>10\<^sup>-\<^sup>2\<^sup>0\<close> dollars.

  \<^bold>\<open>Not modelled.\<close> The conversion of JavaScript values, the test harness and all tests, the Solidity
  scripts, sockets, TLS, HTTP requests and the decoding of JSON and TOML by serde, logging, process
  signals, and the abort of tasks at shutdown. They are I/O, glue or generated code around the calls that
  are modelled.

  \<^bold>\<open>Plan.\<close> Every component with state of its own is modelled. What could follow is a model of the swap contracts
  themselves, once their source is part of the repository, and of Kaspa's claims in the composition of
  taker and provider, which is shown for EVM deposits.
\<close>

end
